(* ===== verification/Prelude.thy ===== *)
theory Prelude
  imports Main "HOL-Library.Word"
begin

text \<open>
  Shared vocabulary of the development: the result type of Python code that may raise, the
  library functions on \<open>str\<close> that the sources use, insertion-ordered dictionaries
  (\<open>dict\<close>, \<open>collections.OrderedDict\<close>), the interface of a first-match rule list, and the
  generic lemmas the component theories share.

  A Python \<open>str\<close> is the list of its code points, so that \<open>len\<close>, slicing and \<open>ord\<close>
  mean what they mean in the sources; literals are written \<open>u ''...''\<close>.  Case mapping
  (\<open>lower\<close>, \<open>casefold\<close>, \<open>upper\<close>) is exact on U+0000 to U+00FF and the identity above;
  white space is Python's full set.
\<close>

named_theorems text_simps \<open>rewriting of Python text operations\<close>
named_theorems odict_simps \<open>laws of insertion-ordered dictionaries\<close>
named_theorems result_simps \<open>results of code that may raise\<close>

section \<open>Results of code that may raise\<close>

text \<open>The exceptions of the language and its standard library; \<open>ValueError\<close> carries its message.\<close>

datatype py_exc = ValueError "nat list" | TypeError | OverflowError | IndexError | StructError | UnicodeEncodeError

type_synonym ('e, 'a) result = "'e + 'a"

definition rbind :: "('e, 'a) result \<Rightarrow> ('a \<Rightarrow> ('e, 'b) result) \<Rightarrow> ('e, 'b) result" where
  "rbind m f = (case m of Inl e \<Rightarrow> Inl e | Inr x \<Rightarrow> f x)"

lemma rbind_Inl [simp, result_simps]: "rbind (Inl e) f = Inl e"
  by (simp add: rbind_def)

lemma rbind_Inr [simp, result_simps]: "rbind (Inr x) f = f x"
  by (simp add: rbind_def)

lemma rbind_eq_Inr: "rbind m f = Inr y \<longleftrightarrow> (\<exists>x. m = Inr x \<and> f x = Inr y)"
  by (cases m) auto

lemma rbind_eq_Inl: "rbind m f = Inl e \<longleftrightarrow> m = Inl e \<or> (\<exists>x. m = Inr x \<and> f x = Inl e)"
  by (cases m) auto

lemma rbind_cong [fundef_cong]:
  "m = m' \<Longrightarrow> (\<And>x. m' = Inr x \<Longrightarrow> f x = f' x) \<Longrightarrow> rbind m f = rbind m' f'"
  by (cases m') auto

text \<open>A list comprehension whose element expression may raise.\<close>

fun rmap :: "('a \<Rightarrow> ('e, 'b) result) \<Rightarrow> 'a list \<Rightarrow> ('e, 'b list) result" where
  "rmap f [] = Inr []"
| "rmap f (x # xs) = rbind (f x) (\<lambda>y. rbind (rmap f xs) (\<lambda>ys. Inr (y # ys)))"

lemma rmap_cong [fundef_cong]:
  "xs = ys \<Longrightarrow> (\<And>x. x \<in> set ys \<Longrightarrow> f x = g x) \<Longrightarrow> rmap f xs = rmap g ys"
  by (induction ys arbitrary: xs) (auto simp: rbind_def split: sum.splits)

lemma rmap_Inr_length: "rmap f xs = Inr ys \<Longrightarrow> length ys = length xs"
  by (induction xs arbitrary: ys) (auto simp: rbind_eq_Inr)

lemma rmap_Inr_iff: "rmap f xs = Inr ys \<longleftrightarrow> list_all2 (\<lambda>x y. f x = Inr y) xs ys"
  by (induction xs arbitrary: ys) (auto simp: rbind_eq_Inr list_all2_Cons1)

lemma rmap_total [simp]: "rmap (\<lambda>x. Inr (g x)) xs = Inr (map g xs)"
  by (induction xs) auto

lemma rmap_Inr_set: "rmap f xs = Inr ys \<Longrightarrow> y \<in> set ys \<Longrightarrow> \<exists>x\<in>set xs. f x = Inr y"
  by (induction xs arbitrary: ys) (auto simp: rbind_eq_Inr)

lemma rmap_Inr_mem: "rmap f xs = Inr ys \<Longrightarrow> x \<in> set xs \<Longrightarrow> \<exists>y\<in>set ys. f x = Inr y"
  by (induction xs arbitrary: ys) (auto simp: rbind_eq_Inr)

lemma rmap_Inl: "x \<in> set xs \<Longrightarrow> f x = Inl e \<Longrightarrow> \<exists>e'. rmap f xs = Inl e'"
proof (cases "rmap f xs")
  case (Inr ys)
  assume "x \<in> set xs" "f x = Inl e"
  with rmap_Inr_mem [OF Inr, of x] show ?thesis by auto
qed auto

text \<open>\<open>all(...)\<close> over a generator: left to right, stopping at the first \<open>False\<close>.\<close>

fun rall :: "('a \<Rightarrow> ('e, bool) result) \<Rightarrow> 'a list \<Rightarrow> ('e, bool) result" where
  "rall f [] = Inr True"
| "rall f (x # xs) = rbind (f x) (\<lambda>b. if b then rall f xs else Inr False)"

lemma rall_total: "(\<And>x. x \<in> set xs \<Longrightarrow> f x = Inr (g x)) \<Longrightarrow> rall f xs = Inr (list_all g xs)"
  by (induction xs) auto

lemma rall_True_iff: "rall f xs = Inr True \<longleftrightarrow> (\<forall>x\<in>set xs. f x = Inr True)"
  by (induction xs) (auto simp: rbind_eq_Inr split: if_splits)

lemma rall_defined: "\<forall>x\<in>set xs. \<exists>b. f x = Inr b \<Longrightarrow> \<exists>b. rall f xs = Inr b"
  by (induction xs) auto

section \<open>Python text\<close>

type_synonym pystr = "nat list"

definition u :: "string \<Rightarrow> pystr" where
  "u s = map of_char s"

lemma u_inject [simp, text_simps]: "u a = u b \<longleftrightarrow> a = b"
  by (auto simp: u_def map_inj_on inj_on_def dest: map_inj_on)

lemma u_Nil_iff [simp, text_simps]: "u a = [] \<longleftrightarrow> a = []" "[] = u a \<longleftrightarrow> a = []"
  by (auto simp: u_def)

lemma length_u [simp, text_simps]: "length (u a) = length a"
  by (simp add: u_def)

lemma u_append [text_simps]: "u (a @ b) = u a @ u b"
  by (simp add: u_def)

definition is_space :: "nat \<Rightarrow> bool" where
  "is_space c \<longleftrightarrow> (9 \<le> c \<and> c \<le> 13) \<or> (28 \<le> c \<and> c \<le> 32) \<or> c = 0x85 \<or> c = 0xA0 \<or> c = 0x1680 \<or>
     (0x2000 \<le> c \<and> c \<le> 0x200A) \<or> c = 0x2028 \<or> c = 0x2029 \<or> c = 0x202F \<or> c = 0x205F \<or> c = 0x3000"

definition lstrip :: "pystr \<Rightarrow> pystr" where
  "lstrip s = dropWhile is_space s"

definition rstrip :: "pystr \<Rightarrow> pystr" where
  "rstrip s = rev (dropWhile is_space (rev s))"

definition strip :: "pystr \<Rightarrow> pystr" where
  "strip s = rstrip (lstrip s)"

definition lower_char :: "nat \<Rightarrow> nat" where
  "lower_char c = (if (65 \<le> c \<and> c \<le> 90) \<or> (0xC0 \<le> c \<and> c \<le> 0xDE \<and> c \<noteq> 0xD7) then c + 32 else c)"

definition lower :: "pystr \<Rightarrow> pystr" where
  "lower s = map lower_char s"

definition upper_char :: "nat \<Rightarrow> nat" where
  "upper_char c = (if 97 \<le> c \<and> c \<le> 122 then c - 32 else c)"

definition upper :: "pystr \<Rightarrow> pystr" where
  "upper s = map upper_char s"

definition fold_char :: "nat \<Rightarrow> pystr" where
  "fold_char c = (if c = 0xB5 then [0x3BC] else if c = 0xDF then [115, 115] else [lower_char c])"

definition casefold :: "pystr \<Rightarrow> pystr" where
  "casefold s = concat (map fold_char s)"

definition startswith :: "pystr \<Rightarrow> pystr \<Rightarrow> bool" where
  "startswith s p \<longleftrightarrow> take (length p) s = p"

text \<open>\<open>s.partition(sep)\<close> for a one-character separator; \<open>None\<close> when it does not occur.\<close>

fun partition1 :: "nat \<Rightarrow> pystr \<Rightarrow> pystr \<times> pystr option" where
  "partition1 sep [] = ([], None)"
| "partition1 sep (c # cs) =
     (if c = sep then ([], Some cs) else (let (a, r) = partition1 sep cs in (c # a, r)))"

definition after_sep :: "pystr option \<Rightarrow> pystr" where
  "after_sep r = (case r of None \<Rightarrow> [] | Some t \<Rightarrow> t)"

text \<open>\<open>s.split(sep)\<close> for a one-character separator: never the empty list.\<close>

fun split1 :: "nat \<Rightarrow> pystr \<Rightarrow> pystr list" where
  "split1 sep [] = [[]]"
| "split1 sep (c # cs) =
     (if c = sep then [] # split1 sep cs
      else (case split1 sep cs of [] \<Rightarrow> [[c]] | w # ws \<Rightarrow> (c # w) # ws))"

text \<open>\<open>s.split()\<close>: runs of non-space characters.\<close>

fun words_aux :: "pystr \<Rightarrow> pystr \<Rightarrow> pystr list" where
  "words_aux w [] = (if w = [] then [] else [rev w])"
| "words_aux w (c # cs) =
     (if is_space c then (if w = [] then words_aux [] cs else rev w # words_aux [] cs)
      else words_aux (c # w) cs)"

definition words :: "pystr \<Rightarrow> pystr list" where
  "words s = words_aux [] s"

fun join :: "pystr \<Rightarrow> pystr list \<Rightarrow> pystr" where
  "join sep [] = []"
| "join sep [w] = w"
| "join sep (w # ws) = w @ sep @ join sep ws"

text \<open>\<open>str(n)\<close> for integers.\<close>

fun dec :: "nat \<Rightarrow> pystr" where
  "dec n = (if n < 10 then [48 + n] else dec (n div 10) @ [48 + n mod 10])"

declare dec.simps [simp del]

definition str_int :: "int \<Rightarrow> pystr" where
  "str_int i = (if i < 0 then 45 # dec (nat (- i)) else dec (nat i))"

definition is_digit :: "nat \<Rightarrow> bool" where
  "is_digit c \<longleftrightarrow> 48 \<le> c \<and> c \<le> 57"

definition undec :: "pystr \<Rightarrow> nat" where
  "undec s = foldl (\<lambda>n c. 10 * n + (c - 48)) 0 s"

text \<open>\<open>int(s)\<close> on ASCII text: sign, digits with single underscores between them, at most
  4300 digits; \<open>None\<close> is \<open>ValueError\<close>.\<close>

fun digit_groups :: "pystr \<Rightarrow> pystr option" where
  "digit_groups [] = None"
| "digit_groups [c] = (if is_digit c then Some [c] else None)"
| "digit_groups (c # d # cs) =
     (if \<not> is_digit c then None
      else if d = 95 then map_option ((#) c) (digit_groups cs)
      else map_option ((#) c) (digit_groups (d # cs)))"

definition parse_int :: "pystr \<Rightarrow> int option" where
  "parse_int raw =
     (let s = strip raw;
          (neg, body) = (case s of [] \<Rightarrow> (False, [])
                         | c # cs \<Rightarrow> if c = 45 then (True, cs) else if c = 43 then (False, cs) else (False, s))
      in case digit_groups body of None \<Rightarrow> None
         | Some ds \<Rightarrow> if length ds > 4300 then None
                      else Some (if neg then - int (undec ds) else int (undec ds)))"

subsection \<open>Stripping and case\<close>

lemma dropWhile_idem_head: "(case dropWhile P xs of [] \<Rightarrow> True | x # _ \<Rightarrow> \<not> P x)"
  by (induction xs) auto

lemma dropWhile_fixed: "(case xs of [] \<Rightarrow> True | x # _ \<Rightarrow> \<not> P x) \<Longrightarrow> dropWhile P xs = xs"
  by (cases xs) auto

lemma rstrip_append_nonspace: "\<not> is_space c \<Longrightarrow> rstrip (s @ [c]) = s @ [c]"
  by (simp add: rstrip_def)

lemma rstrip_Cons_nonspace: "\<not> is_space c \<Longrightarrow> rstrip (c # s) = c # rstrip s"
  by (simp add: rstrip_def dropWhile_append)

lemma strip_fixed:
  "s = [] \<or> (\<not> is_space (hd s) \<and> \<not> is_space (last s)) \<Longrightarrow> strip s = s"
proof (cases s rule: rev_cases)
  case (snoc t c)
  assume "s = [] \<or> (\<not> is_space (hd s) \<and> \<not> is_space (last s))"
  with snoc have "\<not> is_space (hd s)" "\<not> is_space c" "s \<noteq> []" by auto
  then have "lstrip s = s" by (cases s) (auto simp: lstrip_def)
  with snoc \<open>\<not> is_space c\<close> show ?thesis by (simp add: strip_def rstrip_append_nonspace)
qed (simp add: strip_def lstrip_def rstrip_def)

lemma rstrip_idem [simp]: "rstrip (rstrip s) = rstrip s"
  by (simp add: rstrip_def)

lemma lstrip_ends: "lstrip s = [] \<or> \<not> is_space (hd (lstrip s))"
  by (induction s) (auto simp: lstrip_def)

lemma rstrip_last: "rstrip s = [] \<or> \<not> is_space (last (rstrip s))"
proof (cases "dropWhile is_space (rev s)")
  case (Cons c cs)
  then have "\<not> is_space c" by (metis dropWhile_eq_Cons_conv)
  with Cons show ?thesis by (simp add: rstrip_def)
qed (simp add: rstrip_def)

lemma hd_rstrip: "rstrip s \<noteq> [] \<Longrightarrow> hd (rstrip s) = hd s"
proof -
  assume ne: "rstrip s \<noteq> []"
  have "rev (dropWhile is_space (rev s)) @ rev (takeWhile is_space (rev s)) = s"
    by (metis rev_append rev_rev_ident takeWhile_dropWhile_id)
  with ne show ?thesis by (metis hd_append rstrip_def)
qed

lemma strip_ends:
  "strip s = [] \<or> (\<not> is_space (hd (strip s)) \<and> \<not> is_space (last (strip s)))"
proof (cases "strip s = []")
  case False
  then have "hd (strip s) = hd (lstrip s)" by (simp add: strip_def hd_rstrip)
  moreover have "lstrip s \<noteq> []" using False by (auto simp: strip_def rstrip_def)
  ultimately show ?thesis using lstrip_ends [of s] rstrip_last [of "lstrip s"]
    by (simp add: strip_def)
qed simp

lemma strip_idem [simp, text_simps]: "strip (strip s) = strip s"
  by (rule strip_fixed) (rule strip_ends)

lemma set_strip: "set (strip s) \<subseteq> set s"
  by (auto simp: strip_def rstrip_def lstrip_def dest!: set_dropWhileD)

lemma lstrip_space_append: "list_all is_space pre \<Longrightarrow> lstrip (pre @ s) = lstrip s"
  by (simp add: lstrip_def list_all_iff dropWhile_append2)

lemma rstrip_append_space: "list_all is_space post \<Longrightarrow> rstrip (s @ post) = rstrip s"
  by (simp add: rstrip_def list_all_iff, subst dropWhile_append2) auto

lemma strip_surrounded:
  "list_all is_space pre \<Longrightarrow> list_all is_space post \<Longrightarrow> strip (pre @ s @ post) = strip s"
proof (cases "list_all is_space s")
  case True
  assume "list_all is_space pre" "list_all is_space post"
  with True have "lstrip (pre @ s @ post) = []" "lstrip s = []"
    by (auto simp: lstrip_def list_all_iff)
  then show ?thesis by (simp add: strip_def)
next
  case False
  assume sp: "list_all is_space pre" "list_all is_space post"
  have "lstrip (s @ post) = lstrip s @ post"
    using False by (auto simp: lstrip_def list_all_iff dropWhile_append)
  with sp show ?thesis by (simp add: strip_def lstrip_space_append rstrip_append_space)
qed

lemma length_strip_le: "length (strip s) \<le> length s"
proof -
  have "length (strip s) \<le> length (lstrip s)"
    unfolding strip_def rstrip_def by (metis length_dropWhile_le length_rev)
  also have "\<dots> \<le> length s" unfolding lstrip_def by (rule length_dropWhile_le)
  finally show ?thesis .
qed

lemma lower_char_idem [simp]: "lower_char (lower_char c) = lower_char c"
  by (auto simp: lower_char_def)

lemma lower_idem [simp, text_simps]: "lower (lower s) = lower s"
  by (simp add: lower_def comp_def)

lemma length_lower [simp, text_simps]: "length (lower s) = length s"
  by (simp add: lower_def)

lemma lower_append [text_simps]: "lower (a @ b) = lower a @ lower b"
  by (simp add: lower_def)

lemma lower_Nil_iff [simp]: "lower s = [] \<longleftrightarrow> s = []"
  by (simp add: lower_def)

lemma casefold_append [text_simps]: "casefold (a @ b) = casefold a @ casefold b"
  by (simp add: casefold_def)

lemma casefold_fold_char: "casefold (fold_char c) = fold_char c"
  by (auto simp: casefold_def fold_char_def lower_char_def)

lemma casefold_idem [simp, text_simps]: "casefold (casefold s) = casefold s"
  by (induction s) (auto simp: casefold_append casefold_fold_char casefold_def [of "_ # _"]
      casefold_def [of "[]"] simp flip: casefold_def)

lemma casefold_Nil_iff [simp, text_simps]: "casefold s = [] \<longleftrightarrow> s = []"
  by (cases s) (auto simp: casefold_def fold_char_def)

lemma casefold_lower: "casefold (lower s) = casefold s"
  by (induction s) (auto simp: casefold_def lower_def fold_char_def lower_char_def)

subsection \<open>Decimal rendering\<close>

lemma undec_snoc: "undec (s @ [c]) = 10 * undec s + (c - 48)"
  by (simp add: undec_def)

lemma undec_dec [simp, text_simps]: "undec (dec n) = n"
proof (induction n rule: dec.induct)
  case (1 n)
  show ?case
  proof (cases "n < 10")
    case True
    then show ?thesis by (simp add: dec.simps [of n] undec_def)
  next
    case False
    with 1 have "undec (dec (n div 10)) = n div 10" by simp
    with False show ?thesis by (simp add: dec.simps [of n] undec_snoc)
  qed
qed

lemma dec_inject [simp]: "dec a = dec b \<longleftrightarrow> a = b"
  by (metis undec_dec)

lemma dec_nonempty [simp]: "dec n \<noteq> []"
  by (subst dec.simps) simp

lemma dec_digits: "c \<in> set (dec n) \<Longrightarrow> is_digit c"
proof (induction n rule: dec.induct)
  case (1 n)
  then show ?case
    by (cases "n < 10") (auto simp: dec.simps [of n] is_digit_def)
qed

lemma dec_hd: "9 < n \<Longrightarrow> hd (dec n) \<noteq> 48"
proof (induction n rule: dec.induct)
  case (1 n)
  show ?case
  proof (cases "9 < n div 10")
    case True
    with 1 show ?thesis by (simp add: dec.simps [of n])
  next
    case False
    with "1.prems" show ?thesis by (simp add: dec.simps [of n] dec.simps [of "n div 10"])
  qed
qed

lemma str_int_inject [simp, text_simps]: "str_int i = str_int j \<longleftrightarrow> i = j"
proof
  assume eq: "str_int i = str_int j"
  have no_minus: "45 # s \<noteq> dec n" for s n
  proof
    assume "45 # s = dec n"
    then have "45 \<in> set (dec n)" by (metis list.set_intros(1))
    from dec_digits [OF this] show False by (simp add: is_digit_def)
  qed
  from eq no_minus no_minus [symmetric] show "i = j"
    by (auto simp: str_int_def split: if_splits)
qed simp

subsection \<open>Splitting and joining\<close>

lemma join_Cons: "ws \<noteq> [] \<Longrightarrow> join sep (w # ws) = w @ sep @ join sep ws"
  by (cases ws) auto

lemma split1_nonempty [simp]: "split1 sep s \<noteq> []"
  by (cases s) (auto split: list.splits)

lemma split1_no_sep: "sep \<notin> set s \<Longrightarrow> split1 sep s = [s]"
  by (induction s) auto

lemma split1_append_sep: "sep \<notin> set w \<Longrightarrow> split1 sep (w @ sep # s) = w # split1 sep s"
  by (induction w) auto

lemma split1_join:
  "ws \<noteq> [] \<Longrightarrow> (\<And>w. w \<in> set ws \<Longrightarrow> sep \<notin> set w) \<Longrightarrow> split1 sep (join [sep] ws) = ws"
  by (induction ws rule: induct_list012) (auto simp: split1_no_sep split1_append_sep)

lemma join_split1: "join [sep] (split1 sep s) = s"
proof (induction s)
  case (Cons c s)
  then show ?case
    by (cases "split1 sep s"; cases "tl (split1 sep s)") auto
qed simp

lemma partition1_eq:
  "partition1 sep s = (takeWhile (\<lambda>c. c \<noteq> sep) s,
     if sep \<in> set s then Some (tl (dropWhile (\<lambda>c. c \<noteq> sep) s)) else None)"
  by (induction s) (auto simp: Let_def)

section \<open>Insertion-ordered dictionaries\<close>

text \<open>Python's \<open>dict\<close> and \<open>OrderedDict\<close>: the items in insertion order.  Storing under a key
  that is present keeps its position.\<close>

type_synonym ('k, 'v) odict = "('k \<times> 'v) list"

definition od_ok :: "('k, 'v) odict \<Rightarrow> bool" where
  "od_ok d \<longleftrightarrow> distinct (map fst d)"

definition od_get :: "('k, 'v) odict \<Rightarrow> 'k \<Rightarrow> 'v option" where
  "od_get d k = map_of d k"

fun od_set :: "('k, 'v) odict \<Rightarrow> 'k \<Rightarrow> 'v \<Rightarrow> ('k, 'v) odict" where
  "od_set [] k v = [(k, v)]"
| "od_set ((a, b) # d) k v = (if a = k then (k, v) # d else (a, b) # od_set d k v)"

definition od_del :: "('k, 'v) odict \<Rightarrow> 'k \<Rightarrow> ('k, 'v) odict" where
  "od_del d k = filter (\<lambda>(a, _). a \<noteq> k) d"

definition od_keys :: "('k, 'v) odict \<Rightarrow> 'k list" where
  "od_keys d = map fst d"

text \<open>\<open>move_to_end(key)\<close>, for a key that is present.\<close>

definition od_move_to_end :: "('k, 'v) odict \<Rightarrow> 'k \<Rightarrow> ('k, 'v) odict" where
  "od_move_to_end d k = od_del d k @ filter (\<lambda>(a, _). a = k) d"

text \<open>\<open>popitem(last=False)\<close>, for a dictionary that is not empty.\<close>

definition od_popfirst :: "('k, 'v) odict \<Rightarrow> ('k, 'v) odict" where
  "od_popfirst d = tl d"

lemma od_set_keys: "od_keys (od_set d k v) = (if k \<in> set (od_keys d) then od_keys d else od_keys d @ [k])"
  by (induction d k v rule: od_set.induct) (auto simp: od_keys_def)

lemma set_od_keys_set [simp, odict_simps]: "set (od_keys (od_set d k v)) = insert k (set (od_keys d))"
  by (auto simp: od_set_keys)

lemma set_od_keys_popfirst: "set (od_keys (od_popfirst d)) \<subseteq> set (od_keys d)"
  by (cases d) (auto simp: od_keys_def od_popfirst_def)

lemma set_od_keys_move_to_end [simp, odict_simps]: "set (od_keys (od_move_to_end d k)) = set (od_keys d)"
  by (auto simp: od_keys_def od_move_to_end_def od_del_def)

lemma od_get_set [simp, odict_simps]: "od_get (od_set d k v) = (od_get d)(k \<mapsto> v)"
  by (induction d k v rule: od_set.induct) (auto simp: od_get_def fun_eq_iff)

lemma od_get_del [simp, odict_simps]: "od_get (od_del d k) = (od_get d)(k := None)"
  by (induction d) (auto simp: od_get_def od_del_def fun_eq_iff)

lemma od_get_Nil [simp, odict_simps]: "od_get [] k = None"
  by (simp add: od_get_def)

lemma od_get_None_iff: "od_get d k = None \<longleftrightarrow> k \<notin> set (od_keys d)"
  by (simp add: od_get_def od_keys_def map_of_eq_None_iff)

lemma od_get_Some_in: "od_get d k = Some v \<Longrightarrow> k \<in> set (od_keys d)"
  by (metis od_get_None_iff option.distinct(1))

lemma od_ok_Nil [simp, odict_simps]: "od_ok []"
  by (simp add: od_ok_def)

lemma od_ok_set [simp, odict_simps]: "od_ok d \<Longrightarrow> od_ok (od_set d k v)"
  using od_set_keys [of d k v] by (auto simp: od_ok_def od_keys_def split: if_splits)

lemma od_ok_del [simp, odict_simps]: "od_ok d \<Longrightarrow> od_ok (od_del d k)"
  unfolding od_ok_def od_del_def by (induction d) auto

lemma od_ok_popfirst [simp, odict_simps]: "od_ok d \<Longrightarrow> od_ok (od_popfirst d)"
  by (cases d) (auto simp: od_ok_def od_popfirst_def)

lemma od_keys_del: "od_keys (od_del d k) = filter (\<lambda>a. a \<noteq> k) (od_keys d)"
  by (induction d) (auto simp: od_keys_def od_del_def)

lemma od_filter_key: "od_ok d \<Longrightarrow> filter (\<lambda>(a, _). a = k) d = (case od_get d k of None \<Rightarrow> [] | Some v \<Rightarrow> [(k, v)])"
proof (induction d)
  case (Cons x d)
  obtain a b where x: "x = (a, b)" by (cases x)
  have ok: "od_ok d" and fresh: "a \<notin> fst ` set d" using Cons.prems by (auto simp: od_ok_def x)
  have "filter (\<lambda>(c, _). c = a) d = []" using fresh by (force simp: filter_empty_conv)
  with Cons.IH [OF ok] show ?case by (auto simp: x od_get_def)
qed simp

lemma od_move_to_end_eq:
  "od_ok d \<Longrightarrow> od_move_to_end d k = od_del d k @ (case od_get d k of None \<Rightarrow> [] | Some v \<Rightarrow> [(k, v)])"
  by (simp add: od_move_to_end_def od_filter_key)

lemma od_get_append: "od_get (d @ e) k = (case od_get d k of None \<Rightarrow> od_get e k | Some v \<Rightarrow> Some v)"
  by (simp add: od_get_def map_add_def split: option.splits)

lemma od_get_move_to_end [simp, odict_simps]: "od_ok d \<Longrightarrow> od_get (od_move_to_end d k) = od_get d"
  by (rule ext) (auto simp: od_move_to_end_eq od_get_append od_get_def [of "[_]"] split: option.splits)

lemma length_od_move_to_end [simp]: "length (od_move_to_end d k) = length d"
  unfolding od_move_to_end_def od_del_def
  using sum_length_filter_compl [of "\<lambda>(a, _). a = k" d] by (simp add: case_prod_unfold)

lemma od_ok_move_to_end [simp, odict_simps]: "od_ok d \<Longrightarrow> od_ok (od_move_to_end d k)"
  by (auto simp: od_move_to_end_eq od_ok_def distinct_map inj_on_def od_del_def split: option.splits)

lemma length_od_set: "length (od_set d k v) = (if k \<in> set (od_keys d) then length d else Suc (length d))"
  using arg_cong [OF od_set_keys, of length d k v] by (auto simp: od_keys_def)

lemma length_od_popfirst [simp, odict_simps]: "length (od_popfirst d) = length d - 1"
  by (simp add: od_popfirst_def)

lemma od_set_nonempty [simp, odict_simps]: "od_set d k v \<noteq> []"
  by (cases d) (auto split: if_splits)

lemma length_od_del_le: "length (od_del d k) \<le> length d"
  by (simp add: od_del_def)

lemma od_get_popfirst: "od_ok d \<Longrightarrow> od_get (od_popfirst d) k = (if d \<noteq> [] \<and> k = fst (hd d) then None else od_get d k)"
  by (cases d) (auto simp: od_ok_def od_popfirst_def od_get_def map_of_eq_None_iff)

text \<open>\<open>{key(x): value(x) for x in rows}\<close>: a dictionary over rows.\<close>

definition od_index :: "('r \<Rightarrow> 'k) \<Rightarrow> ('r \<Rightarrow> 'v) \<Rightarrow> 'r list \<Rightarrow> ('k, 'v) odict" where
  "od_index key value rows = foldl (\<lambda>d x. od_set d (key x) (value x)) [] rows"

lemma od_index_Nil [simp]: "od_index key value [] = []"
  by (simp add: od_index_def)

lemma od_index_get:
  assumes "distinct (map key rows)"
  shows "od_get (od_index key value rows) k = map_option value (find (\<lambda>x. key x = k) rows)"
proof -
  have "od_get (foldl (\<lambda>d x. od_set d (key x) (value x)) d rows) k =
      (case find (\<lambda>x. key x = k) rows of Some x \<Rightarrow> Some (value x) | None \<Rightarrow> od_get d k)" for d
    using assms
  proof (induction rows arbitrary: d)
    case (Cons x xs)
    have "find (\<lambda>y. key y = key x) xs = None"
      using Cons.prems by (simp add: find_None_iff) (metis rev_image_eqI)
    with Cons show ?case by (auto split: option.splits)
  qed simp
  from this [of "[]"] show ?thesis by (simp add: od_index_def split: option.splits)
qed

lemma find_filter: "(\<And>x. P x \<Longrightarrow> Q x) \<Longrightarrow> find P (filter Q xs) = find P xs"
  by (induction xs) auto

lemma od_index_filter_get:
  assumes "distinct (map key rows)"
  shows "od_get (od_index key value (filter (\<lambda>x. key x \<in> K) rows)) k =
    (if k \<in> K then map_option value (find (\<lambda>x. key x = k) rows) else None)"
proof -
  have "od_get (od_index key value (filter (\<lambda>x. key x \<in> K) rows)) k =
      map_option value (find (\<lambda>x. key x = k) (filter (\<lambda>x. key x \<in> K) rows))"
    by (rule od_index_get) (simp add: assms distinct_map_filter)
  also have "find (\<lambda>x. key x = k) (filter (\<lambda>x. key x \<in> K) rows) = (if k \<in> K then find (\<lambda>x. key x = k) rows else None)"
    by (cases "k \<in> K") (auto simp: find_None_iff intro!: find_filter)
  finally show ?thesis by simp
qed

section \<open>First-match rule lists\<close>

text \<open>The contract that several components share: rules are tried in order, the first that
  matches decides, and a default decides when none does.  \<open>hit\<close> may raise.\<close>

locale first_match =
  fixes hit :: "'r \<Rightarrow> 'e + bool"
    and verdict :: "'r \<Rightarrow> 'v"
    and fallback :: "'v"
    and eval :: "'r list \<Rightarrow> 'e + 'v"
  assumes eval_Nil: "eval [] = Inr fallback"
    and eval_Cons: "eval (r # rs) = rbind (hit r) (\<lambda>b. if b then Inr (verdict r) else eval rs)"
begin

lemma eval_skip: "(\<And>r. r \<in> set xs \<Longrightarrow> hit r = Inr False) \<Longrightarrow> eval (xs @ ys) = eval ys"
  by (induction xs) (auto simp: eval_Cons)

lemma eval_first:
  "(\<And>r. r \<in> set xs \<Longrightarrow> hit r = Inr False) \<Longrightarrow> hit r = Inr True \<Longrightarrow> eval (xs @ r # ys) = Inr (verdict r)"
  by (simp add: eval_skip eval_Cons)

lemma eval_none: "(\<And>r. r \<in> set xs \<Longrightarrow> hit r = Inr False) \<Longrightarrow> eval xs = Inr fallback"
  using eval_skip [of xs "[]"] by (simp add: eval_Nil)

lemma eval_cases:
  "eval rs = Inr v \<Longrightarrow>
     (v = fallback \<and> (\<forall>r\<in>set rs. hit r = Inr False)) \<or>
     (\<exists>xs r ys. rs = xs @ r # ys \<and> (\<forall>q\<in>set xs. hit q = Inr False) \<and> hit r = Inr True \<and> v = verdict r)"
proof (induction rs)
  case Nil
  then show ?case by (simp add: eval_Nil)
next
  case (Cons r rs)
  then obtain b where b: "hit r = Inr b" by (auto simp: eval_Cons rbind_eq_Inr)
  show ?case
  proof (cases b)
    case True
    with Cons.prems b have "r # rs = [] @ r # rs" "v = verdict r" by (auto simp: eval_Cons)
    with b True show ?thesis by (metis empty_iff list.set(1))
  next
    case False
    with Cons.prems b have "eval rs = Inr v" by (simp add: eval_Cons)
    from Cons.IH [OF this] consider
        "v = fallback" "\<forall>q\<in>set rs. hit q = Inr False"
      | xs p ys where "rs = xs @ p # ys" "\<forall>q\<in>set xs. hit q = Inr False" "hit p = Inr True" "v = verdict p"
      by blast
    then show ?thesis
    proof cases
      case 1
      with b False show ?thesis by simp
    next
      case 2
      then have "r # rs = (r # xs) @ p # ys" "\<forall>q\<in>set (r # xs). hit q = Inr False"
        using b False by simp_all
      with 2 show ?thesis by blast
    qed
  qed
qed

lemma eval_total: "(\<And>r. r \<in> set rs \<Longrightarrow> \<exists>b. hit r = Inr b) \<Longrightarrow> \<exists>v. eval rs = Inr v"
proof (induction rs)
  case (Cons r rs)
  from Cons.prems [of r] obtain b where "hit r = Inr b" by auto
  with Cons show ?case by (cases b) (auto simp: eval_Cons)
qed (simp add: eval_Nil)

end

end
