(* ===== verification/RateLimit.thy ===== *)
theory RateLimit
  imports Prelude
begin

text \<open>
  The sliding window of \<open>naco/core/ratelimit.py\<close>.
  Times are integers (ticks of the monotonic clock; the floats of the code without rounding),
  \<open>second\<close> ticks make a second.  \<open>popitem\<close> is only reached with a positive \<open>max_keys\<close>, which
  the invariants carry.
\<close>

definition second :: int where
  "second = 1000000"

section \<open>SlidingWindow\<close>

record SlidingWindow =
  sw_limit :: nat
  sw_window :: int
  sw_max_keys :: nat
  sw_hits :: "(pystr, int list) odict"

definition SlidingWindow_init :: "nat \<Rightarrow> int \<Rightarrow> nat \<Rightarrow> SlidingWindow" where
  "SlidingWindow_init limit window_seconds max_keys =
     \<lparr>sw_limit = limit, sw_window = window_seconds, sw_max_keys = max_keys, sw_hits = []\<rparr>"

definition sw_open :: "SlidingWindow \<Rightarrow> pystr \<Rightarrow> (pystr, int list) odict \<times> int list" where
  "sw_open w key =
     (case od_get (sw_hits w) key of
        None \<Rightarrow>
          (let d = (if length (sw_hits w) \<ge> sw_max_keys w then od_popfirst (sw_hits w) else sw_hits w)
           in (od_set d key [], []))
      | Some q \<Rightarrow> (od_move_to_end (sw_hits w) key, q))"

definition sw_hit :: "SlidingWindow \<Rightarrow> pystr \<Rightarrow> int \<Rightarrow> SlidingWindow \<times> bool" where
  "sw_hit w key now =
     (let (d, q0) = sw_open w key;
          q = dropWhile (\<lambda>t. t \<le> now - sw_window w) q0
      in if length q \<ge> sw_limit w then (w\<lparr>sw_hits := od_set d key q\<rparr>, False)
         else (w\<lparr>sw_hits := od_set d key (q @ [now])\<rparr>, True))"

definition sw_reset :: "SlidingWindow \<Rightarrow> pystr \<Rightarrow> SlidingWindow" where
  "sw_reset w key = w\<lparr>sw_hits := od_del (sw_hits w) key\<rparr>"

section \<open>The sliding window against its specification\<close>

text \<open>The specification keeps every accepted hit: a hit is accepted iff fewer than \<open>limit\<close> hits of
  the same key were accepted in the last \<open>window\<close>.\<close>

definition recent :: "int \<Rightarrow> int \<Rightarrow> int list \<Rightarrow> int list" where
  "recent win now ts = filter (\<lambda>t. now - win < t) ts"

definition spec_hit :: "nat \<Rightarrow> int \<Rightarrow> (pystr \<Rightarrow> int list) \<Rightarrow> pystr \<Rightarrow> int \<Rightarrow> (pystr \<Rightarrow> int list) \<times> bool" where
  "spec_hit limit win log key now =
     (if length (recent win now (log key)) \<ge> limit then (log, False)
      else (log(key := log key @ [now]), True))"

fun sw_run :: "SlidingWindow \<Rightarrow> (pystr \<times> int) list \<Rightarrow> bool list" where
  "sw_run w [] = []"
| "sw_run w ((k, t) # es) = (let (w', b) = sw_hit w k t in b # sw_run w' es)"

fun spec_run :: "nat \<Rightarrow> int \<Rightarrow> (pystr \<Rightarrow> int list) \<Rightarrow> (pystr \<times> int) list \<Rightarrow> bool list" where
  "spec_run limit win log [] = []"
| "spec_run limit win log ((k, t) # es) =
     (let (log', b) = spec_hit limit win log k t in b # spec_run limit win log' es)"

definition sw_queue :: "SlidingWindow \<Rightarrow> pystr \<Rightarrow> int list" where
  "sw_queue w k = (case od_get (sw_hits w) k of None \<Rightarrow> [] | Some q \<Rightarrow> q)"

definition sw_inv :: "SlidingWindow \<Rightarrow> bool" where
  "sw_inv w \<longleftrightarrow> od_ok (sw_hits w) \<and> length (sw_hits w) \<le> sw_max_keys w \<and> 0 < sw_max_keys w"

text \<open>The simulation relation at time \<open>now\<close>: the queues are sorted, hold nothing newer, and agree
  with the log on everything that is recent now or later.\<close>

definition sw_sim :: "SlidingWindow \<Rightarrow> (pystr \<Rightarrow> int list) \<Rightarrow> int \<Rightarrow> bool" where
  "sw_sim w log now \<longleftrightarrow>
     (\<forall>k. sorted (sw_queue w k) \<and> (\<forall>t\<in>set (sw_queue w k). t \<le> now) \<and>
        (\<forall>now'\<ge>now. recent (sw_window w) now' (sw_queue w k) = recent (sw_window w) now' (log k)))"

lemma sorted_dropWhile_recent: "sorted ts \<Longrightarrow> dropWhile (\<lambda>t. t \<le> now - win) ts = recent win now ts"
proof (induction ts)
  case (Cons a ts)
  show ?case
  proof (cases "a \<le> now - win")
    case True
    with Cons show ?thesis by (simp add: recent_def)
  next
    case False
    with Cons.prems have "\<forall>x\<in>set (a # ts). now - win < x" by auto
    with False show ?thesis by (simp add: recent_def)
  qed
qed (simp add: recent_def)

lemma recent_recent: "now \<le> now' \<Longrightarrow> recent win now' (recent win now ts) = recent win now' ts"
  by (auto simp: recent_def intro: filter_cong)

lemma recent_append: "recent win now (a @ b) = recent win now a @ recent win now b"
  by (simp add: recent_def)

lemma sorted_recent: "sorted ts \<Longrightarrow> sorted (recent win now ts)"
  by (simp add: recent_def sorted_wrt_filter)

lemma sw_open_ok: "sw_inv w \<Longrightarrow> od_ok (fst (sw_open w key))"
  by (auto simp: sw_open_def sw_inv_def Let_def split: option.splits)

lemma sw_open_room: "sw_inv w \<Longrightarrow> length (fst (sw_open w key)) \<le> sw_max_keys w"
  by (auto simp: sw_open_def sw_inv_def Let_def length_od_set od_get_None_iff split: option.splits)

lemma sw_open_key: "sw_inv w \<Longrightarrow> od_get (fst (sw_open w key)) key \<noteq> None \<and> snd (sw_open w key) = sw_queue w key"
  by (auto simp: sw_open_def sw_queue_def sw_inv_def Let_def split: option.splits)

lemma sw_open_other:
  "sw_inv w \<Longrightarrow> length (sw_hits w) < sw_max_keys w \<or> od_get (sw_hits w) key \<noteq> None \<Longrightarrow> k \<noteq> key \<Longrightarrow>
   od_get (fst (sw_open w key)) k = od_get (sw_hits w) k"
  by (auto simp: sw_open_def sw_inv_def Let_def split: option.splits)

lemma sw_hit_eq:
  "sw_hit w key now =
    (let q = dropWhile (\<lambda>t. t \<le> now - sw_window w) (snd (sw_open w key)); ok = length q < sw_limit w
     in (w\<lparr>sw_hits := od_set (fst (sw_open w key)) key (if ok then q @ [now] else q)\<rparr>, ok))"
  by (simp add: sw_hit_def Let_def case_prod_unfold)

lemma sw_hit_config:
  "sw_window (fst (sw_hit w k t)) = sw_window w" "sw_limit (fst (sw_hit w k t)) = sw_limit w"
  "sw_max_keys (fst (sw_hit w k t)) = sw_max_keys w"
  by (simp_all add: sw_hit_eq Let_def)

lemma sw_hit_inv: "sw_inv w \<Longrightarrow> sw_inv (fst (sw_hit w k t))"
  using sw_open_ok [of w k] sw_open_room [of w k] sw_open_key [of w k]
  by (auto simp: sw_inv_def sw_hit_eq Let_def length_od_set od_get_None_iff)

lemma sw_hit_keys:
  "sw_inv w \<Longrightarrow> set (od_keys (sw_hits (fst (sw_hit w k t)))) \<subseteq> insert k (set (od_keys (sw_hits w)))"
proof -
  assume inv: "sw_inv w"
  have "set (od_keys (fst (sw_open w k))) \<subseteq> insert k (set (od_keys (sw_hits w)))"
    using set_od_keys_popfirst [of "sw_hits w"] by (auto simp: sw_open_def Let_def split: option.splits)
  then show ?thesis by (auto simp: sw_hit_eq Let_def)
qed

lemma sw_hit_step:
  assumes inv: "sw_inv w" and sim: "sw_sim w log t0" and "t0 \<le> t"
    and room: "length (sw_hits w) < sw_max_keys w \<or> od_get (sw_hits w) k \<noteq> None"
  shows "snd (sw_hit w k t) = snd (spec_hit (sw_limit w) (sw_window w) log k t)"
    and "sw_sim (fst (sw_hit w k t)) (fst (spec_hit (sw_limit w) (sw_window w) log k t)) t"
proof -
  let ?win = "sw_window w" and ?q = "recent (sw_window w) t (sw_queue w k)"
  let ?ok = "length ?q < sw_limit w"
  have srt: "sorted (sw_queue w k)" using sim by (simp add: sw_sim_def)
  have log: "?q = recent ?win t (log k)" using sim assms(3) by (simp add: sw_sim_def)
  have hit: "sw_hit w k t = (w\<lparr>sw_hits := od_set (fst (sw_open w k)) k (if ?ok then ?q @ [t] else ?q)\<rparr>, ?ok)"
    using sw_open_key [OF inv, of k] by (simp add: sw_hit_eq Let_def sorted_dropWhile_recent [OF srt])
  show "snd (sw_hit w k t) = snd (spec_hit (sw_limit w) ?win log k t)"
    by (simp add: hit spec_hit_def log not_less)
  have queue: "sw_queue (fst (sw_hit w k t)) k' =
      (if k' = k then (if ?ok then ?q @ [t] else ?q) else sw_queue w k')" for k'
    using sw_open_other [OF inv room, of k'] by (simp add: hit sw_queue_def)
  have old: "x \<in> set (sw_queue w k') \<Longrightarrow> x \<le> t" for k' x
    using sim assms(3) order_trans unfolding sw_sim_def by blast
  then have le: "\<forall>x\<in>set ?q. x \<le> t" by (auto simp: recent_def)
  have same: "recent ?win now' (sw_queue w k') = recent ?win now' (log k')" if "t \<le> now'" for now' k'
    using sim that assms(3) by (simp add: sw_sim_def)
  have "sorted (sw_queue (fst (sw_hit w k t)) k')" for k'
    using srt le sim by (auto simp: queue sw_sim_def sorted_append sorted_recent)
  moreover have "\<forall>x\<in>set (sw_queue (fst (sw_hit w k t)) k'). x \<le> t" for k'
    using le old by (simp add: queue)
  moreover have "recent ?win now' (sw_queue (fst (sw_hit w k t)) k') =
      recent ?win now' (fst (spec_hit (sw_limit w) ?win log k t) k')" if "t \<le> now'" for now' k'
    using same [OF that] that by (auto simp: queue spec_hit_def recent_append recent_recent log [symmetric] not_less)
  ultimately show "sw_sim (fst (sw_hit w k t)) (fst (spec_hit (sw_limit w) ?win log k t)) t"
    by (simp add: sw_sim_def sw_hit_config)
qed

lemma length_keys: "od_ok d \<Longrightarrow> length d = card (set (od_keys d))"
  by (metis distinct_card length_map od_keys_def od_ok_def)

lemma sw_run_spec:
  "sw_inv w \<Longrightarrow> sw_sim w log t0 \<Longrightarrow> sorted (t0 # map snd es) \<Longrightarrow>
   card (set (od_keys (sw_hits w)) \<union> fst ` set es) \<le> sw_max_keys w \<Longrightarrow>
   sw_run w es = spec_run (sw_limit w) (sw_window w) log es"
proof (induction es arbitrary: w log t0)
  case (Cons e es)
  obtain k t where e: "e = (k, t)" by (cases e)
  let ?K = "set (od_keys (sw_hits w))" and ?w = "fst (sw_hit w k t)"
  have room: "length (sw_hits w) < sw_max_keys w \<or> od_get (sw_hits w) k \<noteq> None"
  proof (cases "k \<in> ?K")
    case False
    have "card (insert k ?K) \<le> card (?K \<union> fst ` set (e # es))"
      by (rule card_mono) (auto simp: e)
    then have "card (insert k ?K) \<le> sw_max_keys w" using Cons.prems(4) by simp
    with False Cons.prems(1) show ?thesis by (simp add: length_keys sw_inv_def)
  qed (simp add: od_get_None_iff)
  have "t0 \<le> t" using Cons.prems(3) by (simp add: e)
  note step = sw_hit_step [OF Cons.prems(1,2) this room]
  have "card (set (od_keys (sw_hits ?w)) \<union> fst ` set es) \<le> card (?K \<union> fst ` set (e # es))"
    by (rule card_mono) (use sw_hit_keys [OF Cons.prems(1), of k t] in \<open>auto simp: e\<close>)
  with Cons.prems(4) have "card (set (od_keys (sw_hits ?w)) \<union> fst ` set es) \<le> sw_max_keys ?w"
    by (simp add: sw_hit_config)
  moreover have "sorted (t # map snd es)" using Cons.prems(3) by (simp add: e)
  ultimately have "sw_run ?w es =
      spec_run (sw_limit w) (sw_window w) (fst (spec_hit (sw_limit w) (sw_window w) log k t)) es"
    using Cons.IH [OF sw_hit_inv [OF Cons.prems(1), of k t] step(2)] by (simp add: sw_hit_config)
  with step(1) show ?case by (simp add: e case_prod_unfold Let_def)
qed simp

lemma sw_sim_init: "sw_sim (SlidingWindow_init limit win m) (\<lambda>_. []) t0"
  by (simp add: sw_sim_def SlidingWindow_init_def sw_queue_def recent_def)

lemma sw_run_init:
  assumes "sorted (map snd es)" "card (fst ` set es) \<le> m" "0 < m"
  shows "sw_run (SlidingWindow_init limit win m) es = spec_run limit win (\<lambda>_. []) es"
proof (cases es)
  case (Cons e es')
  have "sorted (snd e # map snd es)" using assms(1) Cons by simp
  moreover have "sw_inv (SlidingWindow_init limit win m)" using assms(3)
    by (simp add: sw_inv_def SlidingWindow_init_def)
  ultimately show ?thesis
    using sw_run_spec [OF _ sw_sim_init, of limit win m "snd e" es] assms(2)
    by (simp add: SlidingWindow_init_def od_keys_def)
qed simp

text \<open>C33. As long as no more than \<open>max_keys\<close> keys are in use, the sliding window answers a sequence of
  hits in time order exactly as its specification does: a hit is accepted iff fewer than \<open>limit\<close>
  hits of its key were accepted during the last \<open>window\<close>, whatever the other keys did.\<close>

theorem sliding_window_refines_spec:
  assumes "sorted (map snd es)" "card (fst ` set es) \<le> max_keys" "0 < max_keys"
  shows "sw_run (SlidingWindow_init limit win max_keys) es = spec_run limit win (\<lambda>_. []) es"
  using assms by (rule sw_run_init)

theorem sliding_window_refines_spec_witness:
  "sw_run (SlidingWindow_init 1 10 2) [(u ''a'', 0), (u ''b'', 3), (u ''a'', 5), (u ''a'', 10)] =
   spec_run 1 10 (\<lambda>_. []) [(u ''a'', 0), (u ''b'', 3), (u ''a'', 5), (u ''a'', 10)]"
  by (rule sliding_window_refines_spec) (simp_all add: card_insert_if)

fun accepted_times :: "pystr \<Rightarrow> (pystr \<times> int) list \<Rightarrow> bool list \<Rightarrow> int list" where
  "accepted_times k ((k', t) # es) (b # bs) =
     (if b \<and> k' = k then t # accepted_times k es bs else accepted_times k es bs)"
| "accepted_times k _ _ = []"

definition in_window :: "int \<Rightarrow> int \<Rightarrow> int list \<Rightarrow> int list" where
  "in_window win a ts = filter (\<lambda>t. a < t \<and> t \<le> a + win) ts"

lemma in_window_append: "in_window win a (xs @ ys) = in_window win a xs @ in_window win a ys"
  by (simp add: in_window_def)

lemma in_window_recent:
  "t \<le> a + win \<Longrightarrow> length (in_window win a ts) \<le> length (recent win t ts)"
proof -
  assume "t \<le> a + win"
  then have "in_window win a ts = filter (\<lambda>x. x \<le> a + win \<and> a < x) (recent win t ts)"
    by (auto simp: in_window_def recent_def intro: filter_cong)
  then show ?thesis by simp
qed

lemma spec_run_bound:
  "(\<forall>a. length (in_window win a (log k)) \<le> limit) \<Longrightarrow>
   length (in_window win a (log k @ accepted_times k es (spec_run limit win log es))) \<le> limit"
proof (induction es arbitrary: log)
  case (Cons e es)
  obtain k' t where e: "e = (k', t)" by (cases e)
  let ?log = "fst (spec_hit limit win log k' t)"
  have acc: "log k @ accepted_times k (e # es) (spec_run limit win log (e # es)) =
      ?log k @ accepted_times k es (spec_run limit win ?log es)"
    by (auto simp: e spec_hit_def)
  have "length (in_window win b (?log k)) \<le> limit" for b
  proof (cases "k' = k \<and> b < t \<and> t \<le> b + win \<and> length (recent win t (log k)) < limit")
    case True
    then have "length (in_window win b (log k)) < limit"
      using in_window_recent [of t b win "log k"] by simp
    with True show ?thesis by (simp add: spec_hit_def in_window_append in_window_def [of _ _ "[_]"])
  next
    case False
    with Cons.prems [rule_format, of b] show ?thesis
      by (auto simp: spec_hit_def in_window_append in_window_def [of _ _ "[_]"])
  qed
  with Cons.IH [of ?log] show ?case unfolding acc by simp
qed simp

text \<open>The sliding window never lets through more than \<open>limit\<close> hits of one key in any interval of
  length \<open>window\<close>.\<close>

theorem sliding_window_limits:
  assumes "sorted (map snd es)" "card (fst ` set es) \<le> max_keys" "0 < max_keys"
  shows "length (in_window win a
    (accepted_times k es (sw_run (SlidingWindow_init limit win max_keys) es))) \<le> limit"
  using spec_run_bound [of win "\<lambda>_. []" k limit a es] sw_run_init [OF assms, of limit win]
  by (simp add: in_window_def)

theorem sliding_window_limits_witness:
  "length (in_window 10 0 (accepted_times (u ''a'') [(u ''a'', 1), (u ''a'', 2)]
     (sw_run (SlidingWindow_init 1 10 5) [(u ''a'', 1), (u ''a'', 2)]))) \<le> 1"
  by (rule sliding_window_limits) simp_all

end
