(* ===== verification/GuessDelay.thy ===== *)
theory GuessDelay
  imports RateLimit
begin

text \<open>
  The progressive delay and the guess guard of \<open>naco/core/ratelimit.py\<close>.  Operations return the
  new state; \<open>failure\<close> also says whether it raised: \<open>base * 2 ** k\<close> converts the integer to a float,
  which Python refuses from \<open>2 ** 1024\<close> on, before \<open>min\<close> can apply the cap.
\<close>

section \<open>ProgressiveDelay\<close>

record ProgressiveDelay =
  pd_base :: int
  pd_cap :: int
  pd_free :: nat
  pd_forget :: int
  pd_max_keys :: nat
  pd_state :: "(pystr, nat \<times> int \<times> int) odict"   \<comment> \<open>failures, next allowed, last\<close>

definition ProgressiveDelay_init :: "int \<Rightarrow> int \<Rightarrow> nat \<Rightarrow> int \<Rightarrow> nat \<Rightarrow> ProgressiveDelay" where
  "ProgressiveDelay_init base cap free_attempts forget_after max_keys =
     \<lparr>pd_base = base, pd_cap = cap, pd_free = free_attempts, pd_forget = forget_after,
      pd_max_keys = max_keys, pd_state = []\<rparr>"

definition pd_get :: "ProgressiveDelay \<Rightarrow> pystr \<Rightarrow> int \<Rightarrow> ProgressiveDelay \<times> (nat \<times> int \<times> int)" where
  "pd_get p key now =
     (case od_get (pd_state p) key of
        None \<Rightarrow> (p, (0, 0, now))
      | Some (n, nxt, at) \<Rightarrow>
          if now - at > pd_forget p then (p\<lparr>pd_state := od_del (pd_state p) key\<rparr>, (0, 0, now))
          else (p, (n, nxt, at)))"

definition pd_delay_for :: "ProgressiveDelay \<Rightarrow> pystr \<Rightarrow> int \<Rightarrow> ProgressiveDelay \<times> int" where
  "pd_delay_for p key now = (let (p', (_, nxt, _)) = pd_get p key now in (p', max 0 (nxt - now)))"

definition pd_wait :: "ProgressiveDelay \<Rightarrow> nat \<Rightarrow> int" where
  "pd_wait p n = (if n \<le> pd_free p then 0 else min (pd_cap p) (pd_base p * 2 ^ (n - pd_free p - 1)))"

definition pd_overflow :: "ProgressiveDelay \<Rightarrow> nat \<Rightarrow> bool" where
  "pd_overflow p n \<longleftrightarrow> pd_free p < n \<and> 1024 \<le> n - pd_free p - 1"

definition pd_failure :: "ProgressiveDelay \<Rightarrow> pystr \<Rightarrow> int \<Rightarrow> ProgressiveDelay \<times> py_exc option" where
  "pd_failure p key now =
     (let (p', (n, _, _)) = pd_get p key now;
          failures = n + 1
      in if pd_overflow p' failures then (p', Some OverflowError)
         else
           (let wait = pd_wait p' failures;
                d = (if od_get (pd_state p') key = None \<and> length (pd_state p') \<ge> pd_max_keys p'
                     then od_popfirst (pd_state p') else pd_state p')
            in (p'\<lparr>pd_state := od_move_to_end (od_set d key (failures, now + wait, now)) key\<rparr>, None)))"

definition pd_success :: "ProgressiveDelay \<Rightarrow> pystr \<Rightarrow> ProgressiveDelay" where
  "pd_success p key = p\<lparr>pd_state := od_del (pd_state p) key\<rparr>"

section \<open>GuessGuard\<close>

record GuessGuard =
  gg_pair :: ProgressiveDelay
  gg_identity :: ProgressiveDelay
  gg_sources :: "(pystr, (pystr, int) odict) odict"
  gg_spread :: nat
  gg_window :: int
  gg_max_keys :: nat

definition GuessGuard_init :: "nat \<Rightarrow> int \<Rightarrow> nat \<Rightarrow> int \<Rightarrow> nat \<Rightarrow> GuessGuard" where
  "GuessGuard_init free_attempts cap spread window max_keys =
     \<lparr>gg_pair = ProgressiveDelay_init second cap free_attempts window max_keys,
      gg_identity = ProgressiveDelay_init second cap 0 window max_keys,
      gg_sources = [], gg_spread = spread, gg_window = window, gg_max_keys = max_keys\<rparr>"

text \<open>\<open>GuessGuard()\<close> with the defaults of its constructor.\<close>

definition GuessGuard_default :: "nat \<Rightarrow> GuessGuard" where
  "GuessGuard_default free_attempts = GuessGuard_init free_attempts (30 * second) 10 (900 * second) 50000"

definition gg_clear :: "GuessGuard \<Rightarrow> GuessGuard" where
  "gg_clear g = g\<lparr>gg_pair := (gg_pair g)\<lparr>pd_state := []\<rparr>,
                  gg_identity := (gg_identity g)\<lparr>pd_state := []\<rparr>, gg_sources := []\<rparr>"

definition gg_pair_key :: "pystr \<Rightarrow> pystr \<Rightarrow> pystr" where
  "gg_pair_key identity source = identity @ [0] @ source"

text \<open>The dictionary of \<open>identity\<close> is pruned in place; an identity without one gets a new
  dictionary that is not stored.\<close>

definition failing_sources :: "GuessGuard \<Rightarrow> pystr \<Rightarrow> int \<Rightarrow> GuessGuard \<times> (pystr, int) odict" where
  "failing_sources g identity now =
     (case od_get (gg_sources g) identity of
        None \<Rightarrow> (g, [])
      | Some s \<Rightarrow>
          (let s' = filter (\<lambda>(_, at). \<not> now - at > gg_window g) s
           in (g\<lparr>gg_sources := od_set (gg_sources g) identity s'\<rparr>, s')))"

definition gg_delay_for :: "GuessGuard \<Rightarrow> pystr \<Rightarrow> pystr \<Rightarrow> int \<Rightarrow> GuessGuard \<times> int" where
  "gg_delay_for g identity source now =
     (let (p, wait) = pd_delay_for (gg_pair g) (gg_pair_key identity source) now;
          (g', s) = failing_sources (g\<lparr>gg_pair := p\<rparr>) identity now
      in if length s \<ge> gg_spread g' then
           (let (i, w) = pd_delay_for (gg_identity g') identity now
            in (g'\<lparr>gg_identity := i\<rparr>, max wait w))
         else (g', wait))"

text \<open>\<open>min(sources, key=sources.__getitem__)\<close>: the first key with the smallest time.\<close>

fun oldest_source :: "(pystr, int) odict \<Rightarrow> pystr \<times> int" where
  "oldest_source [] = ([], 0)"
| "oldest_source [x] = x"
| "oldest_source (x # xs) = (let y = oldest_source xs in if snd y < snd x then y else x)"

definition gg_failure :: "GuessGuard \<Rightarrow> pystr \<Rightarrow> pystr \<Rightarrow> int \<Rightarrow> GuessGuard \<times> py_exc option" where
  "gg_failure g identity source now =
     (case pd_failure (gg_pair g) (gg_pair_key identity source) now of
        (p, Some e) \<Rightarrow> (g\<lparr>gg_pair := p\<rparr>, Some e)
      | (p, None) \<Rightarrow>
          (let (g2, s) = failing_sources (g\<lparr>gg_pair := p\<rparr>) identity now;
               d = (if od_get (gg_sources g2) identity = None \<and> length (gg_sources g2) \<ge> gg_max_keys g2
                    then od_popfirst (gg_sources g2) else gg_sources g2);
               s1 = od_set s source now;
               s2 = (if length s1 > gg_spread g2 * 4 then od_del s1 (fst (oldest_source s1)) else s1);
               g3 = g2\<lparr>gg_sources := od_move_to_end (od_set d identity s2) identity\<rparr>
           in if length s2 \<ge> gg_spread g3
              then (let (i, e) = pd_failure (gg_identity g3) identity now in (g3\<lparr>gg_identity := i\<rparr>, e))
              else (g3, None)))"

definition gg_success :: "GuessGuard \<Rightarrow> pystr \<Rightarrow> pystr \<Rightarrow> GuessGuard" where
  "gg_success g identity source = g\<lparr>gg_pair := pd_success (gg_pair g) (gg_pair_key identity source)\<rparr>"

section \<open>Progressive delay\<close>

definition pd_inv :: "ProgressiveDelay \<Rightarrow> bool" where
  "pd_inv p \<longleftrightarrow> od_ok (pd_state p) \<and> length (pd_state p) \<le> pd_max_keys p \<and> 0 < pd_max_keys p"

definition pd_keys :: "ProgressiveDelay \<Rightarrow> pystr set" where
  "pd_keys p = set (od_keys (pd_state p))"

text \<open>What \<open>_get\<close> returns, without its effect on the store.\<close>

definition pd_entry :: "ProgressiveDelay \<Rightarrow> pystr \<Rightarrow> int \<Rightarrow> nat \<times> int \<times> int" where
  "pd_entry p key now = snd (pd_get p key now)"

lemma pd_get_config:
  "pd_base (fst (pd_get p k t)) = pd_base p" "pd_cap (fst (pd_get p k t)) = pd_cap p"
  "pd_free (fst (pd_get p k t)) = pd_free p" "pd_forget (fst (pd_get p k t)) = pd_forget p"
  "pd_max_keys (fst (pd_get p k t)) = pd_max_keys p"
  by (auto simp: pd_get_def split: option.splits)

lemma pd_get_inv: "pd_inv p \<Longrightarrow> pd_inv (fst (pd_get p k t))"
  using length_od_del_le [of "pd_state p" k] by (auto simp: pd_get_def pd_inv_def split: option.splits)

lemma pd_get_keys: "pd_keys (fst (pd_get p k t)) \<subseteq> pd_keys p"
  by (auto simp: pd_get_def pd_keys_def od_keys_del split: option.splits)

lemma pd_get_other: "k' \<noteq> k \<Longrightarrow> od_get (pd_state (fst (pd_get p k t))) k' = od_get (pd_state p) k'"
  by (auto simp: pd_get_def split: option.splits)

definition pd_room :: "ProgressiveDelay \<Rightarrow> pystr \<Rightarrow> bool" where
  "pd_room p k \<longleftrightarrow> card (insert k (pd_keys p)) \<le> pd_max_keys p"

text \<open>The store after a failure, and when the failure raises.\<close>

definition pd_fail :: "ProgressiveDelay \<Rightarrow> pystr \<Rightarrow> int \<Rightarrow> ProgressiveDelay" where
  "pd_fail p k t = fst (pd_failure p k t)"

definition pd_raises :: "ProgressiveDelay \<Rightarrow> pystr \<Rightarrow> int \<Rightarrow> bool" where
  "pd_raises p k t \<longleftrightarrow> pd_overflow p (Suc (fst (pd_entry p k t)))"

lemma pd_failure_exc: "snd (pd_failure p k t) = (if pd_raises p k t then Some OverflowError else None)"
  by (simp add: pd_failure_def pd_raises_def pd_entry_def pd_overflow_def pd_get_config case_prod_unfold Let_def)

lemma pd_fail_raises: "pd_raises p k t \<Longrightarrow> pd_fail p k t = p"
  by (auto simp: pd_fail_def pd_failure_def pd_raises_def pd_entry_def pd_overflow_def pd_get_def Let_def
      split: option.splits if_splits)

lemma pd_fail_eq:
  "\<not> pd_raises p k t \<Longrightarrow> pd_fail p k t =
    (let q = fst (pd_get p k t); n = Suc (fst (pd_entry p k t));
         d = (if od_get (pd_state q) k = None \<and> length (pd_state q) \<ge> pd_max_keys q
              then od_popfirst (pd_state q) else pd_state q)
     in q\<lparr>pd_state := od_move_to_end (od_set d k (n, t + pd_wait p n, t)) k\<rparr>)"
  by (simp add: pd_fail_def pd_failure_def pd_raises_def pd_entry_def pd_wait_def pd_overflow_def pd_get_config
      case_prod_unfold Let_def)

lemma pd_fail_config:
  "pd_base (pd_fail p k t) = pd_base p" "pd_cap (pd_fail p k t) = pd_cap p"
  "pd_free (pd_fail p k t) = pd_free p" "pd_forget (pd_fail p k t) = pd_forget p"
  "pd_max_keys (pd_fail p k t) = pd_max_keys p"
  by (cases "pd_raises p k t"; simp add: pd_fail_raises pd_fail_eq Let_def pd_get_config)+

lemma pd_wait_fail [simp]: "pd_wait (pd_fail p k t) n = pd_wait p n"
  by (simp add: pd_wait_def pd_fail_config)

lemma pd_overflow_fail [simp]: "pd_overflow (pd_fail p k t) n = pd_overflow p n"
  by (simp add: pd_overflow_def pd_fail_config)

lemma pd_fail_inv: "pd_inv p \<Longrightarrow> pd_inv (pd_fail p k t)"
proof (cases "pd_raises p k t")
  case False
  assume "pd_inv p"
  then have inv: "pd_inv (fst (pd_get p k t))" by (rule pd_get_inv)
  then have ok: "od_ok (pd_state (pd_fail p k t))"
    using False by (auto simp: pd_fail_eq Let_def pd_inv_def)
  have "length (pd_state (pd_fail p k t)) \<le> pd_max_keys p"
    using False inv od_get_None_iff [of "pd_state (fst (pd_get p k t))" k]
    by (auto simp: pd_fail_eq Let_def pd_inv_def length_od_set pd_get_config)
  with ok inv show ?thesis by (simp add: pd_inv_def pd_fail_config pd_get_config)
qed (simp add: pd_fail_raises)

lemma pd_fail_self:
  "pd_inv p \<Longrightarrow> \<not> pd_raises p k t \<Longrightarrow> od_get (pd_state (pd_fail p k t)) k =
     Some (Suc (fst (pd_entry p k t)), t + pd_wait p (Suc (fst (pd_entry p k t))), t)"
  using pd_get_inv [of p k t] by (simp add: pd_fail_eq Let_def pd_inv_def)

lemma pd_fail_keys: "pd_keys (pd_fail p k t) \<subseteq> insert k (pd_keys p)"
  using pd_get_keys [of p k t] set_od_keys_popfirst [of "pd_state (fst (pd_get p k t))"]
  by (cases "pd_raises p k t") (auto simp: pd_fail_raises pd_fail_eq Let_def pd_keys_def)

lemma pd_fail_other:
  assumes "pd_inv p" "pd_room p k" "k' \<noteq> k"
  shows "od_get (pd_state (pd_fail p k t)) k' = od_get (pd_state p) k'"
proof (cases "pd_raises p k t")
  case False
  let ?q = "fst (pd_get p k t)"
  have inv: "od_ok (pd_state ?q)" using pd_get_inv [OF assms(1), of k t] by (simp add: pd_inv_def)
  have "od_get (pd_state ?q) k \<noteq> None \<or> length (pd_state ?q) < pd_max_keys ?q"
  proof (rule disjCI)
    assume "\<not> length (pd_state ?q) < pd_max_keys ?q"
    then have "card (insert k (pd_keys p)) \<le> card (pd_keys ?q)"
      using assms(2) inv by (simp add: pd_room_def length_keys pd_keys_def pd_get_config)
    moreover have "card (pd_keys ?q) < card (insert k (pd_keys p))" if "k \<notin> pd_keys ?q"
      using that pd_get_keys [of p k t] by (intro psubset_card_mono) (auto simp: pd_keys_def)
    ultimately show "od_get (pd_state ?q) k \<noteq> None"
      by (auto simp: od_get_None_iff pd_keys_def)
  qed
  then have "pd_state (pd_fail p k t) = od_move_to_end (od_set (pd_state ?q) k
      (Suc (fst (pd_entry p k t)), t + pd_wait p (Suc (fst (pd_entry p k t))), t)) k"
    using False by (auto simp: pd_fail_eq Let_def)
  with inv assms(3) show ?thesis by (simp add: pd_get_other)
qed (simp add: pd_fail_raises)

definition pd_delay :: "ProgressiveDelay \<Rightarrow> pystr \<Rightarrow> int \<Rightarrow> int" where
  "pd_delay p k now = snd (pd_delay_for p k now)"

lemma pd_delay_eq:
  "pd_delay p k now =
    (case od_get (pd_state p) k of None \<Rightarrow> max 0 (- now)
     | Some (n, nxt, at) \<Rightarrow> if now - at > pd_forget p then max 0 (- now) else max 0 (nxt - now))"
  by (auto simp: pd_delay_def pd_delay_for_def pd_get_def split: option.splits)

subsection \<open>The contract a client of the store relies on\<close>

locale delay_store =
  fixes inv :: "'s \<Rightarrow> bool" and keys :: "'s \<Rightarrow> 'k set" and size :: "'s \<Rightarrow> nat"
    and delay :: "'s \<Rightarrow> 'k \<Rightarrow> int \<Rightarrow> int" and fail :: "'s \<Rightarrow> 'k \<Rightarrow> int \<Rightarrow> 's"
  assumes fail_inv: "inv s \<Longrightarrow> inv (fail s k t)"
    and fail_size: "size (fail s k t) = size s"
    and fail_keys: "keys (fail s k t) \<subseteq> insert k (keys s)"
    and keys_finite: "inv s \<Longrightarrow> finite (keys s)"
    and fail_other: "inv s \<Longrightarrow> card (insert k (keys s)) \<le> size s \<Longrightarrow> k' \<noteq> k \<Longrightarrow>
      delay (fail s k t) k' t' = delay s k' t'"
begin

definition fails :: "'s \<Rightarrow> ('k \<times> int) list \<Rightarrow> 's" where
  "fails s es = foldl (\<lambda>s (k, t). fail s k t) s es"

lemma fails_simps: "fails s [] = s" "fails s ((k, t) # es) = fails (fail s k t) es"
  by (simp_all add: fails_def)

lemma fails_inv: "inv s \<Longrightarrow> inv (fails s es)"
  by (induction es arbitrary: s) (auto simp: fails_simps fail_inv)

lemma fails_isolated:
  "inv s \<Longrightarrow> card (keys s \<union> fst ` set es) \<le> size s \<Longrightarrow> k' \<notin> fst ` set es \<Longrightarrow>
   delay (fails s es) k' t' = delay s k' t'"
proof (induction es arbitrary: s)
  case (Cons e es)
  obtain k t where e: "e = (k, t)" by (cases e)
  let ?A = "keys s \<union> fst ` set (e # es)"
  have fin: "finite ?A" using Cons.prems(1) by (simp add: keys_finite)
  have "card (insert k (keys s)) \<le> card ?A" by (rule card_mono [OF fin]) (auto simp: e)
  then have step: "delay (fail s k t) k' t' = delay s k' t'"
    using Cons.prems by (intro fail_other) (auto simp: e)
  have "card (keys (fail s k t) \<union> fst ` set es) \<le> card ?A"
    by (rule card_mono [OF fin]) (use fail_keys [of s k t] in \<open>auto simp: e\<close>)
  then have "delay (fails (fail s k t) es) k' t' = delay (fail s k t) k' t'"
    using Cons.prems by (intro Cons.IH) (auto simp: fail_inv fail_size)
  with step show ?case by (simp add: e fails_simps)
qed (simp add: fails_simps)

end

interpretation pd: delay_store pd_inv pd_keys pd_max_keys pd_delay pd_fail
proof unfold_locales
  fix s :: ProgressiveDelay and k k' :: pystr and t t' :: int
  assume "pd_inv s" "card (insert k (pd_keys s)) \<le> pd_max_keys s" "k' \<noteq> k"
  then show "pd_delay (pd_fail s k t) k' t' = pd_delay s k' t'"
    by (simp add: pd_delay_eq pd_fail_other pd_room_def pd_fail_config split: option.splits)
qed (auto simp: pd_fail_inv pd_fail_config pd_keys_def dest: pd_fail_keys [THEN subsetD, unfolded pd_keys_def])

subsection \<open>Growth of the delay\<close>

fun gaps_within :: "int \<Rightarrow> int list \<Rightarrow> bool" where
  "gaps_within d (a # b # ts) \<longleftrightarrow> b - a \<le> d \<and> gaps_within d (b # ts)"
| "gaps_within d ts \<longleftrightarrow> True"

fun pd_failures :: "ProgressiveDelay \<Rightarrow> pystr \<Rightarrow> int list \<Rightarrow> ProgressiveDelay" where
  "pd_failures p key [] = p"
| "pd_failures p key (t # ts) = pd_failures (fst (pd_failure p key t)) key ts"

lemma pd_failures_fail: "pd_failures p key (t # ts) = pd_failures (pd_fail p key t) key ts"
  by (simp add: pd_fail_def)

lemma pd_failures_config: "pd_forget (pd_failures p key ts) = pd_forget p" "pd_free (pd_failures p key ts) = pd_free p"
  by (induction ts arbitrary: p) (simp_all add: pd_failures_fail pd_fail_config del: pd_failures.simps(2))

lemma pd_failures_inv: "pd_inv p \<Longrightarrow> pd_inv (pd_failures p key ts)"
  by (induction ts arbitrary: p) (simp_all add: pd_failures_fail pd_fail_inv del: pd_failures.simps(2))

lemma pd_failures_entry:
  "pd_inv p \<Longrightarrow> fst (pd_entry p key (hd ts)) = n \<Longrightarrow> gaps_within (pd_forget p) ts \<Longrightarrow>
   ts \<noteq> [] \<Longrightarrow> n + length ts \<le> pd_free p + 1024 \<Longrightarrow> od_get (pd_state (pd_failures p key ts)) key =
     Some (n + length ts, last ts + pd_wait p (n + length ts), last ts)"
proof (induction ts arbitrary: p n)
  case (Cons t ts)
  have no: "\<not> pd_raises p key t" using Cons.prems(2,5) by (auto simp: pd_raises_def pd_overflow_def)
  have self: "od_get (pd_state (pd_fail p key t)) key = Some (Suc n, t + pd_wait p (Suc n), t)"
    using pd_fail_self [OF Cons.prems(1) no] Cons.prems(2) by simp
  show ?case
  proof (cases "ts = []")
    case True
    with self show ?thesis by (simp add: pd_fail_def)
  next
    case False
    then obtain t' ts' where ts: "ts = t' # ts'" by (cases ts) auto
    have "fst (pd_entry (pd_fail p key t) key (hd ts)) = Suc n"
      using Cons.prems(3) self by (simp add: pd_entry_def pd_get_def ts pd_fail_config)
    from Cons.IH [OF pd_fail_inv [OF Cons.prems(1)] this _ False] Cons.prems(3,5) False show ?thesis
      by (simp add: pd_failures_fail pd_fail_config ts del: pd_failures.simps(2))
  qed
qed simp

lemma pd_failures_fresh:
  assumes "pd_inv p" "od_get (pd_state p) key = None" "ts \<noteq> []" "gaps_within (pd_forget p) ts"
    "length ts \<le> pd_free p + 1024"
  shows "od_get (pd_state (pd_failures p key ts)) key =
    Some (length ts, last ts + pd_wait p (length ts), last ts)"
  using pd_failures_entry [OF assms(1) _ assms(4,3), of key 0] assms(2,5) by (simp add: pd_entry_def pd_get_def)

text \<open>Consecutive failures of a key: the first \<open>free\<close> cost nothing, then the wait doubles from
  \<open>base\<close> up to \<open>cap\<close>, counted from the last failure; \<open>forget\<close> without a failure clears the key.\<close>

theorem progressive_delay_growth:
  assumes "pd_inv p" "od_get (pd_state p) key = None" "ts \<noteq> []" "gaps_within (pd_forget p) ts"
    "length ts \<le> pd_free p + 1024" "0 \<le> now"
  shows "snd (pd_delay_for (pd_failures p key ts) key now) =
    (if now - last ts > pd_forget p then 0
     else max 0 (last ts + (if length ts \<le> pd_free p then 0
                            else min (pd_cap p) (pd_base p * 2 ^ (length ts - pd_free p - 1))) - now))"
  using pd_failures_fresh [OF assms(1-5)] assms(6)
  by (simp add: pd_delay_def [symmetric] pd_delay_eq pd_wait_def pd_failures_config)

theorem progressive_delay_growth_witness:
  "snd (pd_delay_for (pd_failures (ProgressiveDelay_init 1 30 1 900 10) (u ''k'') [0, 1, 2, 3]) (u ''k'') 4) =
   (if 4 - 3 > (900::int) then 0 else max 0 (3 + min 30 (1 * 2 ^ 2) - 4))"
  using progressive_delay_growth [of "ProgressiveDelay_init 1 30 1 900 10" "u ''k''" "[0, 1, 2, 3]" 4]
  by (simp add: ProgressiveDelay_init_def pd_inv_def)

text \<open>After \<open>free + 1024\<close> failures of a key with no pause longer than \<open>forget\<close>, the next failure
  is not recorded: it raises \<open>OverflowError\<close> and leaves the store, and so the delay, as it was.\<close>

theorem progressive_delay_overflow:
  assumes "pd_inv p" "od_get (pd_state p) key = None" "gaps_within (pd_forget p) ts"
    "length ts = pd_free p + 1024" "now - last ts \<le> pd_forget p"
  shows "pd_failure (pd_failures p key ts) key now = (pd_failures p key ts, Some OverflowError)"
proof -
  let ?p = "pd_failures p key ts"
  have "ts \<noteq> []" using assms(4) by auto
  from pd_failures_fresh [OF assms(1,2) this assms(3)] assms(4)
  have "od_get (pd_state ?p) key = Some (length ts, last ts + pd_wait p (length ts), last ts)" by simp
  then have "pd_raises ?p key now"
    using assms(4,5) by (simp add: pd_raises_def pd_overflow_def pd_entry_def pd_get_def pd_failures_config)
  then show ?thesis by (simp add: prod_eq_iff pd_failure_exc pd_fail_raises flip: pd_fail_def)
qed

lemma gaps_within_upt: "1 \<le> d \<Longrightarrow> gaps_within d (map int [m..<n])"
proof (induction "n - m" arbitrary: m)
  case (Suc k)
  then have "map int [m..<n] = int m # map int [Suc m..<n]" by (simp add: upt_conv_Cons)
  moreover have "gaps_within d (map int [Suc m..<n])" using Suc by simp
  ultimately show ?case
    using Suc.prems by (cases "Suc m < n") (auto simp: upt_conv_Cons)
qed simp

theorem progressive_delay_overflow_witness:
  "pd_failure (pd_failures (ProgressiveDelay_init 1 30 3 900 10) (u ''k'') (map int [0..<1027])) (u ''k'') 1500 =
   (pd_failures (ProgressiveDelay_init 1 30 3 900 10) (u ''k'') (map int [0..<1027]), Some OverflowError)"
  by (rule progressive_delay_overflow)
    (simp_all only: ProgressiveDelay_init_def pd_inv_def, simp_all add: gaps_within_upt last_map)

section \<open>The guess guard\<close>

lemma pd_delay_fst: "snd (pd_delay_for p k now) = pd_delay p k now"
  by (simp add: pd_delay_def)

lemma pd_delay_for_fst: "fst (pd_delay_for p k now) = fst (pd_get p k now)"
  by (simp add: pd_delay_for_def case_prod_unfold Let_def)

lemma pd_delay_absent: "k \<notin> pd_keys p \<Longrightarrow> 0 \<le> now \<Longrightarrow> pd_delay p k now = 0"
  by (simp add: pd_delay_eq pd_keys_def od_get_None_iff [THEN iffD2])

definition live_sources :: "GuessGuard \<Rightarrow> pystr \<Rightarrow> int \<Rightarrow> (pystr, int) odict" where
  "live_sources g identity now =
     (case od_get (gg_sources g) identity of None \<Rightarrow> [] | Some s \<Rightarrow> filter (\<lambda>(_, at). now - at \<le> gg_window g) s)"

lemma failing_sources_snd: "snd (failing_sources g i now) = live_sources g i now"
  by (auto simp: failing_sources_def live_sources_def not_less Let_def split: option.splits)

lemma failing_sources_fields:
  "gg_pair (fst (failing_sources g i now)) = gg_pair g" "gg_identity (fst (failing_sources g i now)) = gg_identity g"
  "gg_spread (fst (failing_sources g i now)) = gg_spread g" "gg_window (fst (failing_sources g i now)) = gg_window g"
  "gg_max_keys (fst (failing_sources g i now)) = gg_max_keys g"
  by (auto simp: failing_sources_def Let_def split: option.splits)

lemma live_sources_pair [simp]: "live_sources (g\<lparr>gg_pair := p\<rparr>) i now = live_sources g i now"
  by (simp add: live_sources_def split: option.splits)

lemma failing_sources_pair:
  "fst (failing_sources (g\<lparr>gg_pair := p\<rparr>) i now) = (fst (failing_sources g i now))\<lparr>gg_pair := p\<rparr>"
  by (auto simp: failing_sources_def Let_def split: option.splits)

definition gg_delay :: "GuessGuard \<Rightarrow> pystr \<Rightarrow> pystr \<Rightarrow> int \<Rightarrow> int" where
  "gg_delay g identity source now = snd (gg_delay_for g identity source now)"

lemma gg_delay_eq:
  "gg_delay g i s now =
    (let w = pd_delay (gg_pair g) (gg_pair_key i s) now
     in if gg_spread g \<le> length (live_sources g i now) then max w (pd_delay (gg_identity g) i now) else w)"
  by (simp add: gg_delay_def gg_delay_for_def Let_def case_prod_unfold failing_sources_snd failing_sources_fields
      pd_delay_fst)

text \<open>The identity's failing sources after one more failure.\<close>

definition next_sources :: "GuessGuard \<Rightarrow> pystr \<Rightarrow> pystr \<Rightarrow> int \<Rightarrow> (pystr, int) odict" where
  "next_sources g identity source now =
     (let s = od_set (live_sources g identity now) source now
      in if gg_spread g * 4 < length s then od_del s (fst (oldest_source s)) else s)"

definition gg_fail :: "GuessGuard \<Rightarrow> pystr \<Rightarrow> pystr \<Rightarrow> int \<Rightarrow> GuessGuard" where
  "gg_fail g identity source now = fst (gg_failure g identity source now)"

lemma gg_fail_pair: "gg_pair (gg_fail g i s now) = pd_fail (gg_pair g) (gg_pair_key i s) now"
  by (auto simp: gg_fail_def gg_failure_def pd_fail_def Let_def case_prod_unfold failing_sources_fields split: option.splits)

lemma gg_fail_config:
  "gg_spread (gg_fail g i s now) = gg_spread g" "gg_window (gg_fail g i s now) = gg_window g"
  "gg_max_keys (gg_fail g i s now) = gg_max_keys g"
  by (auto simp: gg_fail_def gg_failure_def Let_def case_prod_unfold failing_sources_fields split: option.splits)

lemma gg_fail_identity:
  "gg_identity (gg_fail g i s now) =
    (if \<not> pd_raises (gg_pair g) (gg_pair_key i s) now \<and> gg_spread g \<le> length (next_sources g i s now)
     then pd_fail (gg_identity g) i now else gg_identity g)"
  using pd_failure_exc [of "gg_pair g" "gg_pair_key i s" now]
  by (auto simp: gg_fail_def gg_failure_def pd_fail_def Let_def case_prod_unfold failing_sources_fields
      failing_sources_snd next_sources_def split: option.splits)

definition gg_room :: "GuessGuard \<Rightarrow> pystr \<Rightarrow> int \<Rightarrow> (pystr, (pystr, int) odict) odict" where
  "gg_room g identity now =
     (let d = gg_sources (fst (failing_sources g identity now))
      in if od_get d identity = None \<and> length d \<ge> gg_max_keys g then od_popfirst d else d)"

lemma gg_fail_sources:
  "gg_sources (gg_fail g i s now) =
    (if pd_raises (gg_pair g) (gg_pair_key i s) now then gg_sources g
     else od_move_to_end (od_set (gg_room g i now) i (next_sources g i s now)) i)"
  using pd_failure_exc [of "gg_pair g" "gg_pair_key i s" now]
  by (auto simp: gg_fail_def gg_failure_def Let_def case_prod_unfold failing_sources_fields
      failing_sources_snd failing_sources_pair next_sources_def gg_room_def split: option.splits)

lemma gg_failure_exc:
  "snd (gg_failure g i s now) =
    (if pd_raises (gg_pair g) (gg_pair_key i s) now then Some OverflowError
     else if gg_spread g \<le> length (next_sources g i s now) \<and> pd_raises (gg_identity g) i now then Some OverflowError
     else None)"
  using pd_failure_exc [of "gg_pair g" "gg_pair_key i s" now] pd_failure_exc [of "gg_identity g" i now]
  by (auto simp: gg_failure_def Let_def case_prod_unfold failing_sources_fields failing_sources_snd
      next_sources_def split: option.splits)

subsection \<open>Reachable guards\<close>

text \<open>What holds of a store at time \<open>now\<close>: the invariant, and no entry newer than \<open>now\<close> or with a
  wait above the cap.\<close>

definition pd_timely :: "ProgressiveDelay \<Rightarrow> int \<Rightarrow> bool" where
  "pd_timely p now \<longleftrightarrow> pd_inv p \<and> 0 \<le> pd_base p \<and> 0 \<le> pd_cap p \<and>
     (\<forall>k n nxt at. od_get (pd_state p) k = Some (n, nxt, at) \<longrightarrow> at \<le> now \<and> nxt \<le> at + pd_cap p)"

lemma pd_wait_bounds: "0 \<le> pd_base p \<Longrightarrow> 0 \<le> pd_cap p \<Longrightarrow> 0 \<le> pd_wait p n \<and> pd_wait p n \<le> pd_cap p"
  by (simp add: pd_wait_def)

lemma pd_timely_mono: "pd_timely p t \<Longrightarrow> t \<le> t' \<Longrightarrow> pd_timely p t'"
  unfolding pd_timely_def by (meson order_trans)

lemma pd_timely_get: "pd_timely p t \<Longrightarrow> pd_timely (fst (pd_get p k t')) t"
  using pd_get_inv [of p k t']
  by (auto simp: pd_timely_def pd_get_def split: option.splits if_splits)

lemma pd_timely_success: "pd_timely p t \<Longrightarrow> pd_timely (pd_success p k) t"
  using length_od_del_le [of "pd_state p" k]
  by (auto simp: pd_timely_def pd_success_def pd_inv_def split: if_splits)

lemma pd_timely_clear: "pd_timely p t \<Longrightarrow> pd_timely (p\<lparr>pd_state := []\<rparr>) t"
  by (auto simp: pd_timely_def pd_inv_def)

lemma pd_fail_lookup:
  "pd_inv p \<Longrightarrow> k' \<noteq> k \<Longrightarrow> od_get (pd_state (pd_fail p k t)) k' = Some v \<Longrightarrow> od_get (pd_state p) k' = Some v"
  using pd_get_inv [of p k t] pd_get_other [of k' k p t]
  by (cases "pd_raises p k t")
    (auto simp: pd_fail_raises pd_fail_eq Let_def pd_inv_def od_get_popfirst split: if_splits)

lemma pd_timely_fail:
  assumes "pd_timely p t"
  shows "pd_timely (pd_fail p k t) t"
proof (cases "pd_raises p k t")
  case False
  have inv: "pd_inv p" and b: "0 \<le> pd_base p" "0 \<le> pd_cap p" using assms by (auto simp: pd_timely_def)
  have "at \<le> t \<and> nxt \<le> at + pd_cap p" if "od_get (pd_state (pd_fail p k t)) k' = Some (n, nxt, at)" for k' n nxt at
  proof (cases "k' = k")
    case True
    with that pd_fail_self [OF inv False] pd_wait_bounds [OF b] show ?thesis by auto
  next
    case False
    from pd_fail_lookup [OF inv this that] assms show ?thesis by (auto simp: pd_timely_def)
  qed
  with inv b show ?thesis by (auto simp: pd_timely_def pd_fail_config pd_fail_inv)
qed (simp add: assms pd_fail_raises)

lemma pd_delay_bounds: "pd_timely p t \<Longrightarrow> t \<le> now \<Longrightarrow> 0 \<le> now \<Longrightarrow> 0 \<le> pd_delay p k now \<and> pd_delay p k now \<le> pd_cap p"
  by (fastforce simp: pd_timely_def pd_delay_eq split: option.splits)

lemma pd_init_timely: "0 \<le> b \<Longrightarrow> 0 \<le> c \<Longrightarrow> 0 < m \<Longrightarrow> pd_timely (ProgressiveDelay_init b c f w m) t"
  by (simp add: pd_timely_def pd_inv_def ProgressiveDelay_init_def)

inductive gg_reach :: "nat \<Rightarrow> int \<Rightarrow> nat \<Rightarrow> int \<Rightarrow> nat \<Rightarrow> GuessGuard \<Rightarrow> int \<Rightarrow> bool"
  for free cap spread win max_keys where
  gg_start: "gg_reach free cap spread win max_keys (GuessGuard_init free cap spread win max_keys) t"
| gg_ask: "gg_reach free cap spread win max_keys g t \<Longrightarrow> t \<le> t' \<Longrightarrow>
    gg_reach free cap spread win max_keys (fst (gg_delay_for g i s t')) t'"
| gg_wrong: "gg_reach free cap spread win max_keys g t \<Longrightarrow> t \<le> t' \<Longrightarrow>
    gg_reach free cap spread win max_keys (fst (gg_failure g i s t')) t'"
| gg_right: "gg_reach free cap spread win max_keys g t \<Longrightarrow>
    gg_reach free cap spread win max_keys (gg_success g i s) t"
| gg_wipe: "gg_reach free cap spread win max_keys g t \<Longrightarrow>
    gg_reach free cap spread win max_keys (gg_clear g) t"

inductive_cases gg_reachE: "gg_reach free cap spread win max_keys g t"

definition sources_ok :: "nat \<Rightarrow> nat \<Rightarrow> (pystr, (pystr, int) odict) odict \<Rightarrow> bool" where
  "sources_ok spread max_keys d \<longleftrightarrow> od_ok d \<and> length d \<le> max_keys \<and>
     (\<forall>i s. od_get d i = Some s \<longrightarrow> od_ok s \<and> length s \<le> 4 * spread)"

definition gg_ok :: "int \<Rightarrow> nat \<Rightarrow> nat \<Rightarrow> GuessGuard \<Rightarrow> int \<Rightarrow> bool" where
  "gg_ok cap spread max_keys g t \<longleftrightarrow>
     pd_timely (gg_pair g) t \<and> pd_timely (gg_identity g) t \<and> pd_cap (gg_pair g) = cap \<and> pd_cap (gg_identity g) = cap \<and>
     pd_max_keys (gg_pair g) = max_keys \<and> pd_max_keys (gg_identity g) = max_keys \<and>
     gg_spread g = spread \<and> gg_max_keys g = max_keys \<and> 0 < max_keys \<and> sources_ok spread max_keys (gg_sources g)"

lemma length_od_set_present: "od_get d k = Some v \<Longrightarrow> length (od_set d k v') = length d"
  by (auto simp: length_od_set dest: od_get_Some_in)

lemma od_ok_filter: "od_ok d \<Longrightarrow> od_ok (filter P d)"
  unfolding od_ok_def by (induction d) auto

lemma live_sources_ok: "sources_ok (gg_spread g) m (gg_sources g) \<Longrightarrow>
    od_ok (live_sources g i now) \<and> length (live_sources g i now) \<le> 4 * gg_spread g"
  by (auto simp: live_sources_def sources_ok_def od_ok_filter intro: order_trans [OF length_filter_le] split: option.splits)

lemma failing_sources_ok:
  assumes "sources_ok (gg_spread g) m (gg_sources g)"
  shows "sources_ok (gg_spread g) m (gg_sources (fst (failing_sources g i now)))"
proof (cases "od_get (gg_sources g) i")
  case (Some s)
  with live_sources_ok [OF assms, of i now] assms show ?thesis
    by (auto simp: failing_sources_def live_sources_def sources_ok_def Let_def length_od_set_present not_less)
qed (simp add: assms failing_sources_def)

lemma od_get_in_set: "od_get d k = Some v \<Longrightarrow> (k, v) \<in> set d"
  by (simp add: od_get_def map_of_SomeD)

lemma oldest_source_mem: "s \<noteq> [] \<Longrightarrow> oldest_source s \<in> set s"
  by (induction s rule: oldest_source.induct) (auto simp: Let_def)

lemma length_od_del_less: "x \<in> set d \<Longrightarrow> length (od_del d (fst x)) < length d"
  unfolding od_del_def by (rule length_filter_less) auto

lemma next_sources_ok:
  assumes "sources_ok (gg_spread g) m (gg_sources g)"
  shows "od_ok (next_sources g i s now) \<and> length (next_sources g i s now) \<le> 4 * gg_spread g"
proof -
  let ?s = "od_set (live_sources g i now) s now"
  have "length (od_del ?s (fst (oldest_source ?s))) < length ?s"
    by (intro length_od_del_less oldest_source_mem) simp
  moreover have "length ?s \<le> Suc (4 * gg_spread g)"
    using live_sources_ok [OF assms, of i now] by (auto simp: length_od_set)
  ultimately show ?thesis
    using live_sources_ok [OF assms, of i now] by (auto simp: next_sources_def Let_def)
qed

lemma gg_room_ok:
  assumes "sources_ok (gg_spread g) (gg_max_keys g) (gg_sources g)" "0 < gg_max_keys g"
  shows "od_ok (gg_room g i now)" "length (od_set (gg_room g i now) i s) \<le> gg_max_keys g"
    "od_get (gg_room g i now) j = Some x \<Longrightarrow> od_ok x \<and> length x \<le> 4 * gg_spread g"
  using failing_sources_ok [OF assms(1), of i now] assms(2)
  using set_od_keys_popfirst [of "gg_sources (fst (failing_sources g i now))"]
  by (auto simp: gg_room_def sources_ok_def Let_def od_get_popfirst length_od_set od_get_None_iff
      dest: od_get_Some_in split: if_splits)

lemma gg_fail_sources_ok:
  assumes "sources_ok (gg_spread g) (gg_max_keys g) (gg_sources g)" "0 < gg_max_keys g"
  shows "sources_ok (gg_spread g) (gg_max_keys g) (gg_sources (gg_fail g i s now))"
  using next_sources_ok [OF assms(1), of i s now] gg_room_ok [OF assms, of i now] assms(1)
  by (auto simp: gg_fail_sources sources_ok_def split: if_splits)

lemma gg_fail_ok: "gg_ok cap spread m g t \<Longrightarrow> gg_ok cap spread m (gg_fail g i s t) t"
  using gg_fail_sources_ok [of g i s t]
  by (auto simp: gg_ok_def gg_fail_pair gg_fail_identity gg_fail_config pd_timely_fail pd_fail_config)

lemma gg_delay_for_ok: "gg_ok cap spread m g t \<Longrightarrow> gg_ok cap spread m (fst (gg_delay_for g i s t)) t"
  using failing_sources_ok [of "g\<lparr>gg_pair := fst (pd_get (gg_pair g) (gg_pair_key i s) t)\<rparr>" m i t]
  by (auto simp: gg_ok_def gg_delay_for_def Let_def case_prod_unfold failing_sources_fields pd_delay_for_fst
      pd_timely_get pd_get_config)

lemma gg_reach_ok:
  "gg_reach free cap spread win m g t \<Longrightarrow> 0 \<le> cap \<Longrightarrow> 0 < m \<Longrightarrow> gg_ok cap spread m g t"
proof (induction rule: gg_reach.induct)
  case (gg_start t)
  then show ?case
    by (simp add: gg_ok_def GuessGuard_init_def pd_init_timely second_def sources_ok_def)
      (simp add: ProgressiveDelay_init_def)
next
  case (gg_ask g t t' i s)
  then have "gg_ok cap spread m g t'" by (auto simp: gg_ok_def intro: pd_timely_mono)
  then show ?case by (rule gg_delay_for_ok)
next
  case (gg_wrong g t t' i s)
  then have "gg_ok cap spread m g t'" by (auto simp: gg_ok_def intro: pd_timely_mono)
  then show ?case using gg_fail_ok by (simp add: gg_fail_def)
next
  case (gg_right g t i s)
  then show ?case by (simp add: gg_ok_def gg_success_def pd_timely_success) (simp add: pd_success_def)
next
  case (gg_wipe g t)
  then show ?case by (simp add: gg_ok_def gg_clear_def pd_timely_clear sources_ok_def)
qed

text \<open>In every state the guard can reach, by any calls in the order of time, a wait is never
  negative and never above the cap, the three dictionaries hold at most \<open>max_keys\<close> keys and no
  identity has more than four times \<open>spread\<close> failing sources.\<close>

theorem guess_guard_bounded:
  assumes "gg_reach free cap spread win max_keys g t" "0 \<le> cap" "0 < max_keys" "t \<le> now" "0 \<le> now"
  shows "0 \<le> snd (gg_delay_for g identity source now) \<and> snd (gg_delay_for g identity source now) \<le> cap \<and>
    length (pd_state (gg_pair g)) \<le> max_keys \<and> length (pd_state (gg_identity g)) \<le> max_keys \<and>
    length (gg_sources g) \<le> max_keys \<and>
    (\<forall>s. od_get (gg_sources g) identity = Some s \<longrightarrow> length s \<le> 4 * spread)"
proof -
  note ok = gg_reach_ok [OF assms(1-3)]
  then have "0 \<le> gg_delay g identity source now \<and> gg_delay g identity source now \<le> cap"
    using pd_delay_bounds [of "gg_pair g" t now] pd_delay_bounds [of "gg_identity g" t now] assms(4,5)
    by (simp add: gg_ok_def gg_delay_eq Let_def le_max_iff_disj)
  with ok show ?thesis by (auto simp: gg_delay_def gg_ok_def pd_timely_def pd_inv_def sources_ok_def)
qed

theorem guess_guard_bounded_witness:
  "let g = fst (gg_failure (GuessGuard_init 0 30 2 900 10) (u ''bob'') (u ''10.0.0.1'') 5) in
   0 \<le> snd (gg_delay_for g (u ''bob'') (u ''10.0.0.1'') 6) \<and> snd (gg_delay_for g (u ''bob'') (u ''10.0.0.1'') 6) \<le> 30"
  using guess_guard_bounded [OF gg_wrong [OF gg_start [of 0 30 2 900 10 0], of 5 "u ''bob''" "u ''10.0.0.1''"],
      of 6 "u ''bob''" "u ''10.0.0.1''"]
  by (simp add: Let_def)

subsection \<open>One source cannot lock out another\<close>

fun gg_failures :: "GuessGuard \<Rightarrow> (pystr \<times> pystr \<times> int) list \<Rightarrow> GuessGuard" where
  "gg_failures g [] = g"
| "gg_failures g ((i, s, t) # es) = gg_failures (fst (gg_failure g i s t)) es"

definition sources_of :: "pystr \<Rightarrow> (pystr \<times> pystr \<times> int) list \<Rightarrow> pystr set" where
  "sources_of identity es = {s. \<exists>t. (identity, s, t) \<in> set es}"

lemma finite_sources_of: "finite (sources_of i es)"
  by (rule finite_subset [of _ "(\<lambda>(i, s, t). s) ` set es"]) (force simp: sources_of_def)+

lemma takeWhile_pair_key: "0 \<notin> set i \<Longrightarrow> takeWhile (\<lambda>c. c \<noteq> 0) (gg_pair_key i s) = i"
  unfolding gg_pair_key_def by (induction i) auto

lemma pair_key_inject: "0 \<notin> set i \<Longrightarrow> 0 \<notin> set j \<Longrightarrow> gg_pair_key i s = gg_pair_key j s' \<longleftrightarrow> i = j \<and> s = s'"
  by (metis takeWhile_pair_key append_same_eq gg_pair_key_def same_append_eq)

definition tracked :: "GuessGuard \<Rightarrow> pystr \<Rightarrow> pystr set" where
  "tracked g i = (case od_get (gg_sources g) i of None \<Rightarrow> {} | Some s \<Rightarrow> set (od_keys s))"

lemma live_sources_tracked: "set (od_keys (live_sources g i now)) \<subseteq> tracked g i"
  by (auto simp: live_sources_def tracked_def od_keys_def split: option.splits)

lemma next_sources_tracked: "set (od_keys (next_sources g i s now)) \<subseteq> insert s (tracked g i)"
  using live_sources_tracked [of g i now] by (auto simp: next_sources_def Let_def od_keys_del)

lemma gg_room_tracked:
  assumes "od_ok (gg_sources g)" "od_get (gg_room g i now) j = Some x" "j \<noteq> i"
  shows "set (od_keys x) \<subseteq> tracked g j"
  using assms
  by (auto simp: gg_room_def failing_sources_def tracked_def Let_def od_get_popfirst split: option.splits if_splits)

lemma gg_fail_tracked:
  assumes "sources_ok (gg_spread g) (gg_max_keys g) (gg_sources g)" "0 < gg_max_keys g"
  shows "tracked (gg_fail g i s now) j \<subseteq> (if j = i then insert s (tracked g j) else tracked g j)"
proof -
  have "od_ok (gg_sources g)" using assms(1) by (simp add: sources_ok_def)
  with next_sources_tracked [of g i s now] gg_room_tracked [of g i now j] gg_room_ok [OF assms, of i now]
  show ?thesis
    by (auto simp: tracked_def [of "gg_fail _ _ _ _"] gg_fail_sources split: option.splits if_splits)
       (simp_all add: tracked_def)
qed

lemma gg_failures_keys:
  assumes "sources_ok (gg_spread g) (gg_max_keys g) (gg_sources g)" "0 < gg_max_keys g"
  shows "pd_keys (gg_pair (gg_failures g es)) \<subseteq> pd_keys (gg_pair g) \<union> {gg_pair_key i s |i s. s \<in> sources_of i es} \<and>
    tracked (gg_failures g es) j \<subseteq> tracked g j \<union> sources_of j es \<and>
    sources_ok (gg_spread g) (gg_max_keys g) (gg_sources (gg_failures g es)) \<and>
    gg_spread (gg_failures g es) = gg_spread g"
  using assms
proof (induction es arbitrary: g)
  case (Cons e es)
  obtain i s t where e: "e = (i, s, t)" by (cases e)
  let ?g = "gg_fail g i s t"
  have fs: "gg_failures g (e # es) = gg_failures ?g es" by (simp add: e gg_fail_def)
  note IH = Cons.IH [of ?g, unfolded gg_fail_config, OF gg_fail_sources_ok [OF Cons.prems] Cons.prems(2)]
  have so: "sources_of k es \<subseteq> sources_of k (e # es)" "s \<in> sources_of i (e # es)" for k
    by (auto simp: e sources_of_def)
  have "pd_keys (gg_pair ?g) \<subseteq> insert (gg_pair_key i s) (pd_keys (gg_pair g))"
    by (simp add: gg_fail_pair pd_fail_keys)
  then have "pd_keys (gg_pair (gg_failures ?g es))
      \<subseteq> pd_keys (gg_pair g) \<union> {gg_pair_key i s |i s. s \<in> sources_of i (e # es)}"
    using IH so by blast
  moreover have "tracked (gg_failures ?g es) j \<subseteq> tracked g j \<union> sources_of j (e # es)"
    using IH gg_fail_tracked [OF Cons.prems, of i s t j] so(1) [of j] so(2) by (cases "j = i") auto
  ultimately show ?case using IH by (simp add: fs)
qed auto

lemma init_sources_ok: "sources_ok spread m (gg_sources (GuessGuard_init f c spread w m))"
  by (simp add: GuessGuard_init_def sources_ok_def)

text \<open>Failures from other sources do not slow a source down: unless \<open>spread\<close> different sources
  failed for the identity, a source that never failed for it waits for nothing, however often the
  others failed (identities without a NUL character, which separates the two parts of a key).\<close>

theorem guess_guard_isolates:
  assumes "source \<notin> sources_of identity es" "card (sources_of identity es) < spread"
    "0 \<notin> set identity" "\<And>i s t. (i, s, t) \<in> set es \<Longrightarrow> 0 \<notin> set i" "0 < max_keys" "0 \<le> now"
  shows "snd (gg_delay_for (gg_failures (GuessGuard_init free cap spread win max_keys) es) identity source now) = 0"
proof -
  let ?start = "GuessGuard_init free cap spread win max_keys"
  let ?g = "gg_failures ?start es"
  have cfg: "gg_spread ?start = spread" "gg_max_keys ?start = max_keys" "pd_keys (gg_pair ?start) = {}" "tracked ?start identity = {}"
    by (simp_all add: GuessGuard_init_def pd_keys_def ProgressiveDelay_init_def tracked_def od_keys_def)
  have inv: "pd_keys (gg_pair ?g) \<subseteq> {gg_pair_key i s |i s. s \<in> sources_of i es}"
    "tracked ?g identity \<subseteq> sources_of identity es" "sources_ok spread max_keys (gg_sources ?g)" "gg_spread ?g = spread"
    using gg_failures_keys [of ?start es identity] assms(5) init_sources_ok [of spread max_keys free cap win]
    by (auto simp: cfg)
  have "gg_pair_key identity source \<notin> pd_keys (gg_pair ?g)"
    using inv(1) assms(1,3,4) by (auto simp: pair_key_inject sources_of_def)
  moreover have "length (live_sources ?g identity now) \<le> card (sources_of identity es)"
    using inv live_sources_ok [of ?g max_keys identity now] live_sources_tracked [of ?g identity now]
    by (auto simp: length_keys intro: card_mono finite_sources_of)
  ultimately show ?thesis
    using assms(2,6) inv(4) by (simp add: gg_delay_eq pd_delay_absent flip: gg_delay_def)
qed

theorem guess_guard_isolates_witness:
  "snd (gg_delay_for (gg_failures (GuessGuard_init 0 30 2 900 10) [(u ''bob'', u ''a'', 1), (u ''bob'', u ''a'', 2)])
     (u ''bob'') (u ''b'') 3) = 0"
proof (rule guess_guard_isolates)
  show "card (sources_of (u ''bob'') [(u ''bob'', u ''a'', 1), (u ''bob'', u ''a'', 2)]) < 2"
  proof -
    have "sources_of (u ''bob'') [(u ''bob'', u ''a'', 1), (u ''bob'', u ''a'', 2)] = {u ''a''}"
      by (auto simp: sources_of_def)
    then show ?thesis by simp
  qed
qed (auto simp: sources_of_def u_def)

subsection \<open>A distributed guess is slowed down everywhere\<close>

text \<open>The sources recorded for an identity while failures come in from time \<open>t0\<close> on: all those seen,
  or as many as are kept.\<close>

definition spread_inv :: "GuessGuard \<Rightarrow> pystr \<Rightarrow> int \<Rightarrow> pystr set \<Rightarrow> bool" where
  "spread_inv g i t0 S \<longleftrightarrow>
     (\<exists>s. (od_get (gg_sources g) i = Some s \<or> od_get (gg_sources g) i = None \<and> s = []) \<and>
       (\<forall>(_, at)\<in>set s. t0 \<le> at) \<and> (S \<subseteq> set (od_keys s) \<or> 4 * gg_spread g \<le> length s))"

lemma set_od_set: "set (od_set d k v) \<subseteq> insert (k, v) (set d)"
  by (induction d k v rule: od_set.induct) auto

lemma filter_live: "\<forall>(_, at)\<in>set s. t0 \<le> at \<Longrightarrow> now - t0 \<le> (w :: int) \<Longrightarrow> filter (\<lambda>(_, at). now - at \<le> w) s = s"
  by (rule filter_True) (clarsimp, drule (1) bspec, simp)

lemma spread_inv_live:
  "spread_inv g i t0 S \<Longrightarrow> now - t0 \<le> gg_window g \<Longrightarrow>
   (\<forall>(_, at)\<in>set (live_sources g i now). t0 \<le> at) \<and>
   (S \<subseteq> set (od_keys (live_sources g i now)) \<or> 4 * gg_spread g \<le> length (live_sources g i now))"
  by (auto simp: spread_inv_def live_sources_def filter_live)

lemma length_od_del_key: "od_ok d \<Longrightarrow> length d \<le> Suc (length (od_del d k))"
proof (induction d)
  case (Cons x d)
  obtain a b where x: "x = (a, b)" by (cases x)
  have "od_del d a = d" if "a \<notin> fst ` set d" using that by (force simp: od_del_def intro: filter_True)
  with Cons show ?case by (auto simp: x od_del_def od_ok_def)
qed simp

lemma next_sources_spread:
  assumes "spread_inv g i t0 S" "now - t0 \<le> gg_window g" "t0 \<le> now"
    "sources_ok (gg_spread g) m (gg_sources g)"
  shows "(\<forall>(_, at)\<in>set (next_sources g i s now). t0 \<le> at) \<and>
    (insert s S \<subseteq> set (od_keys (next_sources g i s now)) \<or> 4 * gg_spread g \<le> length (next_sources g i s now))"
proof -
  let ?l = "live_sources g i now"
  let ?s = "od_set ?l s now"
  note live = spread_inv_live [OF assms(1,2)]
  have old: "\<forall>(_, at)\<in>set ?s. t0 \<le> at" using set_od_set [of ?l s now] live assms(3) by fastforce
  have del: "length ?s \<le> Suc (length (od_del ?s k))" for k
    using live_sources_ok [OF assms(4), of i now] by (simp add: length_od_del_key)
  have "length ?l \<le> length ?s" by (simp add: length_od_set)
  with live old del [of "fst (oldest_source ?s)"] show ?thesis
    by (auto simp: next_sources_def Let_def od_del_def mult.commute)
qed

lemma gg_fail_spread:
  assumes "spread_inv g i t0 S" "now - t0 \<le> gg_window g" "t0 \<le> now"
    "sources_ok (gg_spread g) (gg_max_keys g) (gg_sources g)" "0 < gg_max_keys g"
    "\<not> pd_raises (gg_pair g) (gg_pair_key i s) now"
  shows "spread_inv (gg_fail g i s now) i t0 (insert s S)"
  using next_sources_spread [OF assms(1-4), of s] gg_room_ok(1) [OF assms(4,5), of i now] assms(6)
  unfolding spread_inv_def by (simp add: gg_fail_sources gg_fail_config)

definition pd_counts :: "ProgressiveDelay \<Rightarrow> nat \<Rightarrow> bool" where
  "pd_counts p N \<longleftrightarrow> (\<forall>k n nxt at. od_get (pd_state p) k = Some (n, nxt, at) \<longrightarrow> n \<le> N)"

lemma pd_counts_entry: "pd_counts p N \<Longrightarrow> fst (pd_entry p k t) \<le> N"
  by (auto simp: pd_counts_def pd_entry_def pd_get_def split: option.splits)

lemma pd_counts_no_raise: "pd_counts p N \<Longrightarrow> N < 1024 \<Longrightarrow> \<not> pd_raises p k t"
  using pd_counts_entry [of p N k t] by (auto simp: pd_raises_def pd_overflow_def)

lemma pd_counts_Suc: "pd_counts p N \<Longrightarrow> pd_counts p (Suc N)"
  unfolding pd_counts_def by (meson le_SucI)

lemma pd_counts_fail: "pd_inv p \<Longrightarrow> pd_counts p N \<Longrightarrow> pd_counts (pd_fail p k t) (Suc N)"
proof (cases "pd_raises p k t")
  case False
  assume inv: "pd_inv p" and c: "pd_counts p N"
  have "n \<le> Suc N" if "od_get (pd_state (pd_fail p k t)) k' = Some (n, nxt, at)" for k' n nxt at
  proof (cases "k' = k")
    case True
    with that pd_fail_self [OF inv False] pd_counts_entry [OF c, of k t] show ?thesis by auto
  next
    case False
    from pd_fail_lookup [OF inv this that] pd_counts_Suc [OF c] show ?thesis by (auto simp: pd_counts_def)
  qed
  then show ?thesis by (auto simp: pd_counts_def)
qed (simp add: pd_fail_raises pd_counts_Suc)

definition guess_inv :: "int \<Rightarrow> nat \<Rightarrow> int \<Rightarrow> nat \<Rightarrow> GuessGuard \<Rightarrow> pystr \<Rightarrow> int \<Rightarrow> int \<Rightarrow> nat \<Rightarrow> pystr set \<Rightarrow> bool" where
  "guess_inv cap spread win m g i t0 t N S \<longleftrightarrow>
     gg_ok cap spread m g t \<and> spread_inv g i t0 S \<and> pd_counts (gg_pair g) N \<and> pd_counts (gg_identity g) N \<and>
     gg_window g = win \<and> pd_base (gg_identity g) = second \<and> pd_free (gg_identity g) = 0 \<and> pd_forget (gg_identity g) = win"

lemma gg_ok_mono: "gg_ok cap spread m g t \<Longrightarrow> t \<le> t' \<Longrightarrow> gg_ok cap spread m g t'"
  by (auto simp: gg_ok_def intro: pd_timely_mono)

lemma gg_ok_sources: "gg_ok cap spread m g t \<Longrightarrow>
    sources_ok (gg_spread g) (gg_max_keys g) (gg_sources g) \<and> 0 < gg_max_keys g \<and> pd_inv (gg_pair g) \<and> pd_inv (gg_identity g)"
  by (auto simp: gg_ok_def pd_timely_def)

lemma guess_inv_fail:
  assumes inv: "guess_inv cap spread win m g i t0 t N S" and "t \<le> t'" "t' - t0 \<le> win" "t0 \<le> t'" "N < 1024"
  shows "guess_inv cap spread win m (gg_fail g i s t') i t0 t' (Suc N) (insert s S)"
proof -
  have ok: "gg_ok cap spread m g t'" using inv assms(2) by (auto simp: guess_inv_def intro: gg_ok_mono)
  note src = gg_ok_sources [OF ok]
  have c: "pd_counts (gg_pair g) N" "pd_counts (gg_identity g) N" "spread_inv g i t0 S" "gg_window g = win"
    using inv by (auto simp: guess_inv_def)
  then have "spread_inv (gg_fail g i s t') i t0 (insert s S)"
    using gg_fail_spread [of g i t0 S t' s] src assms(3-5) pd_counts_no_raise by simp
  moreover have "pd_counts (gg_identity (gg_fail g i s t')) (Suc N)"
    using src c(2) pd_counts_fail [of "gg_identity g" N] by (simp add: gg_fail_identity pd_counts_Suc)
  moreover have "pd_counts (gg_pair (gg_fail g i s t')) (Suc N)"
    using src c(1) by (simp add: gg_fail_pair pd_counts_fail)
  ultimately show ?thesis
    using inv gg_fail_ok [OF ok, of i s] by (simp add: guess_inv_def gg_fail_config gg_fail_identity pd_fail_config)
qed

lemma gg_failures_append: "gg_failures g (xs @ ys) = gg_failures (gg_failures g xs) ys"
  by (induction g xs rule: gg_failures.induct) auto

lemma guess_inv_failures:
  "guess_inv cap spread win m g i t0 t N S \<Longrightarrow> sorted (t # map snd es) \<Longrightarrow> t0 \<le> t \<Longrightarrow>
   \<forall>(_, t')\<in>set es. t' - t0 \<le> win \<Longrightarrow> N + length es \<le> 1024 \<Longrightarrow>
   guess_inv cap spread win m (gg_failures g (map (Pair i) es)) i t0 (last (t # map snd es)) (N + length es) (S \<union> fst ` set es)"
proof (induction es arbitrary: g t N S)
  case (Cons e es)
  obtain s t' where e: "e = (s, t')" by (cases e)
  have "guess_inv cap spread win m (gg_fail g i s t') i t0 t' (Suc N) (insert s S)"
    using Cons.prems by (intro guess_inv_fail) (auto simp: e)
  from Cons.IH [OF this] Cons.prems show ?case by (simp add: e flip: gg_fail_def)
qed simp

lemma guess_inv_delay:
  assumes inv: "guess_inv cap spread win m g i t0 t N S" and "t \<le> t'" "t' - t0 \<le> win" "t0 \<le> t'" "N < 1024"
    and sp: "spread \<le> card (insert s S)" and fin: "finite S" and win: "0 \<le> win"
  shows "min cap second \<le> gg_delay (gg_fail g i s t') i s' t'"
proof -
  let ?g = "gg_fail g i s t'"
  have ok: "gg_ok cap spread m g t'" using inv assms(2) by (auto simp: guess_inv_def intro: gg_ok_mono)
  note src = gg_ok_sources [OF ok]
  have cfg: "gg_spread g = spread" "gg_window g = win" "pd_cap (gg_identity g) = cap" "pd_forget (gg_identity g) = win"
    "pd_base (gg_identity g) = second" "pd_free (gg_identity g) = 0"
    using inv by (auto simp: guess_inv_def gg_ok_def)
  have no: "\<not> pd_raises (gg_pair g) (gg_pair_key i s) t'" "\<not> pd_raises (gg_identity g) i t'"
    using inv assms(5) pd_counts_no_raise by (auto simp: guess_inv_def)
  have many: "spread \<le> length s2" if "insert s S \<subseteq> set (od_keys s2) \<or> 4 * spread \<le> length s2" for s2 :: "(pystr, int) odict"
    using that
  proof
    assume "insert s S \<subseteq> set (od_keys s2)"
    then have "card (insert s S) \<le> card (set (od_keys s2))" by (intro card_mono) auto
    also have "\<dots> \<le> length s2" by (metis card_length length_map od_keys_def)
    finally show ?thesis using sp by simp
  qed simp
  have "spread_inv g i t0 S" using inv by (simp add: guess_inv_def)
  then have "gg_spread g \<le> length (next_sources g i s t')"
    using next_sources_spread [of g i t0 S t' m s] src cfg assms(3,4) many ok by (auto simp: gg_ok_def)
  then have idf: "gg_identity ?g = pd_fail (gg_identity g) i t'" using no by (simp add: gg_fail_identity)
  have "pd_delay (gg_identity ?g) i t' = pd_wait (gg_identity g) (Suc (fst (pd_entry (gg_identity g) i t')))"
    using pd_fail_self [OF _ no(2)] src ok win cfg pd_wait_bounds [of "gg_identity g"]
    by (simp add: idf pd_delay_eq pd_fail_config gg_ok_def pd_timely_def)
  also have "\<dots> \<ge> min cap second"
  proof -
    have "second * 1 \<le> second * 2 ^ n" for n by (rule mult_left_mono) (simp_all add: second_def)
    then show ?thesis by (simp add: pd_wait_def cfg min.coboundedI2)
  qed
  moreover have "gg_spread ?g \<le> length (live_sources ?g i t')"
    using guess_inv_fail [OF inv assms(2-5), of s] spread_inv_live [of ?g i t0 "insert s S" t'] assms(3) many
    by (auto simp: guess_inv_def gg_fail_config cfg)
  ultimately show ?thesis by (simp add: gg_delay_eq Let_def)
qed

text \<open>A distributed guess: once \<open>spread\<close> different sources failed for an identity within the window,
  every source, also one that never failed, has to wait after the last of these failures (at least
  a second, or the cap).\<close>

theorem guess_guard_spreads:
  assumes "es \<noteq> []" "sorted (map snd es)" "last (map snd es) - hd (map snd es) \<le> win" "spread \<le> card (fst ` set es)"
    "length es \<le> 1024" "0 \<le> cap" "0 < max_keys"
  shows "min cap second \<le>
    snd (gg_delay_for (gg_failures (GuessGuard_init free cap spread win max_keys) (map (Pair identity) es))
      identity source (last (map snd es)))"
proof -
  let ?start = "GuessGuard_init free cap spread win max_keys"
  obtain es' s t where es: "es = es' @ [(s, t)]" using assms(1) by (metis prod.exhaust rev_exhaust)
  let ?t = "hd (map snd es)"
  let ?g = "gg_failures ?start (map (Pair identity) es')"
  have init: "guess_inv cap spread win max_keys ?start identity ?t ?t 0 {}"
    using gg_reach_ok [OF gg_start assms(6,7)]
    by (auto simp: guess_inv_def spread_inv_def pd_counts_def GuessGuard_init_def ProgressiveDelay_init_def)
  have le: "?t \<le> x" "x \<le> t" if "x \<in> set (map snd es)" for x
    using that assms(1,2) by (cases es; auto simp: es sorted_append)+
  have srt: "sorted (?t # map snd es')"
    using assms(2) le(1) by (auto simp: es sorted_append)
  have t: "?t \<le> t" "t - ?t \<le> win" "last (?t # map snd es') \<le> t"
    using le assms(3) srt by (auto simp: es last_map)
  have "guess_inv cap spread win max_keys ?g identity ?t (last (?t # map snd es')) (length es') (fst ` set es')"
    using guess_inv_failures [OF init srt] le t(2) assms(5) by (force simp: es)
  from guess_inv_delay [OF this t(3,2,1), of s source] show ?thesis
    using assms(4,5) t by (simp add: es gg_failures_append flip: gg_fail_def gg_delay_def)
qed

theorem guess_guard_spreads_witness:
  "min 30 second \<le>
    snd (gg_delay_for (gg_failures (GuessGuard_init 5 30 2 900 10) (map (Pair (u ''bob'')) [(u ''a'', 1), (u ''b'', 2)]))
      (u ''bob'') (u ''c'') (last (map snd [(u ''a'', 1), (u ''b'', 2)])))"
  by (rule guess_guard_spreads) (simp_all add: u_def)

text \<open>A fresh guard asks nobody to wait.\<close>

lemma fresh_guard_no_delay: "0 \<le> now \<Longrightarrow> gg_delay_for (GuessGuard_default n) i s now = (GuessGuard_default n, 0)"
  by (simp add: gg_delay_for_def GuessGuard_default_def GuessGuard_init_def ProgressiveDelay_init_def pd_delay_for_def pd_get_def failing_sources_def)

end
