(* ===== verification/Models.thy ===== *)
theory Models
  imports Prelude
begin

text \<open>
  The schema of \<open>naco/db/models.py\<close>: the enumerations with their stored values, one record per table
  and the database as a record of tables.  A table is the list of its rows in the order of their
  primary keys; a query is a list operation, an insert appends a row with the next key.  Times are
  microseconds since the epoch.  Columns of type \<open>EncryptedString\<close> hold the decrypted text, JSON
  columns a value of the type \<open>json\<close>.  Foreign keys stay integers, as in the tables.
\<close>

section \<open>JSON values\<close>

datatype json = JNull | JBool bool | JInt int | JFloat pystr | JStr pystr | JArr "json list"
  | JObj "(pystr \<times> json) list"

section \<open>Enumerations\<close>

datatype AdminRole = VIEWER | OPERATOR | SUPERUSER
datatype UserSource = LOCAL | LDAP
datatype DeviceStatus = PENDING | APPROVED | BLOCKED
datatype PolicyAction = PERMIT | DENY
datatype CommandAction = CMD_PERMIT | CMD_DENY
datatype AuthResult = ACCEPT | REJECT
datatype TacacsKind = AUTHEN | AUTHOR | ACCT
datatype ActorType = ADMIN | TOKEN | SYSTEM | CLI

fun rank :: "AdminRole \<Rightarrow> nat" where
  "rank VIEWER = 0"
| "rank OPERATOR = 1"
| "rank SUPERUSER = 2"

definition allows :: "AdminRole \<Rightarrow> AdminRole \<Rightarrow> bool" where
  "allows role required \<longleftrightarrow> rank role \<ge> rank required"

instantiation AdminRole :: linorder
begin

definition less_eq_AdminRole_def: "a \<le> b \<longleftrightarrow> rank a \<le> rank b"

definition less_AdminRole_def: "a < b \<longleftrightarrow> rank a < rank b"

instance
proof
  fix a b :: AdminRole
  assume "a \<le> b" "b \<le> a"
  then show "a = b" by (cases a; cases b) (auto simp: less_eq_AdminRole_def)
qed (auto simp: less_eq_AdminRole_def less_AdminRole_def)

end

lemma allows_iff: "allows role required \<longleftrightarrow> required \<le> role"
  by (simp add: allows_def less_eq_AdminRole_def)

fun PolicyAction_value :: "PolicyAction \<Rightarrow> pystr" where
  "PolicyAction_value PERMIT = u ''PERMIT''"
| "PolicyAction_value DENY = u ''DENY''"

section \<open>Tables\<close>

record AdminUser =
  au_id :: nat
  au_username :: pystr
  au_password_hash :: pystr
  au_role :: AdminRole
  au_enabled :: bool
  au_must_change_password :: bool
  au_totp_secret :: "pystr option"
  au_totp_pending_secret :: "pystr option"
  au_totp_last_step :: "int option"
  au_recovery_codes :: "pystr list"
  au_created_at :: int
  au_updated_at :: int
  au_last_login_at :: "int option"
  au_password_changed_at :: "int option"

record AdminSession =
  as_id :: nat
  as_token_hash :: pystr
  as_admin_id :: nat
  as_csrf_token :: pystr
  as_created_at :: int
  as_last_seen_at :: int
  as_expires_at :: int
  as_ip :: pystr
  as_user_agent :: pystr

record ApiToken =
  tok_id :: nat
  tok_name :: pystr
  tok_token_hash :: pystr
  tok_prefix :: pystr
  tok_role :: AdminRole
  tok_created_by :: pystr
  tok_created_at :: int
  tok_expires_at :: "int option"
  tok_last_used_at :: "int option"
  tok_revoked_at :: "int option"

record AuditLog =
  aud_id :: nat
  aud_timestamp :: int
  aud_actor :: pystr
  aud_actor_type :: ActorType
  aud_ip :: pystr
  aud_action :: pystr
  aud_target_type :: pystr
  aud_target_id :: pystr
  aud_target_name :: pystr
  aud_changes :: json

record CommandSet =
  cs_id :: nat
  cs_name :: pystr
  cs_description :: pystr
  cs_default_action :: CommandAction
  cs_created_at :: int
  cs_updated_at :: int

record CommandRule =
  cr_id :: nat
  cr_command_set_id :: nat
  cr_position :: int
  cr_action :: CommandAction
  cr_pattern :: pystr

record Group =
  grp_id :: nat
  grp_name :: pystr
  grp_description :: pystr
  grp_device_admin_privilege :: "int option"
  grp_command_set_id :: "nat option"
  grp_device_admin_attributes :: "pystr list"
  grp_created_at :: int
  grp_updated_at :: int

record User =
  usr_id :: nat
  usr_username :: pystr
  usr_source :: UserSource
  usr_password_hash :: "pystr option"
  usr_email :: pystr
  usr_full_name :: pystr
  usr_group_id :: "nat option"
  usr_enabled :: bool
  usr_created_at :: int
  usr_updated_at :: int
  usr_last_login_at :: "int option"

record Device =
  dev_id :: nat
  dev_mac_address :: pystr
  dev_status :: DeviceStatus
  dev_device_type :: pystr
  dev_vendor :: pystr
  dev_description :: pystr
  dev_notes :: pystr
  dev_first_seen :: int
  dev_last_seen :: int
  dev_last_nas_ip :: pystr
  dev_last_username :: pystr

record GuestRegistration =
  gr_id :: nat
  gr_mac_address :: pystr
  gr_full_name :: pystr
  gr_email :: pystr
  gr_nas_ip :: pystr
  gr_client_ip :: pystr
  gr_created_by :: pystr
  gr_created_at :: int
  gr_expires_at :: int
  gr_revoked_at :: "int option"

record Policy =
  pol_id :: nat
  pol_name :: pystr
  pol_description :: pystr
  pol_priority :: int
  pol_enabled :: bool
  pol_conditions :: json
  pol_action :: PolicyAction
  pol_vlan :: "int option"
  pol_reply_attributes :: json
  pol_created_at :: int
  pol_updated_at :: int

record NasClient =
  nas_id :: nat
  nas_name :: pystr
  nas_ip_address :: pystr
  nas_secret :: pystr
  nas_coa_port :: nat
  nas_vendor :: pystr
  nas_require_message_authenticator :: bool
  nas_description :: pystr
  nas_enabled :: bool
  nas_created_at :: int
  nas_updated_at :: int

record TacacsClient =
  tc_id :: nat
  tc_name :: pystr
  tc_ip_address :: pystr
  tc_key :: pystr
  tc_description :: pystr
  tc_enabled :: bool
  tc_created_at :: int
  tc_updated_at :: int

record RadiusSession =
  rs_id :: nat
  rs_nas_ip :: pystr
  rs_acct_session_id :: pystr
  rs_username :: pystr
  rs_acct_username :: pystr
  rs_calling_station_id :: pystr
  rs_nas_ip_address :: pystr
  rs_nas_identifier :: pystr
  rs_audit_session_id :: pystr
  rs_mac_address :: pystr
  rs_framed_ip :: pystr
  rs_ssid :: pystr
  rs_auth_method :: pystr
  rs_policy_name :: pystr
  rs_vlan :: "int option"
  rs_decision_digest :: pystr
  rs_started_at :: int
  rs_updated_at :: int
  rs_input_octets :: int
  rs_output_octets :: int
  rs_session_time :: int

record AuthLog =
  alog_id :: nat
  alog_timestamp :: int
  alog_username :: pystr
  alog_mac_address :: pystr
  alog_nas_ip :: pystr
  alog_nas_name :: pystr
  alog_ssid :: pystr
  alog_auth_method :: pystr
  alog_result :: AuthResult
  alog_reason :: pystr
  alog_policy_name :: pystr
  alog_vlan :: "int option"
  alog_decision_digest :: pystr

record TacacsLog =
  tlog_id :: nat
  tlog_timestamp :: int
  tlog_kind :: TacacsKind
  tlog_username :: pystr
  tlog_client_ip :: pystr
  tlog_rem_addr :: pystr
  tlog_port :: pystr
  tlog_privilege :: int
  tlog_command :: pystr
  tlog_result :: pystr
  tlog_reason :: pystr

record db =
  admin_users :: "AdminUser list"
  admin_sessions :: "AdminSession list"
  api_tokens :: "ApiToken list"
  audit_logs :: "AuditLog list"
  command_sets :: "CommandSet list"
  command_rules :: "CommandRule list"
  groups :: "Group list"
  users :: "User list"
  devices :: "Device list"
  guest_registrations :: "GuestRegistration list"
  policies :: "Policy list"
  nas_clients :: "NasClient list"
  tacacs_clients :: "TacacsClient list"
  radius_sessions :: "RadiusSession list"
  auth_logs :: "AuthLog list"
  tacacs_logs :: "TacacsLog list"

definition empty_db :: db where
  "empty_db = \<lparr>admin_users = [], admin_sessions = [], api_tokens = [], audit_logs = [], command_sets = [],
     command_rules = [], groups = [], users = [], devices = [], guest_registrations = [], policies = [],
     nas_clients = [], tacacs_clients = [], radius_sessions = [], auth_logs = [], tacacs_logs = []\<rparr>"

text \<open>The next primary key, and the columns' CHECK constraints.\<close>

definition next_id :: "('a \<Rightarrow> nat) \<Rightarrow> 'a list \<Rightarrow> nat" where
  "next_id key rows = Suc (foldr (max \<circ> key) rows 0)"

definition Group_check :: "Group \<Rightarrow> bool" where
  "Group_check g \<longleftrightarrow> (case grp_device_admin_privilege g of None \<Rightarrow> True | Some p \<Rightarrow> 1 \<le> p \<and> p \<le> 15)"

definition Policy_check :: "Policy \<Rightarrow> bool" where
  "Policy_check p \<longleftrightarrow> (case pol_vlan p of None \<Rightarrow> True | Some v \<Rightarrow> 1 \<le> v \<and> v \<le> 4094)"

definition NasClient_check :: "NasClient \<Rightarrow> bool" where
  "NasClient_check n \<longleftrightarrow> 1 \<le> nas_coa_port n \<and> nas_coa_port n \<le> 65535"

lemma next_id_fresh: "x \<in> set rows \<Longrightarrow> key x < next_id key rows"
  unfolding next_id_def by (induction rows) (auto simp: less_Suc_eq_le le_max_iff_disj)

text \<open>Reading, changing and deleting a row by its primary key.\<close>

definition row_get :: "('a \<Rightarrow> nat) \<Rightarrow> 'a list \<Rightarrow> nat \<Rightarrow> 'a option" where
  "row_get key rows i = find (\<lambda>x. key x = i) rows"

definition row_update :: "('a \<Rightarrow> nat) \<Rightarrow> nat \<Rightarrow> ('a \<Rightarrow> 'a) \<Rightarrow> 'a list \<Rightarrow> 'a list" where
  "row_update key i f rows = map (\<lambda>x. if key x = i then f x else x) rows"

definition row_delete :: "('a \<Rightarrow> nat) \<Rightarrow> nat \<Rightarrow> 'a list \<Rightarrow> 'a list" where
  "row_delete key i rows = filter (\<lambda>x. key x \<noteq> i) rows"

lemma row_get_Some: "row_get key rows i = Some x \<Longrightarrow> x \<in> set rows \<and> key x = i"
  by (auto simp: row_get_def find_Some_iff)

lemma row_get_update:
  assumes "\<And>x. key (f x) = key x"
  shows "row_get key (row_update key i f rows) j = (if j = i then map_option f (row_get key rows j) else row_get key rows j)"
  unfolding row_get_def row_update_def by (induction rows) (auto simp: assms)

lemma row_get_append_fresh:
  assumes "key x = next_id key rows"
  shows "row_get key (rows @ [x]) j = (if j = key x then Some x else row_get key rows j)"
proof -
  have "row_get key rows (key x) = None"
    using next_id_fresh [of _ rows key] assms by (fastforce simp: row_get_def find_None_iff)
  then show ?thesis by (induction rows) (auto simp: row_get_def split: if_splits)
qed

lemma row_get_put:
  assumes "key new = i" "row_get key rows i = Some old"
  shows "row_get key (row_update key i (\<lambda>_. new) rows) j = (if j = i then Some new else row_get key rows j)"
proof (cases "j = i")
  case True
  then show ?thesis using assms unfolding row_get_def row_update_def by (induction rows) (auto split: if_splits)
next
  case False
  then show ?thesis using assms(1) unfolding row_get_def row_update_def by (induction rows) auto
qed

lemma row_get_delete: "row_get key (row_delete key i rows) j = (if j = i then None else row_get key rows j)"
  unfolding row_get_def row_delete_def by (induction rows) auto

lemma map_row_update:
  assumes "\<And>x. g (f x) = g x"
  shows "map g (row_update key i f rows) = map g rows"
  by (simp add: row_update_def assms)

lemma in_row_delete [simp]: "x \<in> set (row_delete key i rows) \<longleftrightarrow> x \<in> set rows \<and> key x \<noteq> i"
  by (simp add: row_delete_def)

lemma in_row_update: "y \<in> set (row_update key i f rows) \<Longrightarrow> \<exists>x\<in>set rows. y = (if key x = i then f x else x)"
  by (auto simp: row_update_def)

end
