(* ===== verification/IpAddr.thy ===== *)
theory IpAddr
  imports Prelude
begin

text \<open>
  The part of Python's \<open>ipaddress\<close> module that the sources call: reading and printing IPv4 and
  IPv6 addresses, networks in prefix and netmask notation, membership of an address in a
  network.  \<open>None\<close> is the module's \<open>ValueError\<close>.
\<close>

datatype ip = V4 nat | V6 nat "pystr option"  \<comment> \<open>the value, and the scope id of IPv6\<close>

datatype ipnet = Net4 nat nat | Net6 nat nat   \<comment> \<open>network address and prefix length\<close>

subsection \<open>IPv4\<close>

definition parse_octet :: "pystr \<Rightarrow> nat option" where
  "parse_octet s =
     (if s \<noteq> [] \<and> list_all is_digit s \<and> length s \<le> 3 \<and> \<not> (hd s = 48 \<and> length s > 1) \<and> undec s \<le> 255
      then Some (undec s) else None)"

definition parse_v4 :: "pystr \<Rightarrow> nat option" where
  "parse_v4 s =
     (case map parse_octet (split1 46 s) of
        [Some a, Some b, Some c, Some d] \<Rightarrow> Some (((a * 256 + b) * 256 + c) * 256 + d)
      | _ \<Rightarrow> None)"

definition show_v4 :: "nat \<Rightarrow> pystr" where
  "show_v4 n = join [46] [dec (n div 2^24 mod 256), dec (n div 2^16 mod 256), dec (n div 2^8 mod 256), dec (n mod 256)]"

subsection \<open>IPv6\<close>

definition hex_val :: "nat \<Rightarrow> nat option" where
  "hex_val c =
     (if 48 \<le> c \<and> c \<le> 57 then Some (c - 48)
      else if 97 \<le> c \<and> c \<le> 102 then Some (c - 87)
      else if 65 \<le> c \<and> c \<le> 70 then Some (c - 55) else None)"

definition is_hex :: "nat \<Rightarrow> bool" where
  "is_hex c \<longleftrightarrow> hex_val c \<noteq> None"

definition hex_digit :: "nat \<Rightarrow> nat" where
  "hex_digit v = (if v < 10 then 48 + v else 87 + v)"

definition unhex :: "pystr \<Rightarrow> nat" where
  "unhex s = foldl (\<lambda>n c. 16 * n + (case hex_val c of Some v \<Rightarrow> v | None \<Rightarrow> 0)) 0 s"

fun hex :: "nat \<Rightarrow> pystr" where
  "hex n = (if n < 16 then [hex_digit n] else hex (n div 16) @ [hex_digit (n mod 16)])"

declare hex.simps [simp del]

definition parse_hextet :: "pystr \<Rightarrow> nat option" where
  "parse_hextet s = (if s \<noteq> [] \<and> list_all is_hex s \<and> length s \<le> 4 then Some (unhex s) else None)"

text \<open>A trailing dotted quad becomes two hextets.\<close>

definition v6_parts :: "pystr \<Rightarrow> pystr list option" where
  "v6_parts s =
     (let ps = split1 58 s in
      if s = [] \<or> length ps < 3 then None
      else if 46 \<in> set (last ps) then
        (case parse_v4 (last ps) of None \<Rightarrow> None
         | Some n \<Rightarrow> Some (butlast ps @ [hex (n div 2^16 mod 2^16), hex (n mod 2^16)]))
      else Some ps)"

text \<open>Inner empty parts mark \<open>::\<close>; at most one may occur.\<close>

definition inner_gaps :: "pystr list \<Rightarrow> nat list" where
  "inner_gaps ps = filter (\<lambda>i. ps ! i = []) [1..<length ps - 1]"

definition v6_layout :: "pystr list \<Rightarrow> (nat \<times> nat \<times> nat) option" where
  "v6_layout ps =
     (case inner_gaps ps of
        [] \<Rightarrow> if length ps = 8 \<and> hd ps \<noteq> [] \<and> last ps \<noteq> [] then Some (8, 0, 0) else None
      | [i] \<Rightarrow>
          (let hi = (if hd ps = [] then i - 1 else i);
               lo = (if last ps = [] then length ps - i - 1 - 1 else length ps - i - 1)
           in if (hd ps = [] \<and> hi \<noteq> 0) \<or> (last ps = [] \<and> lo \<noteq> 0) \<or> hi + lo > 7 then None
              else Some (hi, 8 - (hi + lo), lo))
      | _ \<Rightarrow> None)"

fun hextets_val :: "nat option list \<Rightarrow> nat \<Rightarrow> nat option" where
  "hextets_val [] acc = Some acc"
| "hextets_val (None # hs) acc = None"
| "hextets_val (Some h # hs) acc = hextets_val hs (acc * 2^16 + h)"

definition parse_v6_int :: "pystr \<Rightarrow> nat option" where
  "parse_v6_int s =
     (case v6_parts s of None \<Rightarrow> None
      | Some ps \<Rightarrow>
          if length ps > 9 then None
          else (case v6_layout ps of None \<Rightarrow> None
                | Some (hi, skipped, lo) \<Rightarrow>
                    (case hextets_val (map parse_hextet (take hi ps)) 0 of None \<Rightarrow> None
                     | Some n \<Rightarrow> hextets_val (map parse_hextet (drop (length ps - lo) ps)) (n * 2^(16 * skipped)))))"

definition parse_v6 :: "pystr \<Rightarrow> (nat \<times> pystr option) option" where
  "parse_v6 s =
     (case partition1 37 s of
        (a, None) \<Rightarrow> map_option (\<lambda>n. (n, None)) (parse_v6_int a)
      | (a, Some sc) \<Rightarrow> if sc = [] \<or> 37 \<in> set sc then None
                        else map_option (\<lambda>n. (n, Some sc)) (parse_v6_int a))"

definition hextets :: "nat \<Rightarrow> nat list" where
  "hextets n = map (\<lambda>i. n div 2^(16 * (7 - i)) mod 2^16) [0..<8]"

definition zero_run :: "nat list \<Rightarrow> nat \<Rightarrow> nat" where
  "zero_run hs i = length (takeWhile (\<lambda>h. h = 0) (drop i hs))"

text \<open>The first longest run of zero hextets, when it is longer than one.\<close>

definition best_run :: "nat list \<Rightarrow> (nat \<times> nat) option" where
  "best_run hs =
     (let m = foldl max 0 (map (zero_run hs) [0..<8]) in
      if m < 2 then None
      else (case filter (\<lambda>i. zero_run hs i = m) [0..<8] of i # _ \<Rightarrow> Some (i, m) | [] \<Rightarrow> None))"

definition show_v6 :: "nat \<Rightarrow> pystr" where
  "show_v6 n =
     (let hs = hextets n in
      case best_run hs of
        None \<Rightarrow> join [58] (map hex hs)
      | Some (i, m) \<Rightarrow> join [58] (map hex (take i hs)) @ [58, 58] @ join [58] (map hex (drop (i + m) hs)))"

subsection \<open>Addresses and networks\<close>

definition ip_address :: "pystr \<Rightarrow> ip option" where
  "ip_address s =
     (if 47 \<in> set s then None
      else case parse_v4 s of Some n \<Rightarrow> Some (V4 n)
      | None \<Rightarrow> map_option (\<lambda>(n, sc). V6 n sc) (parse_v6 s))"

fun show_ip :: "ip \<Rightarrow> pystr" where
  "show_ip (V4 n) = show_v4 n"
| "show_ip (V6 n None) = show_v6 n"
| "show_ip (V6 n (Some sc)) = show_v6 n @ [37] @ sc"

definition prefix_string :: "nat \<Rightarrow> pystr \<Rightarrow> nat option" where
  "prefix_string maxlen s =
     (if s \<noteq> [] \<and> list_all is_digit s \<and> undec s \<le> maxlen then Some (undec s) else None)"

text \<open>A prefix length from a netmask, or else from a host mask.\<close>

definition mask_prefix :: "nat \<Rightarrow> nat option" where
  "mask_prefix m = find (\<lambda>p. m = 2^32 - 2^(32 - p)) [0..<33]"

definition v4_prefix :: "pystr \<Rightarrow> nat option" where
  "v4_prefix s =
     (case prefix_string 32 s of Some p \<Rightarrow> Some p
      | None \<Rightarrow> (case parse_v4 s of None \<Rightarrow> None
                 | Some m \<Rightarrow> (case mask_prefix m of Some p \<Rightarrow> Some p
                             | None \<Rightarrow> mask_prefix (2^32 - 1 - m))))"

definition net_base :: "nat \<Rightarrow> nat \<Rightarrow> nat \<Rightarrow> nat" where
  "net_base maxlen n p = n div 2^(maxlen - p) * 2^(maxlen - p)"

text \<open>\<open>ip_network(s, strict=False)\<close>: host bits are masked off.\<close>

definition ip_network :: "pystr \<Rightarrow> ipnet option" where
  "ip_network s =
     (case split1 47 s of
        [a] \<Rightarrow> (case parse_v4 a of Some n \<Rightarrow> Some (Net4 n 32)
                | None \<Rightarrow> map_option (\<lambda>(n, _). Net6 n 128) (parse_v6 a))
      | [a, m] \<Rightarrow>
          (case (parse_v4 a, v4_prefix m) of
             (Some n, Some p) \<Rightarrow> Some (Net4 (net_base 32 n p) p)
           | _ \<Rightarrow> (case (parse_v6 a, prefix_string 128 m) of
                     (Some (n, _), Some p) \<Rightarrow> Some (Net6 (net_base 128 n p) p)
                   | _ \<Rightarrow> None))
      | _ \<Rightarrow> None)"

fun prefixlen :: "ipnet \<Rightarrow> nat" where
  "prefixlen (Net4 _ p) = p"
| "prefixlen (Net6 _ p) = p"

fun max_prefixlen :: "ipnet \<Rightarrow> nat" where
  "max_prefixlen (Net4 _ _) = 32"
| "max_prefixlen (Net6 _ _) = 128"

fun network_address :: "ipnet \<Rightarrow> ip" where
  "network_address (Net4 b _) = V4 b"
| "network_address (Net6 b _) = V6 b None"

definition show_net :: "ipnet \<Rightarrow> pystr" where
  "show_net n = show_ip (network_address n) @ [47] @ dec (prefixlen n)"

text \<open>\<open>addr in net\<close>: false for the other address family.\<close>

fun ip_in :: "ip \<Rightarrow> ipnet \<Rightarrow> bool" where
  "ip_in (V4 n) (Net4 b p) \<longleftrightarrow> net_base 32 n p = b"
| "ip_in (V6 n _) (Net6 b p) \<longleftrightarrow> net_base 128 n p = b"
| "ip_in _ _ \<longleftrightarrow> False"

fun ip_value :: "ip \<Rightarrow> nat" where
  "ip_value (V4 n) = n"
| "ip_value (V6 n _) = n"

text \<open>\<open>ip_network(s)\<close>: an address with host bits set is refused.\<close>

definition ip_network_strict :: "pystr \<Rightarrow> ipnet option" where
  "ip_network_strict s =
     (case (ip_network s, ip_address (hd (split1 47 s))) of
        (Some net, Some a) \<Rightarrow> if ip_value a = ip_value (network_address net) then Some net else None
      | _ \<Rightarrow> None)"

subsection \<open>Reading back what is printed\<close>

lemma octet_round: "n < 256 \<Longrightarrow> parse_octet (dec n) = Some n"
proof -
  assume n: "n < 256"
  have digits: "list_all is_digit (dec n)" by (auto simp: list_all_iff dest: dec_digits)
  have len: "length (dec n) \<le> 3"
    using n by (simp add: dec.simps [of n] dec.simps [of "n div 10"] dec.simps [of "n div 10 div 10"])
  have "\<not> (hd (dec n) = 48 \<and> length (dec n) > 1)"
  proof (cases "9 < n")
    case True
    then show ?thesis using dec_hd [of n] by simp
  next
    case False
    then show ?thesis by (simp add: dec.simps [of n])
  qed
  with digits len n show ?thesis by (simp add: parse_octet_def)
qed

lemma dec_no_dot: "46 \<notin> set (dec n)" "47 \<notin> set (dec n)"
  using dec_digits [of 46 n] dec_digits [of 47 n] by (auto simp: is_digit_def)

definition quad :: "nat \<Rightarrow> nat \<Rightarrow> nat \<Rightarrow> nat \<Rightarrow> nat" where
  "quad a b c d = ((a * 256 + b) * 256 + c) * 256 + d"

lemma quad_value: "n < 2^32 \<Longrightarrow> quad (n div 2^24 mod 256) (n div 2^16 mod 256) (n div 2^8 mod 256) (n mod 256) = n"
proof -
  assume n: "n < 2^32"
  have top: "n div 2^24 mod 256 = n div 2^24" using n by simp
  have a: "n div 2^24 * 256 + n div 2^16 mod 256 = n div 2^16"
    using div_mult_mod_eq [of "n div 2^16" 256] by (simp add: div_mult2_eq [symmetric])
  have b: "n div 2^16 * 256 + n div 2^8 mod 256 = n div 2^8"
    using div_mult_mod_eq [of "n div 2^8" 256] by (simp add: div_mult2_eq [symmetric])
  have c: "n div 2^8 * 256 + n mod 256 = n"
    using div_mult_mod_eq [of n 256] by simp
  show ?thesis unfolding quad_def top a b c ..
qed

lemma parse_v4_quad:
  "parse_v4 s = (case map parse_octet (split1 46 s) of
     [Some a, Some b, Some c, Some d] \<Rightarrow> Some (quad a b c d) | _ \<Rightarrow> None)"
  unfolding parse_v4_def quad_def ..

lemma parse_show_v4: "n < 2^32 \<Longrightarrow> parse_v4 (show_v4 n) = Some n"
proof -
  assume n: "n < 2^32"
  let ?ws = "[dec (n div 2^24 mod 256), dec (n div 2^16 mod 256), dec (n div 2^8 mod 256), dec (n mod 256)]"
  have "split1 46 (join [46] ?ws) = ?ws"
    by (rule split1_join) (auto simp: dec_no_dot)
  then have "map parse_octet (split1 46 (show_v4 n)) =
     [Some (n div 2^24 mod 256), Some (n div 2^16 mod 256), Some (n div 2^8 mod 256), Some (n mod 256)]"
    unfolding show_v4_def by (simp only: list.map octet_round mod_less_divisor)
  then have "parse_v4 (show_v4 n) =
     Some (quad (n div 2^24 mod 256) (n div 2^16 mod 256) (n div 2^8 mod 256) (n mod 256))"
    unfolding parse_v4_quad by (simp only: list.case option.case)
  with quad_value [OF n] show ?thesis by (simp only:)
qed

lemma parse_octet_bound: "parse_octet s = Some n \<Longrightarrow> n < 256"
  by (auto simp: parse_octet_def split: if_splits)

lemma parse_v4_bound: "parse_v4 s = Some n \<Longrightarrow> n < 2^32"
proof -
  assume "parse_v4 s = Some n"
  then obtain a b c d where "map parse_octet (split1 46 s) = [Some a, Some b, Some c, Some d]"
      and n: "n = ((a * 256 + b) * 256 + c) * 256 + d"
    by (auto simp: parse_v4_def split: list.splits option.splits)
  then have "{Some a, Some b, Some c, Some d} \<subseteq> parse_octet ` set (split1 46 s)"
    by (metis list.set_map list.set subset_refl)
  then have "a < 256" "b < 256" "c < 256" "d < 256"
    using parse_octet_bound by (metis imageE insert_subset)+
  with n show ?thesis by simp
qed

end
