(* ===== verification/NetUtils.thy ===== *)
theory NetUtils
  imports IpAddr
begin

text \<open>
  \<open>naco/core/netutils.py\<close>: MAC addresses in every notation network devices use, the
  \<open>Called-Station-Id\<close> splitter, and the addresses of RADIUS clients; and
  \<open>naco/core/oui.py\<close>, whose vendor table is a parameter.
\<close>

section \<open>MAC addresses\<close>

text \<open>One alternative of \<open>_MAC\<close>: \<open>k\<close> groups of \<open>n\<close> hex digits with \<open>sep\<close> between them, as a
  prefix of the text; the result is what follows.\<close>

fun mac_groups :: "nat \<Rightarrow> nat \<Rightarrow> nat \<Rightarrow> pystr \<Rightarrow> pystr option" where
  "mac_groups sep n 0 v = Some v"
| "mac_groups sep n (Suc k) v =
     (if length (take n v) = n \<and> list_all is_hex (take n v) then
        (if k = 0 then Some (drop n v)
         else (case drop n v of c # r \<Rightarrow> if c = sep then mac_groups sep n k r else None | [] \<Rightarrow> None))
      else None)"

text \<open>\<open>_MAC\<close>: separator and group size of each form, in order; the last form has one group.\<close>

definition MAC :: "(nat \<times> nat) list" where
  "MAC = List.product [58, 45, 46, 32] [2, 4, 6] @ [(0, 12)]"

definition mac_prefix :: "nat \<times> nat \<Rightarrow> pystr \<Rightarrow> pystr option" where
  "mac_prefix f v = mac_groups (fst f) (snd f) (12 div snd f) v"

definition mac_form :: "nat \<times> nat \<Rightarrow> pystr \<Rightarrow> bool" where
  "mac_form f v \<longleftrightarrow> mac_prefix f v = Some []"

fun pairs :: "pystr \<Rightarrow> pystr list" where
  "pairs (a # b # cs) = [a, b] # pairs cs"
| "pairs cs = []"

definition normalize_mac :: "pystr option \<Rightarrow> pystr option" where
  "normalize_mac value =
     (case value of None \<Rightarrow> None
      | Some v \<Rightarrow>
          if v = [] then None
          else (let s = strip v in
                if \<not> list_ex (\<lambda>f. mac_form f s) MAC then None
                else (let raw = lower (filter is_hex s) in Some (join [58] (pairs (take 12 raw))))))"

definition is_randomized_mac :: "pystr \<Rightarrow> bool" where
  "is_randomized_mac mac =
     (case normalize_mac (Some mac) of None \<Rightarrow> False
      | Some norm \<Rightarrow> (case hex_val (norm ! 1) of Some v \<Rightarrow> v div 2 mod 2 = 1 | None \<Rightarrow> False))"

text \<open>\<open>_STATION\<close>: a MAC in one of the forms, then nothing or a colon and the rest.\<close>

definition station_match :: "pystr \<Rightarrow> (pystr \<times> pystr option) option" where
  "station_match v =
     (let ok = (\<lambda>f. case mac_prefix f v of Some [] \<Rightarrow> True | Some (c # _) \<Rightarrow> c = 58 | None \<Rightarrow> False) in
      case find ok MAC of None \<Rightarrow> None
      | Some f \<Rightarrow>
          (case mac_prefix f v of
             Some (c # r) \<Rightarrow> Some (take (length v - length (c # r)) v, Some r)
           | _ \<Rightarrow> Some (v, None)))"

definition parse_called_station :: "pystr option \<Rightarrow> pystr option \<times> pystr option" where
  "parse_called_station value =
     (case value of None \<Rightarrow> (None, None)
      | Some v \<Rightarrow>
          if v = [] then (None, None)
          else (case station_match (strip v) of None \<Rightarrow> (None, None)
                | Some (m, rest) \<Rightarrow>
                    (let ssid = strip (case rest of Some r \<Rightarrow> r | None \<Rightarrow> [])
                     in (normalize_mac (Some m), if ssid = [] then None else Some (take 64 ssid)))))"

section \<open>Addresses of RADIUS clients\<close>

definition parse_ip :: "pystr option \<Rightarrow> pystr option" where
  "parse_ip value =
     (case value of None \<Rightarrow> None
      | Some v \<Rightarrow> if v = [] then None else map_option show_ip (ip_address (strip v)))"

datatype addr_error = NotAnAddress | UseNetworkAddress pystr | TooWide nat

fun WIDEST_PREFIX :: "ipnet \<Rightarrow> nat" where
  "WIDEST_PREFIX (Net4 _ _) = 16"
| "WIDEST_PREFIX (Net6 _ _) = 48"

definition parse_client_address :: "pystr option \<Rightarrow> addr_error + pystr" where
  "parse_client_address value =
     (let s = strip (case value of Some v \<Rightarrow> v | None \<Rightarrow> []) in
      if 47 \<notin> set s then
        (case parse_ip (Some s) of None \<Rightarrow> Inl NotAnAddress | Some ip \<Rightarrow> Inr ip)
      else (case ip_network s of None \<Rightarrow> Inl NotAnAddress
            | Some net \<Rightarrow>
                if prefixlen net = max_prefixlen net then Inr (show_ip (network_address net))
                else if ip_address (hd (split1 47 s)) \<noteq> Some (network_address net)
                then Inl (UseNetworkAddress (show_net net))
                else if prefixlen net < WIDEST_PREFIX net then Inl (TooWide (WIDEST_PREFIX net))
                else Inr (show_net net)))"

definition ip_in_any :: "pystr \<Rightarrow> pystr list \<Rightarrow> bool" where
  "ip_in_any ip networks =
     (case ip_address ip of None \<Rightarrow> False
      | Some a \<Rightarrow> list_ex (\<lambda>n. case ip_network n of None \<Rightarrow> False | Some net \<Rightarrow> ip_in a net) networks)"

section \<open>Vendors of MAC addresses\<close>

definition vendor_for :: "(pystr \<rightharpoonup> pystr) \<Rightarrow> pystr \<Rightarrow> pystr" where
  "vendor_for table mac =
     (case normalize_mac (Some mac) of None \<Rightarrow> []
      | Some norm \<Rightarrow>
          if is_randomized_mac norm then []
          else (case table (upper (take 6 (filter (\<lambda>c. c \<noteq> 58) norm))) of Some v \<Rightarrow> v | None \<Rightarrow> []))"

section \<open>Correctness of the MAC parser\<close>

text \<open>How a device writes twelve hex digits in one of the forms, and the canonical spelling.\<close>

fun chunks :: "nat \<Rightarrow> nat \<Rightarrow> pystr \<Rightarrow> pystr list" where
  "chunks n 0 ds = []"
| "chunks n (Suc k) ds = take n ds # chunks n k (drop n ds)"

definition write_mac :: "nat \<times> nat \<Rightarrow> pystr \<Rightarrow> pystr" where
  "write_mac f ds = join [fst f] (chunks (snd f) (12 div snd f) ds)"

definition canonical_mac :: "pystr \<Rightarrow> pystr" where
  "canonical_mac ds = join [58] (pairs (lower ds))"

lemma pairs_chunks: "length ds = 2 * k \<Longrightarrow> pairs ds = chunks 2 k ds"
proof (induction k arbitrary: ds)
  case (Suc k)
  then obtain a b cs where "ds = a # b # cs" "length cs = 2 * k"
    by (auto simp: length_Suc_conv numeral_2_eq_2)
  with Suc.IH show ?case by simp
qed simp

lemma chunks_Nil_iff [simp]: "chunks n k ds = [] \<longleftrightarrow> k = 0"
  by (cases k) auto

lemma join_chunks_Suc:
  "k \<noteq> 0 \<Longrightarrow> join [sep] (chunks n (Suc k) ds) = take n ds @ sep # join [sep] (chunks n k (drop n ds))"
  by (simp add: join_Cons)

lemma hex_split: "list_all is_hex ds \<Longrightarrow> list_all is_hex (take n ds) \<and> list_all is_hex (drop n ds)"
  by (auto simp: list_all_iff dest: in_set_takeD in_set_dropD)

lemma mac_groups_join:
  "length ds = n * k \<Longrightarrow> list_all is_hex ds \<Longrightarrow> 0 < k \<Longrightarrow>
   mac_groups sep n k (join [sep] (chunks n k ds) @ r) = Some r"
proof (induction k arbitrary: ds)
  case (Suc k)
  have len: "length (take n ds) = n" using Suc.prems by simp
  show ?case
  proof (cases "k = 0")
    case True
    with len hex_split [OF Suc.prems(2)] show ?thesis by simp
  next
    case False
    then have "mac_groups sep n k (join [sep] (chunks n k (drop n ds)) @ r) = Some r"
      using Suc.IH [of "drop n ds"] Suc.prems hex_split [OF Suc.prems(2)] by simp
    then show ?thesis
      using len hex_split [OF Suc.prems(2)] False
      by (simp only: join_chunks_Suc [OF False] mac_groups.simps) simp
  qed
qed simp

lemma filter_hex_join:
  "\<not> is_hex sep \<or> k \<le> 1 \<Longrightarrow> length ds = n * k \<Longrightarrow> list_all is_hex ds \<Longrightarrow>
   filter is_hex (join [sep] (chunks n k ds)) = ds"
proof (induction k arbitrary: ds)
  case (Suc k)
  have f: "filter is_hex (take n ds) = take n ds"
    using hex_split [OF Suc.prems(3), of n] by (simp add: list_all_iff)
  show ?case
  proof (cases "k = 0")
    case True
    with Suc.prems f show ?thesis by simp
  next
    case False
    with f Suc.IH [of "drop n ds"] Suc.prems hex_split [OF Suc.prems(3), of n] show ?thesis
      by (simp only: join_chunks_Suc [OF False]) simp
  qed
qed simp

lemma hd_join_chunks: "0 < n \<Longrightarrow> 0 < k \<Longrightarrow> ds \<noteq> [] \<Longrightarrow> hd (join [sep] (chunks n k ds)) = hd ds"
  by (cases k; cases "k = 1") (auto simp: join_Cons hd_append)

lemma last_join_chunks: "0 < n \<Longrightarrow> 0 < k \<Longrightarrow> length ds = n * k \<Longrightarrow> last (join [sep] (chunks n k ds)) = last ds"
proof (induction k arbitrary: ds)
  case (Suc k)
  show ?case
  proof (cases "k = 0")
    case True
    with Suc.prems show ?thesis by simp
  next
    case False
    have "length (drop n ds) = n * k" using Suc.prems by simp
    then have "drop n ds \<noteq> []" using False Suc.prems(1) by auto
    then have ne: "join [sep] (chunks n k (drop n ds)) \<noteq> []"
      using Suc.prems(1) False by (cases k; cases "k = 1") (auto simp: join_Cons)
    have "last (join [sep] (chunks n k (drop n ds))) = last ds"
      using Suc.IH [of "drop n ds"] Suc.prems False \<open>drop n ds \<noteq> []\<close> by (simp add: last_drop)
    then show ?thesis by (simp only: join_chunks_Suc [OF False]) (simp add: ne)
  qed
qed simp

lemma is_hex_not_space: "is_hex c \<Longrightarrow> \<not> is_space c"
  by (auto simp: is_hex_def hex_val_def is_space_def split: if_splits)

definition mac_shape :: "nat \<times> nat \<Rightarrow> bool" where
  "mac_shape f \<longleftrightarrow> snd f * (12 div snd f) = 12 \<and> 0 < 12 div snd f \<and>
     (\<not> is_hex (fst f) \<or> 12 div snd f \<le> 1) \<and> 0 < snd f"

lemma MAC_shapes: "list_all mac_shape MAC"
  by (simp add: MAC_def mac_shape_def is_hex_def hex_val_def)

lemma MAC_cases: "f \<in> set MAC \<Longrightarrow>
  snd f * (12 div snd f) = 12 \<and> 0 < 12 div snd f \<and> (\<not> is_hex (fst f) \<or> 12 div snd f \<le> 1) \<and> 0 < snd f"
  using MAC_shapes by (simp add: list_all_iff mac_shape_def)

lemma hd_last_write_mac:
  assumes "f \<in> set MAC" "length ds = 12"
  shows "hd (write_mac f ds) = hd ds" "last (write_mac f ds) = last ds"
proof -
  have "ds \<noteq> []" using assms(2) by auto
  then show "hd (write_mac f ds) = hd ds" "last (write_mac f ds) = last ds"
    using MAC_cases [OF assms(1)] hd_join_chunks [of "snd f" "12 div snd f" ds]
      last_join_chunks [of "snd f" "12 div snd f" ds] assms(2)
    by (auto simp: write_mac_def)
qed

lemma write_mac_form: "f \<in> set MAC \<Longrightarrow> length ds = 12 \<Longrightarrow> list_all is_hex ds \<Longrightarrow> mac_form f (write_mac f ds)"
  using mac_groups_join [of ds "snd f" "12 div snd f" "fst f" "[]"] MAC_cases [of f]
  by (simp add: mac_form_def mac_prefix_def write_mac_def)

lemma write_mac_digits: "f \<in> set MAC \<Longrightarrow> length ds = 12 \<Longrightarrow> list_all is_hex ds \<Longrightarrow> filter is_hex (write_mac f ds) = ds"
  using filter_hex_join [of "fst f" "12 div snd f" ds "snd f"] MAC_cases [of f]
  by (simp add: write_mac_def)

lemma strip_write_mac:
  assumes "f \<in> set MAC" "length ds = 12" "list_all is_hex ds"
  shows "strip (write_mac f ds) = write_mac f ds"
proof (rule strip_fixed)
  have "ds \<noteq> []" using assms(2) by auto
  then have "is_hex (hd ds)" "is_hex (last ds)" using assms(3) by (auto simp: list_all_iff)
  then show "write_mac f ds = [] \<or> \<not> is_space (hd (write_mac f ds)) \<and> \<not> is_space (last (write_mac f ds))"
    using hd_last_write_mac [OF assms(1,2)] by (simp add: is_hex_not_space)
qed

lemma normalize_write_mac:
  assumes "f \<in> set MAC" "length ds = 12" "list_all is_hex ds" "list_all is_space pre" "list_all is_space post"
  shows "normalize_mac (Some (pre @ write_mac f ds @ post)) = Some (canonical_mac ds)"
proof -
  have digits: "filter is_hex (write_mac f ds) = ds" by (rule write_mac_digits [OF assms(1-3)])
  then have ne: "write_mac f ds \<noteq> []" using assms(2) by auto
  have "strip (pre @ write_mac f ds @ post) = write_mac f ds"
    using strip_surrounded [OF assms(4,5)] strip_write_mac [OF assms(1-3)] by simp
  moreover have "list_ex (\<lambda>g. mac_form g (write_mac f ds)) MAC"
    using write_mac_form [OF assms(1-3)] assms(1) by (auto simp: list_ex_iff)
  ultimately show ?thesis
    using ne digits assms(2) by (simp add: normalize_mac_def canonical_mac_def)
qed

subsection \<open>Only MAC addresses are accepted\<close>

lemma chunks_append:
  "length d = n \<Longrightarrow> chunks n (Suc k) (d @ ds) = d # chunks n k ds"
  by simp

lemma mac_groups_inv:
  "mac_groups sep n k v = Some r \<Longrightarrow> 0 < k \<Longrightarrow>
   \<exists>ds. length ds = n * k \<and> list_all is_hex ds \<and> v = join [sep] (chunks n k ds) @ r"
proof (induction k arbitrary: v)
  case (Suc k)
  from Suc.prems(1) have head: "length (take n v) = n" "list_all is_hex (take n v)"
    by (auto split: if_splits)
  show ?case
  proof (cases "k = 0")
    case True
    with Suc.prems(1) head have "length (take n v) = n * Suc k" "v = join [sep] (chunks n (Suc k) (take n v)) @ r"
      by auto
    with head show ?thesis by blast
  next
    case False
    with Suc.prems(1) obtain t where t: "drop n v = sep # t" "mac_groups sep n k t = Some r"
      by (auto split: if_splits list.splits)
    from Suc.IH [OF t(2)] False obtain ds where
      ds: "length ds = n * k" "list_all is_hex ds" "t = join [sep] (chunks n k ds) @ r" by auto
    let ?ds = "take n v @ ds"
    have "v = take n v @ sep # t" using t(1) by (metis append_take_drop_id)
    also have "\<dots> = join [sep] (chunks n (Suc k) ?ds) @ r"
      using ds(3) head(1) False join_Cons [of "chunks n k ds" "[sep]"] by simp
    finally have "v = join [sep] (chunks n (Suc k) ?ds) @ r" .
    moreover have "length ?ds = n * Suc k" "list_all is_hex ?ds" using head ds by auto
    ultimately show ?thesis by blast
  qed
qed simp

lemma mac_prefix_inv:
  assumes "f \<in> set MAC" "mac_prefix f v = Some r"
  obtains ds where "length ds = 12" "list_all is_hex ds" "v = write_mac f ds @ r"
  using mac_groups_inv [of "fst f" "snd f" "12 div snd f" v r] assms MAC_cases [OF assms(1)]
  by (auto simp: mac_prefix_def write_mac_def)

lemma strip_decompose: "\<exists>pre post. s = pre @ strip s @ post \<and> list_all is_space pre \<and> list_all is_space post"
proof -
  have "s = takeWhile is_space s @ lstrip s" by (simp add: lstrip_def)
  moreover have "lstrip s = strip s @ rev (takeWhile is_space (rev (lstrip s)))"
    unfolding strip_def rstrip_def by (metis rev_append rev_rev_ident takeWhile_dropWhile_id)
  ultimately have "s = takeWhile is_space s @ strip s @ rev (takeWhile is_space (rev (lstrip s)))"
    by simp
  moreover have "list_all is_space (takeWhile is_space s)"
    "list_all is_space (rev (takeWhile is_space (rev (lstrip s))))"
    by (auto simp: list_all_iff dest: set_takeWhileD)
  ultimately show ?thesis by blast
qed

lemma normalize_mac_inv:
  assumes "normalize_mac v = Some m"
  obtains f ds pre post where "f \<in> set MAC" "length ds = 12" "list_all is_hex ds" "list_all is_space pre"
    "list_all is_space post" "v = Some (pre @ write_mac f ds @ post)" "m = canonical_mac ds"
proof -
  from assms obtain t f where t: "v = Some t" and f: "f \<in> set MAC" "mac_form f (strip t)"
    by (auto simp: normalize_mac_def list_ex_iff Let_def split: option.splits if_splits)
  obtain ds where ds: "length ds = 12" "list_all is_hex ds" "strip t = write_mac f ds @ []"
    using mac_prefix_inv [OF f(1)] f(2) unfolding mac_form_def by metis
  obtain pre post where pp: "t = pre @ write_mac f ds @ post" "list_all is_space pre" "list_all is_space post"
    using strip_decompose [of t] ds(3) by auto
  with normalize_write_mac [OF f(1) ds(1,2) pp(2,3)] assms t have "m = canonical_mac ds" by simp
  with that f(1) ds pp t show thesis by blast
qed

text \<open>\<open>normalize_mac\<close> accepts exactly the notations network devices use (twelve hex digits in
  groups of 2, 4 or 6 with one separator out of colon, hyphen, dot and blank throughout, or no
  separator, in any case, with surrounding white space), and returns the canonical spelling
  \<open>aa:bb:cc:dd:ee:ff\<close> of those digits.\<close>

theorem normalize_mac_iff:
  "normalize_mac (Some v) = Some m \<longleftrightarrow>
     (\<exists>f ds pre post. f \<in> set MAC \<and> length ds = 12 \<and> list_all is_hex ds \<and>
        list_all is_space pre \<and> list_all is_space post \<and>
        v = pre @ write_mac f ds @ post \<and> m = canonical_mac ds)"
proof
  assume "normalize_mac (Some v) = Some m"
  then show "\<exists>f ds pre post. f \<in> set MAC \<and> length ds = 12 \<and> list_all is_hex ds \<and>
        list_all is_space pre \<and> list_all is_space post \<and> v = pre @ write_mac f ds @ post \<and> m = canonical_mac ds"
    by (rule normalize_mac_inv) blast
qed (auto simp: normalize_write_mac)

lemma is_hex_lower: "is_hex c \<Longrightarrow> is_hex (lower_char c)"
  by (auto simp: is_hex_def hex_val_def lower_char_def split: if_splits)

lemma canonical_is_written: "length ds = 12 \<Longrightarrow> canonical_mac ds = write_mac (58, 2) (lower ds)"
  by (simp add: canonical_mac_def write_mac_def pairs_chunks [where k = 6])

lemma canonical_lower: "canonical_mac (lower ds) = canonical_mac ds"
  by (simp add: canonical_mac_def)

lemma colon_form: "(58, 2) \<in> set MAC"
  by (simp add: MAC_def)

lemma hex_lower_all: "list_all is_hex ds \<Longrightarrow> list_all is_hex (lower ds)"
  by (auto simp: list_all_iff lower_def is_hex_lower)

lemma normalize_canonical:
  assumes "length ds = 12" "list_all is_hex ds"
  shows "normalize_mac (Some (canonical_mac ds)) = Some (canonical_mac ds)"
  using normalize_write_mac [OF colon_form _ hex_lower_all [OF assms(2)], of "[]" "[]"] assms(1)
  by (simp add: canonical_is_written canonical_lower)

lemma normalize_idem: "normalize_mac v = Some m \<Longrightarrow> normalize_mac (Some m) = Some m"
  by (erule normalize_mac_inv) (simp add: normalize_canonical)

lemma normalize_strip: "normalize_mac v = Some m \<Longrightarrow> strip m = m"
proof (erule normalize_mac_inv)
  fix ds :: pystr
  assume ds: "length ds = 12" "list_all is_hex ds" "m = canonical_mac ds"
  then have "length (lower ds) = 12" "list_all is_hex (lower ds)" "lower ds \<noteq> []"
    using length_lower [of ds] by (auto simp: hex_lower_all simp del: length_lower)
  then have "is_hex (hd (lower ds))" "is_hex (last (lower ds))" by (auto simp: list_all_iff)
  with hd_last_write_mac [OF colon_form, of "lower ds"] ds(1,3) show "strip m = m"
    by (intro strip_fixed) (simp add: canonical_is_written is_hex_not_space)
qed

lemma normalize_length: "normalize_mac v = Some m \<Longrightarrow> length m = 17"
proof (erule normalize_mac_inv)
  fix ds :: pystr
  assume "length ds = 12" "m = canonical_mac ds"
  then show "length m = 17"
    by (auto simp: canonical_mac_def lower_def numeral_eq_Suc length_Suc_conv)
qed

subsection \<open>Called-Station-Id\<close>

definition mac_kind :: "nat \<times> nat \<Rightarrow> bool" where
  "mac_kind f \<longleftrightarrow> 12 div snd f = Suc (12 div snd f - 1) \<and> (12 div snd f - 1 = 0 \<longleftrightarrow> snd f = 12) \<and>
     (if snd f = 12 then fst f = 0 else snd f < 12 \<and> \<not> is_hex (fst f))"

lemma MAC_kinds: "list_all mac_kind MAC"
  by (simp add: MAC_def mac_kind_def is_hex_def hex_val_def)

lemma MAC_kind: "f \<in> set MAC \<Longrightarrow> mac_kind f"
  using MAC_kinds by (simp add: list_all_iff)

lemma mac_prefix_step:
  assumes "f \<in> set MAC" "mac_prefix f v = Some r"
  shows "length (take (snd f) v) = snd f \<and> list_all is_hex (take (snd f) v) \<and>
     (snd f \<noteq> 12 \<longrightarrow> (\<exists>t. drop (snd f) v = fst f # t))"
proof -
  obtain k where k: "12 div snd f = Suc k" "k = 0 \<longleftrightarrow> snd f = 12"
    using MAC_kind [OF assms(1)] unfolding mac_kind_def by metis
  with assms(2) show ?thesis
    by (auto simp: mac_prefix_def split: if_splits list.splits)
qed

lemma mac_prefix_head:
  assumes "f \<in> set MAC" "mac_prefix f v = Some r"
  shows "i < snd f \<Longrightarrow> is_hex (v ! i)" and "snd f \<noteq> 12 \<Longrightarrow> v ! snd f = fst f"
proof -
  note st = mac_prefix_step [OF assms]
  show "is_hex (v ! i)" if "i < snd f"
    using st that by (auto simp: list_all_length)
  show "v ! snd f = fst f" if "snd f \<noteq> 12"
    using st that by (metis nth_append_length append_take_drop_id)
qed

lemma mac_prefix_unique:
  assumes f: "f \<in> set MAC" "mac_prefix f v = Some r" and g: "g \<in> set MAC" "mac_prefix g v = Some r'"
  shows "f = g"
proof -
  note kf = MAC_kind [OF f(1), unfolded mac_kind_def] and kg = MAC_kind [OF g(1), unfolded mac_kind_def]
  have "\<not> snd f < snd g"
    using mac_prefix_head [OF f] mac_prefix_head(1) [OF g, of "snd f"] kf kg by (auto split: if_splits)
  moreover have "\<not> snd g < snd f"
    using mac_prefix_head [OF g] mac_prefix_head(1) [OF f, of "snd g"] kf kg by (auto split: if_splits)
  ultimately have eq: "snd f = snd g" by simp
  have "fst f = fst g"
  proof (cases "snd f = 12")
    case True
    with eq kf kg show ?thesis by simp
  next
    case False
    with eq mac_prefix_head(2) [OF f] mac_prefix_head(2) [OF g] show ?thesis by simp
  qed
  with eq show ?thesis by (simp add: prod_eq_iff)
qed

lemma station_match_mac:
  assumes "f \<in> set MAC" "length ds = 12" "list_all is_hex ds" "rest = [] \<or> (\<exists>r. rest = 58 # r)"
  shows "station_match (write_mac f ds @ rest) =
    Some (write_mac f ds, case rest of [] \<Rightarrow> None | c # r \<Rightarrow> Some r)"
proof -
  let ?v = "write_mac f ds @ rest"
  have pre: "mac_prefix f ?v = Some rest"
    using mac_groups_join [of ds "snd f" "12 div snd f" "fst f" rest] MAC_cases [OF assms(1)] assms(2,3)
    by (simp add: mac_prefix_def write_mac_def)
  let ?ok = "\<lambda>g. case mac_prefix g ?v of Some [] \<Rightarrow> True | Some (c # _) \<Rightarrow> c = 58 | None \<Rightarrow> False"
  have ok: "?ok f" using pre assms(4) by auto
  have "\<exists>g. find ?ok MAC = Some g"
    using ok assms(1) by (metis find_None_iff not_None_eq)
  then obtain g where g: "find ?ok MAC = Some g" ..
  then have "g \<in> set MAC" "?ok g" by (auto simp: find_Some_iff)
  then have "g = f" using mac_prefix_unique [OF _ _ assms(1) pre] by (cases "mac_prefix g ?v") auto
  with g pre show ?thesis by (cases rest) (auto simp: station_match_def Let_def)
qed

text \<open>A \<open>Called-Station-Id\<close> made of a MAC address in any notation, a colon and an SSID splits
  into the canonical MAC and the SSID without surrounding white space, cut to 64 characters.\<close>

theorem parse_called_station_ssid:
  assumes "f \<in> set MAC" "length ds = 12" "list_all is_hex ds" "strip ssid \<noteq> []"
  shows "parse_called_station (Some (write_mac f ds @ [58] @ ssid)) =
    (Some (canonical_mac ds), Some (take 64 (strip ssid)))"
proof -
  obtain pre post where ssid: "ssid = pre @ strip ssid @ post" "list_all is_space pre" "list_all is_space post"
    using strip_decompose by blast
  let ?w = "write_mac f ds" and ?t = "pre @ strip ssid"
  have ds: "filter is_hex ?w = ds" by (rule write_mac_digits [OF assms(1-3)])
  then have w: "?w \<noteq> []" using assms(2) by auto
  have hd: "\<not> is_space (hd ?w)"
    using hd_last_write_mac(1) [OF assms(1,2)] assms(2,3) is_hex_not_space
    by (metis list_all_iff list.set_sel(1) list.size(3) zero_neq_numeral)
  have lst: "\<not> is_space (last (strip ssid))" using strip_ends [of ssid] assms(4) by simp
  have s: "strip (?w @ [58] @ ssid) = ?w @ 58 # ?t"
  proof -
    have "strip (?w @ [58] @ ssid) = strip ([] @ (?w @ 58 # ?t) @ post)"
      using ssid(1) by (metis append_Cons append_Nil append_assoc)
    also have "\<dots> = strip (?w @ 58 # ?t)" by (rule strip_surrounded) (simp_all add: ssid)
    also have "\<dots> = ?w @ 58 # ?t"
      by (rule strip_fixed) (use w hd lst assms(4) in \<open>simp add: hd_append\<close>)
    finally show ?thesis .
  qed
  have t: "strip ?t = strip ssid" using strip_surrounded [of pre "[]" "strip ssid"] ssid(2) by simp
  have m: "normalize_mac (Some ?w) = Some (canonical_mac ds)"
    using normalize_write_mac [OF assms(1-3), of "[]" "[]"] by simp
  show ?thesis
    using station_match_mac [OF assms(1-3), of "58 # ?t"] s t m w assms(4)
    by (simp add: parse_called_station_def Let_def)
qed

theorem parse_called_station_ssid_witness:
  "parse_called_station (Some (write_mac (45, 2) (u ''AABBCCDDEEFF'') @ [58] @ u '' corp'')) =
   (Some (canonical_mac (u ''AABBCCDDEEFF'')), Some (take 64 (strip (u '' corp''))))"
  by (rule parse_called_station_ssid)
    (simp_all add: MAC_def u_def is_hex_def hex_val_def strip_def lstrip_def rstrip_def is_space_def)

end
