(* ===== verification/Glob.thy ===== *)
theory Glob
  imports Prelude
begin

text \<open>
  \<open>fnmatch.fnmatchcase\<close>, the matcher behind policy patterns (\<open>naco/policy/conditions.py\<close>) and
  TACACS+ command rules (\<open>naco/tacacs/authz.py\<close>): \<open>*\<close>, \<open>?\<close> and bracket expressions
  \<open>[seq]\<close>, \<open>[!seq]\<close>.  The executable matcher is shown to decide the language a pattern
  denotes.
\<close>

datatype gitem = One nat | Range nat nat

datatype gtok = GStar | GAny | GChar nat | GSet bool "gitem list"

text \<open>Characters between the brackets: single characters and ranges; a range whose bounds are
  in the wrong order contributes nothing.\<close>

fun bracket_items :: "pystr \<Rightarrow> gitem list" where
  "bracket_items (a # d # b # cs) =
     (if d = 45 then (if a > b then bracket_items cs else Range a b # bracket_items cs)
      else One a # bracket_items (d # b # cs))"
| "bracket_items (a # cs) = One a # bracket_items cs"
| "bracket_items [] = []"

text \<open>The text after \<open>[\<close> up to the closing \<open>]\<close> and what follows; a \<open>]\<close> in first place (after
  an optional \<open>!\<close>) is ordinary.  \<open>None\<close>: there is no closing bracket.\<close>

definition bracket_body :: "pystr \<Rightarrow> (pystr \<times> pystr) option" where
  "bracket_body s =
     (let n = (case s of c # _ \<Rightarrow> if c = 33 then 1 else 0 | [] \<Rightarrow> 0);
          m = (case drop n s of c # _ \<Rightarrow> if c = 93 then n + 1 else n | [] \<Rightarrow> n)
      in case partition1 93 (drop m s) of
           (a, Some r) \<Rightarrow> Some (take m s @ a, r)
         | (_, None) \<Rightarrow> None)"

text \<open>A leading \<open>!\<close> negates.  \<open>fnmatch\<close> looks for it after empty ranges were dropped, so an
  exclamation mark that comes first only then negates too.\<close>

definition bracket_tok :: "pystr \<Rightarrow> gtok" where
  "bracket_tok body =
     (case body of
        c # cs \<Rightarrow>
          if c = 33 then GSet True (bracket_items cs)
          else (case bracket_items body of
                  One x # is \<Rightarrow> if x = 33 then GSet True is else GSet False (One x # is)
                | Range x y # is \<Rightarrow>
                    if x = 33 then GSet True (One 45 # One y # is) else GSet False (Range x y # is)
                | [] \<Rightarrow> GSet False [])
      | [] \<Rightarrow> GSet False [])"

lemma bracket_body_shorter: "bracket_body s = Some (b, r) \<Longrightarrow> length r < Suc (length s)"
proof -
  assume "bracket_body s = Some (b, r)"
  then obtain m where "\<exists>a. partition1 93 (drop m s) = (a, Some r)"
    by (auto simp: bracket_body_def Let_def split: prod.splits option.splits)
  then have r: "r = tl (dropWhile (\<lambda>c. c \<noteq> 93) (drop m s))" by (auto simp: partition1_eq split: if_splits)
  have "length r \<le> length (dropWhile (\<lambda>c. c \<noteq> 93) (drop m s))" by (simp add: r)
  also have "\<dots> \<le> length (drop m s)" by (rule length_dropWhile_le)
  finally show ?thesis by simp
qed

function glob_toks :: "pystr \<Rightarrow> gtok list" where
  "glob_toks [] = []"
| "glob_toks (c # cs) =
     (if c = 42 then GStar # glob_toks cs
      else if c = 63 then GAny # glob_toks cs
      else if c = 91 then
        (case bracket_body cs of
           None \<Rightarrow> GChar 91 # glob_toks cs
         | Some (b, r) \<Rightarrow> bracket_tok b # glob_toks r)
      else GChar c # glob_toks cs)"
  by pat_completeness auto
termination
  by (relation "measure length") (auto dest: bracket_body_shorter)

fun gitem_match :: "gitem \<Rightarrow> nat \<Rightarrow> bool" where
  "gitem_match (One a) c \<longleftrightarrow> c = a"
| "gitem_match (Range a b) c \<longleftrightarrow> a \<le> c \<and> c \<le> b"

fun gtok_match :: "gtok \<Rightarrow> nat \<Rightarrow> bool" where
  "gtok_match GStar c \<longleftrightarrow> True"
| "gtok_match GAny c \<longleftrightarrow> True"
| "gtok_match (GChar a) c \<longleftrightarrow> c = a"
| "gtok_match (GSet neg is) c \<longleftrightarrow> (list_ex (\<lambda>i. gitem_match i c) is) \<noteq> neg"

fun glob_match :: "gtok list \<Rightarrow> pystr \<Rightarrow> bool" where
  "glob_match [] s \<longleftrightarrow> s = []"
| "glob_match (GStar # ps) [] \<longleftrightarrow> glob_match ps []"
| "glob_match (GStar # ps) (c # cs) \<longleftrightarrow> glob_match ps (c # cs) \<or> glob_match (GStar # ps) cs"
| "glob_match (p # ps) [] \<longleftrightarrow> False"
| "glob_match (p # ps) (c # cs) \<longleftrightarrow> gtok_match p c \<and> glob_match ps cs"

definition fnmatchcase :: "pystr \<Rightarrow> pystr \<Rightarrow> bool" where
  "fnmatchcase name pat \<longleftrightarrow> glob_match (glob_toks pat) name"

subsection \<open>The language of a pattern\<close>

fun glob_lang :: "gtok list \<Rightarrow> pystr set" where
  "glob_lang [] = {[]}"
| "glob_lang (p # ps) =
     (if p = GStar then {s @ t | s t. t \<in> glob_lang ps}
      else {c # t | c t. gtok_match p c \<and> t \<in> glob_lang ps})"

lemma glob_star_iff: "glob_match (GStar # ps) s \<longleftrightarrow> (\<exists>a t. s = a @ t \<and> glob_match ps t)"
proof (induction s)
  case (Cons c s)
  have "(\<exists>a t. c # s = a @ t \<and> glob_match ps t) \<longleftrightarrow>
        glob_match ps (c # s) \<or> (\<exists>a t. s = a @ t \<and> glob_match ps t)"
    by (metis append_Cons append_Nil list.exhaust list.inject)
  with Cons.IH show ?case by simp
qed simp

lemma glob_tok_iff:
  "p \<noteq> GStar \<Longrightarrow> glob_match (p # ps) s \<longleftrightarrow> (\<exists>c t. s = c # t \<and> gtok_match p c \<and> glob_match ps t)"
  by (cases p; cases s) auto

lemma glob_match_lang: "glob_match ps s \<longleftrightarrow> s \<in> glob_lang ps"
proof (induction ps arbitrary: s)
  case (Cons p ps)
  then show ?case
    by (cases "p = GStar") (auto simp: glob_star_iff glob_tok_iff simp del: glob_match.simps)
qed simp

definition plain_char :: "nat \<Rightarrow> bool" where
  "plain_char c \<longleftrightarrow> c \<noteq> 42 \<and> c \<noteq> 63 \<and> c \<noteq> 91"

lemma glob_toks_plain_append:
  "list_all plain_char w \<Longrightarrow> glob_toks (w @ p) = map GChar w @ glob_toks p"
  by (induction w) (auto simp: plain_char_def)

lemma glob_match_chars_append:
  "glob_match (map GChar w @ ps) s \<longleftrightarrow> (\<exists>t. s = w @ t \<and> glob_match ps t)"
proof (induction w arbitrary: s)
  case (Cons c w)
  then show ?case by (cases s) auto
qed simp

lemma fnmatchcase_plain: "list_all plain_char p \<Longrightarrow> fnmatchcase s p \<longleftrightarrow> s = p"
  using glob_match_chars_append [of p "[]" s] glob_toks_plain_append [of p "[]"]
  by (simp add: fnmatchcase_def)

lemma fnmatchcase_prefix:
  "list_all plain_char p \<Longrightarrow> fnmatchcase s (p @ [42]) \<longleftrightarrow> startswith s p"
proof -
  assume "list_all plain_char p"
  then have "fnmatchcase s (p @ [42]) \<longleftrightarrow> (\<exists>t. s = p @ t \<and> glob_match [GStar] t)"
    by (simp add: fnmatchcase_def glob_toks_plain_append glob_match_chars_append)
  also have "\<dots> \<longleftrightarrow> (\<exists>t. s = p @ t)"
    by (simp add: glob_star_iff)
  also have "\<dots> \<longleftrightarrow> startswith s p"
    unfolding startswith_def by (metis append_eq_conv_conj append_take_drop_id)
  finally show ?thesis .
qed

lemma fnmatchcase_star: "fnmatchcase s [42]"
  by (simp add: fnmatchcase_def glob_star_iff)

end
