(* ===== verification/Conditions.thy ===== *)
theory Conditions
  imports Models NetUtils Glob
begin

text \<open>
  \<open>naco/policy/context.py\<close> (what a decision is made on) and \<open>naco/policy/conditions.py\<close> (the typed
  predicates of a policy).  \<open>parse_conditions\<close> is the validation that pydantic derives from the class
  declarations (literal fields, forbidden extra fields, the discriminator \<open>type\<close>) followed by the
  validators of the source; \<open>None\<close> is its \<open>ValueError\<close>, whose text is not modelled.  Testing a
  condition may raise, so it returns a result.  The zone is a function from the instant to the
  offset from UTC, in microseconds.
\<close>

section \<open>The context of a decision\<close>

record AuthContext =
  ctx_auth_method :: pystr
  ctx_username :: pystr
  ctx_group :: "pystr option"
  ctx_mac :: "pystr option"
  ctx_device_status :: "pystr option"
  ctx_device_type :: pystr
  ctx_vendor :: pystr
  ctx_nas_name :: pystr
  ctx_nas_ip :: pystr
  ctx_ssid :: "pystr option"
  ctx_now :: int

text \<open>\<open>AuthContext(auth_method)\<close>, every other field at its default.\<close>

definition AuthContext_init :: "pystr \<Rightarrow> int \<Rightarrow> AuthContext" where
  "AuthContext_init auth_method now =
     \<lparr>ctx_auth_method = auth_method, ctx_username = [], ctx_group = None, ctx_mac = None, ctx_device_status = None,
      ctx_device_type = [], ctx_vendor = [], ctx_nas_name = [], ctx_nas_ip = [], ctx_ssid = None, ctx_now = now\<rparr>"

definition AUTH_METHODS :: "pystr list" where
  "AUTH_METHODS = [u ''EAP-TLS'', u ''EAP-TTLS'', u ''PEAP'', u ''PAP'', u ''MAB'']"

definition DEVICE_STATES :: "pystr list" where
  "DEVICE_STATES = [u ''approved'', u ''pending'', u ''guest'']"

type_synonym zone = "int \<Rightarrow> int"

section \<open>Text helpers\<close>

definition MAX_CONDITIONS :: nat where "MAX_CONDITIONS = 20"
definition MAX_ITEMS :: nat where "MAX_ITEMS = 500"
definition MAX_TEXT :: nat where "MAX_TEXT = 128"

definition DAYS :: "pystr list" where
  "DAYS = [u ''mon'', u ''tue'', u ''wed'', u ''thu'', u ''fri'', u ''sat'', u ''sun'']"

definition fold_text :: "pystr option \<Rightarrow> pystr" where
  "fold_text value = casefold (case value of None \<Rightarrow> [] | Some v \<Rightarrow> v)"

datatype cond_value = VText pystr | VList "pystr list"

definition check_text :: "pystr \<Rightarrow> pystr option" where
  "check_text v = (let s = strip v in if s = [] then None else if length s > MAX_TEXT then None else Some s)"

definition valid_text :: "cond_value \<Rightarrow> pystr option" where
  "valid_text v = (case v of VText s \<Rightarrow> check_text s | VList _ \<Rightarrow> None)"

definition valid_text_list :: "cond_value \<Rightarrow> pystr list option" where
  "valid_text_list v =
     (case v of VText _ \<Rightarrow> None
      | VList vs \<Rightarrow> if vs = [] \<or> length vs > MAX_ITEMS then None else those (map check_text vs))"

definition glob :: "pystr \<Rightarrow> pystr option \<Rightarrow> bool" where
  "glob pattern value = (case value of None \<Rightarrow> False | Some v \<Rightarrow> fnmatchcase (casefold v) (casefold pattern))"

section \<open>The conditions\<close>

datatype cond_op = OpEquals | OpNotEquals | OpIn | OpNotIn | OpMatches

fun op_name :: "cond_op \<Rightarrow> pystr" where
  "op_name OpEquals = u ''equals''"
| "op_name OpNotEquals = u ''not_equals''"
| "op_name OpIn = u ''in''"
| "op_name OpNotIn = u ''not_in''"
| "op_name OpMatches = u ''matches''"

text \<open>The subclasses of \<open>_TextCondition\<close>: their discriminator, their operators, the field they test.\<close>

datatype text_kind = KUsername | KGroup | KDeviceType | KVendor | KNas | KSsid

fun kind_name :: "text_kind \<Rightarrow> pystr" where
  "kind_name KUsername = u ''username''"
| "kind_name KGroup = u ''group''"
| "kind_name KDeviceType = u ''device_type''"
| "kind_name KVendor = u ''vendor''"
| "kind_name KNas = u ''nas''"
| "kind_name KSsid = u ''ssid''"

fun kind_ops :: "text_kind \<Rightarrow> cond_op list" where
  "kind_ops KUsername = [OpEquals, OpNotEquals, OpIn, OpMatches]"
| "kind_ops KGroup = [OpIn, OpNotIn]"
| "kind_ops KDeviceType = [OpIn, OpNotIn]"
| "kind_ops KVendor = [OpIn, OpMatches]"
| "kind_ops KNas = [OpIn, OpNotIn]"
| "kind_ops KSsid = [OpIn, OpNotIn, OpMatches]"

definition or_none :: "pystr \<Rightarrow> pystr option" where
  "or_none s = (if s = [] then None else Some s)"

fun kind_actual :: "text_kind \<Rightarrow> AuthContext \<Rightarrow> pystr option" where
  "kind_actual KUsername ctx = or_none (ctx_username ctx)"
| "kind_actual KGroup ctx = ctx_group ctx"
| "kind_actual KDeviceType ctx = or_none (ctx_device_type ctx)"
| "kind_actual KVendor ctx = or_none (ctx_vendor ctx)"
| "kind_actual KNas ctx = or_none (ctx_nas_name ctx)"
| "kind_actual KSsid ctx = ctx_ssid ctx"

datatype condition =
    AlwaysCond
  | TextCond text_kind cond_op cond_value
  | AuthMethodCond "pystr list"
  | DeviceStatusCond "pystr list"
  | MacCond cond_op cond_value
  | TimeCond pystr pystr "pystr list"   \<comment> \<open>start, end, days\<close>

text \<open>\<open>_TextCondition._shape\<close> and \<open>_test\<close>.  The value of a validated condition is a list for
  \<open>in\<close> and \<open>not_in\<close> and a text otherwise; \<open>AssertionError\<close> for another operator cannot occur, every
  operator is covered.\<close>

definition text_shape :: "cond_op \<Rightarrow> cond_value \<Rightarrow> cond_value option" where
  "text_shape op v =
     (if op = OpIn \<or> op = OpNotIn then map_option VList (valid_text_list v) else map_option VText (valid_text v))"

fun value_text :: "cond_value \<Rightarrow> pystr" where
  "value_text (VText s) = s"
| "value_text (VList _) = []"

fun value_list :: "cond_value \<Rightarrow> pystr list" where
  "value_list (VList vs) = vs"
| "value_list (VText _) = []"

definition text_test :: "cond_op \<Rightarrow> cond_value \<Rightarrow> pystr option \<Rightarrow> bool" where
  "text_test op v actual =
     (case op of
        OpEquals \<Rightarrow> actual \<noteq> None \<and> fold_text actual = casefold (value_text v)
      | OpNotEquals \<Rightarrow> fold_text actual \<noteq> casefold (value_text v)
      | OpIn \<Rightarrow> actual \<noteq> None \<and> fold_text actual \<in> casefold ` set (value_list v)
      | OpNotIn \<Rightarrow> fold_text actual \<notin> casefold ` set (value_list v)
      | OpMatches \<Rightarrow> glob (value_text v) actual)"

text \<open>\<open>MacCond\<close>.\<close>

definition MAC_PATTERN :: pystr where
  "MAC_PATTERN = u ''0123456789abcdef:*?-''"

definition mac_pattern :: "pystr \<Rightarrow> pystr option" where
  "mac_pattern s =
     (let p = lower s in
      if list_ex (\<lambda>c. c \<notin> set MAC_PATTERN) p then None else Some (map (\<lambda>c. if c = 45 then 58 else c) p))"

definition mac_cond_shape :: "cond_op \<Rightarrow> cond_value \<Rightarrow> cond_value option" where
  "mac_cond_shape op v =
     (if op = OpMatches then
        (case valid_text v of None \<Rightarrow> None | Some s \<Rightarrow> map_option VText (mac_pattern s))
      else if op = OpIn then
        (case valid_text_list v of None \<Rightarrow> None
         | Some items \<Rightarrow> map_option VList (those (map (\<lambda>i. normalize_mac (Some i)) items)))
      else (case valid_text v of None \<Rightarrow> None | Some s \<Rightarrow> map_option VText (normalize_mac (Some s))))"

definition mac_test :: "cond_op \<Rightarrow> cond_value \<Rightarrow> pystr option \<Rightarrow> bool" where
  "mac_test op v mac =
     (case mac of None \<Rightarrow> False
      | Some m \<Rightarrow>
          if op = OpEquals then v = VText m
          else if op = OpIn then m \<in> set (value_list v)
          else fnmatchcase m (value_text v))"

text \<open>\<open>TimeCond\<close>.  \<open>time.fromisoformat\<close> on a text of five characters, the only length that passes:
  the extended and the basic form of hours and minutes, and the forms with a zone (\<open>Z\<close>, or hours
  before and after a sign), which give a time with a zone.\<close>

datatype pytime = Naive nat | Aware nat int   \<comment> \<open>minute of the day; offset in hours\<close>

definition two_digits :: "nat \<Rightarrow> nat \<Rightarrow> nat \<Rightarrow> nat option" where
  "two_digits bound a b =
     (if is_digit a \<and> is_digit b \<and> 10 * (a - 48) + (b - 48) < bound then Some (10 * (a - 48) + (b - 48)) else None)"

definition hour_minute :: "nat \<Rightarrow> nat \<Rightarrow> nat \<Rightarrow> nat \<Rightarrow> nat option" where
  "hour_minute a b c d =
     (case (two_digits 24 a b, two_digits 60 c d) of (Some h, Some m) \<Rightarrow> Some (60 * h + m) | _ \<Rightarrow> None)"

fun time_fromisoformat :: "pystr \<Rightarrow> pytime option" where
  "time_fromisoformat [a, b, c, d, e] =
     (if c = 58 then map_option Naive (hour_minute a b d e)
      else if a = 84 then map_option Naive (hour_minute b c d e)
      else if e = 90 then map_option (\<lambda>m. Aware m 0) (hour_minute a b c d)
      else if c = 43 \<or> c = 45 then
        (case (two_digits 24 a b, two_digits 24 d e) of
           (Some h, Some z) \<Rightarrow> Some (Aware (60 * h) (if c = 43 then int z else - int z))
         | _ \<Rightarrow> None)
      else None)"
| "time_fromisoformat _ = None"

definition hhmm :: "pystr \<Rightarrow> bool" where
  "hhmm v \<longleftrightarrow> length v = 5 \<and> time_fromisoformat v \<noteq> None"

definition day_length :: int where "day_length = 86400000000"
definition minute_length :: int where "minute_length = 60000000"

definition weekday :: "int \<Rightarrow> nat" where
  "weekday local = nat ((local div day_length + 3) mod 7)"

definition minute_of_day :: "int \<Rightarrow> nat" where
  "minute_of_day local = nat (local mod day_length div minute_length)"

text \<open>A time with a zone and one without cannot be ordered, and the local time has none.\<close>

definition time_between :: "pystr \<Rightarrow> pystr \<Rightarrow> nat \<Rightarrow> py_exc + bool" where
  "time_between start end m =
     (case (time_fromisoformat start, time_fromisoformat end) of
        (Some (Naive s), Some (Naive e)) \<Rightarrow> Inr (if s \<le> e then s \<le> m \<and> m \<le> e else m \<ge> s \<or> m \<le> e)
      | (Some _, Some _) \<Rightarrow> Inl TypeError
      | _ \<Rightarrow> Inl (ValueError (u ''Invalid isoformat string'')))"

definition time_test :: "pystr \<Rightarrow> pystr \<Rightarrow> pystr list \<Rightarrow> int \<Rightarrow> zone \<Rightarrow> py_exc + bool" where
  "time_test start end days now tz =
     (let local = now + tz now in
      if DAYS ! weekday local \<notin> set days then Inr False
      else time_between start end (minute_of_day local))"

definition condition_matches :: "condition \<Rightarrow> AuthContext \<Rightarrow> zone \<Rightarrow> py_exc + bool" where
  "condition_matches cond ctx tz =
     (case cond of
        AlwaysCond \<Rightarrow> Inr True
      | TextCond kind op v \<Rightarrow> Inr (text_test op v (kind_actual kind ctx))
      | AuthMethodCond vs \<Rightarrow> Inr (ctx_auth_method ctx \<in> set vs)
      | DeviceStatusCond vs \<Rightarrow> Inr (case ctx_device_status ctx of None \<Rightarrow> False | Some s \<Rightarrow> s \<in> set vs)
      | MacCond op v \<Rightarrow> Inr (mac_test op v (ctx_mac ctx))
      | TimeCond start end days \<Rightarrow> time_test start end days (ctx_now ctx) tz)"

definition shown :: "cond_value \<Rightarrow> pystr" where
  "shown v = (case v of VList vs \<Rightarrow> join (u '', '') vs | VText s \<Rightarrow> s)"

definition label :: "condition \<Rightarrow> pystr" where
  "label cond =
     (case cond of
        AlwaysCond \<Rightarrow> u ''always''
      | TextCond kind op v \<Rightarrow> kind_name kind @ [32] @ op_name op @ [32] @ shown v
      | AuthMethodCond vs \<Rightarrow> u ''auth_method in '' @ join (u '', '') vs
      | DeviceStatusCond vs \<Rightarrow> u ''device_status in '' @ join (u '', '') vs
      | MacCond op v \<Rightarrow> u ''mac '' @ op_name op @ [32] @ shown v
      | TimeCond start end days \<Rightarrow>
          u ''time '' @ start @ [45] @ end @ (if length days = 7 then [] else u '' on '' @ join (u '', '') days))"

section \<open>Validation\<close>

fun json_text :: "json \<Rightarrow> pystr option" where
  "json_text (JStr s) = Some s"
| "json_text _ = None"

fun json_value :: "json \<Rightarrow> cond_value option" where
  "json_value (JStr s) = Some (VText s)"
| "json_value (JArr vs) = map_option VList (those (map json_text vs))"
| "json_value _ = None"

definition only_keys :: "pystr list \<Rightarrow> (pystr \<times> json) list \<Rightarrow> bool" where
  "only_keys ks d \<longleftrightarrow> list_all (\<lambda>(k, _). k \<in> set ks) d"

definition json_op :: "cond_op list \<Rightarrow> json option \<Rightarrow> cond_op option" where
  "json_op ops j = (case j of Some (JStr s) \<Rightarrow> find (\<lambda>op. op_name op = s) ops | _ \<Rightarrow> None)"

text \<open>A list of literals with at least one element.\<close>

definition json_literals :: "pystr list \<Rightarrow> json option \<Rightarrow> pystr list option" where
  "json_literals names j =
     (case j of Some (JArr vs) \<Rightarrow>
        (case those (map json_text vs) of
           Some ss \<Rightarrow> if ss \<noteq> [] \<and> list_all (\<lambda>s. s \<in> set names) ss then Some ss else None
         | None \<Rightarrow> None)
      | _ \<Rightarrow> None)"

definition op_default :: "pystr \<Rightarrow> json option \<Rightarrow> bool" where
  "op_default name j \<longleftrightarrow> j = None \<or> j = Some (JStr name)"

definition parse_shaped :: "cond_op list \<Rightarrow> (cond_op \<Rightarrow> cond_value \<Rightarrow> cond_value option) \<Rightarrow>
    (cond_op \<Rightarrow> cond_value \<Rightarrow> condition) \<Rightarrow> (pystr \<times> json) list \<Rightarrow> condition option" where
  "parse_shaped ops shape mk d =
     (if \<not> only_keys [u ''type'', u ''op'', u ''value''] d then None
      else (case (json_op ops (od_get d (u ''op'')), od_get d (u ''value'')) of
              (Some op, Some j) \<Rightarrow>
                (case json_value j of None \<Rightarrow> None | Some v \<Rightarrow> map_option (mk op) (shape op v))
            | _ \<Rightarrow> None))"

definition parse_literals :: "pystr list \<Rightarrow> (pystr list \<Rightarrow> condition) \<Rightarrow> (pystr \<times> json) list \<Rightarrow> condition option" where
  "parse_literals names mk d =
     (if only_keys [u ''type'', u ''op'', u ''value''] d \<and> op_default (u ''in'') (od_get d (u ''op''))
      then map_option mk (json_literals names (od_get d (u ''value''))) else None)"

definition json_days :: "json option \<Rightarrow> pystr list option" where
  "json_days j = (case j of None \<Rightarrow> Some DAYS | Some _ \<Rightarrow> json_literals DAYS j)"

definition parse_time :: "(pystr \<times> json) list \<Rightarrow> condition option" where
  "parse_time d =
     (if only_keys [u ''type'', u ''op'', u ''start'', u ''end'', u ''days''] d \<and>
         op_default (u ''between'') (od_get d (u ''op''))
      then (case (od_get d (u ''start''), od_get d (u ''end''), json_days (od_get d (u ''days''))) of
              (Some (JStr s), Some (JStr e), Some days) \<Rightarrow>
                if hhmm s \<and> hhmm e then Some (TimeCond s e days) else None
            | _ \<Rightarrow> None)
      else None)"

definition text_kinds :: "text_kind list" where
  "text_kinds = [KUsername, KGroup, KDeviceType, KVendor, KNas, KSsid]"

fun parse_condition :: "json \<Rightarrow> condition option" where
  "parse_condition (JObj d) =
     (case od_get d (u ''type'') of
        Some (JStr t) \<Rightarrow>
          (if t = u ''always'' then (if only_keys [u ''type''] d then Some AlwaysCond else None)
           else if t = u ''auth_method'' then parse_literals AUTH_METHODS AuthMethodCond d
           else if t = u ''device_status'' then parse_literals DEVICE_STATES DeviceStatusCond d
           else if t = u ''mac'' then parse_shaped [OpEquals, OpIn, OpMatches] mac_cond_shape MacCond d
           else if t = u ''time'' then parse_time d
           else (case find (\<lambda>k. kind_name k = t) text_kinds of
                   Some k \<Rightarrow> parse_shaped (kind_ops k) text_shape (TextCond k) d
                 | None \<Rightarrow> None))
      | _ \<Rightarrow> None)"
| "parse_condition _ = None"

definition parse_conditions :: "json \<Rightarrow> condition list option" where
  "parse_conditions raw =
     (case raw of
        JNull \<Rightarrow> Some []
      | JArr items \<Rightarrow> if length items > MAX_CONDITIONS then None else those (map parse_condition items)
      | _ \<Rightarrow> None)"

fun value_json :: "cond_value \<Rightarrow> json" where
  "value_json (VText s) = JStr s"
| "value_json (VList vs) = JArr (map JStr vs)"

definition shaped_json :: "pystr \<Rightarrow> cond_op \<Rightarrow> cond_value \<Rightarrow> json" where
  "shaped_json t op v = JObj [(u ''type'', JStr t), (u ''op'', JStr (op_name op)), (u ''value'', value_json v)]"

definition dump_condition :: "condition \<Rightarrow> json" where
  "dump_condition cond =
     (case cond of
        AlwaysCond \<Rightarrow> JObj [(u ''type'', JStr (u ''always''))]
      | TextCond kind op v \<Rightarrow> shaped_json (kind_name kind) op v
      | AuthMethodCond vs \<Rightarrow> shaped_json (u ''auth_method'') OpIn (VList vs)
      | DeviceStatusCond vs \<Rightarrow> shaped_json (u ''device_status'') OpIn (VList vs)
      | MacCond op v \<Rightarrow> shaped_json (u ''mac'') op v
      | TimeCond start end days \<Rightarrow>
          JObj [(u ''type'', JStr (u ''time'')), (u ''op'', JStr (u ''between'')), (u ''start'', JStr start),
                (u ''end'', JStr end), (u ''days'', JArr (map JStr days))])"

definition dump_conditions :: "condition list \<Rightarrow> json" where
  "dump_conditions conditions = JArr (map dump_condition conditions)"

section \<open>Validated conditions are stable\<close>

text \<open>What validation guarantees of a condition.\<close>

fun good_condition :: "condition \<Rightarrow> bool" where
  "good_condition AlwaysCond = True"
| "good_condition (TextCond k op v) = (op \<in> set (kind_ops k) \<and> text_shape op v = Some v)"
| "good_condition (AuthMethodCond vs) = (vs \<noteq> [] \<and> set vs \<subseteq> set AUTH_METHODS)"
| "good_condition (DeviceStatusCond vs) = (vs \<noteq> [] \<and> set vs \<subseteq> set DEVICE_STATES)"
| "good_condition (MacCond op v) = (op \<in> {OpEquals, OpIn, OpMatches} \<and> mac_cond_shape op v = Some v)"
| "good_condition (TimeCond s e days) = (hhmm s \<and> hhmm e \<and> days \<noteq> [] \<and> set days \<subseteq> set DAYS)"

lemma check_text_idem: "check_text v = Some s \<Longrightarrow> check_text s = Some s"
  by (auto simp: check_text_def Let_def strip_idem split: if_splits)

lemma those_map_iff: "those (map f xs) = Some ys \<longleftrightarrow> list_all2 (\<lambda>x y. f x = Some y) xs ys"
  by (induction xs arbitrary: ys) (auto split: option.splits simp: list_all2_Cons1)

lemma those_map_fix: "those (map f xs) = Some xs \<longleftrightarrow> (\<forall>x\<in>set xs. f x = Some x)"
  by (simp add: those_map_iff list_all2_same)

lemma those_map_set: "those (map f xs) = Some ys \<Longrightarrow> y \<in> set ys \<Longrightarrow> \<exists>x. f x = Some y"
  by (auto simp: those_map_iff list_all2_conv_all_nth in_set_conv_nth)

lemma those_map_length: "those (map f xs) = Some ys \<Longrightarrow> length ys = length xs"
  by (auto simp: those_map_iff dest: list_all2_lengthD)

lemma valid_text_fix: "valid_text v = Some s \<Longrightarrow> valid_text (VText s) = Some s"
  by (auto simp: valid_text_def check_text_idem split: cond_value.splits)

lemma valid_text_list_good:
  "valid_text_list v = Some vs \<Longrightarrow>
   vs \<noteq> [] \<and> length vs \<le> MAX_ITEMS \<and> (\<forall>s\<in>set vs. check_text s = Some s)"
  by (auto simp: valid_text_list_def split: cond_value.splits if_splits
      dest: those_map_length those_map_set check_text_idem)

lemma valid_text_list_fix:
  "valid_text_list (VList vs) = Some vs \<longleftrightarrow> vs \<noteq> [] \<and> length vs \<le> MAX_ITEMS \<and> (\<forall>s\<in>set vs. check_text s = Some s)"
  by (auto simp: valid_text_list_def those_map_fix not_less)

lemma text_shape_idem: "text_shape op v = Some w \<Longrightarrow> text_shape op w = Some w"
  by (auto simp: text_shape_def valid_text_fix valid_text_list_fix split: if_splits dest: valid_text_list_good)

lemma check_text_normal: "normalize_mac v = Some m \<Longrightarrow> check_text m = Some m"
  using normalize_length [of v m] normalize_strip [of v m] by (auto simp: check_text_def MAX_TEXT_def Let_def)

lemma mac_pattern_chars: "list_all (\<lambda>c. \<not> is_space c \<and> lower_char c = c) MAC_PATTERN"
  by (simp add: MAC_PATTERN_def u_def is_space_def lower_char_def)

lemma mac_pattern_fix:
  assumes "check_text s = Some s" "mac_pattern s = Some p"
  shows "check_text p = Some p \<and> mac_pattern p = Some p"
proof -
  have s: "s \<noteq> []" "length s \<le> MAX_TEXT" using assms(1) by (auto simp: check_text_def Let_def split: if_splits)
  have sub: "set (lower s) \<subseteq> set MAC_PATTERN"
    and p: "p = map (\<lambda>c. if c = 45 then 58 else c) (lower s)"
    using assms(2) by (auto simp: mac_pattern_def Let_def list_ex_iff split: if_splits)
  have "58 \<in> set MAC_PATTERN" by (simp add: MAC_PATTERN_def u_def)
  then have chars: "set p \<subseteq> set MAC_PATTERN - {45}" using sub by (auto simp: p)
  then have sp: "\<forall>c\<in>set p. \<not> is_space c \<and> lower_char c = c \<and> c \<noteq> 45"
    using mac_pattern_chars by (auto simp: list_all_iff)
  have len: "p \<noteq> []" "length p = length s" using s by (auto simp: p)
  then have "strip p = p" using sp by (intro strip_fixed) auto
  moreover have "lower p = p" using sp by (simp add: lower_def map_idI)
  ultimately show ?thesis
    using chars s(2) len sp by (auto simp: check_text_def mac_pattern_def Let_def list_ex_iff intro: map_idI)
qed

lemma valid_text_good: "valid_text v = Some s \<Longrightarrow> check_text s = Some s"
  by (auto simp: valid_text_def check_text_idem split: cond_value.splits)

lemma mac_cond_shape_idem: "mac_cond_shape op v = Some w \<Longrightarrow> mac_cond_shape op w = Some w"
proof (cases "op = OpIn")
  case True
  assume "mac_cond_shape op v = Some w"
  with True obtain items ms where ms: "valid_text_list v = Some items"
    "those (map (\<lambda>i. normalize_mac (Some i)) items) = Some ms" "w = VList ms"
    by (auto simp: mac_cond_shape_def split: option.splits)
  have "normalize_mac (Some m) = Some m" "check_text m = Some m" if "m \<in> set ms" for m
    using those_map_set [OF ms(2) that] by (auto intro: normalize_idem check_text_normal)
  moreover have "ms \<noteq> []" "length ms \<le> MAX_ITEMS"
    using those_map_length [OF ms(2)] valid_text_list_good [OF ms(1)] by auto
  ultimately have "valid_text_list (VList ms) = Some ms"
    "those (map (\<lambda>i. normalize_mac (Some i)) ms) = Some ms"
    by (simp_all add: valid_text_list_fix those_map_fix)
  with True ms show ?thesis by (simp add: mac_cond_shape_def)
next
  case False
  assume shape: "mac_cond_shape op v = Some w"
  with False obtain s where s: "valid_text v = Some s" by (auto simp: mac_cond_shape_def split: option.splits if_splits)
  show ?thesis
  proof (cases "op = OpMatches")
    case True
    with shape s mac_pattern_fix [OF valid_text_good [OF s]] show ?thesis
      by (auto simp: mac_cond_shape_def valid_text_def [of "VText _"])
  next
    case False
    with \<open>op \<noteq> OpIn\<close> shape s obtain m where "normalize_mac (Some s) = Some m" "w = VText m"
      by (auto simp: mac_cond_shape_def)
    with False \<open>op \<noteq> OpIn\<close> show ?thesis
      by (simp add: mac_cond_shape_def valid_text_def check_text_normal normalize_idem)
  qed
qed

lemma json_literals_good: "json_literals names j = Some vs \<Longrightarrow> vs \<noteq> [] \<and> set vs \<subseteq> set names"
  by (auto simp: json_literals_def list_all_iff split: option.splits json.splits if_splits)

lemma json_op_mem: "json_op ops j = Some op \<Longrightarrow> op \<in> set ops"
  by (auto simp: json_op_def find_Some_iff split: option.splits json.splits)

lemma parse_shaped_good:
  "parse_shaped ops shape mk d = Some c \<Longrightarrow> \<exists>op v w. op \<in> set ops \<and> shape op v = Some w \<and> c = mk op w"
  by (auto simp: parse_shaped_def split: option.splits if_splits dest: json_op_mem)

lemma parse_time_good: "parse_time d = Some c \<Longrightarrow> good_condition c"
  by (auto simp: parse_time_def json_days_def DAYS_def split: option.splits json.splits if_splits
      dest!: json_literals_good)

lemma parse_condition_good: "parse_condition j = Some c \<Longrightarrow> good_condition c"
  by (induction j rule: parse_condition.induct)
    (auto simp: parse_literals_def parse_time_good split: option.splits json.splits if_splits
      dest!: parse_shaped_good json_literals_good dest: text_shape_idem mac_cond_shape_idem)

lemma json_value_json [simp]: "json_value (value_json v) = Some v"
  by (cases v) (auto simp: those_map_iff list_all2_map1 list_all2_same)

lemma json_op_name: "op \<in> set ops \<Longrightarrow> json_op ops (Some (JStr (op_name op))) = Some op"
proof -
  have inj: "op_name a = op_name b \<Longrightarrow> a = b" for a b by (cases a; cases b) auto
  assume "op \<in> set ops"
  then obtain x where "find (\<lambda>o'. op_name o' = op_name op) ops = Some x"
    by (metis (mono_tags, lifting) find_None_iff not_None_eq)
  moreover from this have "x = op" by (auto simp: find_Some_iff dest: inj)
  ultimately show ?thesis by (simp add: json_op_def)
qed

lemma shaped_json_fields:
  "shaped_json t op v = JObj d \<Longrightarrow>
   od_get d (u ''type'') = Some (JStr t) \<and> od_get d (u ''op'') = Some (JStr (op_name op)) \<and>
   od_get d (u ''value'') = Some (value_json v) \<and> only_keys [u ''type'', u ''op'', u ''value''] d"
  by (auto simp: shaped_json_def od_get_def only_keys_def)

lemma parse_shaped_json:
  "shaped_json t op v = JObj d \<Longrightarrow> op \<in> set ops \<Longrightarrow> shape op v = Some v \<Longrightarrow> parse_shaped ops shape mk d = Some (mk op v)"
  using shaped_json_fields [of t op v d] by (simp add: parse_shaped_def json_op_name)

lemma literals_json: "vs \<noteq> [] \<Longrightarrow> set vs \<subseteq> set names \<Longrightarrow> json_literals names (Some (JArr (map JStr vs))) = Some vs"
proof -
  assume "vs \<noteq> []" "set vs \<subseteq> set names"
  moreover have "those (map json_text (map JStr vs)) = Some vs"
    by (simp add: those_map_fix [of Some, simplified] comp_def those_map_iff list_all2_same)
  ultimately show ?thesis by (auto simp: json_literals_def list_all_iff)
qed

lemma parse_literals_json:
  "shaped_json t OpIn (VList vs) = JObj d \<Longrightarrow> vs \<noteq> [] \<Longrightarrow> set vs \<subseteq> set names \<Longrightarrow> parse_literals names mk d = Some (mk vs)"
  using shaped_json_fields [of t OpIn "VList vs" d] literals_json [of vs names]
  by (simp add: parse_literals_def op_default_def)

lemma find_kind: "find (\<lambda>k'. kind_name k' = kind_name k) text_kinds = Some k"
  by (cases k) (simp_all add: text_kinds_def)

lemma kind_name_text: "kind_name k \<notin> {u ''always'', u ''auth_method'', u ''device_status'', u ''mac'', u ''time''}"
  by (cases k) simp_all

lemma shaped_json_obj: "\<exists>d. shaped_json t op v = JObj d"
  by (simp add: shaped_json_def)

lemma parse_dump_condition: "good_condition c \<Longrightarrow> parse_condition (dump_condition c) = Some c"
proof (cases c)
  case (TextCond k op v)
  moreover obtain d where d: "shaped_json (kind_name k) op v = JObj d" using shaped_json_obj by blast
  moreover assume "good_condition c"
  ultimately show ?thesis
    using shaped_json_fields [OF d] kind_name_text [of k]
    by (simp add: dump_condition_def find_kind parse_shaped_json [OF d])
next
  case (AuthMethodCond vs)
  moreover obtain d where d: "shaped_json (u ''auth_method'') OpIn (VList vs) = JObj d" using shaped_json_obj by blast
  moreover assume "good_condition c"
  ultimately show ?thesis
    using shaped_json_fields [OF d] by (simp add: dump_condition_def parse_literals_json [OF d])
next
  case (DeviceStatusCond vs)
  moreover obtain d where d: "shaped_json (u ''device_status'') OpIn (VList vs) = JObj d" using shaped_json_obj by blast
  moreover assume "good_condition c"
  ultimately show ?thesis
    using shaped_json_fields [OF d] by (simp add: dump_condition_def parse_literals_json [OF d])
next
  case (MacCond op v)
  moreover obtain d where d: "shaped_json (u ''mac'') op v = JObj d" using shaped_json_obj by blast
  moreover assume "good_condition c"
  ultimately show ?thesis
    using shaped_json_fields [OF d] by (simp add: dump_condition_def parse_shaped_json [OF d])
next
  case (TimeCond s e days)
  moreover assume "good_condition c"
  ultimately show ?thesis
    using literals_json [of days DAYS]
    by (simp add: dump_condition_def parse_time_def only_keys_def op_default_def od_get_def json_days_def)
qed (simp add: dump_condition_def od_get_def only_keys_def)

lemma parse_conditions_good: "parse_conditions raw = Some cs \<Longrightarrow> length cs \<le> MAX_CONDITIONS \<and> list_all good_condition cs"
  by (auto simp: parse_conditions_def list_all_iff split: json.splits if_splits
      dest: those_map_length those_map_set parse_condition_good)

lemma parse_dump_good: "length cs \<le> MAX_CONDITIONS \<Longrightarrow> list_all good_condition cs \<Longrightarrow> parse_conditions (dump_conditions cs) = Some cs"
  by (auto simp: parse_conditions_def dump_conditions_def comp_def those_map_fix [of "\<lambda>c. parse_condition (dump_condition c)"]
      list_all_iff parse_dump_condition)

text \<open>What is stored of a validated policy validates again to the same conditions: the conditions
  dumped after \<open>parse_conditions\<close> are read back unchanged, whatever the administrator typed.\<close>

theorem parse_dump_conditions:
  "parse_conditions raw = Some cs \<Longrightarrow> parse_conditions (dump_conditions cs) = Some cs"
  by (drule parse_conditions_good) (simp add: parse_dump_good)

theorem parse_dump_conditions_witness:
  "parse_conditions (dump_conditions [AlwaysCond]) = Some [AlwaysCond]"
  by (rule parse_dump_conditions [of "JArr [JObj [(u ''type'', JStr (u ''always''))]]"])
    (simp add: parse_conditions_def MAX_CONDITIONS_def od_get_def only_keys_def)

section \<open>What the conditions test\<close>

lemma casefold_empty_iff: "casefold s = [] \<longleftrightarrow> s = []"
  by (cases s) (auto simp: casefold_def fold_char_def)

lemma check_text_nonempty: "check_text s = Some t \<Longrightarrow> t \<noteq> []"
  by (auto simp: check_text_def Let_def split: if_splits)

lemma text_shape_cases:
  assumes "text_shape op v = Some w"
  shows "if op = OpIn \<or> op = OpNotIn then \<exists>vs. w = VList vs \<and> vs \<noteq> [] \<and> [] \<notin> set vs else \<exists>s. w = VText s \<and> s \<noteq> []"
  using assms valid_text_list_good [of v] valid_text_good [of v]
  by (auto simp: text_shape_def split: if_splits dest: check_text_nonempty)

text \<open>Values and field are compared without regard to case.\<close>

lemma text_test_casefold: "casefold a = casefold b \<Longrightarrow> text_test op v (Some a) = text_test op v (Some b)"
  by (simp add: text_test_def fold_text_def glob_def split: cond_op.splits)

text \<open>The operators of a validated text condition.  A field the request does not have passes
  only the negative operators; otherwise \<open>not_equals\<close> and \<open>not_in\<close> are the negations of \<open>equals\<close>
  and \<open>in\<close>, these compare case-folded texts, and \<open>matches\<close> is membership in the language of the
  case-folded glob.\<close>

theorem text_condition_meaning:
  assumes "text_shape op raw = Some v"
  shows "(text_test op v None \<longleftrightarrow> op \<in> {OpNotEquals, OpNotIn}) \<and>
    (text_test op v (Some a) \<longleftrightarrow>
      (case op of
         OpEquals \<Rightarrow> casefold a = casefold (value_text v)
       | OpNotEquals \<Rightarrow> casefold a \<noteq> casefold (value_text v)
       | OpIn \<Rightarrow> (\<exists>x\<in>set (value_list v). casefold a = casefold x)
       | OpNotIn \<Rightarrow> \<not> (\<exists>x\<in>set (value_list v). casefold a = casefold x)
       | OpMatches \<Rightarrow> casefold a \<in> glob_lang (glob_toks (casefold (value_text v)))))"
proof
  have nil: "casefold [] = []" by (simp add: casefold_def)
  have sym: "[] = casefold x \<longleftrightarrow> x = []" for x using casefold_empty_iff [of x] by metis
  show "text_test op v None \<longleftrightarrow> op \<in> {OpNotEquals, OpNotIn}"
    using text_shape_cases [OF assms]
    by (cases op) (auto simp: text_test_def fold_text_def glob_def nil sym image_iff)
qed (cases op; auto simp: text_test_def fold_text_def glob_def fnmatchcase_def glob_match_lang)

theorem text_condition_meaning_witness:
  "text_test OpNotIn (VList [u ''staff'']) None \<and> \<not> text_test OpNotIn (VList [u ''staff'']) (Some (u ''Staff''))"
proof -
  have "text_shape OpNotIn (VList [u '' staff'']) = Some (VList [u ''staff''])"
    by (simp add: text_shape_def valid_text_list_def MAX_ITEMS_def MAX_TEXT_def check_text_def strip_def lstrip_def
        rstrip_def is_space_def u_def)
  moreover have "casefold (u ''Staff'') = casefold (u ''staff'')"
    by (simp add: casefold_def fold_char_def lower_char_def u_def)
  ultimately show ?thesis
    using text_condition_meaning [of OpNotIn "VList [u '' staff'']" "VList [u ''staff'']" "u ''Staff''"] by simp
qed

lemma weekday_bound: "weekday local < 7"
  unfolding weekday_def by (simp add: nat_less_iff)

lemma minute_of_day_bound: "minute_of_day local < 1440"
proof -
  have "local mod day_length < day_length" by (simp add: day_length_def)
  then have "local mod day_length div minute_length < 1440"
    unfolding day_length_def minute_length_def by linarith
  then show ?thesis by (simp add: minute_of_day_def)
qed

lemma two_digits_bound: "two_digits n a b = Some k \<Longrightarrow> k < n"
  by (auto simp: two_digits_def split: if_splits)

lemma hour_minute_bound: "hour_minute a b c d = Some m \<Longrightarrow> m < 1440"
  by (auto simp: hour_minute_def split: option.splits dest!: two_digits_bound)

lemma naive_bound: "time_fromisoformat v = Some (Naive m) \<Longrightarrow> m < 1440"
  by (induction v rule: time_fromisoformat.induct)
    (auto split: if_splits option.splits dest: hour_minute_bound)

lemma cyclic_window:
  fixes s e m :: nat
  assumes "s < d" "e < d" "m < d"
  shows "(if s \<le> e then s \<le> m \<and> m \<le> e else m \<ge> s \<or> m \<le> e) \<longleftrightarrow>
    (int m - int s) mod int d \<le> (int e - int s) mod int d"
proof -
  have md: "(int x - int s) mod int d = (if s \<le> x then int x - int s else int x - int s + int d)" if "x < d" for x
  proof (cases "s \<le> x")
    case False
    have "(int x - int s) mod int d = (int x - int s + int d) mod int d" by simp
    also have "\<dots> = int x - int s + int d" using that assms(1) False by (intro mod_pos_pos_trivial) auto
    finally show ?thesis using False by simp
  qed (use that in simp)
  show ?thesis using assms by (simp add: md)
qed

text \<open>A time condition with times \<open>HH:MM\<close> holds on its days when the local minute lies in the
  cyclic interval from the start to the end, both included, so also for a window over midnight.\<close>

theorem time_condition_window:
  assumes "time_fromisoformat start = Some (Naive s)" "time_fromisoformat end = Some (Naive e)"
  shows "condition_matches (TimeCond start end days) ctx tz =
    (let local = ctx_now ctx + tz (ctx_now ctx) in
     Inr (DAYS ! weekday local \<in> set days \<and>
       (int (minute_of_day local) - int s) mod 1440 \<le> (int e - int s) mod 1440))"
  using cyclic_window [OF naive_bound [OF assms(1)] naive_bound [OF assms(2)] minute_of_day_bound] assms
  by (auto simp: condition_matches_def time_test_def time_between_def Let_def)

theorem time_condition_window_witness:
  "condition_matches (TimeCond (u ''22:00'') (u ''06:30'') DAYS) (AuthContext_init (u ''PAP'') 0) (\<lambda>_. 3600000000) =
    (let local = 0 + 3600000000 in
     Inr (DAYS ! weekday local \<in> set DAYS \<and>
       (int (minute_of_day local) - int 1320) mod 1440 \<le> (int 390 - int 1320) mod 1440))"
  using time_condition_window [of "u ''22:00''" 1320 "u ''06:30''" 390 DAYS "AuthContext_init (u ''PAP'') 0" "\<lambda>_. 3600000000"]
  by (simp add: AuthContext_init_def) (simp add: u_def hour_minute_def two_digits_def is_digit_def)

definition plain_times :: "condition \<Rightarrow> bool" where
  "plain_times c \<longleftrightarrow>
     (case c of
        TimeCond s e _ \<Rightarrow> (\<exists>m. time_fromisoformat s = Some (Naive m)) \<and> (\<exists>m. time_fromisoformat e = Some (Naive m))
      | _ \<Rightarrow> True)"

lemma plain_condition_total: "plain_times c \<Longrightarrow> \<exists>b. condition_matches c ctx tz = Inr b"
  by (cases c) (auto simp: condition_matches_def plain_times_def time_test_def time_between_def Let_def)

text \<open>Validation does not rule out every malformed time: \<open>08-05\<close> passes as a time with a zone, and
  testing the condition raises \<open>TypeError\<close> for every request on its days.\<close>

theorem time_condition_raises:
  "parse_conditions (JArr [JObj [(u ''type'', JStr (u ''time'')), (u ''start'', JStr (u ''08-05'')),
       (u ''end'', JStr (u ''17:00''))]]) = Some [TimeCond (u ''08-05'') (u ''17:00'') DAYS] \<and>
   condition_matches (TimeCond (u ''08-05'') (u ''17:00'') DAYS) ctx tz = Inl TypeError"
proof -
  have t: "time_fromisoformat (u ''08-05'') = Some (Aware 480 (- 5))" "time_fromisoformat (u ''17:00'') = Some (Naive 1020)"
    by (simp_all add: u_def hour_minute_def two_digits_def is_digit_def)
  have "DAYS ! weekday l \<in> set DAYS" for l
    using weekday_bound [of l] by (intro nth_mem) (simp add: DAYS_def)
  with t have "condition_matches (TimeCond (u ''08-05'') (u ''17:00'') DAYS) ctx tz = Inl TypeError"
    by (simp add: condition_matches_def time_test_def time_between_def Let_def)
  moreover have "hhmm (u ''08-05'')" "hhmm (u ''17:00'')" by (simp_all add: hhmm_def t)
  ultimately show ?thesis
    by (simp add: parse_conditions_def MAX_CONDITIONS_def parse_time_def only_keys_def op_default_def json_days_def od_get_def)
qed

end
