(* ===== verification/Attributes.thy ===== *)
theory Attributes
  imports Models
begin

text \<open>
  \<open>naco/policy/attributes.py\<close>: the validation of the RADIUS reply attributes of a policy.  The
  dictionary of FreeRADIUS is data outside the sources; it is a parameter, a map from lower-case
  names to their spelling.  Each \<open>ValueError\<close> is a constructor of \<open>attr_error\<close>; the suggestion in
  the text of an unknown name is not modelled.
\<close>

datatype attr_error =
    NotAnObject | TooManyAttrs
  | BadAttrName pystr | ForbiddenAttr pystr | UnknownAttr pystr | BadValueCount pystr
  | BooleanValue pystr | IntegerRange pystr | TextLength pystr | TextExpansion pystr | TextControl pystr
  | BadValueType pystr

type_synonym radius_dictionary = "pystr \<rightharpoonup> pystr"

definition is_alpha :: "nat \<Rightarrow> bool" where
  "is_alpha c \<longleftrightarrow> (65 \<le> c \<and> c \<le> 90) \<or> (97 \<le> c \<and> c \<le> 122)"

definition name_char :: "nat \<Rightarrow> bool" where
  "name_char c \<longleftrightarrow> is_alpha c \<or> is_digit c \<or> c = 45"

definition attr_name :: "pystr \<Rightarrow> bool" where
  "attr_name n \<longleftrightarrow> (case n of [] \<Rightarrow> False | c # cs \<Rightarrow> is_alpha c \<and> list_all name_char cs \<and> length cs \<le> 63)"

text \<open>\<open>_NAME.match\<close>: \<open>$\<close> also matches before a newline at the end.\<close>

definition NAME_match :: "pystr \<Rightarrow> bool" where
  "NAME_match n \<longleftrightarrow> attr_name n \<or> (n \<noteq> [] \<and> last n = 10 \<and> attr_name (butlast n))"

definition FORBIDDEN :: "pystr list" where
  "FORBIDDEN = [u ''tunnel-type'', u ''tunnel-medium-type'', u ''tunnel-private-group-id'',
     u ''message-authenticator'', u ''eap-message'', u ''state'', u ''proxy-state'',
     u ''user-password'', u ''chap-password'', u ''auth-type'']"

definition FORBIDDEN_PREFIXES :: "pystr list" where
  "FORBIDDEN_PREFIXES = [u ''ms-mppe-'', u ''freeradius-'', u ''naco-'']"

definition MAX_ATTRS :: nat where "MAX_ATTRS = 32"
definition MAX_VALUES :: nat where "MAX_VALUES = 10"
definition MAX_LEN :: nat where "MAX_LEN = 253"

definition forbidden :: "pystr \<Rightarrow> bool" where
  "forbidden lowered \<longleftrightarrow> lowered \<in> set FORBIDDEN \<or> list_ex (startswith lowered) FORBIDDEN_PREFIXES"

definition known :: "radius_dictionary \<Rightarrow> pystr \<Rightarrow> attr_error + pystr" where
  "known dict name = (case dict (lower name) of None \<Rightarrow> Inl (UnknownAttr name) | Some spelled \<Rightarrow> Inr spelled)"

fun has_expansion :: "pystr \<Rightarrow> bool" where
  "has_expansion (a # b # cs) \<longleftrightarrow> (a = 37 \<and> b = 123) \<or> has_expansion (b # cs)"
| "has_expansion _ \<longleftrightarrow> False"

definition check_value :: "pystr \<Rightarrow> json \<Rightarrow> attr_error + json" where
  "check_value name v =
     (case v of
        JBool _ \<Rightarrow> Inl (BooleanValue name)
      | JInt i \<Rightarrow> if 0 \<le> i \<and> i \<le> 0xFFFFFFFF then Inr v else Inl (IntegerRange name)
      | JStr s \<Rightarrow>
          if s = [] \<or> length s > MAX_LEN then Inl (TextLength name)
          else if has_expansion s then Inl (TextExpansion name)
          else if list_ex (\<lambda>c. c < 0x20 \<or> c = 0x7F) s then Inl (TextControl name)
          else Inr v
      | _ \<Rightarrow> Inl (BadValueType name))"

definition check_attr_value :: "pystr \<Rightarrow> json \<Rightarrow> attr_error + json" where
  "check_attr_value name v =
     (case v of
        JArr vs \<Rightarrow>
          if 1 \<le> length vs \<and> length vs \<le> MAX_VALUES
          then rbind (rmap (check_value name) vs) (\<lambda>ws. Inr (JArr ws)) else Inl (BadValueCount name)
      | _ \<Rightarrow> check_value name v)"

definition check_attr :: "radius_dictionary option \<Rightarrow> pystr \<times> json \<Rightarrow> attr_error + (pystr \<times> json)" where
  "check_attr known_names nv =
     (let (name, v) = nv in
      if \<not> NAME_match name then Inl (BadAttrName name)
      else if forbidden (lower name) then Inl (ForbiddenAttr name)
      else rbind (case known_names of None \<Rightarrow> Inr name | Some dict \<Rightarrow> known dict name) (\<lambda>name.
             rbind (check_attr_value name v) (\<lambda>w. Inr (name, w))))"

fun check_attrs :: "radius_dictionary option \<Rightarrow> (pystr \<times> json) list \<Rightarrow> (pystr \<times> json) list \<Rightarrow>
    attr_error + (pystr \<times> json) list" where
  "check_attrs known_names out [] = Inr out"
| "check_attrs known_names out (nv # raw) =
     rbind (check_attr known_names nv) (\<lambda>(n, w). check_attrs known_names (od_set out n w) raw)"

text \<open>Python's truth value of a JSON value, negated.\<close>

definition falsy :: "json \<Rightarrow> bool" where
  "falsy j \<longleftrightarrow> j \<in> {JNull, JBool False, JInt 0, JFloat (u ''0.0''), JFloat (u ''-0.0''), JStr [], JArr [], JObj []}"

text \<open>\<open>validate_reply_attributes(raw, known_names=...)\<close>; \<open>Some\<close> dictionary stands for \<open>True\<close>.\<close>

definition validate_reply_attributes :: "radius_dictionary option \<Rightarrow> json \<Rightarrow> attr_error + (pystr \<times> json) list" where
  "validate_reply_attributes known_names raw =
     (if falsy raw then Inr []
      else (case raw of
              JObj d \<Rightarrow> if length d > MAX_ATTRS then Inl TooManyAttrs else check_attrs known_names [] d
            | _ \<Rightarrow> Inl NotAnObject))"

section \<open>What validated attributes guarantee\<close>

fun safe_scalar :: "json \<Rightarrow> bool" where
  "safe_scalar (JInt i) \<longleftrightarrow> 0 \<le> i \<and> i \<le> 0xFFFFFFFF"
| "safe_scalar (JStr s) \<longleftrightarrow> s \<noteq> [] \<and> length s \<le> 253 \<and> \<not> has_expansion s \<and> (\<forall>c\<in>set s. 0x20 \<le> c \<and> c \<noteq> 0x7F)"
| "safe_scalar _ \<longleftrightarrow> False"

definition safe_value :: "json \<Rightarrow> bool" where
  "safe_value v \<longleftrightarrow> (case v of JArr vs \<Rightarrow> vs \<noteq> [] \<and> length vs \<le> 10 \<and> list_all safe_scalar vs | _ \<Rightarrow> safe_scalar v)"

definition attr_ok :: "pystr \<times> json \<Rightarrow> bool" where
  "attr_ok nv \<longleftrightarrow> NAME_match (fst nv) \<and> \<not> forbidden (lower (fst nv)) \<and> safe_value (snd nv)"

definition safe_attrs :: "(pystr \<times> json) list \<Rightarrow> bool" where
  "safe_attrs out \<longleftrightarrow> od_ok out \<and> length out \<le> MAX_ATTRS \<and> (\<forall>nv\<in>set out. attr_ok nv)"

lemma check_value_iff: "check_value name v = Inr w \<longleftrightarrow> w = v \<and> safe_scalar v"
  by (cases v) (auto simp: check_value_def MAX_LEN_def list_ex_iff not_less Bex_def Ball_def)

lemma check_attr_value_iff: "check_attr_value name v = Inr w \<longleftrightarrow> w = v \<and> safe_value v"
proof -
  have "rmap (check_value name) vs = Inr ws \<longleftrightarrow> ws = vs \<and> list_all safe_scalar vs" for vs ws
    by (auto simp: rmap_Inr_iff check_value_iff list_all2_conv_all_nth list_all_length intro: nth_equalityI)
  then show ?thesis
    by (cases v) (auto simp: check_attr_value_def safe_value_def rbind_eq_Inr check_value_iff MAX_VALUES_def Suc_le_eq)
qed

lemma NAME_match_lower: "lower n = lower m \<Longrightarrow> NAME_match n \<longleftrightarrow> NAME_match m"
proof -
  have a: "is_alpha c \<longleftrightarrow> 97 \<le> lower_char c \<and> lower_char c \<le> 122"
    and d: "is_digit c \<longleftrightarrow> is_digit (lower_char c)" and m: "c = 45 \<longleftrightarrow> lower_char c = 45"
    and n: "c = 10 \<longleftrightarrow> lower_char c = 10" for c
    by (simp_all add: is_alpha_def is_digit_def lower_char_def) arith
  have alpha: "is_alpha a \<longleftrightarrow> is_alpha b" and char: "name_char a \<longleftrightarrow> name_char b" and nl: "a = 10 \<longleftrightarrow> b = 10"
    if "lower_char a = lower_char b" for a b
    unfolding name_char_def a [of a] a [of b] d [of a] d [of b] m [of a] m [of b] n [of a] n [of b] that by simp_all
  have an: "attr_name a \<longleftrightarrow> attr_name b" if "lower a = lower b" for a b
  proof (cases a)
    case Nil
    with that show ?thesis by (simp add: lower_def)
  next
    case (Cons x xs)
    with that obtain y ys where b: "b = y # ys" "lower_char x = lower_char y" "map lower_char xs = map lower_char ys"
      by (auto simp: lower_def Cons_eq_map_conv)
    then have "length xs = length ys" by (metis length_map)
    then have "list_all name_char xs = list_all name_char ys"
      using b(3)
    proof (induction xs ys rule: list_induct2)
      case (Cons x xs y ys)
      then have "name_char x = name_char y" by (intro char) simp
      with Cons show ?case by simp
    qed simp
    with Cons b alpha [OF b(2)] \<open>length xs = length ys\<close> show ?thesis by (simp add: attr_name_def)
  qed
  assume "lower n = lower m"
  moreover from this have "n = [] \<longleftrightarrow> m = []" by (auto simp: lower_def)
  moreover have "last n = 10 \<longleftrightarrow> last m = 10" if "n \<noteq> []"
  proof (rule nl)
    have "m \<noteq> []" using that \<open>n = [] \<longleftrightarrow> m = []\<close> by simp
    with that show "lower_char (last n) = lower_char (last m)"
      using \<open>lower n = lower m\<close> last_map [of n lower_char] last_map [of m lower_char] by (simp add: lower_def)
  qed
  moreover have "lower (butlast n) = lower (butlast m)"
    using \<open>lower n = lower m\<close> by (simp add: lower_def map_butlast)
  ultimately show ?thesis
    using an [of n m] an [of "butlast n" "butlast m"] unfolding NAME_match_def by blast
qed

definition dictionary_ok :: "radius_dictionary option \<Rightarrow> bool" where
  "dictionary_ok known_names \<longleftrightarrow> (\<forall>dict k n. known_names = Some dict \<longrightarrow> dict k = Some n \<longrightarrow> lower n = k)"

lemma check_attr_safe:
  assumes "dictionary_ok kn" "check_attr kn nv = Inr (n, w)"
  shows "NAME_match n \<and> \<not> forbidden (lower n) \<and> safe_value w"
proof -
  obtain name v where nv: "nv = (name, v)" by (cases nv)
  with assms(2) have "lower n = lower name" "NAME_match name" "\<not> forbidden (lower name)" "safe_value w"
    using assms(1)
    by (auto simp: check_attr_def known_def dictionary_ok_def rbind_eq_Inr check_attr_value_iff
        split: if_splits option.splits)
  then show ?thesis using NAME_match_lower [of n name] by simp
qed

lemma set_od_set_subset: "set (od_set d k v) \<subseteq> insert (k, v) (set d)"
  by (induction d k v rule: od_set.induct) auto

lemma check_attrs_safe:
  "dictionary_ok kn \<Longrightarrow> check_attrs kn out raw = Inr res \<Longrightarrow> od_ok out \<Longrightarrow> (\<forall>x\<in>set out. attr_ok x) \<Longrightarrow>
   od_ok res \<and> (\<forall>x\<in>set res. attr_ok x) \<and> length res \<le> length out + length raw"
proof (induction kn out raw rule: check_attrs.induct)
  case (2 kn out nv raw)
  from 2(3) obtain n w where nw: "check_attr kn nv = Inr (n, w)" "check_attrs kn (od_set out n w) raw = Inr res"
    by (auto simp: rbind_eq_Inr)
  have "\<forall>x\<in>set (od_set out n w). attr_ok x"
    using set_od_set_subset [of out n w] check_attr_safe [OF 2(2) nw(1)] 2(5) by (auto simp: attr_ok_def)
  with 2(1) [OF nw(1) refl 2(2) nw(2)] 2(4)
  have "od_ok res \<and> (\<forall>x\<in>set res. attr_ok x) \<and> length res \<le> length (od_set out n w) + length raw" by simp
  then show ?case by (auto simp: length_od_set split: if_splits)
qed simp

lemma validate_safe:
  assumes "dictionary_ok kn" "validate_reply_attributes kn raw = Inr out"
  shows "safe_attrs out"
proof (cases "falsy raw")
  case True
  with assms(2) show ?thesis by (simp add: validate_reply_attributes_def safe_attrs_def od_ok_def)
next
  case False
  with assms(2) obtain d where "length d \<le> MAX_ATTRS" "check_attrs kn [] d = Inr out"
    by (cases raw) (auto simp: validate_reply_attributes_def not_less split: if_splits)
  with check_attrs_safe [OF assms(1), of "[]" d out] show ?thesis by (auto simp: safe_attrs_def od_ok_def)
qed

lemma check_attr_fix: "attr_ok nv \<Longrightarrow> check_attr None nv = Inr nv"
  by (auto simp: check_attr_def attr_ok_def check_attr_value_iff [THEN iffD2] split: prod.splits)

lemma od_set_fresh: "n \<notin> set (od_keys d) \<Longrightarrow> od_set d n v = d @ [(n, v)]"
  by (induction d n v rule: od_set.induct) (auto simp: od_keys_def)

lemma check_attrs_fix:
  "\<forall>x\<in>set raw. attr_ok x \<Longrightarrow> od_ok (out @ raw) \<Longrightarrow> check_attrs None out raw = Inr (out @ raw)"
proof (induction raw arbitrary: out)
  case (Cons nv raw)
  obtain n v where nv: "nv = (n, v)" by (cases nv)
  have "n \<notin> set (od_keys out)" using Cons.prems(2) by (auto simp: od_ok_def od_keys_def nv)
  with Cons.IH [of "out @ [(n, v)]"] Cons.prems check_attr_fix [of "(n, v)"] show ?case
    by (simp add: nv od_set_fresh)
qed simp

lemma validate_fix: "safe_attrs out \<Longrightarrow> validate_reply_attributes None (JObj out) = Inr out"
  using check_attrs_fix [of out "[]"]
  by (auto simp: validate_reply_attributes_def safe_attrs_def falsy_def)

text \<open>Reply attributes that pass are safe: at most 32 different names, none of them managed by
  NACo or by the protocol in any letter case, each with one to ten values that are 32-bit
  integers or printable texts of at most 253 characters without a FreeRADIUS expansion; and what
  passed with the dictionary passes unchanged when the stored policy is loaded without it.\<close>

theorem reply_attributes_safe:
  assumes "dictionary_ok known_names" "validate_reply_attributes known_names raw = Inr out"
  shows "length out \<le> 32 \<and> distinct (map fst out) \<and>
    (\<forall>(n, v)\<in>set out. NAME_match n \<and> lower n \<notin> set FORBIDDEN \<and>
       (\<forall>p\<in>set FORBIDDEN_PREFIXES. \<not> startswith (lower n) p) \<and> safe_value v) \<and>
    validate_reply_attributes None (JObj out) = Inr out"
  using validate_safe [OF assms] validate_fix [of out]
  by (auto simp: safe_attrs_def attr_ok_def forbidden_def list_ex_iff MAX_ATTRS_def od_ok_def)

theorem reply_attributes_safe_witness:
  "validate_reply_attributes None (JObj [(u ''Session-Timeout'', JInt 3600)]) = Inr [(u ''Session-Timeout'', JInt 3600)]"
proof -
  let ?dict = "Some [u ''session-timeout'' \<mapsto> u ''Session-Timeout'']"
  have "dictionary_ok ?dict" by (simp add: dictionary_ok_def lower_def lower_char_def u_def)
  moreover have "validate_reply_attributes ?dict (JObj [(u ''session-timeout'', JInt 3600)]) = Inr [(u ''Session-Timeout'', JInt 3600)]"
    by (simp add: validate_reply_attributes_def falsy_def MAX_ATTRS_def check_attr_def NAME_match_def attr_name_def
        is_alpha_def name_char_def is_digit_def forbidden_def FORBIDDEN_def FORBIDDEN_PREFIXES_def startswith_def
        known_def lower_def lower_char_def check_attr_value_def check_value_def u_def)
  ultimately show ?thesis using reply_attributes_safe by blast
qed

text \<open>The name check lets a newline at the end pass, and with it a name that may not be set: the
  forbidden names are compared with the newline still there.\<close>

theorem forbidden_attribute_newline:
  "validate_reply_attributes None (JObj [(u ''Tunnel-Type'' @ [10], JInt 13)]) = Inr [(u ''Tunnel-Type'' @ [10], JInt 13)]"
  by (simp add: validate_reply_attributes_def falsy_def MAX_ATTRS_def check_attr_def NAME_match_def attr_name_def
      is_alpha_def name_char_def is_digit_def forbidden_def FORBIDDEN_def FORBIDDEN_PREFIXES_def startswith_def
      lower_def lower_char_def check_attr_value_def check_value_def u_def)

end
