(* ===== verification/Engine.thy ===== *)
theory Engine
  imports Conditions Attributes "HOL-Library.Product_Lexorder" "HOL-Library.Multiset"
begin

text \<open>
  \<open>naco/policy/engine.py\<close> and the decisions of \<open>naco/policy/context.py\<close>: policies are compiled from
  their rows, evaluated first match first, and everything else is denied.  A test that raises makes
  the whole evaluation raise, so the results are \<open>py_exc + Decision\<close>.
\<close>

section \<open>Decisions\<close>

record Decision =
  dec_action :: PolicyAction
  dec_policy_id :: "nat option"
  dec_policy_name :: pystr
  dec_reason :: pystr
  dec_vlan :: "int option"
  dec_reply_attributes :: "(pystr \<times> json) list"

definition accepted :: "Decision \<Rightarrow> bool" where
  "accepted d \<longleftrightarrow> dec_action d = PERMIT"

definition deny :: "pystr \<Rightarrow> nat option \<Rightarrow> pystr \<Rightarrow> Decision" where
  "deny reason policy_id policy_name =
     \<lparr>dec_action = DENY, dec_policy_id = policy_id, dec_policy_name = policy_name, dec_reason = reason,
      dec_vlan = None, dec_reply_attributes = []\<rparr>"

definition DEFAULT_DENY_REASON :: pystr where
  "DEFAULT_DENY_REASON = u ''no policy matched''"

section \<open>Compiled policies\<close>

record CompiledPolicy =
  cp_id :: nat
  cp_name :: pystr
  cp_priority :: int
  cp_action :: PolicyAction
  cp_vlan :: "int option"
  cp_reply_attributes :: "(pystr \<times> json) list"
  cp_conditions :: "condition list"

text \<open>\<open>PolicyLoadError\<close> carries the name of the policy.\<close>

definition compile_policy :: "Policy \<Rightarrow> pystr + CompiledPolicy" where
  "compile_policy row =
     (case (validate_reply_attributes None (pol_reply_attributes row), parse_conditions (pol_conditions row)) of
        (Inr attrs, Some conds) \<Rightarrow>
          Inr \<lparr>cp_id = pol_id row, cp_name = pol_name row, cp_priority = pol_priority row,
               cp_action = pol_action row, cp_vlan = pol_vlan row, cp_reply_attributes = attrs, cp_conditions = conds\<rparr>
      | _ \<Rightarrow> Inl (pol_name row))"

definition policy_matches :: "CompiledPolicy \<Rightarrow> AuthContext \<Rightarrow> zone \<Rightarrow> py_exc + bool" where
  "policy_matches p ctx tz = rall (\<lambda>c. condition_matches c ctx tz) (cp_conditions p)"

definition policy_verdict :: "CompiledPolicy \<Rightarrow> Decision" where
  "policy_verdict p =
     (if cp_action p = DENY then deny (u ''denied by policy '' @ cp_name p) (Some (cp_id p)) (cp_name p)
      else \<lparr>dec_action = PERMIT, dec_policy_id = Some (cp_id p), dec_policy_name = cp_name p,
            dec_reason = u ''permitted by policy '' @ cp_name p, dec_vlan = cp_vlan p,
            dec_reply_attributes = cp_reply_attributes p\<rparr>)"

fun decide :: "CompiledPolicy list \<Rightarrow> AuthContext \<Rightarrow> zone \<Rightarrow> py_exc + Decision" where
  "decide [] ctx tz = Inr (deny DEFAULT_DENY_REASON None [])"
| "decide (p # ps) ctx tz =
     rbind (policy_matches p ctx tz) (\<lambda>m. if m then Inr (policy_verdict p) else decide ps ctx tz)"

record PolicyTrace =
  pt_policy :: CompiledPolicy
  pt_matched :: bool
  pt_conditions :: "(pystr \<times> bool) list"

definition explain_policy :: "CompiledPolicy \<Rightarrow> AuthContext \<Rightarrow> zone \<Rightarrow> py_exc + PolicyTrace" where
  "explain_policy p ctx tz =
     rbind (rmap (\<lambda>c. rbind (condition_matches c ctx tz) (\<lambda>b. Inr (label c, b))) (cp_conditions p)) (\<lambda>results.
       Inr \<lparr>pt_policy = p, pt_matched = list_all snd results, pt_conditions = results\<rparr>)"

definition explain :: "CompiledPolicy list \<Rightarrow> AuthContext \<Rightarrow> zone \<Rightarrow> py_exc + PolicyTrace list" where
  "explain ps ctx tz = rmap (\<lambda>p. explain_policy p ctx tz) ps"

definition policy_order :: "Policy \<Rightarrow> int \<times> nat" where
  "policy_order p = (pol_priority p, pol_id p)"

definition policy_rows :: "db \<Rightarrow> Policy list" where
  "policy_rows d = sort_key policy_order (filter pol_enabled (policies d))"

definition load_policies :: "db \<Rightarrow> pystr + CompiledPolicy list" where
  "load_policies d = rmap compile_policy (policy_rows d)"

definition evaluate :: "db \<Rightarrow> zone \<Rightarrow> AuthContext \<Rightarrow> py_exc + Decision" where
  "evaluate d tz ctx =
     (case load_policies d of
        Inl _ \<Rightarrow> Inr (deny (u ''policy configuration error'') None [])
      | Inr ps \<Rightarrow> decide ps ctx tz)"

section \<open>First match, default deny\<close>

interpretation pol: first_match "\<lambda>p. policy_matches p ctx tz" policy_verdict
  "deny DEFAULT_DENY_REASON None []" "\<lambda>ps. decide ps ctx tz" for ctx tz
  by unfold_locales simp_all

lemma policy_matches_True: "policy_matches p ctx tz = Inr True \<longleftrightarrow> (\<forall>c\<in>set (cp_conditions p). condition_matches c ctx tz = Inr True)"
  by (simp add: policy_matches_def rall_True_iff)

lemma deny_not_accepted [simp]: "\<not> accepted (deny r i n)"
  by (simp add: accepted_def deny_def)

lemma verdict_accepted: "accepted (policy_verdict p) \<longleftrightarrow> cp_action p = PERMIT"
  by (cases "cp_action p") (auto simp: policy_verdict_def accepted_def deny_def)

lemma decide_accepted:
  "decide ps ctx tz = Inr d \<Longrightarrow> accepted d \<Longrightarrow>
   \<exists>xs p ys. ps = xs @ p # ys \<and> (\<forall>q\<in>set xs. policy_matches q ctx tz = Inr False) \<and>
     policy_matches p ctx tz = Inr True \<and> cp_action p = PERMIT \<and> d = policy_verdict p"
  using pol.eval_cases [of ps ctx tz d] verdict_accepted by (metis deny_not_accepted)

lemma compile_policy_fields:
  "compile_policy row = Inr p \<Longrightarrow>
   cp_id p = pol_id row \<and> cp_name p = pol_name row \<and> cp_priority p = pol_priority row \<and> cp_action p = pol_action row \<and>
   cp_vlan p = pol_vlan row \<and> validate_reply_attributes None (pol_reply_attributes row) = Inr (cp_reply_attributes p) \<and>
   parse_conditions (pol_conditions row) = Some (cp_conditions p)"
  by (auto simp: compile_policy_def split: sum.splits option.splits)

lemma policy_rows_set: "set (policy_rows d) = {r \<in> set (policies d). pol_enabled r}"
  by (auto simp: policy_rows_def)

lemma rmap_split:
  "rmap f rs = Inr (xs @ p # ys) \<Longrightarrow>
   \<exists>as r bs. rs = as @ r # bs \<and> rmap f as = Inr xs \<and> f r = Inr p \<and> rmap f bs = Inr ys"
  by (simp add: rmap_Inr_iff list_all2_append2 list_all2_Cons2) blast

definition row_matches :: "Policy \<Rightarrow> AuthContext \<Rightarrow> zone \<Rightarrow> py_exc + bool" where
  "row_matches row ctx tz =
     (case parse_conditions (pol_conditions row) of
        None \<Rightarrow> Inr False
      | Some cs \<Rightarrow> rall (\<lambda>c. condition_matches c ctx tz) cs)"

lemma row_matches_compiled: "compile_policy row = Inr p \<Longrightarrow> row_matches row ctx tz = policy_matches p ctx tz"
  by (auto simp: row_matches_def policy_matches_def dest: compile_policy_fields)

lemma rows_before:
  assumes "policy_rows d = as @ r # bs" "q \<in> set (policies d)" "pol_enabled q" "policy_order q < policy_order r"
  shows "q \<in> set as"
proof -
  have "sorted (map policy_order (policy_rows d))" by (simp add: policy_rows_def)
  then have "\<forall>x\<in>set (r # bs). policy_order r \<le> policy_order x"
    by (auto simp: assms(1) sorted_append)
  moreover have "q \<in> set (as @ r # bs)" using assms policy_rows_set [of d] by auto
  ultimately show ?thesis using assms(4) by auto
qed

lemma explain_policy_matches:
  assumes "explain_policy p ctx tz = Inr t"
  shows "pt_policy t = p \<and> policy_matches p ctx tz = Inr (pt_matched t)"
proof -
  obtain rs where rs: "rmap (\<lambda>c. rbind (condition_matches c ctx tz) (\<lambda>b. Inr (label c, b))) (cp_conditions p) = Inr rs"
    "t = \<lparr>pt_policy = p, pt_matched = list_all snd rs, pt_conditions = rs\<rparr>"
    using assms by (auto simp: explain_policy_def rbind_eq_Inr)
  have "rall (\<lambda>c. condition_matches c ctx tz) cs = Inr (list_all snd qs)"
    if "rmap (\<lambda>c. rbind (condition_matches c ctx tz) (\<lambda>b. Inr (label c, b))) cs = Inr qs" for cs qs
    using that
  proof (induction cs arbitrary: qs)
    case (Cons c cs)
    then obtain b rs where "condition_matches c ctx tz = Inr b" "qs = (label c, b) # rs"
      "rmap (\<lambda>c. rbind (condition_matches c ctx tz) (\<lambda>b. Inr (label c, b))) cs = Inr rs"
      by (auto simp: rbind_eq_Inr)
    with Cons.IH show ?case by simp
  qed simp
  with rs show ?thesis by (simp add: policy_matches_def)
qed

text \<open>C25. Default deny, first match: a request is permitted only by an enabled policy with action
  PERMIT whose conditions all hold, when every enabled policy compiles and none before it in the
  order of priority and id has all its conditions met; the VLAN and the attributes of the answer
  are that policy's.\<close>

theorem evaluate_permits_only_first_match:
  assumes "evaluate d tz ctx = Inr dcn" "accepted dcn"
  shows "(\<forall>r\<in>set (policies d). pol_enabled r \<longrightarrow> (\<exists>p. compile_policy r = Inr p)) \<and>
    (\<exists>r\<in>set (policies d). pol_enabled r \<and> pol_action r = PERMIT \<and> row_matches r ctx tz = Inr True \<and>
       dec_policy_id dcn = Some (pol_id r) \<and> dec_vlan dcn = pol_vlan r \<and>
       validate_reply_attributes None (pol_reply_attributes r) = Inr (dec_reply_attributes dcn) \<and>
       (\<forall>q\<in>set (policies d). pol_enabled q \<longrightarrow> policy_order q < policy_order r \<longrightarrow> row_matches q ctx tz = Inr False))"
proof -
  from assms obtain ps where ps: "rmap compile_policy (policy_rows d) = Inr ps" "decide ps ctx tz = Inr dcn"
    by (auto simp: evaluate_def load_policies_def split: sum.splits)
  from decide_accepted [OF ps(2) assms(2)] obtain xs p ys where split: "ps = xs @ p # ys"
    "\<forall>q\<in>set xs. policy_matches q ctx tz = Inr False" "policy_matches p ctx tz = Inr True"
    "cp_action p = PERMIT" "dcn = policy_verdict p" by blast
  from rmap_split [OF ps(1) [unfolded split(1)]] obtain as r bs where rows:
    "policy_rows d = as @ r # bs" "rmap compile_policy as = Inr xs" "compile_policy r = Inr p" by blast
  have r: "r \<in> set (policies d)" "pol_enabled r"
    using rows(1) policy_rows_set [of d] by auto
  have "row_matches q ctx tz = Inr False" if "q \<in> set (policies d)" "pol_enabled q" "policy_order q < policy_order r" for q
  proof -
    have "q \<in> set as" by (rule rows_before [OF rows(1) that])
    then obtain cq where "cq \<in> set xs" "compile_policy q = Inr cq"
      using rmap_Inr_mem [OF rows(2)] by blast
    then show ?thesis using split(2) by (simp add: row_matches_compiled)
  qed
  moreover have "\<exists>p. compile_policy q = Inr p" if "q \<in> set (policies d)" "pol_enabled q" for q
    using rmap_Inr_mem [OF ps(1), of q] that by (auto simp: policy_rows_set)
  moreover have "row_matches r ctx tz = Inr True" using split(3) rows(3) by (simp add: row_matches_compiled)
  moreover have "dec_policy_id dcn = Some (pol_id r) \<and> dec_vlan dcn = pol_vlan r \<and>
      validate_reply_attributes None (pol_reply_attributes r) = Inr (dec_reply_attributes dcn) \<and> pol_action r = PERMIT"
    using compile_policy_fields [OF rows(3)] split(4,5) by (auto simp: policy_verdict_def)
  ultimately show ?thesis using r by blast
qed

text \<open>A policy without conditions, and the database that holds only it.\<close>

definition permit_all :: Policy where
  "permit_all = \<lparr>pol_id = 1, pol_name = u ''all'', pol_description = [], pol_priority = 100, pol_enabled = True,
     pol_conditions = JArr [], pol_action = PERMIT, pol_vlan = Some 20, pol_reply_attributes = JObj [],
     pol_created_at = 0, pol_updated_at = 0\<rparr>"

lemma evaluate_permit_all:
  "evaluate (empty_db\<lparr>policies := [permit_all]\<rparr>) tz ctx =
   Inr \<lparr>dec_action = PERMIT, dec_policy_id = Some 1, dec_policy_name = u ''all'',
     dec_reason = u ''permitted by policy '' @ u ''all'', dec_vlan = Some 20, dec_reply_attributes = []\<rparr>"
  by (simp add: evaluate_def load_policies_def policy_rows_def permit_all_def compile_policy_def
      validate_reply_attributes_def falsy_def parse_conditions_def policy_matches_def policy_verdict_def)

theorem evaluate_permits_only_first_match_witness:
  "\<exists>r\<in>set (policies (empty_db\<lparr>policies := [permit_all]\<rparr>)). pol_action r = PERMIT \<and>
     row_matches r (AuthContext_init (u ''PAP'') 0) (\<lambda>_. 0) = Inr True"
  using evaluate_permits_only_first_match [OF evaluate_permit_all] by (fastforce simp: accepted_def)

text \<open>C26. Fail closed: as long as one enabled policy does not compile, every request is denied and the
  reason says so.\<close>

theorem evaluate_fails_closed:
  assumes "r \<in> set (policies d)" "pol_enabled r" "compile_policy r = Inl e"
  shows "evaluate d tz ctx = Inr (deny (u ''policy configuration error'') None [])"
proof -
  have "r \<in> set (policy_rows d)" using assms(1,2) by (simp add: policy_rows_set)
  from rmap_Inl [where f = compile_policy, OF this assms(3)] have "\<exists>e. load_policies d = Inl e"
    unfolding load_policies_def .
  then show ?thesis by (auto simp: evaluate_def)
qed

theorem evaluate_fails_closed_witness:
  "evaluate (empty_db\<lparr>policies := [permit_all, permit_all\<lparr>pol_id := 2, pol_conditions := JInt 3\<rparr>]\<rparr>) (\<lambda>_. 0)
     (AuthContext_init (u ''PAP'') 0) = Inr (deny (u ''policy configuration error'') None [])"
  by (rule evaluate_fails_closed [of "permit_all\<lparr>pol_id := 2, pol_conditions := JInt 3\<rparr>" _ "u ''all''"])
    (simp_all add: permit_all_def compile_policy_def parse_conditions_def validate_reply_attributes_def falsy_def)

text \<open>Every request gets a decision when the times of the enabled policies carry no zone; and it
  is a denial when no policy matches.\<close>

theorem evaluate_total:
  assumes "\<And>r cs. r \<in> set (policies d) \<Longrightarrow> pol_enabled r \<Longrightarrow> parse_conditions (pol_conditions r) = Some cs \<Longrightarrow>
    list_all plain_times cs"
  shows "\<exists>dcn. evaluate d tz ctx = Inr dcn \<and>
    ((\<forall>r\<in>set (policies d). pol_enabled r \<longrightarrow> row_matches r ctx tz = Inr False) \<longrightarrow> \<not> accepted dcn)"
proof (cases "load_policies d")
  case (Inl e)
  then show ?thesis by (simp add: evaluate_def)
next
  case (Inr ps)
  have "\<exists>b. policy_matches p ctx tz = Inr b" if p: "p \<in> set ps" for p
  proof -
    obtain r where r: "r \<in> set (policy_rows d)" "compile_policy r = Inr p"
      using rmap_Inr_set [OF Inr [unfolded load_policies_def] p] by blast
    then have "list_all plain_times (cp_conditions p)"
      using assms [of r] compile_policy_fields [OF r(2)] by (auto simp: policy_rows_set)
    then have "\<forall>c\<in>set (cp_conditions p). \<exists>b. condition_matches c ctx tz = Inr b"
      by (auto simp: list_all_iff plain_condition_total)
    then show ?thesis unfolding policy_matches_def by (rule rall_defined)
  qed
  then obtain dcn where dcn: "decide ps ctx tz = Inr dcn" using pol.eval_total by blast
  then have e: "evaluate d tz ctx = Inr dcn" by (simp add: evaluate_def Inr)
  have "\<not> accepted dcn" if "\<forall>r\<in>set (policies d). pol_enabled r \<longrightarrow> row_matches r ctx tz = Inr False"
  proof
    assume "accepted dcn"
    from decide_accepted [OF dcn this] obtain p where "p \<in> set ps" "policy_matches p ctx tz = Inr True"
      by (metis in_set_conv_decomp)
    moreover from this obtain r where "r \<in> set (policy_rows d)" "compile_policy r = Inr p"
      using rmap_Inr_set [OF Inr [unfolded load_policies_def]] by blast
    ultimately show False using that by (auto simp: policy_rows_set dest: row_matches_compiled [of _ _ ctx tz])
  qed
  with e show ?thesis by blast
qed

theorem evaluate_total_witness: "\<exists>dcn. evaluate (empty_db\<lparr>policies := [permit_all]\<rparr>) (\<lambda>_. 0) (AuthContext_init (u ''PAP'') 0) = Inr dcn"
proof -
  have "list_all plain_times cs"
    if "r \<in> set (policies (empty_db\<lparr>policies := [permit_all]\<rparr>))" "parse_conditions (pol_conditions r) = Some cs" for r cs
    using that by (simp add: permit_all_def parse_conditions_def)
  then show ?thesis using evaluate_total [of "empty_db\<lparr>policies := [permit_all]\<rparr>"] by blast
qed

text \<open>The simulator agrees with the engine: the first trace marked as matched is the policy that
  decides, and without one the request is denied by default.\<close>

theorem explain_agrees_with_decide:
  assumes "explain ps ctx tz = Inr traces"
  shows "map pt_policy traces = ps \<and>
    decide ps ctx tz = Inr (case find pt_matched traces of
       None \<Rightarrow> deny DEFAULT_DENY_REASON None [] | Some t \<Rightarrow> policy_verdict (pt_policy t))"
  using assms
proof (induction ps arbitrary: traces)
  case (Cons p ps)
  then obtain t ts where t: "traces = t # ts" "explain_policy p ctx tz = Inr t" "explain ps ctx tz = Inr ts"
    by (auto simp: explain_def rbind_eq_Inr)
  from explain_policy_matches [OF t(2)] Cons.IH [OF t(3)] show ?case
    by (cases "pt_matched t") (auto simp: t(1))
qed (simp add: explain_def)

theorem explain_agrees_with_decide_witness:
  "decide [] (AuthContext_init (u ''PAP'') 0) (\<lambda>_. 0) = Inr (deny DEFAULT_DENY_REASON None [])"
  using explain_agrees_with_decide [of "[]" "AuthContext_init (u ''PAP'') 0" "\<lambda>_. 0" "[]"] by (simp add: explain_def)

end
