(* ===== verification/Bytes.thy ===== *)
theory Bytes
  imports Prelude "HOL-Library.Word"
begin

text \<open>
  Python \<open>bytes\<close> as lists of 8-bit words, big-endian integers as \<open>struct\<close> packs them, and UTF-8 with
  the error handlers the sources use.  The decoder follows the Unicode rule that CPython
  implements: an ill-formed sequence is replaced by the longest prefix of a well-formed one.
\<close>

type_synonym bytes = "8 word list"

named_theorems bytes_simps \<open>lengths and inverses of byte codecs\<close>

section \<open>Big-endian integers\<close>

fun be_bytes :: "nat \<Rightarrow> nat \<Rightarrow> bytes" where
  "be_bytes 0 n = []"
| "be_bytes (Suc k) n = be_bytes k (n div 256) @ [word_of_nat n]"

definition be_nat :: "bytes \<Rightarrow> nat" where
  "be_nat bs = foldl (\<lambda>n b. 256 * n + unat b) 0 bs"

lemma length_be_bytes [simp, bytes_simps]: "length (be_bytes k n) = k"
  by (induction k arbitrary: n) auto

lemma be_nat_append: "be_nat (bs @ [b]) = 256 * be_nat bs + unat b"
  by (simp add: be_nat_def)

lemma be_nat_Nil [simp]: "be_nat [] = 0"
  by (simp add: be_nat_def)

lemma unat_byte: "unat (word_of_nat n :: 8 word) = n mod 256"
  by (simp add: unat_of_nat)

lemma be_nat_be_bytes [bytes_simps]: "be_nat (be_bytes k n) = n mod 256 ^ k"
proof (induction k arbitrary: n)
  case (Suc k)
  then have "be_nat (be_bytes (Suc k) n) = 256 * (n div 256 mod 256 ^ k) + n mod 256"
    by (simp add: be_nat_append unat_byte)
  also have "\<dots> = n mod 256 ^ Suc k" by (simp add: mod_mult2_eq)
  finally show ?case .
qed simp

lemma byte_bound: "unat (b :: 8 word) < 256"
  using unsigned_less [of b, where 'a = nat] by simp

lemma be_nat_bound: "be_nat bs < 256 ^ length bs"
proof (induction bs rule: rev_induct)
  case (snoc b bs)
  have "unat b < 256" by (rule byte_bound)
  with snoc show ?case by (simp add: be_nat_append)
qed simp

lemma be_bytes_be_nat [bytes_simps]: "length bs = k \<Longrightarrow> be_bytes k (be_nat bs) = bs"
proof (induction bs arbitrary: k rule: rev_induct)
  case (snoc b bs)
  have "unat b < 256" by (rule byte_bound)
  moreover have "(word_of_nat (256 * be_nat bs + unat b) :: 8 word) = b"
    by (rule unsigned_word_eqI [where 'a = nat]) (use \<open>unat b < 256\<close> in \<open>simp only: unat_byte mod_mult_self4 mod_less\<close>)
  ultimately show ?case using snoc by (auto simp: be_nat_append)
qed simp

section \<open>UTF-8\<close>

definition byte :: "nat \<Rightarrow> 8 word" where
  "byte n = word_of_nat n"

definition utf8_char :: "nat \<Rightarrow> bytes" where
  "utf8_char c =
     (if c < 0x80 then [byte c]
      else if c < 0x800 then [byte (0xC0 + c div 64), byte (0x80 + c mod 64)]
      else if c < 0x10000 then [byte (0xE0 + c div 4096), byte (0x80 + c div 64 mod 64), byte (0x80 + c mod 64)]
      else [byte (0xF0 + c div 262144), byte (0x80 + c div 4096 mod 64), byte (0x80 + c div 64 mod 64), byte (0x80 + c mod 64)])"

definition is_surrogate :: "nat \<Rightarrow> bool" where
  "is_surrogate c \<longleftrightarrow> 0xD800 \<le> c \<and> c \<le> 0xDFFF"

text \<open>\<open>s.encode()\<close>: a lone surrogate raises \<open>UnicodeEncodeError\<close>, here \<open>None\<close>.\<close>

fun utf8_encode :: "pystr \<Rightarrow> bytes option" where
  "utf8_encode [] = Some []"
| "utf8_encode (c # cs) = (if is_surrogate c then None else map_option ((@) (utf8_char c)) (utf8_encode cs))"

text \<open>\<open>s.encode("utf-8", "surrogateescape")\<close>.\<close>

fun utf8_encode_escape :: "pystr \<Rightarrow> bytes option" where
  "utf8_encode_escape [] = Some []"
| "utf8_encode_escape (c # cs) =
     (if 0xDC80 \<le> c \<and> c \<le> 0xDCFF then map_option ((#) (byte (c - 0xDC00))) (utf8_encode_escape cs)
      else if is_surrogate c then None else map_option ((@) (utf8_char c)) (utf8_encode_escape cs))"

text \<open>The range of the second byte after a lead byte, and the number of bytes it announces.\<close>

definition utf8_lead :: "nat \<Rightarrow> (nat \<times> nat \<times> nat) option" where
  "utf8_lead b =
     (if 0xC2 \<le> b \<and> b \<le> 0xDF then Some (1, 0x80, 0xBF)
      else if b = 0xE0 then Some (2, 0xA0, 0xBF)
      else if b = 0xED then Some (2, 0x80, 0x9F)
      else if 0xE1 \<le> b \<and> b \<le> 0xEF then Some (2, 0x80, 0xBF)
      else if b = 0xF0 then Some (3, 0x90, 0xBF)
      else if 0xF1 \<le> b \<and> b \<le> 0xF3 then Some (3, 0x80, 0xBF)
      else if b = 0xF4 then Some (3, 0x80, 0x8F)
      else None)"

text \<open>Continuation bytes: the value and the rest, or how many bytes were well-formed.\<close>

fun utf8_tail :: "nat \<Rightarrow> nat \<Rightarrow> nat \<Rightarrow> nat \<Rightarrow> nat \<Rightarrow> bytes \<Rightarrow> nat + nat \<times> bytes" where
  "utf8_tail 0 lo hi v used bs = Inr (v, bs)"
| "utf8_tail (Suc k) lo hi v used [] = Inl used"
| "utf8_tail (Suc k) lo hi v used (b # bs) =
     (if lo \<le> unat b \<and> unat b \<le> hi then utf8_tail k 0x80 0xBF (64 * v + unat b mod 64) (Suc used) bs else Inl used)"

definition utf8_next :: "8 word \<Rightarrow> bytes \<Rightarrow> nat + nat \<times> bytes" where
  "utf8_next b bs =
     (if unat b < 0x80 then Inr (unat b, bs)
      else (case utf8_lead (unat b) of
              None \<Rightarrow> Inl 1
            | Some (k, lo, hi) \<Rightarrow> utf8_tail k lo hi (unat b mod 2 ^ (6 - k)) 1 bs))"

lemma utf8_tail_length: "utf8_tail k lo hi v n bs = Inr (c, rest) \<Longrightarrow> length rest \<le> length bs"
  by (induction k lo hi v n bs rule: utf8_tail.induct) (auto split: if_splits)

lemma utf8_tail_used: "utf8_tail k lo hi v n bs = Inl m \<Longrightarrow> n \<le> m"
  by (induction k lo hi v n bs rule: utf8_tail.induct) (auto split: if_splits)

lemma utf8_next_length: "utf8_next b bs = Inr (c, rest) \<Longrightarrow> length rest \<le> length bs"
  by (auto simp: utf8_next_def split: if_splits option.splits dest: utf8_tail_length)

text \<open>\<open>decode("utf-8", errors)\<close>; the handler turns an ill-formed sequence into text.\<close>

function utf8_decode :: "(bytes \<Rightarrow> pystr) \<Rightarrow> bytes \<Rightarrow> pystr" where
  "utf8_decode handler [] = []"
| "utf8_decode handler (b # bs) =
     (case utf8_next b bs of
        Inr (c, rest) \<Rightarrow> c # utf8_decode handler rest
      | Inl n \<Rightarrow> handler (take n (b # bs)) @ utf8_decode handler (drop (n - 1) bs))"
  by pat_completeness auto
termination
  by (relation "measure (\<lambda>(_, bs). length bs)") (auto dest: utf8_next_length)

definition replace_handler :: "bytes \<Rightarrow> pystr" where
  "replace_handler bs = [0xFFFD]"

definition escape_handler :: "bytes \<Rightarrow> pystr" where
  "escape_handler bs = map (\<lambda>b. 0xDC00 + unat b) bs"

definition decode_replace :: "bytes \<Rightarrow> pystr" where
  "decode_replace bs = utf8_decode replace_handler bs"

definition decode_escape :: "bytes \<Rightarrow> pystr" where
  "decode_escape bs = utf8_decode escape_handler bs"

section \<open>Round trip\<close>

definition is_scalar :: "nat \<Rightarrow> bool" where
  "is_scalar c \<longleftrightarrow> c < 0x110000 \<and> \<not> is_surrogate c"

lemma unat_byte_small: "n < 256 \<Longrightarrow> unat (byte n) = n"
  by (simp add: byte_def unat_byte)

lemma byte_unat: "byte (unat b) = b"
  by (simp add: byte_def)

lemma base64_digits:
  fixes c :: nat
  shows "c = 4096 * (c div 4096) + 64 * (c div 64 mod 64) + c mod 64"
    and "c = 262144 * (c div 262144) + 4096 * (c div 4096 mod 64) + 64 * (c div 64 mod 64) + c mod 64"
proof -
  have d: "c = 64 * (c div 64) + c mod 64" "c div 64 = 64 * (c div 4096) + c div 64 mod 64"
    "c div 4096 = 64 * (c div 262144) + c div 4096 mod 64"
    using mult_div_mod_eq [of 64 c] mult_div_mod_eq [of 64 "c div 64"] mult_div_mod_eq [of 64 "c div 4096"]
      div_mult2_eq [of c 64 64] div_mult2_eq [of c 4096 64] by simp_all
  then show "c = 4096 * (c div 4096) + 64 * (c div 64 mod 64) + c mod 64" by linarith
  from d show "c = 262144 * (c div 262144) + 4096 * (c div 4096 mod 64) + 64 * (c div 64 mod 64) + c mod 64" by linarith
qed

lemma utf8_tail2:
  "lo \<le> unat b \<Longrightarrow> unat b \<le> hi \<Longrightarrow> 0x80 \<le> unat c \<Longrightarrow> unat c \<le> 0xBF \<Longrightarrow>
   utf8_tail 2 lo hi v n (b # c # r) = Inr (4096 * v + 64 * (unat b mod 64) + unat c mod 64, r)"
  by (simp add: numeral_2_eq_2)

lemma utf8_tail3:
  "lo \<le> unat b \<Longrightarrow> unat b \<le> hi \<Longrightarrow> 0x80 \<le> unat c \<Longrightarrow> unat c \<le> 0xBF \<Longrightarrow> 0x80 \<le> unat d \<Longrightarrow> unat d \<le> 0xBF \<Longrightarrow>
   utf8_tail 3 lo hi v n (b # c # d # r) = Inr (262144 * v + 4096 * (unat b mod 64) + 64 * (unat c mod 64) + unat d mod 64, r)"
  by (simp add: numeral_3_eq_3)

lemma utf8_next_char:
  assumes "is_scalar c"
  obtains b bs where "utf8_char c = b # bs" "\<And>rest. utf8_next b (bs @ rest) = Inr (c, rest)"
proof -
  consider (a) "c < 0x80" | (b) "0x80 \<le> c" "c < 0x800" | (c) "0x800 \<le> c" "c < 0x10000" | (d) "0x10000 \<le> c" "c < 0x110000"
    using assms unfolding is_scalar_def by linarith
  then show thesis
  proof cases
    case a
    then show thesis by (intro that [of "byte c" "[]"]) (simp_all add: utf8_char_def utf8_next_def unat_byte_small)
  next
    case b
    define x where "x = c div 64"
    define y where "y = c mod 64"
    have xy: "c = 64 * x + y" "2 \<le> x" "x < 32" "y < 64" using b unfolding x_def y_def by auto
    have "unat (byte (0xC0 + x)) = 0xC0 + x" "unat (byte (0x80 + y)) = 0x80 + y" using xy by (simp_all add: unat_byte_small)
    moreover have "utf8_lead (0xC0 + x) = Some (1, 0x80, 0xBF)" "(0xC0 + x) mod 32 = x" "(0x80 + y) mod 64 = y"
      using xy by (simp_all add: utf8_lead_def mod_if)
    ultimately show thesis
      using b xy by (intro that [of "byte (0xC0 + x)" "[byte (0x80 + y)]"])
        (simp_all add: utf8_char_def x_def [symmetric] y_def [symmetric] utf8_next_def)
  next
    case c
    define x where "x = c div 4096"
    define y where "y = c div 64 mod 64"
    define z where "z = c mod 64"
    have xyz: "c = 4096 * x + 64 * y + z" "x < 16" "y < 64" "z < 64"
      using c base64_digits(1) [of c] unfolding x_def y_def z_def by auto
    have ns: "\<not> (0xD800 \<le> c \<and> c \<le> 0xDFFF)" using assms by (simp add: is_scalar_def is_surrogate_def)
    have y: "x = 0 \<Longrightarrow> 0x20 \<le> y" "x = 13 \<Longrightarrow> y < 0x20" using xyz c ns by auto
    have u: "unat (byte (0xE0 + x)) = 0xE0 + x" "unat (byte (0x80 + y)) = 0x80 + y" "unat (byte (0x80 + z)) = 0x80 + z"
      using xyz by (simp_all add: unat_byte_small)
    have m: "(0xE0 + x) mod 16 = x" "(0x80 + y) mod 64 = y" "(0x80 + z) mod 64 = z"
      using xyz by (simp_all add: mod_if)
    have l: "utf8_lead (0xE0 + x) = Some (2, if x = 0 then 0xA0 else 0x80, if x = 13 then 0x9F else 0xBF)"
      using xyz by (simp add: utf8_lead_def)
    have "(if x = 0 then 0xA0 else 0x80) \<le> 0x80 + y" "0x80 + y \<le> (if x = 13 then 0x9F else 0xBF)"
      using xyz y by auto
    then have "utf8_next (byte (0xE0 + x)) ([byte (0x80 + y), byte (0x80 + z)] @ rest) = Inr (c, rest)" for rest
      using xyz by (simp add: utf8_next_def u l m utf8_tail2 del: if_split)
    then show thesis
      using c by (intro that [of "byte (0xE0 + x)" "[byte (0x80 + y), byte (0x80 + z)]"])
        (simp_all add: utf8_char_def x_def [symmetric] y_def [symmetric] z_def [symmetric])
  next
    case d
    define x where "x = c div 262144"
    define w where "w = c div 4096 mod 64"
    define y where "y = c div 64 mod 64"
    define z where "z = c mod 64"
    have xyz: "c = 262144 * x + 4096 * w + 64 * y + z" "x < 5" "w < 64" "y < 64" "z < 64"
      using d base64_digits(2) [of c] unfolding x_def y_def z_def w_def by auto
    have w: "x = 0 \<Longrightarrow> 0x10 \<le> w" "x = 4 \<Longrightarrow> w < 0x10" using xyz d by auto
    have u: "unat (byte (0xF0 + x)) = 0xF0 + x" "unat (byte (0x80 + w)) = 0x80 + w"
      "unat (byte (0x80 + y)) = 0x80 + y" "unat (byte (0x80 + z)) = 0x80 + z"
      using xyz by (simp_all add: unat_byte_small)
    have m: "(0xF0 + x) mod 8 = x" "(0x80 + w) mod 64 = w" "(0x80 + y) mod 64 = y" "(0x80 + z) mod 64 = z"
      using xyz by (simp_all add: mod_if)
    have l: "utf8_lead (0xF0 + x) = Some (3, if x = 0 then 0x90 else 0x80, if x = 4 then 0x8F else 0xBF)"
      using xyz by (simp add: utf8_lead_def)
    have "(if x = 0 then 0x90 else 0x80) \<le> 0x80 + w" "0x80 + w \<le> (if x = 4 then 0x8F else 0xBF)"
      using xyz w by auto
    then have "utf8_next (byte (0xF0 + x)) ([byte (0x80 + w), byte (0x80 + y), byte (0x80 + z)] @ rest) = Inr (c, rest)" for rest
      using xyz by (simp add: utf8_next_def u l m utf8_tail3 del: if_split)
    then show thesis
      using d by (intro that [of "byte (0xF0 + x)" "[byte (0x80 + w), byte (0x80 + y), byte (0x80 + z)]"])
        (simp_all add: utf8_char_def x_def [symmetric] y_def [symmetric] z_def [symmetric] w_def [symmetric])
  qed
qed

lemma utf8_decode_char: "is_scalar c \<Longrightarrow> utf8_decode h (utf8_char c @ rest) = c # utf8_decode h rest"
  by (erule utf8_next_char) simp

lemma utf8_encode_scalar: "list_all is_scalar s \<Longrightarrow> utf8_encode s = Some (concat (map utf8_char s))"
  by (induction s) (auto simp: is_scalar_def)

lemma utf8_decode_concat: "list_all is_scalar s \<Longrightarrow> utf8_decode h (concat (map utf8_char s) @ rest) = s @ utf8_decode h rest"
  by (induction s) (auto simp: utf8_decode_char)

lemma utf8_round: "list_all is_scalar s \<Longrightarrow> utf8_encode s = Some bs \<Longrightarrow> utf8_decode h bs = s"
  using utf8_decode_concat [of s h "[]"] by (simp add: utf8_encode_scalar)

end
