(* ===== verification/Hashes.thy ===== *)
theory Hashes
  imports Bytes
begin

text \<open>
  The digests of \<open>hashlib\<close> and \<open>hmac\<close> that the sources call: MD5 (RFC 1321), SHA-256 (FIPS 180-4) and
  HMAC-MD5 (RFC 2104), on 32-bit words.  Clients that only need the length of a digest use the
  locale \<open>digest16\<close>.
\<close>

unbundle bit_operations_syntax

section \<open>Padding\<close>

definition md_pad :: "nat \<Rightarrow> bytes" where
  "md_pad n = 0x80 # replicate ((119 - n mod 64) mod 64) 0"

fun blocks64 :: "nat \<Rightarrow> bytes \<Rightarrow> bytes list" where
  "blocks64 0 bs = []"
| "blocks64 (Suc k) bs = take 64 bs # blocks64 k (drop 64 bs)"

fun quads :: "bytes \<Rightarrow> bytes list" where
  "quads (a # b # c # d # bs) = [a, b, c, d] # quads bs"
| "quads bs = []"

definition le_bytes :: "nat \<Rightarrow> nat \<Rightarrow> bytes" where
  "le_bytes k n = rev (be_bytes k n)"

definition word_be :: "bytes \<Rightarrow> 32 word" where
  "word_be bs = word_of_nat (be_nat bs)"

definition word_le :: "bytes \<Rightarrow> 32 word" where
  "word_le bs = word_of_nat (be_nat (rev bs))"

section \<open>MD5\<close>

definition md5_K :: "32 word list" where
  "md5_K =
    [0xd76aa478, 0xe8c7b756, 0x242070db, 0xc1bdceee, 0xf57c0faf, 0x4787c62a, 0xa8304613, 0xfd469501,
     0x698098d8, 0x8b44f7af, 0xffff5bb1, 0x895cd7be, 0x6b901122, 0xfd987193, 0xa679438e, 0x49b40821,
     0xf61e2562, 0xc040b340, 0x265e5a51, 0xe9b6c7aa, 0xd62f105d, 0x02441453, 0xd8a1e681, 0xe7d3fbc8,
     0x21e1cde6, 0xc33707d6, 0xf4d50d87, 0x455a14ed, 0xa9e3e905, 0xfcefa3f8, 0x676f02d9, 0x8d2a4c8a,
     0xfffa3942, 0x8771f681, 0x6d9d6122, 0xfde5380c, 0xa4beea44, 0x4bdecfa9, 0xf6bb4b60, 0xbebfbc70,
     0x289b7ec6, 0xeaa127fa, 0xd4ef3085, 0x04881d05, 0xd9d4d039, 0xe6db99e5, 0x1fa27cf8, 0xc4ac5665,
     0xf4292244, 0x432aff97, 0xab9423a7, 0xfc93a039, 0x655b59c3, 0x8f0ccc92, 0xffeff47d, 0x85845dd1,
     0x6fa87e4f, 0xfe2ce6e0, 0xa3014314, 0x4e0811a1, 0xf7537e82, 0xbd3af235, 0x2ad7d2bb, 0xeb86d391]"

definition md5_S :: "nat list" where
  "md5_S = [7, 12, 17, 22, 5, 9, 14, 20, 4, 11, 16, 23, 6, 10, 15, 21]"

type_synonym md5_state = "32 word \<times> 32 word \<times> 32 word \<times> 32 word"

definition md5_step :: "32 word list \<Rightarrow> md5_state \<Rightarrow> nat \<Rightarrow> md5_state" where
  "md5_step m s i =
     (case s of (a, b, c, d) \<Rightarrow>
        (let (f, g) =
               (if i < 16 then ((b AND c) OR (NOT b AND d), i)
                else if i < 32 then ((d AND b) OR (NOT d AND c), (5 * i + 1) mod 16)
                else if i < 48 then (b XOR c XOR d, (3 * i + 5) mod 16)
                else (c XOR (b OR NOT d), 7 * i mod 16));
             x = f + a + md5_K ! i + m ! g
         in (d, b + word_rotl (md5_S ! (4 * (i div 16) + i mod 4)) x, b, c)))"

definition md5_block :: "md5_state \<Rightarrow> bytes \<Rightarrow> md5_state" where
  "md5_block s blk =
     (case (s, foldl (md5_step (map word_le (quads blk))) s [0..<64]) of
        ((a, b, c, d), (a', b', c', d')) \<Rightarrow> (a + a', b + b', c + c', d + d'))"

definition md5 :: "bytes \<Rightarrow> bytes" where
  "md5 msg =
     (let n = length msg;
          padded = msg @ md_pad n @ le_bytes 8 (8 * n);
          (a, b, c, d) = foldl md5_block (0x67452301, 0xefcdab89, 0x98badcfe, 0x10325476)
                           (blocks64 (length padded div 64) padded)
      in le_bytes 4 (unat a) @ le_bytes 4 (unat b) @ le_bytes 4 (unat c) @ le_bytes 4 (unat d))"

section \<open>SHA-256\<close>

text \<open>The constants are the first 32 bits of the fractional parts of the cube roots of the first 64
  primes and of the square roots of the first eight; \<open>root_floor\<close> finds an integer root bit by bit.\<close>

fun root_floor :: "nat \<Rightarrow> nat \<Rightarrow> nat \<Rightarrow> nat \<Rightarrow> nat" where
  "root_floor e 0 n acc = acc"
| "root_floor e (Suc b) n acc = root_floor e b n (if (acc + 2 ^ b) ^ e \<le> n then acc + 2 ^ b else acc)"

definition sha_primes :: "nat list" where
  "sha_primes = filter (\<lambda>n. list_all (\<lambda>d. n mod d \<noteq> 0) [2..<n]) [2..<312]"

definition sha_K :: "32 word list" where
  "sha_K = map (\<lambda>p. word_of_nat (root_floor 3 36 (p * 2 ^ 96) 0)) sha_primes"

definition sha_H :: "32 word list" where
  "sha_H = map (\<lambda>p. word_of_nat (root_floor 2 40 (p * 2 ^ 64) 0)) [2, 3, 5, 7, 11, 13, 17, 19]"

text \<open>The message schedule; \<open>k\<close> words are added to the first sixteen.\<close>

fun sha_schedule :: "nat \<Rightarrow> 32 word list \<Rightarrow> 32 word list" where
  "sha_schedule 0 w = w"
| "sha_schedule (Suc k) w =
     (let i = length w;
          x = w ! (i - 15); y = w ! (i - 2);
          s0 = word_rotr 7 x XOR word_rotr 18 x XOR drop_bit 3 x;
          s1 = word_rotr 17 y XOR word_rotr 19 y XOR drop_bit 10 y
      in sha_schedule k (w @ [w ! (i - 16) + s0 + w ! (i - 7) + s1]))"

definition sha_step :: "32 word list \<Rightarrow> 32 word list \<Rightarrow> nat \<Rightarrow> 32 word list" where
  "sha_step w s i =
     (let a = s ! 0; b = s ! 1; c = s ! 2; d = s ! 3; e = s ! 4; f = s ! 5; g = s ! 6; h = s ! 7;
          s1 = word_rotr 6 e XOR word_rotr 11 e XOR word_rotr 25 e;
          ch = (e AND f) XOR (NOT e AND g);
          t1 = h + s1 + ch + sha_K ! i + w ! i;
          s0 = word_rotr 2 a XOR word_rotr 13 a XOR word_rotr 22 a;
          maj = (a AND b) XOR (a AND c) XOR (b AND c)
      in [t1 + s0 + maj, a, b, c, d + t1, e, f, g])"

definition sha_block :: "32 word list \<Rightarrow> bytes \<Rightarrow> 32 word list" where
  "sha_block s blk = map2 (+) s (foldl (sha_step (sha_schedule 48 (map word_be (quads blk)))) s [0..<64])"

definition sha256 :: "bytes \<Rightarrow> bytes" where
  "sha256 msg =
     (let n = length msg;
          padded = msg @ md_pad n @ be_bytes 8 (8 * n)
      in concat (map (\<lambda>w. be_bytes 4 (unat w)) (foldl sha_block sha_H (blocks64 (length padded div 64) padded))))"

definition hex_digit :: "nat \<Rightarrow> nat" where
  "hex_digit n = (if n < 10 then 48 + n else 87 + n)"

text \<open>\<open>hexdigest()\<close>.\<close>

definition hexdigest :: "bytes \<Rightarrow> pystr" where
  "hexdigest bs = concat (map (\<lambda>b. [hex_digit (unat b div 16), hex_digit (unat b mod 16)]) bs)"

section \<open>HMAC\<close>

definition hmac_block :: "bytes \<Rightarrow> bytes" where
  "hmac_block key = (let k = (if length key > 64 then md5 key else key) in k @ replicate (64 - length k) 0)"

definition hmac_md5 :: "bytes \<Rightarrow> bytes \<Rightarrow> bytes" where
  "hmac_md5 key msg =
     (let k = hmac_block key
      in md5 (map (\<lambda>b. b XOR 0x5C) k @ md5 (map (\<lambda>b. b XOR 0x36) k @ msg)))"

section \<open>Lengths\<close>

lemma length_md5 [simp, bytes_simps]: "length (md5 msg) = 16"
  by (simp add: md5_def le_bytes_def Let_def split: prod.splits)

lemma length_hmac_md5 [simp, bytes_simps]: "length (hmac_md5 key msg) = 16"
  by (simp add: hmac_md5_def Let_def)

lemma length_sha_block: "length s = 8 \<Longrightarrow> length (sha_block s blk) = 8"
proof -
  assume s: "length s = 8"
  have "length (foldl (sha_step w) t is) = 8" if "length t = 8" for w t "is"
    using that by (induction "is" arbitrary: t) (simp_all add: sha_step_def Let_def)
  then show ?thesis using s by (simp add: sha_block_def)
qed

lemma length_concat_be: "length (concat (map (\<lambda>w. be_bytes 4 (unat w)) ws)) = 4 * length ws"
  by (induction ws) auto

lemma length_sha256 [simp, bytes_simps]: "length (sha256 msg) = 32"
proof -
  have "length (foldl sha_block s bs) = 8" if "length s = 8" for s bs
    using that by (induction bs arbitrary: s) (simp_all add: length_sha_block)
  then show ?thesis by (simp add: sha256_def Let_def length_concat_be sha_H_def)
qed

lemma length_hexdigest [simp, bytes_simps]: "length (hexdigest bs) = 2 * length bs"
  unfolding hexdigest_def by (induction bs) auto

lemma hex_digit_inj: "a < 16 \<Longrightarrow> b < 16 \<Longrightarrow> hex_digit a = hex_digit b \<longleftrightarrow> a = b"
  by (auto simp: hex_digit_def)

end
