(* ===== verification/Digest.thy ===== *)
theory Digest
  imports Engine Hashes "HOL-Library.List_Lexorder"
begin

text \<open>
  \<open>Decision.digest\<close> of \<open>naco/policy/context.py\<close>: the SHA-256 of the decision as compact JSON with sorted
  keys.  \<open>json_dumps\<close> is \<open>json.dumps(doc, sort_keys=True, separators=(",", ":"))\<close>, which escapes
  everything outside printable ASCII.
\<close>

definition hex4 :: "nat \<Rightarrow> pystr" where
  "hex4 n = [hex_digit (n div 4096 mod 16), hex_digit (n div 256 mod 16), hex_digit (n div 16 mod 16), hex_digit (n mod 16)]"

definition json_char :: "nat \<Rightarrow> pystr" where
  "json_char c =
     (if c = 34 then [92, 34] else if c = 92 then [92, 92]
      else if c = 10 then [92, 110] else if c = 13 then [92, 114] else if c = 9 then [92, 116]
      else if c = 12 then [92, 102] else if c = 8 then [92, 98]
      else if 32 \<le> c \<and> c \<le> 126 then [c]
      else if c < 0x10000 then [92, 117] @ hex4 c
      else [92, 117] @ hex4 (0xD800 + (c - 0x10000) div 1024) @ [92, 117] @ hex4 (0xDC00 + (c - 0x10000) mod 1024))"

definition json_string :: "pystr \<Rightarrow> pystr" where
  "json_string s = [34] @ concat (map json_char s) @ [34]"

fun json_dumps :: "json \<Rightarrow> pystr" where
  "json_dumps JNull = u ''null''"
| "json_dumps (JBool b) = (if b then u ''true'' else u ''false'')"
| "json_dumps (JInt i) = str_int i"
| "json_dumps (JFloat s) = s"
| "json_dumps (JStr s) = json_string s"
| "json_dumps (JArr vs) = [91] @ join [44] (map json_dumps vs) @ [93]"
| "json_dumps (JObj d) =
     [123] @ join [44] (map snd (sort_key fst (map (\<lambda>(k, v). (k, json_string k @ [58] @ json_dumps v)) d))) @ [125]"

definition digest_doc :: "Decision \<Rightarrow> json" where
  "digest_doc d =
     JObj [(u ''action'', JStr (PolicyAction_value (dec_action d))),
           (u ''vlan'', case dec_vlan d of None \<Rightarrow> JNull | Some v \<Rightarrow> JInt v),
           (u ''attrs'', JObj (dec_reply_attributes d))]"

definition digest :: "Decision \<Rightarrow> pystr" where
  "digest d = hexdigest (sha256 (map byte (json_dumps (digest_doc d))))"

lemma length_digest: "length (digest d) = 64"
  by (simp add: digest_def)

end
