(* ===== verification/Clients.thy ===== *)
theory Clients
  imports Models NetUtils "HOL-Library.Multiset"
begin

text \<open>
  \<open>naco/radius/clients.py\<close>: which RADIUS client a source address belongs to, the entry for exactly
  this address or else the narrowest network that contains it.  A stored network that
  \<open>ipaddress\<close> refuses raises \<open>ValueError\<close>.
\<close>

record NasDirectory =
  nd_exact :: "(pystr, NasClient) odict"
  nd_networks :: "(ipnet \<times> NasClient) list"

definition is_network :: "NasClient \<Rightarrow> bool" where
  "is_network c \<longleftrightarrow> 47 \<in> set (nas_ip_address c)"

definition network_of :: "NasClient \<Rightarrow> py_exc + (ipnet \<times> NasClient)" where
  "network_of c =
     (case ip_network_strict (nas_ip_address c) of
        None \<Rightarrow> Inl (ValueError (nas_ip_address c)) | Some net \<Rightarrow> Inr (net, c))"

text \<open>\<open>sorted(..., reverse=True)\<close> keeps the order of equal keys.\<close>

definition narrowest_first :: "(ipnet \<times> NasClient) list \<Rightarrow> (ipnet \<times> NasClient) list" where
  "narrowest_first nets = sort_key (\<lambda>item. - int (prefixlen (fst item))) nets"

definition NasDirectory_init :: "NasClient list \<Rightarrow> py_exc + NasDirectory" where
  "NasDirectory_init clients =
     rbind (rmap network_of (filter is_network clients)) (\<lambda>nets.
       Inr \<lparr>nd_exact = od_index nas_ip_address id (filter (Not \<circ> is_network) clients),
            nd_networks = narrowest_first nets\<rparr>)"

fun search_networks :: "ip \<Rightarrow> (ipnet \<times> NasClient) list \<Rightarrow> NasClient option" where
  "search_networks addr [] = None"
| "search_networks addr ((net, c) # nets) = (if ip_in addr net then Some c else search_networks addr nets)"

definition nd_find :: "NasDirectory \<Rightarrow> pystr \<Rightarrow> NasClient option" where
  "nd_find dir ip =
     (case od_get (nd_exact dir) ip of
        Some c \<Rightarrow> Some c
      | None \<Rightarrow> (case ip_address ip of None \<Rightarrow> None | Some addr \<Rightarrow> search_networks addr (nd_networks dir)))"

definition nas_directory :: "db \<Rightarrow> py_exc + NasDirectory" where
  "nas_directory d = NasDirectory_init (nas_clients d)"

definition find_nas :: "db \<Rightarrow> pystr \<Rightarrow> py_exc + NasClient option" where
  "find_nas d ip =
     (if ip = [] then Inr None
      else (case find (\<lambda>c. nas_ip_address c = ip) (nas_clients d) of
              Some c \<Rightarrow> Inr (Some c)
            | None \<Rightarrow> rbind (NasDirectory_init (filter is_network (nas_clients d))) (\<lambda>dir. Inr (nd_find dir ip))))"

section \<open>Longest prefix match\<close>

text \<open>The search through the networks is a first-match list.\<close>

definition search_result :: "ip \<Rightarrow> (ipnet \<times> NasClient) list \<Rightarrow> unit + (ipnet \<times> NasClient) option" where
  "search_result addr nets = Inr (find (\<lambda>(net, _). ip_in addr net) nets)"

interpretation nets: first_match "\<lambda>(net, _). Inr (ip_in addr net)" Some None "search_result addr" for addr
  by unfold_locales (auto simp: search_result_def split: prod.splits)

lemma search_networks_find: "search_networks addr nets = map_option snd (find (\<lambda>(net, _). ip_in addr net) nets)"
  by (induction addr nets rule: search_networks.induct) auto

lemma search_networks_Some:
  assumes "search_networks addr (narrowest_first nets) = Some c"
  shows "\<exists>net. (net, c) \<in> set nets \<and> ip_in addr net \<and>
    (\<forall>(n, c')\<in>set nets. ip_in addr n \<longrightarrow> prefixlen n \<le> prefixlen net)"
proof -
  obtain net where f: "search_result addr (narrowest_first nets) = Inr (Some (net, c))"
    using assms by (auto simp: search_networks_find search_result_def)
  from nets.eval_cases [OF this] obtain xs ys where split: "narrowest_first nets = xs @ (net, c) # ys"
    "\<forall>q\<in>set xs. \<not> ip_in addr (fst q)" "ip_in addr net"
    by (auto simp: case_prod_unfold)
  have "sorted (map (\<lambda>item. - int (prefixlen (fst item))) (narrowest_first nets))"
    by (simp add: narrowest_first_def)
  then have le: "\<forall>q\<in>set ys. prefixlen (fst q) \<le> prefixlen net" by (auto simp: split(1) sorted_append)
  have set: "set nets = set xs \<union> {(net, c)} \<union> set ys"
    using split(1) by (metis narrowest_first_def set_sort Un_insert_right insert_is_Un list.simps(15) set_append sup_assoc)
  show ?thesis using split(2,3) le by (intro exI [of _ net]) (auto simp: set)
qed

lemma search_networks_None: "search_networks addr (narrowest_first nets) = None \<Longrightarrow> \<forall>(n, c)\<in>set nets. \<not> ip_in addr n"
  by (auto simp: search_networks_find find_None_iff narrowest_first_def)

text \<open>The network of a stored entry.\<close>

definition client_net :: "NasClient \<Rightarrow> ipnet option" where
  "client_net c = (if is_network c then ip_network_strict (nas_ip_address c) else None)"

lemma networks_of: "rmap network_of cs = Inr nets \<Longrightarrow>
    set nets = {(net, c). c \<in> set cs \<and> ip_network_strict (nas_ip_address c) = Some net}"
proof -
  assume r: "rmap network_of cs = Inr nets"
  have "network_of c = Inr x \<longleftrightarrow> snd x = c \<and> ip_network_strict (nas_ip_address c) = Some (fst x)" for c x
    by (cases x) (auto simp: network_of_def split: option.splits)
  with rmap_Inr_set [OF r] rmap_Inr_mem [OF r] show ?thesis by fastforce
qed

definition lookup_spec :: "db \<Rightarrow> pystr \<Rightarrow> NasClient option \<Rightarrow> bool" where
  "lookup_spec d ip r \<longleftrightarrow>
     (case r of
        Some c \<Rightarrow> c \<in> set (nas_clients d) \<and> ip \<noteq> [] \<and>
          (nas_ip_address c = ip \<or>
           (\<forall>c'\<in>set (nas_clients d). nas_ip_address c' \<noteq> ip) \<and>
           (\<exists>a net. ip_address ip = Some a \<and> client_net c = Some net \<and> ip_in a net \<and>
              (\<forall>c'\<in>set (nas_clients d). \<forall>n. client_net c' = Some n \<longrightarrow> ip_in a n \<longrightarrow> prefixlen n \<le> prefixlen net)))
      | None \<Rightarrow> ip = [] \<or>
          (\<forall>c\<in>set (nas_clients d). nas_ip_address c \<noteq> ip \<and>
             (\<forall>a n. ip_address ip = Some a \<longrightarrow> client_net c = Some n \<longrightarrow> \<not> ip_in a n)))"

lemma find_nas_network:
  assumes "find (\<lambda>c. nas_ip_address c = ip) (nas_clients d) = None" "ip \<noteq> []" "find_nas d ip = Inr r"
  obtains nets where "rmap network_of (filter is_network (nas_clients d)) = Inr nets"
    "r = (case ip_address ip of None \<Rightarrow> None | Some addr \<Rightarrow> search_networks addr (narrowest_first nets))"
  using assms by (auto simp: find_nas_def NasDirectory_init_def rbind_eq_Inr nd_find_def cong: option.case_cong)

lemma find_nas_spec:
  assumes "find_nas d ip = Inr r"
  shows "lookup_spec d ip r"
proof (cases "ip = [] \<or> find (\<lambda>c. nas_ip_address c = ip) (nas_clients d) \<noteq> None")
  case True
  with assms show ?thesis
    by (auto simp: find_nas_def lookup_spec_def find_Some_iff find_None_iff split: option.splits if_splits)
next
  case False
  then have none: "find (\<lambda>c. nas_ip_address c = ip) (nas_clients d) = None" "ip \<noteq> []" by auto
  from find_nas_network [OF none assms] obtain nets where nets:
    "rmap network_of (filter is_network (nas_clients d)) = Inr nets"
    "r = (case ip_address ip of None \<Rightarrow> None | Some addr \<Rightarrow> search_networks addr (narrowest_first nets))" .
  have set: "(n, c) \<in> set nets \<longleftrightarrow> c \<in> set (nas_clients d) \<and> client_net c = Some n" for n c
    using networks_of [OF nets(1)] by (auto simp: client_net_def)
  show ?thesis
  proof (cases r)
    case None
    have "\<not> ip_in a n" if "ip_address ip = Some a" "c \<in> set (nas_clients d)" "client_net c = Some n" for a n c
      using nets(2) None that search_networks_None [of a nets] set [of n c] by auto
    with None none show ?thesis by (auto simp: lookup_spec_def find_None_iff)
  next
    case (Some c)
    then obtain a where a: "ip_address ip = Some a" "search_networks a (narrowest_first nets) = Some c"
      using nets(2) by (auto split: option.splits)
    from search_networks_Some [OF a(2)] obtain net where "(net, c) \<in> set nets" "ip_in a net"
      "\<forall>(n, c')\<in>set nets. ip_in a n \<longrightarrow> prefixlen n \<le> prefixlen net" by blast
    with Some none a(1) show ?thesis by (force simp: lookup_spec_def find_None_iff set)
  qed
qed

text \<open>C28. The lookup is a longest-prefix match: the client registered for exactly the address, else
  the one with the narrowest network that contains it, else none.\<close>

theorem find_nas_longest_prefix:
  "find_nas d ip = Inr r \<Longrightarrow> lookup_spec d ip r"
  by (rule find_nas_spec)

definition lab_nas :: NasClient where
  "lab_nas = \<lparr>nas_id = 1, nas_name = u ''lab'', nas_ip_address = u ''10.0.0.0/8'', nas_secret = u ''s3cret'', nas_coa_port = 3799,
     nas_vendor = u ''standard'', nas_require_message_authenticator = True, nas_description = [], nas_enabled = True,
     nas_created_at = 0, nas_updated_at = 0\<rparr>"

definition lab_ap :: NasClient where
  "lab_ap = lab_nas\<lparr>nas_id := 2, nas_name := u ''ap'', nas_ip_address := u ''10.0.0.7''\<rparr>"

theorem find_nas_longest_prefix_witness:
  "lookup_spec (empty_db\<lparr>nas_clients := [lab_nas, lab_ap]\<rparr>) (u ''10.0.0.7'') (Some lab_ap)"
  by (rule find_nas_longest_prefix) (simp add: find_nas_def lab_nas_def lab_ap_def)

lemma nd_find_agrees:
  assumes "nas_directory d = Inr dir" "distinct (map nas_ip_address (nas_clients d))" "ip \<noteq> []" "47 \<notin> set ip"
  shows "find_nas d ip = Inr (nd_find dir ip)"
proof -
  obtain nets where nets: "rmap network_of (filter is_network (nas_clients d)) = Inr nets"
    "nd_networks dir = narrowest_first nets"
    "nd_exact dir = od_index nas_ip_address id (filter (Not \<circ> is_network) (nas_clients d))"
    using assms(1) by (auto simp: nas_directory_def NasDirectory_init_def rbind_eq_Inr)
  have "distinct (map nas_ip_address (filter (Not \<circ> is_network) (nas_clients d)))"
    using assms(2) by (rule distinct_map_filter)
  then have "od_get (nd_exact dir) ip = find (\<lambda>c. nas_ip_address c = ip) (filter (Not \<circ> is_network) (nas_clients d))"
    by (simp add: nets(3) od_index_get option.map_id)
  also have "\<dots> = find (\<lambda>c. nas_ip_address c = ip) (nas_clients d)"
    using assms(4) by (intro find_filter) (auto simp: is_network_def)
  finally show ?thesis
    using nets(1,2) assms(3)
    by (auto simp: find_nas_def nd_find_def NasDirectory_init_def filter_empty_conv split: option.splits)
qed

text \<open>The directory built once for many lookups answers as the lookup in the database does.\<close>

theorem nas_directory_agrees:
  assumes "nas_directory d = Inr dir" "distinct (map nas_ip_address (nas_clients d))" "ip \<noteq> []" "47 \<notin> set ip"
  shows "find_nas d ip = Inr (nd_find dir ip)"
  using assms by (rule nd_find_agrees)

theorem nas_directory_agrees_witness:
  "find_nas (empty_db\<lparr>nas_clients := [lab_ap]\<rparr>) (u ''10.0.0.7'') =
   Inr (nd_find \<lparr>nd_exact = [(u ''10.0.0.7'', lab_ap)], nd_networks = []\<rparr> (u ''10.0.0.7''))"
  by (rule nas_directory_agrees)
    (simp_all add: nas_directory_def NasDirectory_init_def is_network_def lab_ap_def lab_nas_def narrowest_first_def od_index_def u_def)

end
