(* ===== verification/Passwords.thy ===== *)
theory Passwords
  imports Hashes
begin

text \<open>
  \<open>naco/core/passwords.py\<close>.  \<open>bcrypt\<close> is not part of the sources: \<open>hashpw\<close> (with a fresh salt) and
  \<open>checkpw\<close> are parameters, \<open>checkpw\<close> with \<open>None\<close> for its \<open>ValueError\<close>.  \<open>bcrypt_ok\<close> names what storing and
  checking a password relies on: a hash is ASCII text, and a password of at most 72 bytes checks
  against a hash iff the hash was made from it.
\<close>

record bcrypt_lib =
  bc_hashpw :: "bytes \<Rightarrow> bytes"
  bc_checkpw :: "bytes \<Rightarrow> bytes \<Rightarrow> bool option"

definition MAX_BYTES :: nat where "MAX_BYTES = 72"

definition encode_or_raise :: "pystr \<Rightarrow> py_exc + bytes" where
  "encode_or_raise s = (case utf8_encode s of None \<Rightarrow> Inl UnicodeEncodeError | Some b \<Rightarrow> Inr b)"

definition ascii_decode :: "bytes \<Rightarrow> pystr" where
  "ascii_decode bs = map unat bs"

definition dummy_hash :: "bcrypt_lib \<Rightarrow> bytes" where
  "dummy_hash bc = bc_hashpw bc (map of_char ''naco-timing-equaliser'')"

definition hash_password :: "bcrypt_lib \<Rightarrow> pystr \<Rightarrow> py_exc + pystr" where
  "hash_password bc password =
     rbind (encode_or_raise password) (\<lambda>raw.
       if length raw > MAX_BYTES then Inl (ValueError (u ''password is longer than 72 bytes''))
       else Inr (ascii_decode (bc_hashpw bc raw)))"

definition verify_password :: "bcrypt_lib \<Rightarrow> pystr \<Rightarrow> pystr option \<Rightarrow> py_exc + bool" where
  "verify_password bc password hashed =
     rbind (encode_or_raise password) (\<lambda>raw.
       let usable = (hashed \<noteq> None \<and> length raw \<le> MAX_BYTES) in
       rbind (case hashed of
                Some h \<Rightarrow> if usable \<and> h \<noteq> [] then encode_or_raise h else Inr (dummy_hash bc)
              | None \<Rightarrow> Inr (dummy_hash bc)) (\<lambda>target.
         let ok = (case bc_checkpw bc (take MAX_BYTES raw) target of None \<Rightarrow> False | Some b \<Rightarrow> b)
         in Inr (ok \<and> usable)))"

definition validate_length :: "nat \<Rightarrow> pystr \<Rightarrow> py_exc + unit" where
  "validate_length minimum password =
     (if length password < minimum then Inl (ValueError (u ''password must be at least '' @ dec minimum @ u '' characters''))
      else rbind (encode_or_raise password) (\<lambda>raw.
             if length raw > MAX_BYTES then Inl (ValueError (u ''password must be at most 72 bytes'')) else Inr ()))"

definition validate_admin_password :: "pystr \<Rightarrow> py_exc + unit" where
  "validate_admin_password password = validate_length 12 password"

definition validate_user_password :: "pystr \<Rightarrow> py_exc + unit" where
  "validate_user_password password = validate_length 8 password"

section \<open>Storing and checking\<close>

definition bcrypt_ok :: "bcrypt_lib \<Rightarrow> bool" where
  "bcrypt_ok bc \<longleftrightarrow>
     (\<forall>p. bc_hashpw bc p \<noteq> [] \<and> (\<forall>b\<in>set (bc_hashpw bc p). unat b < 128)) \<and>
     (\<forall>p q. length p \<le> 72 \<longrightarrow> length q \<le> 72 \<longrightarrow> bc_checkpw bc p (bc_hashpw bc q) = Some (p = q))"

lemma encode_ascii: "\<forall>b\<in>set bs. unat b < 128 \<Longrightarrow> encode_or_raise (ascii_decode bs) = Inr bs"
proof -
  assume "\<forall>b\<in>set bs. unat b < 128"
  then have "utf8_encode (ascii_decode bs) = Some bs"
    by (induction bs) (simp_all add: ascii_decode_def is_surrogate_def utf8_char_def byte_def)
  then show ?thesis by (simp add: encode_or_raise_def)
qed

lemma verify_password_none: "verify_password bc q None \<noteq> Inr True"
  by (auto simp: verify_password_def Let_def rbind_eq_Inr)

lemma verify_new:
  assumes "bcrypt_ok bc" "hash_password bc p = Inr h" "encode_or_raise q = Inr raw"
  shows "verify_password bc q (Some h) = Inr (encode_or_raise p = Inr raw)"
proof -
  obtain rp where rp: "encode_or_raise p = Inr rp" "length rp \<le> 72" "h = ascii_decode (bc_hashpw bc rp)"
    using assms(2) by (auto simp: hash_password_def MAX_BYTES_def rbind_eq_Inr split: if_splits)
  have h: "h \<noteq> []" "encode_or_raise h = Inr (bc_hashpw bc rp)"
    using rp(3) assms(1) encode_ascii [of "bc_hashpw bc rp"] by (auto simp: bcrypt_ok_def ascii_decode_def)
  have "bc_checkpw bc (take 72 raw) (bc_hashpw bc rp) = Some (take 72 raw = rp)"
    using assms(1) rp(2) by (simp add: bcrypt_ok_def)
  then show ?thesis using h rp(1,2) assms(3) by (auto simp: verify_password_def MAX_BYTES_def Let_def)
qed

text \<open>A password verifies against a stored hash iff it is the password that was hashed; a longer
  one than bcrypt looks at never does, and without a hash none does.\<close>

theorem verify_stored_password:
  assumes "bcrypt_ok bc" "hash_password bc p = Inr h" "encode_or_raise q = Inr raw"
  shows "verify_password bc q (Some h) = Inr (encode_or_raise p = Inr raw) \<and> verify_password bc q None = Inr False"
  using verify_new [OF assms] by (simp add: verify_password_def Let_def assms(3))

text \<open>A library that satisfies \<open>bcrypt_ok\<close>: hexadecimal text as the hash.\<close>

definition hex_bcrypt :: bcrypt_lib where
  "hex_bcrypt = \<lparr>bc_hashpw = (\<lambda>p. map byte (36 # hexdigest p)),
                 bc_checkpw = (\<lambda>p h. Some (map byte (36 # hexdigest p) = h))\<rparr>"

lemma hexdigest_bound: "c \<in> set (hexdigest bs) \<Longrightarrow> c < 128"
proof -
  have "hex_digit (unat b div 16) < 128" "hex_digit (unat b mod 16) < 128" for b :: "8 word"
    using byte_bound [of b] mod_less_divisor [of 16 "unat b"] by (auto simp: hex_digit_def)
  then show "c \<in> set (hexdigest bs) \<Longrightarrow> c < 128" by (auto simp: hexdigest_def)
qed

lemma hexdigest_inject: "hexdigest a = hexdigest b \<longleftrightarrow> a = b"
proof (induction a arbitrary: b)
  case Nil
  then show ?case by (cases b) (simp_all add: hexdigest_def)
next
  case (Cons x a)
  show ?case
  proof (cases b)
    case (Cons y b')
    have bnd: "unat w div 16 < 16" "unat w mod 16 < 16" for w :: "8 word" using byte_bound [of w] by auto
    have "hexdigest (x # a) = hexdigest (y # b') \<longleftrightarrow>
        unat x div 16 = unat y div 16 \<and> unat x mod 16 = unat y mod 16 \<and> hexdigest a = hexdigest b'"
      using hex_digit_inj [OF bnd(1) bnd(1)] hex_digit_inj [OF bnd(2) bnd(2)] by (simp add: hexdigest_def)
    also have "\<dots> \<longleftrightarrow> x = y \<and> a = b'"
      using Cons.IH mult_div_mod_eq [of 16 "unat x"] mult_div_mod_eq [of 16 "unat y"]
      by (metis word_eq_iff_unsigned [where 'a = nat])
    finally show ?thesis by (simp add: Cons)
  qed (simp add: hexdigest_def)
qed

lemma map_byte_inject: "(\<forall>c\<in>set a. c < 256) \<Longrightarrow> (\<forall>c\<in>set b. c < 256) \<Longrightarrow> map byte a = map byte b \<longleftrightarrow> a = b"
proof -
  have inv: "map unat (map byte s) = s" if "\<forall>c\<in>set s. c < 256" for s
    using that by (induction s) (simp_all add: unat_byte_small)
  show "(\<forall>c\<in>set a. c < 256) \<Longrightarrow> (\<forall>c\<in>set b. c < 256) \<Longrightarrow> ?thesis" using inv by metis
qed

lemma hex_bcrypt_ok: "bcrypt_ok hex_bcrypt"
proof -
  have small: "\<forall>c\<in>set (36 # hexdigest p). c < 256" for p by (auto dest: hexdigest_bound)
  have "unat b < 128" if "b \<in> set (map byte (36 # hexdigest p))" for b p
    using that by (auto simp: unat_byte_small dest!: hexdigest_bound)
  moreover have "map byte (36 # hexdigest p) = map byte (36 # hexdigest q) \<longleftrightarrow> p = q" for p q
    unfolding map_byte_inject [OF small small] by (simp add: hexdigest_inject)
  ultimately show ?thesis by (auto simp: bcrypt_ok_def hex_bcrypt_def)
qed

theorem verify_stored_password_witness:
  "verify_password hex_bcrypt (u ''pass'') (Some (ascii_decode (bc_hashpw hex_bcrypt (map byte (u ''pass''))))) = Inr True"
proof -
  have e: "encode_or_raise (u ''pass'') = Inr (map byte (u ''pass''))"
    by (simp add: encode_or_raise_def is_surrogate_def utf8_char_def u_def)
  then have "hash_password hex_bcrypt (u ''pass'') = Inr (ascii_decode (bc_hashpw hex_bcrypt (map byte (u ''pass''))))"
    by (simp add: hash_password_def MAX_BYTES_def)
  from verify_stored_password [OF hex_bcrypt_ok this e] e show ?thesis by simp
qed

end
