(* ===== verification/Identity.thy ===== *)
theory Identity
  imports Models Passwords
begin

text \<open>
  \<open>naco/auth/ldap.py\<close> and \<open>naco/auth/identity.py\<close>: who a network user is and whether a password is
  theirs.  \<open>ldap3\<close> is not part of the sources; the calls the code makes are the record \<open>ldap3_lib\<close>,
  each with \<open>None\<close> for an \<open>LDAPException\<close> (a connection is its user and password).  No transaction is
  held over the directory and bcrypt calls, so the functions take what other transactions did in
  between as a function on the database.
\<close>

section \<open>LDAP\<close>

type_synonym ldap_attrs = "(pystr \<times> pystr list) list"

record ldap3_lib =
  ld_open :: "pystr option \<Rightarrow> pystr option \<Rightarrow> unit option"
  ld_start_tls :: "pystr option \<Rightarrow> pystr option \<Rightarrow> bool option"
  ld_bind :: "pystr option \<Rightarrow> pystr option \<Rightarrow> bool option"
  ld_search :: "pystr \<Rightarrow> pystr \<Rightarrow> (pystr \<times> ldap_attrs) list option"   \<comment> \<open>base, filter; with the service account\<close>
  ld_escape :: "pystr \<Rightarrow> pystr"                                       \<comment> \<open>\<open>escape_filter_chars\<close>\<close>

record LdapGroupMapping =
  gm_ldap_group :: pystr
  gm_group :: pystr

record LdapConfig =
  lc_enabled :: bool
  lc_start_tls :: bool
  lc_bind_dn :: pystr
  lc_base_dn :: pystr
  lc_user_filter :: pystr
  lc_group_attribute :: pystr
  lc_nested_groups :: bool
  lc_group_map :: "LdapGroupMapping list"

record LdapUser =
  lu_dn :: pystr
  lu_email :: pystr
  lu_full_name :: pystr
  lu_group_dns :: "pystr list"

text \<open>\<open>LdapError\<close>: the directory could not answer.\<close>

datatype ldap_error = StartTlsFailed | ServiceBindFailed | DirectoryError

definition IN_CHAIN_RULE :: pystr where
  "IN_CHAIN_RULE = u ''1.2.840.113556.1.4.1941''"

definition first_value :: "ldap_attrs \<Rightarrow> pystr \<Rightarrow> pystr" where
  "first_value attrs name =
     (case find (\<lambda>(k, vs). lower k = lower name \<and> vs \<noteq> []) attrs of Some (_, v # _) \<Rightarrow> v | _ \<Rightarrow> [])"

definition all_values :: "ldap_attrs \<Rightarrow> pystr \<Rightarrow> pystr list" where
  "all_values attrs name = (case find (\<lambda>(k, _). lower k = lower name) attrs of Some (_, vs) \<Rightarrow> vs | None \<Rightarrow> [])"

fun search_group :: "pystr set \<Rightarrow> LdapGroupMapping list \<Rightarrow> pystr option" where
  "search_group present [] = None"
| "search_group present (m # ms) = (if lower (gm_ldap_group m) \<in> present then Some (gm_group m) else search_group present ms)"

definition map_group :: "LdapConfig \<Rightarrow> pystr list \<Rightarrow> pystr option" where
  "map_group cfg group_dns = search_group (lower ` set group_dns) (lc_group_map cfg)"

definition or_empty :: "pystr \<Rightarrow> pystr \<Rightarrow> pystr" where
  "or_empty a b = (if a = [] then b else a)"

definition none_if_empty :: "pystr \<Rightarrow> pystr option" where
  "none_if_empty s = (if s = [] then None else Some s)"

definition ldap_call :: "'a option \<Rightarrow> ldap_error + 'a" where
  "ldap_call r = (case r of None \<Rightarrow> Inl DirectoryError | Some x \<Rightarrow> Inr x)"

definition default_connect :: "ldap3_lib \<Rightarrow> LdapConfig \<Rightarrow> pystr option \<Rightarrow> pystr option \<Rightarrow> ldap_error + unit" where
  "default_connect ld cfg user password =
     rbind (ldap_call (ld_open ld user password)) (\<lambda>_.
       if lc_start_tls cfg then
         rbind (ldap_call (ld_start_tls ld user password)) (\<lambda>ok. if ok then Inr () else Inl StartTlsFailed)
       else Inr ())"

text \<open>\<open>s.replace("{username}", v)\<close>.\<close>

function replace_all :: "pystr \<Rightarrow> pystr \<Rightarrow> pystr \<Rightarrow> pystr" where
  "replace_all old new [] = []"
| "replace_all old new (c # cs) =
     (if old \<noteq> [] \<and> startswith (c # cs) old then new @ replace_all old new (drop (length old) (c # cs))
      else c # replace_all old new cs)"
  by pat_completeness auto
termination
  by (relation "measure (\<lambda>(_, _, s). length s)") auto

definition find_user :: "ldap3_lib \<Rightarrow> LdapConfig \<Rightarrow> pystr \<Rightarrow> ldap_error + (pystr \<times> ldap_attrs) option" where
  "find_user ld cfg username =
     rbind (ldap_call (ld_search ld (lc_base_dn cfg) (replace_all (u ''{username}'') (ld_escape ld username) (lc_user_filter cfg))))
       (\<lambda>entries. Inr (case entries of [e] \<Rightarrow> Some e | _ \<Rightarrow> None))"

definition user_groups :: "ldap3_lib \<Rightarrow> LdapConfig \<Rightarrow> pystr \<Rightarrow> ldap_attrs \<Rightarrow> ldap_error + pystr list" where
  "user_groups ld cfg dn attrs =
     (if lc_nested_groups cfg then
        rbind (ldap_call (ld_search ld (lc_base_dn cfg) (u ''(member:'' @ IN_CHAIN_RULE @ u '':='' @ ld_escape ld dn @ u '')'')))
          (\<lambda>entries. Inr (map fst entries))
      else Inr (all_values attrs (lc_group_attribute cfg)))"

definition directory_authenticate :: "ldap3_lib \<Rightarrow> LdapConfig \<Rightarrow> pystr \<Rightarrow> pystr \<Rightarrow> pystr \<Rightarrow> ldap_error + LdapUser option" where
  "directory_authenticate ld cfg bind_password username password =
     (if username = [] \<or> password = [] then Inr None
      else (let su = none_if_empty (lc_bind_dn cfg); sp = none_if_empty bind_password in
        rbind (default_connect ld cfg su sp) (\<lambda>_.
        rbind (ldap_call (ld_bind ld su sp)) (\<lambda>bound.
        if \<not> bound then Inl ServiceBindFailed
        else rbind (find_user ld cfg username) (\<lambda>found.
          case found of None \<Rightarrow> Inr None
          | Some (dn, attrs) \<Rightarrow>
              rbind (user_groups ld cfg dn attrs) (\<lambda>grps.
              rbind (default_connect ld cfg (Some dn) (Some password)) (\<lambda>_.
              rbind (ldap_call (ld_bind ld (Some dn) (Some password))) (\<lambda>ok.
                if \<not> ok then Inr None
                else Inr (Some \<lparr>lu_dn = dn, lu_email = first_value attrs (u ''mail''),
                                lu_full_name = or_empty (first_value attrs (u ''displayName'')) (first_value attrs (u ''cn'')),
                                lu_group_dns = grps\<rparr>)))))))))"

definition ldap_authenticate :: "ldap3_lib \<Rightarrow> LdapConfig \<Rightarrow> pystr \<Rightarrow> pystr \<Rightarrow> pystr \<Rightarrow> ldap_error + LdapUser option" where
  "ldap_authenticate ld cfg bind_password username password =
     (if \<not> lc_enabled cfg then Inr None else directory_authenticate ld cfg bind_password username password)"

section \<open>Identities\<close>

definition MAX_USERNAME :: nat where "MAX_USERNAME = 64"

record UserInfo =
  ui_id :: nat
  ui_username :: pystr
  ui_source :: UserSource
  ui_enabled :: bool
  ui_group_id :: "nat option"
  ui_group_name :: "pystr option"
  ui_device_admin_privilege :: "int option"
  ui_command_set_id :: "nat option"
  ui_device_admin_attributes :: "pystr list"

record IdentityResult =
  ir_ok :: bool
  ir_reason :: pystr
  ir_username :: pystr
  ir_user :: "UserInfo option"

text \<open>The part after the last backslash.\<close>

definition after_backslash :: "pystr \<Rightarrow> pystr" where
  "after_backslash s = rev (takeWhile (\<lambda>c. c \<noteq> 92) (rev s))"

definition canonical_username :: "pystr option \<Rightarrow> pystr" where
  "canonical_username raw =
     (let name = strip (case raw of None \<Rightarrow> [] | Some r \<Rightarrow> r);
          name = (if 92 \<in> set name then after_backslash name else name);
          name = lower name
      in if name = [] \<or> length name > MAX_USERNAME \<or> list_ex (\<lambda>c. c < 0x20) name then [] else name)"

definition user_info :: "User \<Rightarrow> Group option \<Rightarrow> UserInfo" where
  "user_info usr g =
     \<lparr>ui_id = usr_id usr, ui_username = usr_username usr, ui_source = usr_source usr, ui_enabled = usr_enabled usr,
      ui_group_id = usr_group_id usr, ui_group_name = map_option grp_name g,
      ui_device_admin_privilege = (case g of None \<Rightarrow> None | Some x \<Rightarrow> grp_device_admin_privilege x),
      ui_command_set_id = (case g of None \<Rightarrow> None | Some x \<Rightarrow> grp_command_set_id x),
      ui_device_admin_attributes = (case g of None \<Rightarrow> [] | Some x \<Rightarrow> grp_device_admin_attributes x)\<rparr>"

definition group_by_id :: "db \<Rightarrow> nat option \<Rightarrow> Group option" where
  "group_by_id d i = (case i of None \<Rightarrow> None | Some gid \<Rightarrow> find (\<lambda>g. grp_id g = gid) (groups d))"

definition load_user :: "db \<Rightarrow> pystr \<Rightarrow> (UserInfo \<times> pystr option) option" where
  "load_user d username =
     (case find (\<lambda>x. usr_username x = username) (users d) of
        None \<Rightarrow> None
      | Some x \<Rightarrow> Some (user_info x (group_by_id d (usr_group_id x)), usr_password_hash x))"

definition lookup_user :: "db \<Rightarrow> pystr \<Rightarrow> UserInfo option" where
  "lookup_user d username =
     (let name = canonical_username (Some username) in if name = [] then None else map_option fst (load_user d name))"

definition update_user :: "(User \<Rightarrow> User) \<Rightarrow> nat \<Rightarrow> db \<Rightarrow> db" where
  "update_user f i d = d\<lparr>users := map (\<lambda>x. if usr_id x = i then f x else x) (users d)\<rparr>"

definition record_login :: "nat \<Rightarrow> int \<Rightarrow> db \<Rightarrow> db" where
  "record_login user_id now d = update_user (\<lambda>x. x\<lparr>usr_last_login_at := Some now, usr_updated_at := now\<rparr>) user_id d"

text \<open>\<open>_provision\<close>.  \<open>mapped\<close> is \<open>None\<close> for \<open>_UNCHANGED\<close>, else the group name \<open>map_group\<close> gave, if any.  It is one
  step: its session begins with \<open>BEGIN IMMEDIATE\<close> (\<open>db/engine.py\<close>) before it reads the groups and the users
  and holds the write lock until the commit, so a login that created the user concurrently either
  committed before (\<open>ae_meanwhile\<close> below) and is found by the query, or waits.  The commit therefore
  breaks no constraint (\<open>provision_breaks_no_constraint\<close>), and the \<open>except IntegrityError\<close> is never taken.\<close>

definition provision_group :: "LdapConfig \<Rightarrow> db \<Rightarrow> LdapUser \<Rightarrow> nat option option" where
  "provision_group cfg d entry =
     (if lc_group_map cfg = [] then None
      else Some (case map_group cfg (lu_group_dns entry) of
                   None \<Rightarrow> None
                 | Some name \<Rightarrow> map_option grp_id (find (\<lambda>g. grp_name g = name) (groups d))))"

definition provision :: "LdapConfig \<Rightarrow> db \<Rightarrow> pystr \<Rightarrow> LdapUser \<Rightarrow> int \<Rightarrow> db \<times> UserInfo option" where
  "provision cfg d username entry now =
     (let grp = provision_group cfg d entry in
      case find (\<lambda>x. usr_username x = username) (users d) of
        None \<Rightarrow>
          (let new = \<lparr>usr_id = next_id usr_id (users d), usr_username = username, usr_source = LDAP, usr_password_hash = None,
                      usr_email = take 128 (lu_email entry), usr_full_name = take 128 (lu_full_name entry),
                      usr_group_id = (case grp of None \<Rightarrow> None | Some g \<Rightarrow> g), usr_enabled = True,
                      usr_created_at = now, usr_updated_at = now, usr_last_login_at = Some now\<rparr>;
               d' = d\<lparr>users := users d @ [new]\<rparr>
           in (d', map_option fst (load_user d' username)))
      | Some x \<Rightarrow>
          if usr_source x \<noteq> LDAP then (d, None)
          else (let d' = update_user (\<lambda>x. x\<lparr>usr_email := or_empty (take 128 (lu_email entry)) (usr_email x),
                                            usr_full_name := or_empty (take 128 (lu_full_name entry)) (usr_full_name x),
                                            usr_group_id := (case grp of None \<Rightarrow> usr_group_id x | Some g \<Rightarrow> g),
                                            usr_last_login_at := Some now, usr_updated_at := now\<rparr>) (usr_id x) d
                in (d', map_option fst (load_user d' username))))"

record auth_env =
  ae_bcrypt :: bcrypt_lib
  ae_ldap3 :: ldap3_lib
  ae_ldap :: LdapConfig
  ae_bind_password :: pystr
  ae_meanwhile :: "db \<Rightarrow> db"   \<comment> \<open>what other transactions commit during the slow calls\<close>

definition refused :: "pystr \<Rightarrow> pystr \<Rightarrow> UserInfo option \<Rightarrow> IdentityResult" where
  "refused reason name info = \<lparr>ir_ok = False, ir_reason = reason, ir_username = name, ir_user = info\<rparr>"

definition granted :: "pystr \<Rightarrow> UserInfo option \<Rightarrow> IdentityResult" where
  "granted name info = \<lparr>ir_ok = True, ir_reason = u ''ok'', ir_username = name, ir_user = info\<rparr>"

definition directory_login :: "auth_env \<Rightarrow> db \<Rightarrow> pystr \<Rightarrow> pystr \<Rightarrow> UserInfo option \<Rightarrow> int \<Rightarrow> db \<times> IdentityResult" where
  "directory_login env d name password info now =
     (let d1 = ae_meanwhile env d in
      case ldap_authenticate (ae_ldap3 env) (ae_ldap env) (ae_bind_password env) name password of
        Inl _ \<Rightarrow> (d1, refused (u ''directory unavailable'') name info)
      | Inr None \<Rightarrow> (d1, refused (if info = None then u ''unknown user'' else u ''wrong password'') name info)
      | Inr (Some entry) \<Rightarrow>
          (case provision (ae_ldap env) d1 name entry now of
             (d2, Some p) \<Rightarrow> if ui_enabled p then (d2, granted name (Some p)) else (d2, refused (u ''user disabled'') name (Some p))
           | (d2, None) \<Rightarrow> (d2, refused (u ''user disabled'') name None)))"

definition authenticate_user :: "auth_env \<Rightarrow> db \<Rightarrow> pystr \<Rightarrow> pystr \<Rightarrow> int \<Rightarrow> py_exc + db \<times> IdentityResult" where
  "authenticate_user env d username password now =
     (let name = canonical_username (Some username) in
      if name = [] \<or> password = [] then
        rbind (verify_password (ae_bcrypt env) (or_empty password (u ''-'')) None) (\<lambda>_.
          Inr (ae_meanwhile env d, refused (u ''missing or invalid credentials'') (or_empty name (take MAX_USERNAME username)) None))
      else
        (let found = load_user d name; info = map_option fst found in
         case found of
           Some (i, pw_hash) \<Rightarrow>
             if \<not> ui_enabled i then
               rbind (verify_password (ae_bcrypt env) password None) (\<lambda>_.
                 Inr (ae_meanwhile env d, refused (u ''user disabled'') name info))
             else if ui_source i = LOCAL then
               rbind (verify_password (ae_bcrypt env) password pw_hash) (\<lambda>ok.
                 if \<not> ok then Inr (ae_meanwhile env d, refused (u ''wrong password'') name info)
                 else Inr (record_login (ui_id i) now (ae_meanwhile env d), granted name info))
             else if \<not> lc_enabled (ae_ldap env) then
               rbind (verify_password (ae_bcrypt env) password None) (\<lambda>_.
                 Inr (ae_meanwhile env d, refused (u ''directory disabled'') name info))
             else Inr (directory_login env d name password info now)
         | None \<Rightarrow>
             if \<not> lc_enabled (ae_ldap env) then
               rbind (verify_password (ae_bcrypt env) password None) (\<lambda>_.
                 Inr (ae_meanwhile env d, refused (u ''unknown user'') name info))
             else Inr (directory_login env d name password info now)))"

section \<open>Names\<close>

lemma after_backslash_set: "c \<in> set (after_backslash s) \<Longrightarrow> c \<in> set s \<and> c \<noteq> 92"
  by (auto simp: after_backslash_def dest: set_takeWhileD)

lemma lower_backslash: "92 \<in> set (lower s) \<longleftrightarrow> 92 \<in> set s"
proof -
  have "lower_char c = 92 \<longleftrightarrow> c = 92" for c by (simp add: lower_char_def)
  then show ?thesis by (auto simp: lower_def image_iff)
qed

lemma canonical_shape:
  assumes "canonical_username raw \<noteq> []"
  shows "length (canonical_username raw) \<le> 64 \<and> (\<forall>c\<in>set (canonical_username raw). 0x20 \<le> c) \<and>
    92 \<notin> set (canonical_username raw) \<and> lower (canonical_username raw) = canonical_username raw"
proof -
  define t where "t = strip (case raw of None \<Rightarrow> [] | Some r \<Rightarrow> r)"
  define n where "n = (if 92 \<in> set t then after_backslash t else t)"
  have c: "canonical_username raw = (if lower n = [] \<or> length (lower n) > 64 \<or> list_ex (\<lambda>c. c < 0x20) (lower n) then [] else lower n)"
    by (simp only: canonical_username_def Let_def t_def n_def MAX_USERNAME_def)
  have "92 \<notin> set n" using after_backslash_set [of 92 t] by (auto simp: n_def)
  with assms c show ?thesis by (auto simp: lower_backslash list_ex_iff not_less split: if_splits)
qed

text \<open>A canonical user name is empty or has at most 64 characters, none of them a control character
  or a backslash, and is in lower case; so the names compared with the table are.\<close>

theorem canonical_username_shape:
  "canonical_username raw = n \<Longrightarrow> length n \<le> 64 \<and> (\<forall>c\<in>set n. 0x20 \<le> c \<and> c \<noteq> 92) \<and> lower n = n"
  using canonical_shape [of raw] by (cases "n = []") (auto simp: lower_def)

theorem canonical_username_shape_witness:
  "length (canonical_username (Some (u ''CORP'' @ [92] @ u ''Alice''))) \<le> 64 \<and>
   lower (canonical_username (Some (u ''CORP'' @ [92] @ u ''Alice''))) = canonical_username (Some (u ''CORP'' @ [92] @ u ''Alice''))"
  using canonical_username_shape [of "Some (u ''CORP'' @ [92] @ u ''Alice'')"] by simp

section \<open>The directory\<close>

text \<open>The group mapping is a first-match list.\<close>

interpretation gmap: first_match "\<lambda>m. Inr (lower (gm_ldap_group m) \<in> lower ` set dns)" "\<lambda>m. Some (gm_group m)" None
  "\<lambda>ms. Inr (search_group (lower ` set dns) ms) :: unit + pystr option" for dns
  by unfold_locales auto

lemma map_group_cases:
  "map_group cfg dns = r \<Longrightarrow>
   (r = None \<and> (\<forall>m\<in>set (lc_group_map cfg). lower (gm_ldap_group m) \<notin> lower ` set dns)) \<or>
   (\<exists>xs m ys. lc_group_map cfg = xs @ m # ys \<and> (\<forall>q\<in>set xs. lower (gm_ldap_group q) \<notin> lower ` set dns) \<and>
      lower (gm_ldap_group m) \<in> lower ` set dns \<and> r = Some (gm_group m))"
  using gmap.eval_cases [of dns "lc_group_map cfg" r] by (simp add: map_group_def)

lemma ldap_call_Inr: "ldap_call r = Inr x \<longleftrightarrow> r = Some x"
  by (cases r) (auto simp: ldap_call_def)

text \<open>The directory vouches for a password: one entry matches the name, and a bind as that entry with
  the password succeeds.\<close>

definition directory_vouches :: "ldap3_lib \<Rightarrow> LdapConfig \<Rightarrow> pystr \<Rightarrow> pystr \<Rightarrow> bool" where
  "directory_vouches ld cfg username password \<longleftrightarrow>
     password \<noteq> [] \<and> lc_enabled cfg \<and>
     (\<exists>dn attrs. ld_search ld (lc_base_dn cfg)
          (replace_all (u ''{username}'') (ld_escape ld username) (lc_user_filter cfg)) = Some [(dn, attrs)] \<and>
        ld_bind ld (Some dn) (Some password) = Some True)"

lemma find_user_Some:
  "find_user ld cfg name = Inr (Some e) \<Longrightarrow>
   ld_search ld (lc_base_dn cfg) (replace_all (u ''{username}'') (ld_escape ld name) (lc_user_filter cfg)) = Some [e]"
proof -
  assume "find_user ld cfg name = Inr (Some e)"
  then obtain es where es: "ld_search ld (lc_base_dn cfg)
      (replace_all (u ''{username}'') (ld_escape ld name) (lc_user_filter cfg)) = Some es"
    "(case es of [e] \<Rightarrow> Some e | _ \<Rightarrow> None) = Some e"
    by (auto simp: find_user_def rbind_eq_Inr ldap_call_Inr)
  then have "es = [e]" by (cases es; cases "tl es") auto
  with es(1) show ?thesis by simp
qed

lemma ldap_authenticate_Some:
  assumes "ldap_authenticate ld cfg bp name pw = Inr (Some e)"
  shows "directory_vouches ld cfg name pw"
  using assms
  by (auto simp: ldap_authenticate_def directory_authenticate_def directory_vouches_def rbind_eq_Inr ldap_call_Inr Let_def
      split: if_splits option.splits dest: find_user_Some)

section \<open>Logins\<close>

lemma find_username: "find (\<lambda>x. usr_username x = n) us = Some x \<Longrightarrow> x \<in> set us \<and> usr_username x = n"
  by (auto simp: find_Some_iff)

lemma load_user_Some:
  "load_user d n = Some (i, h) \<Longrightarrow> \<exists>x\<in>set (users d). usr_username x = n \<and> usr_password_hash x = h \<and>
     i = user_info x (group_by_id d (usr_group_id x))"
  by (auto simp: load_user_def split: option.splits dest!: find_username)

lemma provision_Some:
  assumes "provision cfg d name e now = (d', Some p)"
  shows "\<exists>x\<in>set (users d'). usr_username x = name \<and> ui_enabled p = usr_enabled x \<and> ui_source p = usr_source x"
proof -
  have "map_option fst (load_user d' name) = Some p"
    using assms by (auto simp: provision_def Let_def split: option.splits if_splits)
  then obtain h where "load_user d' name = Some (p, h)" by auto
  from load_user_Some [OF this] show ?thesis by (auto simp: user_info_def)
qed

lemma directory_login_ok:
  assumes "directory_login env d name pw info now = (d', r)" "ir_ok r"
  shows "directory_vouches (ae_ldap3 env) (ae_ldap env) name pw \<and>
    (\<exists>x\<in>set (users d'). usr_username x = name \<and> usr_enabled x)"
proof (cases "ldap_authenticate (ae_ldap3 env) (ae_ldap env) (ae_bind_password env) name pw")
  case (Inl e)
  with assms show ?thesis by (auto simp: directory_login_def refused_def Let_def)
next
  case (Inr found)
  show ?thesis
  proof (cases found)
    case None
    with Inr assms show ?thesis by (auto simp: directory_login_def refused_def Let_def)
  next
    case (Some entry)
    obtain d2 p where pr: "provision (ae_ldap env) (ae_meanwhile env d) name entry now = (d2, p)" by (cases "provision (ae_ldap env) (ae_meanwhile env d) name entry now")
    with Inr Some assms obtain q where "p = Some q" "ui_enabled q" "d2 = d'"
      by (cases p) (auto simp: directory_login_def refused_def Let_def split: if_splits)
    with pr provision_Some [of "ae_ldap env" "ae_meanwhile env d" name entry now d' q] ldap_authenticate_Some Inr Some
    show ?thesis by auto
  qed
qed

text \<open>C27. A login succeeds only with proof: for a usable name and a non-empty password, either an
  enabled local account whose stored hash the password matches, or the directory, enabled, found
  exactly one entry and accepted a bind with that password, and the account that results is enabled.\<close>

theorem authenticate_user_sound:
  assumes "authenticate_user env d username password now = Inr (d', r)" "ir_ok r"
  shows "let name = canonical_username (Some username) in
    name \<noteq> [] \<and> password \<noteq> [] \<and> ir_username r = name \<and>
    ((\<exists>x\<in>set (users d). usr_username x = name \<and> usr_enabled x \<and> usr_source x = LOCAL \<and>
        verify_password (ae_bcrypt env) password (usr_password_hash x) = Inr True) \<or>
     directory_vouches (ae_ldap3 env) (ae_ldap env) name password \<and>
     (\<exists>x\<in>set (users d'). usr_username x = name \<and> usr_enabled x))"
proof -
  let ?n = "canonical_username (Some username)"
  have ne: "?n \<noteq> []" "password \<noteq> []"
    using assms by (auto simp: authenticate_user_def refused_def rbind_eq_Inr Let_def)
  show ?thesis
  proof (cases "directory_login env d ?n password (map_option fst (load_user d ?n)) now = (d', r)")
    case True
    then have "ir_username r = ?n"
      by (auto simp: directory_login_def refused_def granted_def Let_def split: sum.splits option.splits prod.splits if_splits)
    with directory_login_ok [OF True assms(2)] ne show ?thesis by (simp add: Let_def)
  next
    case False
    with assms ne obtain i h where ih: "load_user d ?n = Some (i, h)" "ui_enabled i" "ui_source i = LOCAL"
      "verify_password (ae_bcrypt env) password h = Inr True" "r = granted ?n (Some i)"
      by (auto simp: authenticate_user_def refused_def rbind_eq_Inr Let_def split: option.splits if_splits)
    with load_user_Some [OF ih(1)] ne show ?thesis by (auto simp: user_info_def granted_def Let_def)
  qed
qed

definition local_alice :: "pystr \<Rightarrow> User" where
  "local_alice hash = \<lparr>usr_id = 1, usr_username = u ''alice'', usr_source = LOCAL, usr_password_hash = Some hash,
     usr_email = [], usr_full_name = [], usr_group_id = None, usr_enabled = True, usr_created_at = 0, usr_updated_at = 0,
     usr_last_login_at = None\<rparr>"

text \<open>A directory that knows one entry and one password, for the witnesses.\<close>

definition one_entry_ldap :: ldap3_lib where
  "one_entry_ldap = \<lparr>ld_open = (\<lambda>_ _. Some ()), ld_start_tls = (\<lambda>_ _. Some True),
     ld_bind = (\<lambda>who p. Some (who = None \<or> p = Some (u ''pass''))), ld_search = (\<lambda>_ _. Some [(u ''cn=a'', [])]), ld_escape = id\<rparr>"

definition lab_ldap :: LdapConfig where
  "lab_ldap = \<lparr>lc_enabled = True, lc_start_tls = False, lc_bind_dn = [], lc_base_dn = [], lc_user_filter = [],
     lc_group_attribute = [], lc_nested_groups = False, lc_group_map = []\<rparr>"

definition lab_env :: "(db \<Rightarrow> db) \<Rightarrow> auth_env" where
  "lab_env meanwhile = \<lparr>ae_bcrypt = hex_bcrypt, ae_ldap3 = one_entry_ldap, ae_ldap = lab_ldap, ae_bind_password = [],
     ae_meanwhile = meanwhile\<rparr>"

lemma canonical_alice: "canonical_username (Some (u ''alice'')) = u ''alice''"
  by (simp add: canonical_username_def strip_def lstrip_def rstrip_def is_space_def lower_def lower_char_def MAX_USERNAME_def u_def)

lemma lab_ldap_login: "ldap_authenticate one_entry_ldap lab_ldap [] (u ''alice'') (u ''pass'') =
    Inr (Some \<lparr>lu_dn = u ''cn=a'', lu_email = [], lu_full_name = [], lu_group_dns = []\<rparr>)"
  by (simp add: ldap_authenticate_def directory_authenticate_def default_connect_def ldap_call_def find_user_def user_groups_def
      all_values_def first_value_def or_empty_def none_if_empty_def one_entry_ldap_def lab_ldap_def)

lemma lab_login:
  "\<exists>d' r. authenticate_user (lab_env id) empty_db (u ''alice'') (u ''pass'') 5 = Inr (d', r) \<and> ir_ok r"
  by (simp add: authenticate_user_def canonical_alice load_user_def empty_db_def lab_env_def directory_login_def lab_ldap_login
      provision_def granted_def user_info_def Let_def)
    (simp add: lab_ldap_def granted_def)

theorem authenticate_user_sound_witness:
  "\<exists>d' r. authenticate_user (lab_env id) empty_db (u ''alice'') (u ''pass'') 5 = Inr (d', r) \<and> ir_username r = u ''alice''"
proof -
  obtain d' r where "authenticate_user (lab_env id) empty_db (u ''alice'') (u ''pass'') 5 = Inr (d', r)" "ir_ok r"
    using lab_login by blast
  with authenticate_user_sound [of "lab_env id" empty_db "u ''alice''" "u ''pass''" 5 d' r] show ?thesis
    by (auto simp: Let_def canonical_alice)
qed

subsection \<open>Local accounts are out of the directory's reach\<close>

lemma update_user_other: "x \<in> set (users d) \<Longrightarrow> usr_id x \<noteq> i \<Longrightarrow> x \<in> set (users (update_user f i d))"
  by (force simp: update_user_def)

text \<open>The constraints of the table of users: the primary key, the unique name, the foreign key of the group.\<close>

definition user_constraints :: "db \<Rightarrow> bool" where
  "user_constraints d \<longleftrightarrow> distinct (map usr_id (users d)) \<and> distinct (map usr_username (users d)) \<and>
     (\<forall>x\<in>set (users d). \<forall>g. usr_group_id x = Some g \<longrightarrow> g \<in> grp_id ` set (groups d))"

lemma provision_group_exists: "provision_group cfg d e = Some (Some g) \<Longrightarrow> g \<in> grp_id ` set (groups d)"
  by (auto simp: provision_group_def find_Some_iff split: if_splits option.splits)

lemma provision_breaks_no_constraint:
  assumes "user_constraints d" "provision cfg d name e now = (d', p)"
  shows "user_constraints d'"
proof (cases "find (\<lambda>x. usr_username x = name) (users d)")
  case None
  have "next_id usr_id (users d) \<notin> usr_id ` set (users d)" using next_id_fresh [of _ "users d" usr_id] by force
  moreover have "name \<notin> usr_username ` set (users d)" using None by (auto simp: find_None_iff)
  ultimately show ?thesis
    using assms None provision_group_exists [of cfg d e]
    by (auto simp: provision_def user_constraints_def Let_def split: option.splits)
next
  case (Some x)
  define f :: "User \<Rightarrow> User" where "f = (\<lambda>x. x\<lparr>usr_email := or_empty (take 128 (lu_email e)) (usr_email x),
      usr_full_name := or_empty (take 128 (lu_full_name e)) (usr_full_name x),
      usr_group_id := (case provision_group cfg d e of None \<Rightarrow> usr_group_id x | Some g \<Rightarrow> g),
      usr_last_login_at := Some now, usr_updated_at := now\<rparr>)"
  have "d' = d \<or> d' = update_user f (usr_id x) d"
    using assms(2) Some by (auto simp: provision_def f_def Let_def split: if_splits)
  moreover have "map usr_id (map (\<lambda>y. if usr_id y = usr_id x then f y else y) (users d)) = map usr_id (users d)"
    "map usr_username (map (\<lambda>y. if usr_id y = usr_id x then f y else y) (users d)) = map usr_username (users d)"
    by (simp_all add: f_def)
  moreover have "g \<in> grp_id ` set (groups d)" if "usr_group_id (f y) = Some g" "y \<in> set (users d)" for y g
    using that assms(1) provision_group_exists [of cfg d e] by (auto simp: f_def user_constraints_def split: option.splits)
  ultimately show ?thesis
    using assms(1) by (auto simp: user_constraints_def update_user_def simp del: map_map split: if_splits)
qed

lemma provision_keeps_local:
  assumes "distinct (map usr_id (users d))" "x \<in> set (users d)" "usr_source x = LOCAL" "provision cfg d name e now = (d', p)"
  shows "x \<in> set (users d') \<and> (usr_username x = name \<longrightarrow> distinct (map usr_username (users d)) \<longrightarrow> p = None)"
proof (cases "find (\<lambda>x. usr_username x = name) (users d)")
  case None
  with assms(2,4) show ?thesis by (auto simp: provision_def Let_def find_None_iff)
next
  case (Some y)
  then have y: "y \<in> set (users d)" "usr_username y = name" by (auto simp: find_Some_iff)
  have same: "distinct (map usr_username (users d)) \<Longrightarrow> usr_username x = name \<Longrightarrow> x = y"
    using assms(2) y by (auto simp: distinct_map dest: inj_onD)
  show ?thesis
  proof (cases "usr_source y = LDAP")
    case True
    then have "x \<noteq> y" using assms(3) by auto
    then have "usr_id x \<noteq> usr_id y" using assms(1,2) y(1) by (auto simp: distinct_map dest: inj_onD)
    with update_user_other [OF assms(2)] Some True assms(4) same \<open>x \<noteq> y\<close> show ?thesis
      by (auto simp: provision_def Let_def)
  next
    case False
    with Some assms(2,4) show ?thesis by (auto simp: provision_def)
  qed
qed

text \<open>The directory never takes a local account over, also when the account is created while the
  directory is being asked: a login through the directory leaves every local account as it is, and
  fails when its own name is now a local account.\<close>

theorem directory_never_takes_over:
  assumes "directory_login env d name password info now = (d', r)"
    "distinct (map usr_id (users (ae_meanwhile env d)))" "distinct (map usr_username (users (ae_meanwhile env d)))"
    "x \<in> set (users (ae_meanwhile env d))" "usr_source x = LOCAL"
  shows "x \<in> set (users d') \<and> (usr_username x = name \<longrightarrow> \<not> ir_ok r)"
proof (cases "ldap_authenticate (ae_ldap3 env) (ae_ldap env) (ae_bind_password env) name password")
  case (Inl e)
  with assms(1,4) show ?thesis by (auto simp: directory_login_def refused_def Let_def)
next
  case (Inr found)
  show ?thesis
  proof (cases found)
    case None
    with Inr assms(1,4) show ?thesis by (auto simp: directory_login_def refused_def Let_def)
  next
    case (Some entry)
    obtain d2 p where pr: "provision (ae_ldap env) (ae_meanwhile env d) name entry now = (d2, p)"
      by (cases "provision (ae_ldap env) (ae_meanwhile env d) name entry now")
    with Inr Some assms(1) provision_keeps_local [OF assms(2,4,5) pr] assms(3) show ?thesis
      by (auto simp: directory_login_def refused_def Let_def split: option.splits if_splits)
  qed
qed

theorem directory_never_takes_over_witness:
  "let x = local_alice (u ''h''); env = lab_env (\<lambda>d. d\<lparr>users := [x]\<rparr>) in
   x \<in> set (users (fst (directory_login env empty_db (u ''alice'') (u ''pass'') None 5))) \<and>
   \<not> ir_ok (snd (directory_login env empty_db (u ''alice'') (u ''pass'') None 5))"
  using directory_never_takes_over [OF surjective_pairing,
      where env = "lab_env (\<lambda>d. d\<lparr>users := [local_alice (u ''h'')]\<rparr>)" and d = empty_db and name = "u ''alice''"
        and password = "u ''pass''" and info = None and now = 5 and x = "local_alice (u ''h'')"]
  by (simp add: Let_def lab_env_def local_alice_def)

end
