(* ===== verification/Rlm.thy ===== *)
theory Rlm
  imports Models Bytes
begin

text \<open>
  \<open>naco/aaa/rlm.py\<close>: the encoding shared with the \<open>rlm_rest\<close> module of FreeRADIUS.  \<open>loads\<close> takes the
  JSON parser as a parameter (\<open>None\<close> is its \<open>ValueError\<close>); everything after it is modelled.
\<close>

section \<open>Requests\<close>

definition from_escaped_text :: "pystr \<Rightarrow> pystr" where
  "from_escaped_text s = (if list_all (\<lambda>c. c < 256) s then decode_escape (map byte s) else s)"

fun from_escaped_bytes :: "json \<Rightarrow> json" where
  "from_escaped_bytes (JStr s) = JStr (from_escaped_text s)"
| "from_escaped_bytes (JArr vs) = JArr (map from_escaped_bytes vs)"
| "from_escaped_bytes (JObj d) = JObj (map (\<lambda>(k, v). (k, from_escaped_bytes v)) d)"
| "from_escaped_bytes j = j"

definition loads :: "(pystr \<Rightarrow> json option) \<Rightarrow> bytes \<Rightarrow> json option" where
  "loads json_loads body =
     map_option (if list_all (\<lambda>b. unat b < 128) body then from_escaped_bytes else id)
       (json_loads (decode_escape (if body = [] then map byte (u ''{}'') else body)))"

text \<open>\<open>str(value)\<close> of a scalar, and \<open>_text\<close>.\<close>

fun scalar_str :: "json \<Rightarrow> pystr" where
  "scalar_str (JStr s) = s"
| "scalar_str (JInt i) = str_int i"
| "scalar_str (JBool b) = (if b then u ''True'' else u ''False'')"
| "scalar_str (JFloat s) = s"
| "scalar_str _ = []"

definition rlm_text :: "json \<Rightarrow> py_exc + pystr" where
  "rlm_text value =
     (case utf8_encode_escape (scalar_str value) of
        None \<Rightarrow> Inl UnicodeEncodeError | Some bs \<Rightarrow> Inr (decode_replace bs))"

type_synonym attrs = "(pystr, pystr list) odict"

definition Attrs_init :: "(pystr, pystr list) odict \<Rightarrow> attrs" where
  "Attrs_init values = foldl (\<lambda>d (k, v). od_set d (lower k) v) [] values"

fun is_scalar_json :: "json \<Rightarrow> bool" where
  "is_scalar_json JNull = False"
| "is_scalar_json (JArr _) = False"
| "is_scalar_json (JObj _) = False"
| "is_scalar_json _ = True"

text \<open>The raw value of an entry; \<open>None\<close> when it is skipped.\<close>

definition entry_raw :: "json \<Rightarrow> json option" where
  "entry_raw entry =
     (case entry of
        JObj d \<Rightarrow> if od_get d (u ''type'') = Some (JStr (u ''octets'')) then None else od_get d (u ''value'')
      | _ \<Rightarrow> Some entry)"

definition entry_values :: "json \<Rightarrow> (py_exc + pystr list) option" where
  "entry_values entry =
     (case entry_raw entry of
        None \<Rightarrow> None
      | Some JNull \<Rightarrow> None
      | Some raw \<Rightarrow>
          (let items = (case raw of JArr vs \<Rightarrow> vs | _ \<Rightarrow> [raw])
           in Some (rmap rlm_text (filter is_scalar_json items))))"

fun parse_entries :: "(pystr \<times> json) list \<Rightarrow> (pystr, pystr list) odict \<Rightarrow> py_exc + (pystr, pystr list) odict" where
  "parse_entries [] acc = Inr acc"
| "parse_entries ((name, entry) # body) acc =
     (case entry_values entry of
        None \<Rightarrow> parse_entries body acc
      | Some r \<Rightarrow> rbind r (\<lambda>vs. parse_entries body (od_set acc name vs)))"

definition Attrs_parse :: "json \<Rightarrow> py_exc + attrs" where
  "Attrs_parse body =
     (case body of
        JObj d \<Rightarrow> rbind (parse_entries d []) (\<lambda>values. Inr (Attrs_init values))
      | _ \<Rightarrow> Inl (ValueError (u ''request body must be a JSON object'')))"

definition attrs_all :: "attrs \<Rightarrow> pystr \<Rightarrow> pystr list" where
  "attrs_all a name = (case od_get a (lower name) of None \<Rightarrow> [] | Some vs \<Rightarrow> vs)"

definition attrs_get :: "attrs \<Rightarrow> pystr \<Rightarrow> pystr option" where
  "attrs_get a name = (case od_get a (lower name) of Some (v # _) \<Rightarrow> Some v | _ \<Rightarrow> None)"

definition attrs_int :: "attrs \<Rightarrow> pystr \<Rightarrow> int option" where
  "attrs_int a name = (case attrs_get a name of None \<Rightarrow> None | Some v \<Rightarrow> parse_int v)"

section \<open>Replies\<close>

definition reply :: "(pystr \<times> json) list \<Rightarrow> json" where
  "reply attrs = JObj (map (\<lambda>(name, v). (name, JObj [(u ''value'', v), (u ''do_xlat'', JBool False)])) attrs)"

definition vlan_attributes :: "int \<Rightarrow> (pystr \<times> json) list" where
  "vlan_attributes vlan =
     [(u ''Tunnel-Type'', JStr (u ''VLAN'')), (u ''Tunnel-Medium-Type'', JStr (u ''IEEE-802'')),
      (u ''Tunnel-Private-Group-Id'', JStr (str_int vlan))]"

section \<open>The same text on every CPU\<close>

lemma map_byte_unat: "map byte (map unat bs) = bs"
  by (induction bs) (simp_all add: byte_unat)

lemma escaped_bytes: "from_escaped_text (map unat bs) = decode_escape bs"
  using map_byte_unat [of bs] byte_bound by (simp add: from_escaped_text_def list_all_iff comp_def)

lemma encode_escape_scalar: "list_all is_scalar s \<Longrightarrow> utf8_encode_escape s = utf8_encode s"
  by (induction s) (auto simp: is_scalar_def is_surrogate_def)

text \<open>A text arrives the same from every CPU: written as raw UTF-8 bytes and decoded with the body,
  or written as one escape per byte and put together afterwards, its attribute value is the text.\<close>

theorem rlm_text_every_cpu:
  assumes "list_all is_scalar s" "utf8_encode s = Some bs"
  shows "rlm_text (JStr (decode_escape bs)) = Inr s \<and>
    rlm_text (from_escaped_bytes (JStr (map unat bs))) = Inr s"
proof -
  have d: "decode_escape bs = s" "decode_replace bs = s"
    using utf8_round [OF assms] by (simp_all add: decode_escape_def decode_replace_def)
  then have "rlm_text (JStr s) = Inr s"
    using assms encode_escape_scalar [OF assms(1)] by (simp add: rlm_text_def)
  with d(1) show ?thesis by (simp add: escaped_bytes)
qed

theorem rlm_text_every_cpu_witness:
  "rlm_text (from_escaped_bytes (JStr (map unat (utf8_char 0xF6)))) = Inr [0xF6]"
proof -
  have "utf8_encode [0xF6] = Some (utf8_char 0xF6)" by (simp add: is_surrogate_def)
  moreover have "list_all is_scalar [0xF6]" by (simp add: is_scalar_def is_surrogate_def)
  ultimately show ?thesis using rlm_text_every_cpu by blast
qed

text \<open>ASCII text needs no escapes.\<close>

definition ascii :: "pystr \<Rightarrow> bool" where
  "ascii s \<longleftrightarrow> list_all (\<lambda>c. c < 128) s"

lemma ascii_scalar: "ascii s \<Longrightarrow> list_all is_scalar s"
  by (auto simp: ascii_def is_scalar_def is_surrogate_def list_all_iff)

lemma ascii_encode: "ascii s \<Longrightarrow> utf8_encode s = Some (map byte s)"
  by (induction s) (auto simp: ascii_def is_surrogate_def utf8_char_def)

lemma ascii_decode_escape: "ascii s \<Longrightarrow> decode_escape (map byte s) = s"
  using utf8_round [OF ascii_scalar ascii_encode] by (simp add: decode_escape_def)

lemma ascii_from_escaped: "ascii s \<Longrightarrow> from_escaped_text s = s"
  by (simp add: from_escaped_text_def ascii_decode_escape)

lemma ascii_rlm_text: "ascii s \<Longrightarrow> rlm_text (JStr s) = Inr s"
  using utf8_round [OF ascii_scalar ascii_encode, of s] encode_escape_scalar [OF ascii_scalar, of s]
  by (simp add: rlm_text_def ascii_encode decode_replace_def)

text \<open>Values are looked up without regard to the case of the name.\<close>

lemma attrs_case: "lower a = lower b \<Longrightarrow> attrs_get x a = attrs_get x b \<and> attrs_all x a = attrs_all x b \<and> attrs_int x a = attrs_int x b"
  by (simp add: attrs_get_def attrs_all_def attrs_int_def)

end
