(* ===== verification/Service.thy ===== *)
theory Service
  imports GuessDelay Digest Clients Identity Rlm
begin

text \<open>
  \<open>naco/aaa/subject.py\<close> and \<open>naco/aaa/service.py\<close>: the four questions FreeRADIUS asks.  The state of the
  service is the database, the guess guard, the table of recently verified passwords and the
  events published.  \<open>utcnow\<close> and \<open>time.monotonic\<close> are arguments, read once per request.  A handler
  returns the new state and its result or the exception that left it; a session that is not
  committed leaves the database as it was.  Counters and the log trail are not modelled.
\<close>

section \<open>Subjects\<close>

definition device_state :: "Device option \<Rightarrow> bool \<Rightarrow> pystr option" where
  "device_state device is_guest =
     (case device of
        None \<Rightarrow> if is_guest then Some (u ''guest'') else None
      | Some v \<Rightarrow>
          if dev_status v = APPROVED then Some (u ''approved'')
          else if dev_status v = PENDING then Some (if is_guest then u ''guest'' else u ''pending'')
          else None)"

definition subject_context :: "pystr \<Rightarrow> pystr \<Rightarrow> UserInfo option \<Rightarrow> pystr option \<Rightarrow> Device option \<Rightarrow> bool \<Rightarrow>
    pystr \<Rightarrow> pystr \<Rightarrow> pystr option \<Rightarrow> int \<Rightarrow> Decision + AuthContext" where
  "subject_context method username user mac device is_guest nasname nas_ip ssid now =
     (let mab = (method = u ''MAB'') in
      if \<not> mab \<and> username = [] then Inl (deny (u ''no authenticated identity'') None [])
      else if \<not> mab \<and> user = None then Inl (deny (u ''unknown user'') None [])
      else if \<not> mab \<and> \<not> (case user of Some i \<Rightarrow> ui_enabled i | None \<Rightarrow> False)
      then Inl (deny (u ''user disabled'') None [])
      else if (case device of Some v \<Rightarrow> dev_status v = BLOCKED | None \<Rightarrow> False)
      then Inl (deny (u ''device blocked'') None [])
      else Inr \<lparr>ctx_auth_method = method, ctx_username = (if mab then [] else username),
                ctx_group = (case user of None \<Rightarrow> None | Some i \<Rightarrow> ui_group_name i), ctx_mac = mac,
                ctx_device_status = device_state device is_guest,
                ctx_device_type = (case device of None \<Rightarrow> [] | Some v \<Rightarrow> dev_device_type v),
                ctx_vendor = (case device of None \<Rightarrow> [] | Some v \<Rightarrow> dev_vendor v),
                ctx_nas_name = nasname, ctx_nas_ip = nas_ip, ctx_ssid = ssid, ctx_now = now\<rparr>)"

section \<open>State\<close>

datatype event =
    AuthEvent AuthLog
  | DeviceEvent pystr pystr             \<comment> \<open>MAC and vendor of a new device\<close>
  | AcctEvent pystr pystr "pystr option"  \<comment> \<open>NAS, status, session\<close>

type_synonym verified_key = "pystr \<times> pystr \<times> pystr"

record aaa_state =
  aaa_db :: db
  aaa_guesses :: GuessGuard
  aaa_verified :: "(verified_key, int) odict"
  aaa_events :: "event list"

record aaa_cfg =
  cfg_env :: auth_env
  cfg_tz :: zone
  cfg_oui :: "pystr \<rightharpoonup> pystr"

definition PASSWORD_METHODS :: "pystr list" where
  "PASSWORD_METHODS = [u ''PAP'', u ''EAP-TTLS'', u ''PEAP'']"

definition VERIFIED_SECONDS :: int where
  "VERIFIED_SECONDS = 120 * second"

definition MAX_VERIFIED :: nat where
  "MAX_VERIFIED = 50000"

definition initial_aaa :: "db \<Rightarrow> aaa_state" where
  "initial_aaa d = \<lparr>aaa_db = d, aaa_guesses = GuessGuard_default 5, aaa_verified = [], aaa_events = []\<rparr>"

definition reset_failure_tracking :: "aaa_state \<Rightarrow> aaa_state" where
  "reset_failure_tracking s = s\<lparr>aaa_guesses := gg_clear (aaa_guesses s), aaa_verified := []\<rparr>"

definition publish :: "event \<Rightarrow> aaa_state \<Rightarrow> aaa_state" where
  "publish e s = s\<lparr>aaa_events := aaa_events s @ [e]\<rparr>"

section \<open>Request attributes\<close>

record RequestInfo =
  ri_method :: "pystr option"
  ri_nas_ip :: pystr
  ri_mac :: "pystr option"
  ri_ssid :: "pystr option"
  ri_calling_station :: pystr

definition opt_text :: "pystr option \<Rightarrow> pystr" where
  "opt_text o' = (case o' of None \<Rightarrow> [] | Some s \<Rightarrow> s)"

definition SSID_ATTRIBUTES :: "pystr list" where
  "SSID_ATTRIBUTES = [u ''Called-Station-SSID'', u ''Aruba-Essid-Name'', u ''Ruckus-SSID'', u ''Fortinet-SSID'',
     u ''Trapeze-SSID'', u ''TP-CAPWAP-SSID'']"

text \<open>The key and the value of a \<open>Cisco-AVPair\<close>.\<close>

definition avpair :: "pystr \<Rightarrow> pystr \<times> pystr" where
  "avpair pair = (let (k, v) = partition1 61 pair in (lower (strip k), strip (after_sep v)))"

definition request_ssid :: "attrs \<Rightarrow> pystr option" where
  "request_ssid a =
     (case snd (parse_called_station (attrs_get a (u ''Called-Station-Id''))) of
        Some ssid \<Rightarrow> Some ssid
      | None \<Rightarrow>
          (case find (\<lambda>v. v \<noteq> []) (map (\<lambda>n. strip (opt_text (attrs_get a n))) SSID_ATTRIBUTES) of
             Some v \<Rightarrow> Some (take 64 v)
           | None \<Rightarrow>
               (case find (\<lambda>(k, v). k = u ''cisco-wlan-ssid'' \<and> v \<noteq> []) (map avpair (attrs_all a (u ''Cisco-AVPair''))) of
                  Some (_, v) \<Rightarrow> Some (take 64 v)
                | None \<Rightarrow> None)))"

definition request_info :: "attrs \<Rightarrow> RequestInfo" where
  "request_info a =
     (let method = attrs_get a (u ''NACo-Auth-Method'');
          calling = opt_text (attrs_get a (u ''Calling-Station-Id''))
      in \<lparr>ri_method = (case method of Some m \<Rightarrow> if m \<in> set AUTH_METHODS then Some m else None | None \<Rightarrow> None),
          ri_nas_ip = opt_text (parse_ip (attrs_get a (u ''NACo-NAS-IP''))),
          ri_mac = normalize_mac (Some calling), ri_ssid = request_ssid a, ri_calling_station = take 64 calling\<rparr>)"

definition identity_of :: "attrs \<Rightarrow> pystr \<Rightarrow> pystr" where
  "identity_of a method =
     canonical_username
       (if method = u ''EAP-TLS'' then attrs_get a (u ''TLS-Client-Cert-Common-Name'')
        else if method = u ''EAP-TTLS'' \<or> method = u ''PEAP'' then attrs_get a (u ''NACo-Inner-Identity'')
        else attrs_get a (u ''User-Name''))"

definition or_text :: "pystr option \<Rightarrow> pystr \<Rightarrow> pystr" where
  "or_text a b = (case a of Some s \<Rightarrow> if s = [] then b else s | None \<Rightarrow> b)"

definition verified_key_of :: "pystr \<Rightarrow> RequestInfo \<Rightarrow> verified_key" where
  "verified_key_of username req = (username, ri_nas_ip req, or_text (ri_mac req) (ri_calling_station req))"

text \<open>\<open>while len(_verified) > _MAX_VERIFIED: popitem(last=False)\<close>.\<close>

definition remember_verified :: "(verified_key, int) odict \<Rightarrow> verified_key \<Rightarrow> int \<Rightarrow> (verified_key, int) odict" where
  "remember_verified d key clock =
     (let d' = od_move_to_end (od_set d key clock) key in drop (length d' - MAX_VERIFIED) d')"

definition recently_verified :: "(verified_key, int) odict \<Rightarrow> verified_key \<Rightarrow> int \<Rightarrow> bool" where
  "recently_verified d key clock = (case od_get d key of None \<Rightarrow> False | Some at \<Rightarrow> clock - at \<le> VERIFIED_SECONDS)"

section \<open>Dynamic clients\<close>

record ClientDef =
  cd_name :: pystr
  cd_ip :: pystr
  cd_secret :: pystr
  cd_require_message_authenticator :: bool

definition lookup_client :: "db \<Rightarrow> pystr \<Rightarrow> py_exc + ClientDef option" where
  "lookup_client d ip =
     (case parse_ip (Some ip) of
        None \<Rightarrow> Inr None
      | Some addr \<Rightarrow>
          rbind (find_nas d addr) (\<lambda>nas.
            Inr (case nas of
                   Some n \<Rightarrow>
                     if nas_enabled n then
                       Some \<lparr>cd_name = nas_name n, cd_ip = addr, cd_secret = nas_secret n,
                             cd_require_message_authenticator = nas_require_message_authenticator n\<rparr>
                     else None
                 | None \<Rightarrow> None)))"

section \<open>Logging\<close>

definition decision_row :: "db \<Rightarrow> RequestInfo \<Rightarrow> pystr \<Rightarrow> pystr \<Rightarrow> pystr \<Rightarrow> AuthResult \<Rightarrow> pystr \<Rightarrow> Decision option \<Rightarrow> int \<Rightarrow> AuthLog" where
  "decision_row d req method username nasname result reason decision now =
     \<lparr>alog_id = next_id alog_id (auth_logs d), alog_timestamp = now, alog_username = take 64 username,
      alog_mac_address = opt_text (ri_mac req), alog_nas_ip = ri_nas_ip req, alog_nas_name = take 64 nasname,
      alog_ssid = take 64 (opt_text (ri_ssid req)), alog_auth_method = take 16 method, alog_result = result,
      alog_reason = take 255 reason,
      alog_policy_name = take 128 (case decision of Some x \<Rightarrow> dec_policy_name x | None \<Rightarrow> []),
      alog_vlan = (case decision of Some x \<Rightarrow> if accepted x then dec_vlan x else None | None \<Rightarrow> None),
      alog_decision_digest = (case decision of Some x \<Rightarrow> if accepted x then digest x else [] | None \<Rightarrow> [])\<rparr>"

definition log_decision :: "db \<Rightarrow> AuthLog \<Rightarrow> db" where
  "log_decision d row = d\<lparr>auth_logs := auth_logs d @ [row]\<rparr>"

definition announce :: "AuthLog \<Rightarrow> aaa_state \<Rightarrow> aaa_state" where
  "announce row s = publish (AuthEvent row) s"

definition nas_name_of :: "NasClient option \<Rightarrow> pystr" where
  "nas_name_of nas = (case nas of Some n \<Rightarrow> nas_name n | None \<Rightarrow> [])"

section \<open>Authentication\<close>

definition SLOWED_DOWN :: pystr where
  "SLOWED_DOWN = u ''too many failed attempts '' @ [0x2014] @ u '' slowed down''"

definition guess_source :: "RequestInfo \<Rightarrow> pystr" where
  "guess_source req = or_text (ri_mac req) (or_empty (ri_calling_station req) (ri_nas_ip req))"

definition guess_key :: "pystr \<Rightarrow> pystr" where
  "guess_key raw_name = or_empty (canonical_username (Some raw_name)) (take 64 raw_name)"

text \<open>The rejection is logged, and announced once the row is committed.\<close>

definition log_reject :: "aaa_state \<Rightarrow> RequestInfo \<Rightarrow> pystr \<Rightarrow> pystr \<Rightarrow> int \<Rightarrow> aaa_state \<times> (py_exc + bool)" where
  "log_reject s req username reason now =
     (let method = or_text (ri_method req) (u ''PAP'') in
      case find_nas (aaa_db s) (ri_nas_ip req) of
        Inl e \<Rightarrow> (s, Inl e)
      | Inr nas \<Rightarrow>
          (let row = decision_row (aaa_db s) req method username (nas_name_of nas) REJECT reason None now
           in (announce row (s\<lparr>aaa_db := log_decision (aaa_db s) row\<rparr>), Inr False)))"

definition authenticate :: "aaa_cfg \<Rightarrow> aaa_state \<Rightarrow> attrs \<Rightarrow> int \<Rightarrow> int \<Rightarrow> aaa_state \<times> (py_exc + bool)" where
  "authenticate cfg s a now clock =
     (let req = request_info a;
          raw_name = opt_text (attrs_get a (u ''User-Name''));
          key = guess_key raw_name;
          source = guess_source req;
          (g, wait) = gg_delay_for (aaa_guesses s) key source clock;
          s = s\<lparr>aaa_guesses := g\<rparr>
      in if wait > 0 then log_reject s req key SLOWED_DOWN now
         else
           (case authenticate_user (cfg_env cfg) (aaa_db s) raw_name (opt_text (attrs_get a (u ''User-Password''))) now of
              Inl e \<Rightarrow> (s, Inl e)
            | Inr (d, r) \<Rightarrow>
                (let s = s\<lparr>aaa_db := d\<rparr> in
                 if ir_ok r then
                   (let s = s\<lparr>aaa_guesses := gg_success (aaa_guesses s) key source\<rparr>;
                        verified = canonical_username (Some raw_name)
                    in (if verified \<noteq> []
                        then s\<lparr>aaa_verified := remember_verified (aaa_verified s) (verified_key_of verified req) clock\<rparr>
                        else s, Inr True))
                 else
                   (case gg_failure (aaa_guesses s) key source clock of
                      (g, Some e) \<Rightarrow> (s\<lparr>aaa_guesses := g\<rparr>, Inl e)
                    | (g, None) \<Rightarrow> log_reject (s\<lparr>aaa_guesses := g\<rparr>) req (ir_username r) (ir_reason r) now))))"

section \<open>Authorization\<close>

definition guest_active :: "db \<Rightarrow> pystr \<Rightarrow> int \<Rightarrow> bool" where
  "guest_active d mac now =
     list_ex (\<lambda>g. gr_mac_address g = mac \<and> gr_revoked_at g = None \<and> gr_expires_at g > now) (guest_registrations d)"

definition new_device :: "aaa_cfg \<Rightarrow> db \<Rightarrow> pystr \<Rightarrow> pystr \<Rightarrow> pystr \<Rightarrow> int \<Rightarrow> Device" where
  "new_device cfg d mac nas_ip username now =
     \<lparr>dev_id = next_id dev_id (devices d), dev_mac_address = mac, dev_status = PENDING, dev_device_type = [],
      dev_vendor = vendor_for (cfg_oui cfg) mac, dev_description = [], dev_notes = [], dev_first_seen = now,
      dev_last_seen = now, dev_last_nas_ip = nas_ip, dev_last_username = take 64 username\<rparr>"

definition seen_again :: "pystr \<Rightarrow> pystr \<Rightarrow> int \<Rightarrow> Device \<Rightarrow> Device" where
  "seen_again nas_ip username now v =
     v\<lparr>dev_last_seen := now, dev_last_nas_ip := nas_ip,
       dev_last_username := (if username = [] then dev_last_username v else take 64 username)\<rparr>"

definition see_device :: "aaa_cfg \<Rightarrow> db \<Rightarrow> pystr \<Rightarrow> pystr \<Rightarrow> pystr \<Rightarrow> int \<Rightarrow> db \<times> Device \<times> event list" where
  "see_device cfg d mac nas_ip username now =
     (case find (\<lambda>v. dev_mac_address v = mac) (devices d) of
        None \<Rightarrow>
          (let v = new_device cfg d mac nas_ip username now
           in (d\<lparr>devices := devices d @ [v]\<rparr>, v, [DeviceEvent mac (dev_vendor v)]))
      | Some v \<Rightarrow>
          (let v' = seen_again nas_ip username now v
           in (d\<lparr>devices := map (\<lambda>x. if dev_id x = dev_id v then v' else x) (devices d)\<rparr>, v', [])))"

text \<open>\<open>_decide\<close>: the database with the device recorded, the events already published, the decision.\<close>

definition decide_request :: "aaa_cfg \<Rightarrow> aaa_state \<Rightarrow> attrs \<Rightarrow> RequestInfo \<Rightarrow> NasClient option \<Rightarrow> pystr \<Rightarrow> int \<Rightarrow> int \<Rightarrow>
    db \<times> event list \<times> (py_exc + Decision)" where
  "decide_request cfg s a req nas username now clock =
     (let d = aaa_db s in
      case (ri_method req, nas) of
        (None, _) \<Rightarrow> (d, [], Inr (deny (u ''unknown authentication method'') None []))
      | (Some _, None) \<Rightarrow> (d, [], Inr (deny (u ''unknown or disabled NAS'') None []))
      | (Some method, Some n) \<Rightarrow>
          if \<not> nas_enabled n then (d, [], Inr (deny (u ''unknown or disabled NAS'') None []))
          else if method = u ''MAB'' \<and> (ri_mac req = None \<or> normalize_mac (attrs_get a (u ''User-Name'')) \<noteq> ri_mac req)
          then (d, [], Inr (deny (u ''not a valid MAB request'') None []))
          else
            (let user = (if method \<noteq> u ''MAB'' \<and> username \<noteq> [] then map_option fst (load_user d username) else None);
                 (d', device, evs) =
                   (case ri_mac req of
                      Some mac \<Rightarrow> (let (d', v, evs) = see_device cfg d mac (ri_nas_ip req) username now in (d', Some v, evs))
                    | None \<Rightarrow> (d, None, []));
                 is_guest = (case ri_mac req of Some mac \<Rightarrow> guest_active d' mac now | None \<Rightarrow> False)
             in (d', evs,
                 case subject_context method username user (ri_mac req) device is_guest (nas_name n) (ri_nas_ip req) (ri_ssid req) now of
                   Inl dcn \<Rightarrow> Inr dcn
                 | Inr ctx \<Rightarrow>
                     if method \<in> set PASSWORD_METHODS \<and> \<not> recently_verified (aaa_verified s) (verified_key_of username req) clock
                     then Inr (deny (u ''password was not verified by NACo'') None [])
                     else evaluate d' (cfg_tz cfg) ctx)))"

definition authorize :: "aaa_cfg \<Rightarrow> aaa_state \<Rightarrow> attrs \<Rightarrow> int \<Rightarrow> int \<Rightarrow> aaa_state \<times> (py_exc + Decision)" where
  "authorize cfg s a now clock =
     (let req = request_info a;
          method = opt_text (ri_method req)
      in case find_nas (aaa_db s) (ri_nas_ip req) of
           Inl e \<Rightarrow> (s, Inl e)
         | Inr nas \<Rightarrow>
             (let username = (if method = u ''MAB'' \<or> method = [] then [] else identity_of a method) in
              case decide_request cfg s a req nas username now clock of
                (d, evs, Inl e) \<Rightarrow> (s\<lparr>aaa_events := aaa_events s @ evs\<rparr>, Inl e)
              | (d, evs, Inr dcn) \<Rightarrow>
                  (let row = decision_row d req method username (nas_name_of nas)
                               (if accepted dcn then ACCEPT else REJECT) (dec_reason dcn) (Some dcn) now
                   in (announce row (s\<lparr>aaa_db := log_decision d row, aaa_events := aaa_events s @ evs\<rparr>), Inr dcn))))"

section \<open>Accounting\<close>

definition STATUS :: "(pystr \<times> pystr) list" where
  "STATUS = [(u ''1'', u ''start''), (u ''2'', u ''stop''), (u ''3'', u ''interim-update''), (u ''7'', u ''accounting-on''),
     (u ''8'', u ''accounting-off''), (u ''start'', u ''start''), (u ''stop'', u ''stop''),
     (u ''interim-update'', u ''interim-update''), (u ''alive'', u ''interim-update''),
     (u ''accounting-on'', u ''accounting-on''), (u ''accounting-off'', u ''accounting-off'')]"

definition octets :: "attrs \<Rightarrow> pystr \<Rightarrow> pystr \<Rightarrow> int option" where
  "octets a base giga =
     (case attrs_int a base of
        None \<Rightarrow> None
      | Some low \<Rightarrow> Some ((case attrs_int a giga of Some g \<Rightarrow> g | None \<Rightarrow> 0) * 2 ^ 32 + low))"

definition day_us :: int where
  "day_us = 24 * 3600 * second"

text \<open>The newest accepted row of the last day; rows are kept in the order of their keys.\<close>

definition latest_accept :: "db \<Rightarrow> pystr \<Rightarrow> pystr option \<Rightarrow> pystr \<Rightarrow> int \<Rightarrow> py_exc + AuthLog option" where
  "latest_accept d nas_ip mac username now =
     rbind (find_nas d nas_ip) (\<lambda>nas.
       let same_nas = (\<lambda>r. alog_nas_ip r = nas_ip \<or>
             (case nas of Some n \<Rightarrow> 47 \<in> set (nas_ip_address n) \<and> alog_nas_name r = nas_name n | None \<Rightarrow> False));
           query = filter (\<lambda>r. same_nas r \<and> alog_result r = ACCEPT \<and> alog_timestamp r > now - day_us) (auth_logs d);
           newest = (\<lambda>rows. if rows = [] then None else Some (last rows))
       in Inr (if opt_text mac \<noteq> [] then newest (filter (\<lambda>r. Some (alog_mac_address r) = mac) query)
               else if username \<noteq> [] then newest (filter (\<lambda>r. alog_username r = username) query)
               else None))"

definition audit_session_id :: "attrs \<Rightarrow> pystr" where
  "audit_session_id a =
     (case find (\<lambda>(k, _). k = u ''audit-session-id'') (map avpair (attrs_all a (u ''Cisco-AVPair''))) of
        Some (_, v) \<Rightarrow> take 64 v | None \<Rightarrow> [])"

text \<open>\<open>now - timedelta(seconds=s)\<close>: \<open>OverflowError\<close> outside the years 1 to 9999.\<close>

definition minus_seconds :: "int \<Rightarrow> int \<Rightarrow> py_exc + int" where
  "minus_seconds now s =
     (let t = now - s * second
      in if t < - 62135596800 * second \<or> t \<ge> 253402300800 * second then Inl OverflowError else Inr t)"

definition is_session :: "pystr \<Rightarrow> pystr \<Rightarrow> RadiusSession \<Rightarrow> bool" where
  "is_session nas_ip sid x \<longleftrightarrow> rs_nas_ip x = nas_ip \<and> rs_acct_session_id x = sid"

definition new_session :: "db \<Rightarrow> pystr \<Rightarrow> pystr \<Rightarrow> int \<Rightarrow> int \<Rightarrow> RadiusSession" where
  "new_session d nas_ip sid started now =
     \<lparr>rs_id = next_id rs_id (radius_sessions d), rs_nas_ip = nas_ip, rs_acct_session_id = sid, rs_username = [],
      rs_acct_username = [], rs_calling_station_id = [], rs_nas_ip_address = [], rs_nas_identifier = [],
      rs_audit_session_id = [], rs_mac_address = [], rs_framed_ip = [], rs_ssid = [], rs_auth_method = [],
      rs_policy_name = [], rs_vlan = None, rs_decision_digest = [], rs_started_at = started, rs_updated_at = now,
      rs_input_octets = 0, rs_output_octets = 0, rs_session_time = 0\<rparr>"

text \<open>The fields the NAS reports, the context of the last accept, the counters.\<close>

definition session_report :: "attrs \<Rightarrow> RequestInfo \<Rightarrow> RadiusSession \<Rightarrow> RadiusSession" where
  "session_report a req x =
     (let framed = or_text (parse_ip (attrs_get a (u ''Framed-IP-Address''))) (opt_text (parse_ip (attrs_get a (u ''Framed-IPv6-Address''))))
      in x\<lparr>rs_acct_username := or_empty (take 64 (opt_text (attrs_get a (u ''User-Name'')))) (rs_acct_username x),
           rs_calling_station_id := or_empty (ri_calling_station req) (rs_calling_station_id x),
           rs_nas_ip_address := or_text (parse_ip (attrs_get a (u ''NAS-IP-Address''))) (rs_nas_ip_address x),
           rs_nas_identifier := or_empty (take 64 (opt_text (attrs_get a (u ''NAS-Identifier'')))) (rs_nas_identifier x),
           rs_audit_session_id := or_empty (audit_session_id a) (rs_audit_session_id x),
           rs_mac_address := or_text (ri_mac req) (rs_mac_address x),
           rs_framed_ip := or_empty framed (rs_framed_ip x),
           rs_ssid := or_text (ri_ssid req) (rs_ssid x)\<rparr>)"

definition session_context :: "AuthLog option \<Rightarrow> pystr \<Rightarrow> RadiusSession \<Rightarrow> RadiusSession" where
  "session_context context acct_user x =
     (case context of
        Some c \<Rightarrow>
          x\<lparr>rs_username := or_empty (alog_username c) (rs_username x), rs_auth_method := alog_auth_method c,
            rs_policy_name := alog_policy_name c, rs_vlan := alog_vlan c, rs_decision_digest := alog_decision_digest c,
            rs_ssid := or_empty (rs_ssid x) (alog_ssid c)\<rparr>
      | None \<Rightarrow>
          if rs_username x = [] then x\<lparr>rs_username := or_empty (canonical_username (Some acct_user)) acct_user\<rparr> else x)"

definition session_counters :: "attrs \<Rightarrow> int \<Rightarrow> RadiusSession \<Rightarrow> RadiusSession" where
  "session_counters a now x =
     x\<lparr>rs_input_octets := (case octets a (u ''Acct-Input-Octets'') (u ''Acct-Input-Gigawords'') of Some n \<Rightarrow> n | None \<Rightarrow> rs_input_octets x),
       rs_output_octets := (case octets a (u ''Acct-Output-Octets'') (u ''Acct-Output-Gigawords'') of Some n \<Rightarrow> n | None \<Rightarrow> rs_output_octets x),
       rs_session_time := (case attrs_int a (u ''Acct-Session-Time'') of Some n \<Rightarrow> n | None \<Rightarrow> rs_session_time x),
       rs_updated_at := now\<rparr>"

definition put_session :: "RadiusSession \<Rightarrow> RadiusSession list \<Rightarrow> RadiusSession list" where
  "put_session x xs =
     (if list_ex (\<lambda>y. rs_id y = rs_id x) xs then map (\<lambda>y. if rs_id y = rs_id x then x else y) xs else xs @ [x])"

text \<open>What an \<open>INTEGER\<close> column can hold; binding a larger number raises \<open>OverflowError\<close> at the commit.\<close>

definition sqlite_int :: "int \<Rightarrow> bool" where
  "sqlite_int n \<longleftrightarrow> - (2 ^ 63) \<le> n \<and> n < 2 ^ 63"

definition commit_session :: "RadiusSession \<Rightarrow> db \<Rightarrow> py_exc + db" where
  "commit_session x d =
     (if sqlite_int (rs_input_octets x) \<and> sqlite_int (rs_output_octets x) \<and> sqlite_int (rs_session_time x)
      then Inr (d\<lparr>radius_sessions := put_session x (radius_sessions d)\<rparr>) else Inl OverflowError)"

definition session_update :: "db \<Rightarrow> attrs \<Rightarrow> RequestInfo \<Rightarrow> pystr \<Rightarrow> int \<Rightarrow> py_exc + db" where
  "session_update d a req sid now =
     (let session_time = attrs_int a (u ''Acct-Session-Time'');
          acct_user = take 64 (opt_text (attrs_get a (u ''User-Name'')))
      in rbind (case find (is_session (ri_nas_ip req) sid) (radius_sessions d) of
                  Some x \<Rightarrow> Inr x
                | None \<Rightarrow>
                    rbind (case session_time of
                             Some t \<Rightarrow> if t \<noteq> 0 then minus_seconds now t else Inr now
                           | None \<Rightarrow> Inr now) (\<lambda>started.
                      Inr (new_session d (ri_nas_ip req) sid started now))) (\<lambda>x.
         let x1 = session_report a req x in
         rbind (latest_accept d (ri_nas_ip req) (none_if_empty (rs_mac_address x1)) (canonical_username (Some acct_user)) now) (\<lambda>context.
           commit_session (session_counters a now (session_context context acct_user x1)) d)))"

definition accounting :: "aaa_state \<Rightarrow> attrs \<Rightarrow> int \<Rightarrow> aaa_state \<times> py_exc option" where
  "accounting s a now =
     (let status = map_of STATUS (lower (opt_text (attrs_get a (u ''Acct-Status-Type''))));
          req = request_info a;
          nas_ip = ri_nas_ip req;
          d = aaa_db s;
          sid = take 64 (opt_text (attrs_get a (u ''Acct-Session-Id'')))
      in case status of
           None \<Rightarrow> (s, None)
         | Some st \<Rightarrow>
             if nas_ip = [] then (s, None)
             else if st = u ''accounting-on'' \<or> st = u ''accounting-off'' then
               (publish (AcctEvent nas_ip st None)
                  (s\<lparr>aaa_db := d\<lparr>radius_sessions := filter (\<lambda>x. rs_nas_ip x \<noteq> nas_ip) (radius_sessions d)\<rparr>\<rparr>), None)
             else if sid = [] then (s, None)
             else if st = u ''stop'' then
               (publish (AcctEvent nas_ip st (Some sid))
                  (s\<lparr>aaa_db := d\<lparr>radius_sessions := filter (\<lambda>x. \<not> is_session nas_ip sid x) (radius_sessions d)\<rparr>\<rparr>), None)
             else
               (case session_update d a req sid now of
                  Inl e \<Rightarrow> (s, Some e)
                | Inr d' \<Rightarrow> (publish (AcctEvent nas_ip st (Some sid)) (s\<lparr>aaa_db := d'\<rparr>), None)))"

end
