(* ===== verification/ServiceSafety.thy ===== *)
theory ServiceSafety
  imports Service
begin

text \<open>
  What the AAA service guarantees: who can be accepted, that a password method needs a password NACo
  itself verified moments before, that every decision is logged, and that the session table stays
  in step with the accounting requests.
\<close>

section \<open>The table of verified passwords\<close>

definition verified_ok :: "(verified_key, int) odict \<Rightarrow> bool" where
  "verified_ok d \<longleftrightarrow> od_ok d \<and> length d \<le> MAX_VERIFIED"

lemma od_ok_drop: "od_ok d \<Longrightarrow> od_ok (drop n d)"
  by (simp add: od_ok_def distinct_drop flip: drop_map)

lemma od_get_iff: "od_ok d \<Longrightarrow> od_get d k = Some v \<longleftrightarrow> (k, v) \<in> set d"
  by (simp add: od_ok_def od_get_def)

lemma od_get_drop: "od_ok d \<Longrightarrow> od_get (drop n d) k = Some v \<Longrightarrow> od_get d k = Some v"
  using od_get_iff [of d] od_get_iff [OF od_ok_drop, of d n] by (auto dest: in_set_dropD)

lemma remember_verified_ok: "verified_ok d \<Longrightarrow> verified_ok (remember_verified d k t)"
  by (auto simp: verified_ok_def remember_verified_def Let_def od_ok_drop)

lemma remember_verified_get:
  "verified_ok d \<Longrightarrow> od_get (remember_verified d k t) k' = Some v \<Longrightarrow> (k' = k \<and> v = t) \<or> od_get d k' = Some v"
proof -
  assume d: "verified_ok d" and g: "od_get (remember_verified d k t) k' = Some v"
  let ?d = "od_move_to_end (od_set d k t) k"
  have "od_ok ?d" using d by (simp add: verified_ok_def)
  from od_get_drop [OF this g [unfolded remember_verified_def Let_def]] d show ?thesis
    by (simp add: verified_ok_def split: if_splits)
qed

section \<open>Authentication\<close>

lemma log_reject_state:
  "log_reject s req n r now = (s', res) \<Longrightarrow>
   aaa_verified s' = aaa_verified s \<and> aaa_guesses s' = aaa_guesses s \<and> res \<noteq> Inr True \<and>
   (res = Inr False \<longrightarrow> (\<exists>row. auth_logs (aaa_db s') = auth_logs (aaa_db s) @ [row] \<and> alog_result row = REJECT))"
  by (auto simp: log_reject_def announce_def publish_def log_decision_def decision_row_def Let_def split: sum.splits)

definition user_name :: "attrs \<Rightarrow> pystr" where
  "user_name a = opt_text (attrs_get a (u ''User-Name''))"

definition password_of :: "attrs \<Rightarrow> pystr" where
  "password_of a = opt_text (attrs_get a (u ''User-Password''))"

lemma authenticate_cases:
  assumes "authenticate cfg s a now clock = (s', res)"
  obtains (slow) "0 < gg_delay (aaa_guesses s) (guess_key (user_name a)) (guess_source (request_info a)) clock"
      "aaa_verified s' = aaa_verified s" "res \<noteq> Inr True"
      "res = Inr False \<longrightarrow> (\<exists>row. auth_logs (aaa_db s') = auth_logs (aaa_db s) @ [row] \<and> alog_result row = REJECT)"
  | (raised) e where "res = Inl e" "aaa_verified s' = aaa_verified s"
  | (wrong) d r where "authenticate_user (cfg_env cfg) (aaa_db s) (user_name a) (password_of a) now = Inr (d, r)" "\<not> ir_ok r"
      "aaa_verified s' = aaa_verified s" "res \<noteq> Inr True"
      "res = Inr False \<longrightarrow> (\<exists>row. auth_logs (aaa_db s') = auth_logs d @ [row] \<and> alog_result row = REJECT)"
  | (right) d r where "authenticate_user (cfg_env cfg) (aaa_db s) (user_name a) (password_of a) now = Inr (d, r)" "ir_ok r"
      "res = Inr True" "aaa_db s' = d"
      "aaa_verified s' = (if canonical_username (Some (user_name a)) = [] then aaa_verified s
         else remember_verified (aaa_verified s)
                (verified_key_of (canonical_username (Some (user_name a))) (request_info a)) clock)"
      "gg_delay (aaa_guesses s) (guess_key (user_name a)) (guess_source (request_info a)) clock \<le> 0"
proof -
  obtain g wait where dl: "gg_delay_for (aaa_guesses s) (guess_key (user_name a)) (guess_source (request_info a)) clock = (g, wait)"
    by (metis surj_pair)
  then have w: "gg_delay (aaa_guesses s) (guess_key (user_name a)) (guess_source (request_info a)) clock = wait"
    by (simp add: gg_delay_def)
  note unf = assms [unfolded authenticate_def, folded user_name_def password_of_def, unfolded Let_def dl]
  show thesis
  proof (cases "wait > 0")
    case True
    with unf have "log_reject (s\<lparr>aaa_guesses := g\<rparr>) (request_info a) (guess_key (user_name a)) SLOWED_DOWN now = (s', res)" by simp
    from log_reject_state [OF this] w True show thesis by (intro slow) auto
  next
    case False
    show thesis
    proof (cases "authenticate_user (cfg_env cfg) (aaa_db s) (user_name a) (password_of a) now")
      case (Inl e)
      with unf False show thesis by (intro raised [of e]) auto
    next
      case (Inr dr)
      obtain d r where dr: "dr = (d, r)" by (cases dr)
      show thesis
      proof (cases "ir_ok r")
        case True
        with unf False Inr dr w show thesis by (intro right [of d r]) (auto split: if_splits)
      next
        case wr: False
        obtain g' e where gf: "gg_failure g (guess_key (user_name a)) (guess_source (request_info a)) clock = (g', e)"
          by (metis surj_pair)
        show thesis
        proof (cases e)
          case None
          with unf False Inr dr wr gf
          have "log_reject (s\<lparr>aaa_guesses := g, aaa_db := d, aaa_guesses := g'\<rparr>) (request_info a) (ir_username r) (ir_reason r) now = (s', res)"
            by simp
          from log_reject_state [OF this] Inr dr wr show thesis by (intro wrong [of d r]) auto
        next
          case (Some x)
          with unf False Inr dr wr gf show thesis by (intro raised [of x]) auto
        qed
      qed
    qed
  qed
qed

text \<open>C4. \<open>authenticate\<close> says yes only when the identity is not slowed down and the user's password is
  verified now, and it never says yes to an unusable name or an empty password.\<close>

theorem authenticate_yes_means_verified:
  assumes "authenticate cfg s a now clock = (s', Inr True)"
  shows "snd (gg_delay_for (aaa_guesses s) (guess_key (user_name a)) (guess_source (request_info a)) clock) \<le> 0 \<and>
    canonical_username (Some (user_name a)) \<noteq> [] \<and> password_of a \<noteq> [] \<and>
    (\<exists>d r. authenticate_user (cfg_env cfg) (aaa_db s) (user_name a) (password_of a) now = Inr (d, r) \<and> ir_ok r)"
  using assms
proof (cases rule: authenticate_cases)
  case (right d r)
  then have "canonical_username (Some (user_name a)) \<noteq> [] \<and> password_of a \<noteq> []"
    by (auto simp: authenticate_user_def refused_def rbind_eq_Inr Let_def)
  with right show ?thesis by (auto simp: gg_delay_def)
qed auto

section \<open>Traces of requests\<close>

text \<open>What the service can do, from a start with no verified password, with the \<open>authenticate\<close> requests
  it said yes to and when.  Others may change the database at any time.\<close>

inductive aaa_reach :: "aaa_cfg \<Rightarrow> aaa_state \<Rightarrow> int \<Rightarrow> (attrs \<times> int) list \<Rightarrow> bool" for cfg where
  aaa_start: "aaa_verified s = [] \<Longrightarrow> aaa_reach cfg s t []"
| aaa_authenticate: "aaa_reach cfg s t h \<Longrightarrow> t \<le> clock \<Longrightarrow> authenticate cfg s a now clock = (s', r) \<Longrightarrow>
    aaa_reach cfg s' clock (if r = Inr True then h @ [(a, clock)] else h)"
| aaa_authorize: "aaa_reach cfg s t h \<Longrightarrow> t \<le> clock \<Longrightarrow> authorize cfg s a now clock = (s', r) \<Longrightarrow> aaa_reach cfg s' clock h"
| aaa_accounting: "aaa_reach cfg s t h \<Longrightarrow> accounting s a now = (s', e) \<Longrightarrow> aaa_reach cfg s' t h"
| aaa_reset: "aaa_reach cfg s t h \<Longrightarrow> aaa_reach cfg (reset_failure_tracking s) t h"
| aaa_others: "aaa_reach cfg s t h \<Longrightarrow> aaa_reach cfg (s\<lparr>aaa_db := d\<rparr>) t h"

inductive_cases aaa_reachE: "aaa_reach cfg s t h"

lemma authorize_verified: "authorize cfg s a now clock = (s', r) \<Longrightarrow> aaa_verified s' = aaa_verified s"
  by (auto simp: authorize_def announce_def publish_def Let_def split: sum.splits prod.splits)

lemma accounting_verified: "accounting s a now = (s', e) \<Longrightarrow> aaa_verified s' = aaa_verified s \<and> aaa_guesses s' = aaa_guesses s"
  by (auto simp: accounting_def publish_def Let_def split: sum.splits option.splits if_splits)

text \<open>An entry of the table stems from a request in the history.\<close>

definition vouched :: "(attrs \<times> int) list \<Rightarrow> verified_key \<Rightarrow> int \<Rightarrow> bool" where
  "vouched h key at \<longleftrightarrow>
     (\<exists>a. (a, at) \<in> set h \<and> key = verified_key_of (canonical_username (Some (user_name a))) (request_info a))"

lemma aaa_reach_vouched:
  "aaa_reach cfg s t h \<Longrightarrow>
   verified_ok (aaa_verified s) \<and> (\<forall>key at. od_get (aaa_verified s) key = Some at \<longrightarrow> vouched h key at)"
proof (induction rule: aaa_reach.induct)
  case (aaa_start s t)
  then show ?case by (simp add: verified_ok_def od_ok_def)
next
  case (aaa_authenticate s t h clock a now s' r)
  from aaa_authenticate.hyps(3) show ?case
  proof (cases rule: authenticate_cases)
    case (right d res)
    let ?k = "verified_key_of (canonical_username (Some (user_name a))) (request_info a)"
    have mono: "vouched (h @ [(a, clock)]) key at" if "vouched h key at" for key at
      using that by (auto simp: vouched_def)
    have new: "vouched (h @ [(a, clock)]) ?k clock" by (auto simp: vouched_def)
    have ok: "verified_ok (aaa_verified s)" using aaa_authenticate.IH by simp
    have old: "vouched h key at" if "od_get (aaa_verified s) key = Some at" for key at
      using that aaa_authenticate.IH by blast
    have "vouched (h @ [(a, clock)]) key at" if g: "od_get (aaa_verified s') key = Some at" for key at
    proof -
      have "(key = ?k \<and> at = clock) \<or> od_get (aaa_verified s) key = Some at"
        using g right(5) remember_verified_get [OF ok, of ?k clock key at] by (cases "canonical_username (Some (user_name a)) = []") simp_all
      then show ?thesis using old mono new by blast
    qed
    moreover have "verified_ok (aaa_verified s')" using ok right(5) by (simp add: remember_verified_ok)
    ultimately show ?thesis using right(3) by simp
  qed (use aaa_authenticate.IH in auto)
next
  case (aaa_authorize s t h clock a now s' r)
  then show ?case by (simp add: authorize_verified)
next
  case (aaa_accounting s t h a now s' e)
  then show ?case using accounting_verified by simp
qed (simp_all add: reset_failure_tracking_def verified_ok_def od_ok_def)

section \<open>Authorization\<close>

text \<open>What a decision to accept needs before any policy is asked.\<close>

definition may_ask_policy :: "aaa_state \<Rightarrow> attrs \<Rightarrow> NasClient option \<Rightarrow> pystr \<Rightarrow> int \<Rightarrow> bool" where
  "may_ask_policy s a nas username clock \<longleftrightarrow>
     (\<exists>method n. ri_method (request_info a) = Some method \<and> nas = Some n \<and> nas_enabled n \<and>
        (if method = u ''MAB''
         then ri_mac (request_info a) \<noteq> None \<and> normalize_mac (attrs_get a (u ''User-Name'')) = ri_mac (request_info a)
         else username \<noteq> [] \<and> (\<exists>i h. load_user (aaa_db s) username = Some (i, h) \<and> ui_enabled i)) \<and>
        (method \<in> set PASSWORD_METHODS \<longrightarrow> recently_verified (aaa_verified s) (verified_key_of username (request_info a)) clock))"

definition device_blocked :: "db \<Rightarrow> pystr option \<Rightarrow> bool" where
  "device_blocked d mac \<longleftrightarrow>
     (\<exists>m v. mac = Some m \<and> find (\<lambda>v. dev_mac_address v = m) (devices d) = Some v \<and> dev_status v = BLOCKED)"

lemma subject_context_Inr:
  "subject_context m n usr mac dev g nn ni ss now = Inr ctx \<Longrightarrow>
   (m \<noteq> u ''MAB'' \<longrightarrow> n \<noteq> [] \<and> (\<exists>i. usr = Some i \<and> ui_enabled i)) \<and> (\<forall>v. dev = Some v \<longrightarrow> dev_status v \<noteq> BLOCKED) \<and>
   ctx_auth_method ctx = m \<and> ctx_mac ctx = mac \<and> ctx_device_status ctx = device_state dev g"
  by (auto simp: subject_context_def Let_def split: if_splits option.splits)

lemma subject_context_Inl: "subject_context m n usr mac dev g nn ni ss now = Inl x \<Longrightarrow> \<not> accepted x"
  by (auto simp: subject_context_def Let_def split: if_splits)

text \<open>What the policies must be asked about: the request itself, the group of its user, and the station as
  the database knows it.  A station NACo has not seen is pending, with the vendor of its address.\<close>

definition station_status :: "db \<Rightarrow> pystr option \<Rightarrow> int \<Rightarrow> pystr option" where
  "station_status d mac now =
     map_option (\<lambda>m. if \<exists>v. find (\<lambda>v. dev_mac_address v = m) (devices d) = Some v \<and> dev_status v = APPROVED then u ''approved''
                     else if guest_active d m now then u ''guest'' else u ''pending'') mac"

definition describes_request :: "aaa_cfg \<Rightarrow> db \<Rightarrow> RequestInfo \<Rightarrow> NasClient \<Rightarrow> pystr \<Rightarrow> int \<Rightarrow> AuthContext \<Rightarrow> bool" where
  "describes_request cfg d req n username now ctx \<longleftrightarrow>
     Some (ctx_auth_method ctx) = ri_method req \<and>
     (if ctx_auth_method ctx = u ''MAB'' then ctx_username ctx = [] \<and> ctx_group ctx = None
      else ctx_username ctx = username \<and> (\<exists>i h. load_user d username = Some (i, h) \<and> ctx_group ctx = ui_group_name i)) \<and>
     ctx_mac ctx = ri_mac req \<and> ctx_device_status ctx = station_status d (ri_mac req) now \<and>
     (case ri_mac req of
        None \<Rightarrow> ctx_device_type ctx = [] \<and> ctx_vendor ctx = []
      | Some m \<Rightarrow>
          (case find (\<lambda>v. dev_mac_address v = m) (devices d) of
             Some v \<Rightarrow> ctx_device_type ctx = dev_device_type v \<and> ctx_vendor ctx = dev_vendor v
           | None \<Rightarrow> ctx_device_type ctx = [] \<and> ctx_vendor ctx = vendor_for (cfg_oui cfg) m)) \<and>
     ctx_nas_name ctx = nas_name n \<and> ctx_nas_ip ctx = ri_nas_ip req \<and> ctx_ssid ctx = ri_ssid req \<and> ctx_now ctx = now"

lemma see_device_frame:
  "see_device cfg d mac nas_ip n now = (d', v, evs) \<Longrightarrow>
   policies d' = policies d \<and> guest_registrations d' = guest_registrations d \<and>
   (case find (\<lambda>v. dev_mac_address v = mac) (devices d) of
      None \<Rightarrow> dev_status v = PENDING \<and> dev_device_type v = [] \<and> dev_vendor v = vendor_for (cfg_oui cfg) mac
    | Some w \<Rightarrow> dev_status v = dev_status w \<and> dev_device_type v = dev_device_type w \<and> dev_vendor v = dev_vendor w)"
  by (auto simp: see_device_def new_device_def seen_again_def Let_def split: option.splits)

lemma evaluate_policies: "policies d' = policies d \<Longrightarrow> evaluate d' tz ctx = evaluate d tz ctx"
  by (simp add: evaluate_def load_policies_def policy_rows_def)

lemma device_state_not_blocked:
  "dev_status v \<noteq> BLOCKED \<Longrightarrow>
   device_state (Some v) g = Some (if dev_status v = APPROVED then u ''approved'' else if g then u ''guest'' else u ''pending'')"
  by (cases "dev_status v") (simp_all add: device_state_def)

lemma describes_request_MAB:
  "ri_method req = Some (u ''MAB'') \<Longrightarrow> describes_request cfg d req n x now ctx \<Longrightarrow> describes_request cfg d req n y now ctx"
  by (simp add: describes_request_def)

lemma subject_context_describes:
  assumes "subject_context meth username
      (if meth \<noteq> u ''MAB'' \<and> username \<noteq> [] then map_option fst (load_user d username) else None)
      (ri_mac req) dev g (nas_name n) (ri_nas_ip req) (ri_ssid req) now = Inr ctx" "ri_method req = Some meth"
    "case ri_mac req of None \<Rightarrow> dev = None \<and> \<not> g | Some m \<Rightarrow> \<exists>d' v evs. dev = Some v \<and> g = guest_active d m now \<and>
       see_device cfg d m (ri_nas_ip req) username now = (d', v, evs)"
  shows "describes_request cfg d req n username now ctx"
proof -
  have st: "ctx_device_status ctx = station_status d (ri_mac req) now"
  proof (cases "ri_mac req")
    case None
    with assms show ?thesis by (auto simp: station_status_def device_state_def dest!: subject_context_Inr)
  next
    case (Some m)
    with assms(3) obtain d' v evs where v: "dev = Some v" "g = guest_active d m now"
      "see_device cfg d m (ri_nas_ip req) username now = (d', v, evs)" by auto
    from subject_context_Inr [OF assms(1)] v(1) have "dev_status v \<noteq> BLOCKED" "ctx_device_status ctx = device_state (Some v) g" by auto
    with see_device_frame [OF v(3)] v(2) Some show ?thesis
      by (auto simp: station_status_def device_state_not_blocked split: option.splits)
  qed
  show ?thesis
  proof (cases "ri_mac req")
    case None
    with st assms show ?thesis
      by (auto simp: describes_request_def subject_context_def Let_def split: if_splits option.splits)
  next
    case (Some m)
    with assms(3) obtain d' v evs where v: "dev = Some v" "see_device cfg d m (ri_nas_ip req) username now = (d', v, evs)" by auto
    with see_device_frame [OF v(2)] st assms(1,2) Some show ?thesis
      by (auto simp: describes_request_def subject_context_def Let_def split: if_splits option.splits)
  qed
qed

text \<open>How an accepting decision came about: the guards it passed, the station recorded, the subject and the
  answer of the policy engine.\<close>

lemma decide_request_evaluated:
  assumes "decide_request cfg s a (request_info a) nas username now clock = (d, evs, Inr dcn)" "accepted dcn"
  obtains meth n dev g ctx where "ri_method (request_info a) = Some meth" "nas = Some n" "nas_enabled n"
    "\<not> (meth = u ''MAB'' \<and> (ri_mac (request_info a) = None \<or> normalize_mac (attrs_get a (u ''User-Name'')) \<noteq> ri_mac (request_info a)))"
    "case ri_mac (request_info a) of None \<Rightarrow> d = aaa_db s \<and> dev = None \<and> \<not> g
     | Some m \<Rightarrow> g = guest_active d m now \<and> (\<exists>v e. see_device cfg (aaa_db s) m (ri_nas_ip (request_info a)) username now = (d, v, e) \<and> dev = Some v)"
    "subject_context meth username (if meth \<noteq> u ''MAB'' \<and> username \<noteq> [] then map_option fst (load_user (aaa_db s) username) else None)
       (ri_mac (request_info a)) dev g (nas_name n) (ri_nas_ip (request_info a)) (ri_ssid (request_info a)) now = Inr ctx"
    "meth \<in> set PASSWORD_METHODS \<longrightarrow> recently_verified (aaa_verified s) (verified_key_of username (request_info a)) clock"
    "evaluate d (cfg_tz cfg) ctx = Inr dcn"
proof -
  let ?req = "request_info a"
  from assms obtain meth n where mn: "ri_method ?req = Some meth" "nas = Some n" "nas_enabled n"
    "\<not> (meth = u ''MAB'' \<and> (ri_mac ?req = None \<or> normalize_mac (attrs_get a (u ''User-Name'')) \<noteq> ri_mac ?req))"
    by (auto simp: decide_request_def Let_def split: option.splits if_splits)
  define usr where "usr = (if meth \<noteq> u ''MAB'' \<and> username \<noteq> [] then map_option fst (load_user (aaa_db s) username) else None)"
  define sd where "sd = (case ri_mac ?req of
      Some mac \<Rightarrow> (let (d', v, evs) = see_device cfg (aaa_db s) mac (ri_nas_ip ?req) username now in (d', Some v, evs))
    | None \<Rightarrow> (aaa_db s, None, []))"
  obtain d1 dev evs1 where sd1: "sd = (d1, dev, evs1)" by (metis prod_cases3)
  define g where "g = (case ri_mac ?req of Some mac \<Rightarrow> guest_active d1 mac now | None \<Rightarrow> False)"
  note res = assms(1) [unfolded decide_request_def Let_def mn option.case prod.case, folded usr_def,
      unfolded sd_def [symmetric, unfolded Let_def] sd1 prod.case, folded g_def]
  from res mn(3,4) have d: "d = d1" and
    r: "(case subject_context meth username usr (ri_mac ?req) dev g (nas_name n) (ri_nas_ip ?req) (ri_ssid ?req) now of
           Inl x \<Rightarrow> Inr x
         | Inr ctx \<Rightarrow> if meth \<in> set PASSWORD_METHODS \<and> \<not> recently_verified (aaa_verified s) (verified_key_of username ?req) clock
             then Inr (deny (u ''password was not verified by NACo'') None []) else evaluate d1 (cfg_tz cfg) ctx) = Inr dcn"
    by (simp_all split: if_splits)
  from r assms(2) obtain ctx where ctx:
    "subject_context meth username usr (ri_mac ?req) dev g (nas_name n) (ri_nas_ip ?req) (ri_ssid ?req) now = Inr ctx"
    "meth \<in> set PASSWORD_METHODS \<longrightarrow> recently_verified (aaa_verified s) (verified_key_of username ?req) clock"
    "evaluate d1 (cfg_tz cfg) ctx = Inr dcn"
    by (auto split: sum.splits if_splits dest: subject_context_Inl)
  have "case ri_mac ?req of None \<Rightarrow> d = aaa_db s \<and> dev = None \<and> \<not> g
     | Some m \<Rightarrow> g = guest_active d m now \<and> (\<exists>v e. see_device cfg (aaa_db s) m (ri_nas_ip ?req) username now = (d, v, e) \<and> dev = Some v)"
    using sd1 d by (auto simp: sd_def g_def split: option.splits prod.splits)
  with mn ctx d show thesis by (intro that [of meth n dev g ctx]) (simp_all add: usr_def)
qed

lemma decide_request_accepts:
  assumes "decide_request cfg s a (request_info a) nas username now clock = (d, evs, Inr dcn)" "accepted dcn"
  shows "may_ask_policy s a nas username clock \<and> \<not> device_blocked (aaa_db s) (ri_mac (request_info a)) \<and>
    (\<exists>n ctx. nas = Some n \<and> describes_request cfg (aaa_db s) (request_info a) n username now ctx \<and>
       evaluate (aaa_db s) (cfg_tz cfg) ctx = Inr dcn)"
  using assms
proof (cases rule: decide_request_evaluated)
  case (1 meth n dev g ctx)
  note sub = subject_context_Inr [OF 1(6)]
  have ask: "may_ask_policy s a nas username clock"
    using 1 sub by (auto simp: may_ask_policy_def split: if_splits)
  show ?thesis
  proof (cases "ri_mac (request_info a)")
    case None
    with 1(5) subject_context_describes [OF 1(6,1), of cfg] ask 1(2,8) show ?thesis by (auto simp: device_blocked_def)
  next
    case (Some m)
    with 1(5) obtain v e where v: "see_device cfg (aaa_db s) m (ri_nas_ip (request_info a)) username now = (d, v, e)" "dev = Some v"
      "g = guest_active d m now" by auto
    note frame = see_device_frame [OF v(1)]
    then have "g = guest_active (aaa_db s) m now" using v(3) by (simp add: guest_active_def)
    with subject_context_describes [OF 1(6,1), of cfg] v(1,2) Some
    have "describes_request cfg (aaa_db s) (request_info a) n username now ctx" by simp
    moreover have "\<not> device_blocked (aaa_db s) (ri_mac (request_info a))"
      using frame sub v(2) Some by (auto simp: device_blocked_def)
    ultimately show ?thesis using ask 1(2,8) frame evaluate_policies [of d "aaa_db s"] by auto
  qed
qed

lemma authorize_Inr:
  assumes "authorize cfg s a now clock = (s', Inr dcn)"
  obtains nas d evs where "find_nas (aaa_db s) (ri_nas_ip (request_info a)) = Inr nas"
    "decide_request cfg s a (request_info a) nas
       (if ri_method (request_info a) \<in> {None, Some (u ''MAB'')} then [] else identity_of a (opt_text (ri_method (request_info a))))
       now clock = (d, evs, Inr dcn)"
    "\<exists>row. auth_logs (aaa_db s') = auth_logs d @ [row] \<and> alog_result row = (if accepted dcn then ACCEPT else REJECT) \<and>
       alog_nas_ip row = ri_nas_ip (request_info a) \<and> alog_mac_address row = opt_text (ri_mac (request_info a)) \<and>
       alog_vlan row = (if accepted dcn then dec_vlan dcn else None) \<and>
       alog_decision_digest row = (if accepted dcn then digest dcn else []) \<and> aaa_events s' = aaa_events s @ evs @ [AuthEvent row]"
proof -
  have m: "opt_text (ri_method (request_info a)) = u ''MAB'' \<or> opt_text (ri_method (request_info a)) = [] \<longleftrightarrow>
      ri_method (request_info a) \<in> {None, Some (u ''MAB'')}"
    by (auto simp: opt_text_def request_info_def AUTH_METHODS_def Let_def split: option.splits)
  obtain nas where nas: "find_nas (aaa_db s) (ri_nas_ip (request_info a)) = Inr nas"
    using assms by (auto simp: authorize_def Let_def split: sum.splits)
  obtain d evs r where dr: "decide_request cfg s a (request_info a) nas
       (if ri_method (request_info a) \<in> {None, Some (u ''MAB'')} then [] else identity_of a (opt_text (ri_method (request_info a))))
       now clock = (d, evs, r)"
    by (metis prod_cases3)
  have "r = Inr dcn \<and> aaa_db s' = log_decision d (decision_row d (request_info a) (opt_text (ri_method (request_info a)))
        (if ri_method (request_info a) \<in> {None, Some (u ''MAB'')} then [] else identity_of a (opt_text (ri_method (request_info a))))
        (nas_name_of nas) (if accepted dcn then ACCEPT else REJECT) (dec_reason dcn) (Some dcn) now) \<and>
      aaa_events s' = aaa_events s @ evs @ [AuthEvent (decision_row d (request_info a) (opt_text (ri_method (request_info a)))
        (if ri_method (request_info a) \<in> {None, Some (u ''MAB'')} then [] else identity_of a (opt_text (ri_method (request_info a))))
        (nas_name_of nas) (if accepted dcn then ACCEPT else REJECT) (dec_reason dcn) (Some dcn) now)]"
    using assms unfolding authorize_def Let_def nas m dr sum.case prod.case
    by (cases r) (auto simp: announce_def publish_def simp del: insert_iff)
  with nas dr show thesis by (intro that [of nas d evs]) (auto simp: log_decision_def decision_row_def)
qed

definition request_user :: "attrs \<Rightarrow> pystr" where
  "request_user a =
     (if ri_method (request_info a) \<in> {None, Some (u ''MAB'')} then [] else identity_of a (opt_text (ri_method (request_info a))))"

text \<open>C2. \<open>authorize\<close> accepts only a request with a known method from an enabled client, whose device is
  not blocked; over MAB only with the caller's own MAC as its name, otherwise only for an existing,
  enabled user; and only when the policies in force permit it: the decision returned is what the policy
  engine says, with the policies of the database, about exactly this request - its method, user and
  group, the station as the database knows it, the client, the network name and the time.\<close>

theorem authorize_accepts_only:
  assumes "authorize cfg s a now clock = (s', Inr dcn)" "accepted dcn"
  shows "\<exists>method n. ri_method (request_info a) = Some method \<and>
    find_nas (aaa_db s) (ri_nas_ip (request_info a)) = Inr (Some n) \<and> nas_enabled n \<and>
    \<not> device_blocked (aaa_db s) (ri_mac (request_info a)) \<and>
    (if method = u ''MAB''
     then ri_mac (request_info a) \<noteq> None \<and> normalize_mac (attrs_get a (u ''User-Name'')) = ri_mac (request_info a)
     else \<exists>i h. load_user (aaa_db s) (identity_of a method) = Some (i, h) \<and> ui_enabled i) \<and>
    (\<exists>ctx. describes_request cfg (aaa_db s) (request_info a) n (identity_of a method) now ctx \<and>
       evaluate (aaa_db s) (cfg_tz cfg) ctx = Inr dcn)"
  using assms(1)
proof (cases rule: authorize_Inr)
  case (1 nas d evs)
  from decide_request_accepts [OF 1(2) assms(2)] 1(1) show ?thesis
    by (auto simp: may_ask_policy_def opt_text_def split: if_splits intro: describes_request_MAB)
qed

text \<open>C3. Password methods: whatever happened before, a request over PAP, TTLS or PEAP is accepted only
  if \<open>authenticate\<close> said yes within the last 120 seconds to the same user from the same client and
  the same station.\<close>

theorem accept_needs_recent_password:
  assumes "aaa_reach cfg s t h" "authorize cfg s a now clock = (s', Inr dcn)" "accepted dcn"
    "ri_method (request_info a) = Some method" "method \<in> set PASSWORD_METHODS"
  shows "\<exists>a' at. (a', at) \<in> set h \<and> clock - at \<le> 120 * second \<and>
    verified_key_of (canonical_username (Some (user_name a'))) (request_info a') =
    verified_key_of (identity_of a method) (request_info a)"
  using assms(2)
proof (cases rule: authorize_Inr)
  case (1 nas d evs)
  have "method \<noteq> u ''MAB''" using assms(5) by (auto simp: PASSWORD_METHODS_def)
  with 1(2) assms(4)
  have "decide_request cfg s a (request_info a) nas (identity_of a method) now clock = (d, evs, Inr dcn)"
    by (simp add: opt_text_def)
  from decide_request_accepts [OF this assms(3)] assms(4,5)
  have "recently_verified (aaa_verified s) (verified_key_of (identity_of a method) (request_info a)) clock"
    by (auto simp: may_ask_policy_def)
  then obtain at where at: "od_get (aaa_verified s) (verified_key_of (identity_of a method) (request_info a)) = Some at"
    "clock - at \<le> 120 * second"
    by (auto simp: recently_verified_def VERIFIED_SECONDS_def split: option.splits)
  with aaa_reach_vouched [OF assms(1)] have "vouched h (verified_key_of (identity_of a method) (request_info a)) at" by blast
  then obtain a' where "(a', at) \<in> set h"
    "verified_key_of (canonical_username (Some (user_name a'))) (request_info a') = verified_key_of (identity_of a method) (request_info a)"
    unfolding vouched_def by metis
  with at(2) show ?thesis by blast
qed

text \<open>Every decision leaves exactly one row in the authentication log, with the result, VLAN and
  digest of the decision, and is announced after the row is written.\<close>

theorem authorize_logs_once:
  assumes "authorize cfg s a now clock = (s', Inr dcn)"
  shows "\<exists>row. auth_logs (aaa_db s') = auth_logs (aaa_db s) @ [row] \<and>
    alog_result row = (if accepted dcn then ACCEPT else REJECT) \<and> alog_nas_ip row = ri_nas_ip (request_info a) \<and>
    alog_vlan row = (if accepted dcn then dec_vlan dcn else None) \<and>
    alog_decision_digest row = (if accepted dcn then digest dcn else []) \<and> last (aaa_events s') = AuthEvent row"
  using assms
proof (cases rule: authorize_Inr)
  case (1 nas d evs)
  have "auth_logs d = auth_logs (aaa_db s)"
    using 1(2) by (auto simp: decide_request_def see_device_def Let_def split: option.splits if_splits prod.splits sum.splits)
  with 1(3) show ?thesis by fastforce
qed


section \<open>A concrete run\<close>

text \<open>A user logs in over PAP through one access point; used by the witnesses.\<close>

definition lab_req :: attrs where
  "lab_req = [(u ''user-name'', [u ''alice'']), (u ''user-password'', [u ''pass'']), (u ''naco-auth-method'', [u ''PAP'']),
     (u ''naco-nas-ip'', [u ''10.0.0.7''])]"

definition lab_db :: db where
  "lab_db = empty_db\<lparr>nas_clients := [lab_ap], policies := [permit_all]\<rparr>"

definition lab_cfg :: aaa_cfg where
  "lab_cfg = \<lparr>cfg_env = lab_env id, cfg_tz = (\<lambda>_. 0), cfg_oui = Map.empty\<rparr>"

lemma lab_names:
  "lower (u ''User-Name'') = u ''user-name''" "lower (u ''User-Password'') = u ''user-password''"
  "lower (u ''NACo-Auth-Method'') = u ''naco-auth-method''" "lower (u ''NACo-NAS-IP'') = u ''naco-nas-ip''"
  "lower (u ''Calling-Station-Id'') = u ''calling-station-id''" "lower (u ''Called-Station-Id'') = u ''called-station-id''"
  "lower (u ''Cisco-AVPair'') = u ''cisco-avpair''"
  by (simp_all add: lower_def lower_char_def u_def)

lemma lab_attrs:
  "attrs_get lab_req (u ''User-Name'') = Some (u ''alice'')" "attrs_get lab_req (u ''User-Password'') = Some (u ''pass'')"
  "attrs_get lab_req (u ''NACo-Auth-Method'') = Some (u ''PAP'')" "attrs_get lab_req (u ''NACo-NAS-IP'') = Some (u ''10.0.0.7'')"
  "attrs_get lab_req (u ''Calling-Station-Id'') = None" "attrs_get lab_req (u ''Called-Station-Id'') = None"
  "attrs_all lab_req (u ''Cisco-AVPair'') = []"
  by (simp_all add: attrs_get_def attrs_all_def lab_names lab_req_def od_get_def)

lemma lab_ssid: "n \<in> set SSID_ATTRIBUTES \<Longrightarrow> attrs_get lab_req n = None"
proof -
  have "list_all (\<lambda>n. lower n \<notin> {u ''user-name'', u ''user-password'', u ''naco-auth-method'', u ''naco-nas-ip''}) SSID_ATTRIBUTES"
    by (simp add: SSID_ATTRIBUTES_def lower_def lower_char_def u_def)
  then show "n \<in> set SSID_ATTRIBUTES \<Longrightarrow> ?thesis"
    by (auto simp: list_all_iff attrs_get_def lab_req_def od_get_def)
qed

lemma lab_ip: "parse_ip (Some (u ''10.0.0.7'')) = Some (u ''10.0.0.7'')"
  by (simp add: parse_ip_def ip_address_def parse_v4_def parse_octet_def show_v4_def strip_def lstrip_def rstrip_def is_space_def
      is_digit_def undec_def dec.simps u_def)

lemma lab_request_info:
  "request_info lab_req = \<lparr>ri_method = Some (u ''PAP''), ri_nas_ip = u ''10.0.0.7'', ri_mac = None, ri_ssid = None, ri_calling_station = []\<rparr>"
proof -
  have "map (\<lambda>n. strip (opt_text (attrs_get lab_req n))) SSID_ATTRIBUTES = map (\<lambda>_. []) SSID_ATTRIBUTES"
    by (rule map_cong) (simp_all add: lab_ssid opt_text_def strip_def lstrip_def rstrip_def)
  then have "find (\<lambda>v. v \<noteq> []) (map (\<lambda>n. strip (opt_text (attrs_get lab_req n))) SSID_ATTRIBUTES) = None"
    by (simp add: find_None_iff)
  then have "request_ssid lab_req = None"
    by (simp add: request_ssid_def lab_attrs parse_called_station_def)
  then show ?thesis
    by (simp add: request_info_def lab_attrs lab_ip opt_text_def AUTH_METHODS_def normalize_mac_def)
qed

lemma lab_nas: "find_nas lab_db (u ''10.0.0.7'') = Inr (Some lab_ap)"
  by (simp add: find_nas_def lab_db_def lab_ap_def)

definition lab_after :: aaa_state where
  "lab_after = fst (authenticate lab_cfg (initial_aaa lab_db) lab_req 0 0)"

lemma lab_login_db: "\<exists>d r. authenticate_user (lab_env id) lab_db (u ''alice'') (u ''pass'') 0 = Inr (d, r) \<and> ir_ok r \<and>
    nas_clients d = [lab_ap] \<and> policies d = [permit_all] \<and> (\<exists>i h. load_user d (u ''alice'') = Some (i, h) \<and> ui_enabled i)"
  by (simp add: authenticate_user_def canonical_alice load_user_def lab_db_def empty_db_def lab_env_def directory_login_def lab_ldap_login
      provision_def granted_def user_info_def Let_def)
    (simp add: lab_ldap_def granted_def)

lemma lab_authenticate:
  "snd (authenticate lab_cfg (initial_aaa lab_db) lab_req 0 0) = Inr True"
  "od_get (aaa_verified lab_after) (u ''alice'', u ''10.0.0.7'', []) = Some 0"
  "nas_clients (aaa_db lab_after) = [lab_ap]" "policies (aaa_db lab_after) = [permit_all]"
  "\<exists>i h. load_user (aaa_db lab_after) (u ''alice'') = Some (i, h) \<and> ui_enabled i"
proof -
  obtain d r where dr: "authenticate_user (lab_env id) lab_db (u ''alice'') (u ''pass'') 0 = Inr (d, r)" "ir_ok r"
    "nas_clients d = [lab_ap]" "policies d = [permit_all]" "\<exists>i h. load_user d (u ''alice'') = Some (i, h) \<and> ui_enabled i"
    using lab_login_db by blast
  have "authenticate lab_cfg (initial_aaa lab_db) lab_req 0 0 =
     ((initial_aaa lab_db)\<lparr>aaa_guesses := gg_success (GuessGuard_default 5) (guess_key (u ''alice'')) (guess_source (request_info lab_req)),
        aaa_db := d, aaa_verified := remember_verified [] (verified_key_of (u ''alice'') (request_info lab_req)) 0\<rparr>, Inr True)"
    using dr(1,2) by (simp add: authenticate_def lab_attrs opt_text_def initial_aaa_def fresh_guard_no_delay lab_cfg_def canonical_alice Let_def)
  then show "snd (authenticate lab_cfg (initial_aaa lab_db) lab_req 0 0) = Inr True"
    "od_get (aaa_verified lab_after) (u ''alice'', u ''10.0.0.7'', []) = Some 0"
    "nas_clients (aaa_db lab_after) = [lab_ap]" "policies (aaa_db lab_after) = [permit_all]"
    "\<exists>i h. load_user (aaa_db lab_after) (u ''alice'') = Some (i, h) \<and> ui_enabled i"
    using dr by (simp_all add: lab_after_def remember_verified_def verified_key_of_def lab_request_info or_text_def MAX_VERIFIED_def
        od_move_to_end_def od_del_def od_get_def)
qed

lemma evaluate_permit_policy: "policies d = [permit_all] \<Longrightarrow> evaluate d tz ctx =
   Inr \<lparr>dec_action = PERMIT, dec_policy_id = Some 1, dec_policy_name = u ''all'',
     dec_reason = u ''permitted by policy '' @ u ''all'', dec_vlan = Some 20, dec_reply_attributes = []\<rparr>"
  using evaluate_permit_all [of tz ctx] by (simp add: evaluate_def load_policies_def policy_rows_def)

lemma lab_authorize: "\<exists>s' dcn. authorize lab_cfg lab_after lab_req 0 60 = (s', Inr dcn) \<and> accepted dcn"
proof -
  obtain i h where ih: "load_user (aaa_db lab_after) (u ''alice'') = Some (i, h)" "ui_enabled i" using lab_authenticate(5) by blast
  have id: "identity_of lab_req (u ''PAP'') = u ''alice''" by (simp add: identity_of_def lab_attrs canonical_alice)
  have nas: "find_nas (aaa_db lab_after) (u ''10.0.0.7'') = Inr (Some lab_ap)"
    using lab_authenticate(3) by (simp add: find_nas_def) (simp add: lab_ap_def)
  have en: "nas_enabled lab_ap" by (simp add: lab_ap_def lab_nas_def)
  have rv: "recently_verified (aaa_verified lab_after) (u ''alice'', u ''10.0.0.7'', []) 60"
    by (simp add: recently_verified_def lab_authenticate(2) VERIFIED_SECONDS_def second_def)
  show ?thesis
    using ih en rv lab_authenticate(4)
    by (simp add: authorize_def lab_request_info opt_text_def nas id decide_request_def subject_context_def
        verified_key_of_def or_text_def evaluate_permit_policy accepted_def Let_def PASSWORD_METHODS_def)
qed

theorem authorize_accepts_only_witness:
  "\<exists>n. find_nas (aaa_db lab_after) (u ''10.0.0.7'') = Inr (Some n) \<and> nas_enabled n"
proof -
  obtain s' dcn where "authorize lab_cfg lab_after lab_req 0 60 = (s', Inr dcn)" "accepted dcn" using lab_authorize by blast
  from authorize_accepts_only [OF this] show ?thesis by (auto simp: lab_request_info)
qed

theorem authenticate_yes_means_verified_witness:
  "canonical_username (Some (user_name lab_req)) \<noteq> [] \<and> password_of lab_req \<noteq> []"
proof -
  have "authenticate lab_cfg (initial_aaa lab_db) lab_req 0 0 = (lab_after, Inr True)"
    using lab_authenticate(1) by (simp add: lab_after_def prod_eq_iff)
  from authenticate_yes_means_verified [OF this] show ?thesis by simp
qed

theorem accept_needs_recent_password_witness:
  "\<exists>a' at. (a', at) \<in> set [(lab_req, 0)] \<and> 60 - at \<le> 120 * second"
proof -
  have "authenticate lab_cfg (initial_aaa lab_db) lab_req 0 0 = (lab_after, Inr True)"
    using lab_authenticate(1) by (simp add: lab_after_def prod_eq_iff)
  then have "aaa_reach lab_cfg lab_after 0 [(lab_req, 0)]"
    using aaa_authenticate [OF aaa_start [of "initial_aaa lab_db" lab_cfg 0], of 0 lab_req 0 lab_after "Inr True"]
    by (simp add: initial_aaa_def)
  moreover obtain s' dcn where "authorize lab_cfg lab_after lab_req 0 60 = (s', Inr dcn)" "accepted dcn" using lab_authorize by blast
  ultimately show ?thesis
    using accept_needs_recent_password [of lab_cfg lab_after 0 "[(lab_req, 0)]" lab_req 0 60 s' dcn "u ''PAP''"]
    by (simp add: lab_request_info PASSWORD_METHODS_def)
qed

theorem authorize_logs_once_witness:
  "\<exists>s' dcn row. authorize lab_cfg lab_after lab_req 0 60 = (s', Inr dcn) \<and> auth_logs (aaa_db s') = auth_logs (aaa_db lab_after) @ [row]"
proof -
  obtain s' dcn where "authorize lab_cfg lab_after lab_req 0 60 = (s', Inr dcn)" using lab_authorize by blast
  with authorize_logs_once [OF this] show ?thesis by blast
qed

section \<open>What a decision depends on\<close>

text \<open>What a decision reads of a device, and of the station of a request.\<close>

definition device_view :: "Device \<Rightarrow> DeviceStatus \<times> pystr \<times> pystr" where
  "device_view v = (dev_status v, dev_device_type v, dev_vendor v)"

definition station_view :: "aaa_cfg \<Rightarrow> db \<Rightarrow> pystr option \<Rightarrow> (DeviceStatus \<times> pystr \<times> pystr) option" where
  "station_view cfg d mac =
     map_option (\<lambda>m. case map_option device_view (find (\<lambda>v. dev_mac_address v = m) (devices d)) of
                       None \<Rightarrow> (PENDING, [], vendor_for (cfg_oui cfg) m) | Some v \<Rightarrow> v) mac"

lemma subject_context_device:
  "map_option device_view a = map_option device_view b \<Longrightarrow>
    subject_context m n x mac a g nn ni ssid now = subject_context m n x mac b g nn ni ssid now"
  by (cases a; cases b) (auto simp: subject_context_def device_view_def device_state_def Let_def)

text \<open>The decision of \<open>_decide\<close> for a request that passes its first guards, over the database it began with.\<close>

definition decision_about :: "aaa_cfg \<Rightarrow> aaa_state \<Rightarrow> RequestInfo \<Rightarrow> pystr \<Rightarrow> NasClient \<Rightarrow> pystr \<Rightarrow> Device option \<Rightarrow> int \<Rightarrow> int \<Rightarrow> py_exc + Decision" where
  "decision_about cfg s req method n username dev now clock =
     (case subject_context method username
            (if method \<noteq> u ''MAB'' \<and> username \<noteq> [] then map_option fst (load_user (aaa_db s) username) else None) (ri_mac req) dev
            (case ri_mac req of Some m \<Rightarrow> guest_active (aaa_db s) m now | None \<Rightarrow> False) (nas_name n) (ri_nas_ip req) (ri_ssid req) now of
        Inl dcn \<Rightarrow> Inr dcn
      | Inr ctx \<Rightarrow>
          if method \<in> set PASSWORD_METHODS \<and> \<not> recently_verified (aaa_verified s) (verified_key_of username req) clock
          then Inr (deny (u ''password was not verified by NACo'') None []) else evaluate (aaa_db s) (cfg_tz cfg) ctx)"

lemma decision_about_view:
  "map_option device_view a = map_option device_view b \<Longrightarrow>
   decision_about cfg s req method n username a now clock = decision_about cfg s req method n username b now clock"
  unfolding decision_about_def using subject_context_device [of a b] by simp

lemma decide_request_answer:
  assumes "ri_method req = Some method" "nas_enabled n"
    "\<not> (method = u ''MAB'' \<and> (ri_mac req = None \<or> normalize_mac (attrs_get a (u ''User-Name'')) \<noteq> ri_mac req))"
    "map_option device_view dev = station_view cfg (aaa_db s) (ri_mac req)"
  shows "snd (snd (decide_request cfg s a req (Some n) username now clock)) = decision_about cfg s req method n username dev now clock"
proof (cases "ri_mac req")
  case None
  with assms show ?thesis by (auto simp: decide_request_def decision_about_def station_view_def Let_def)
next
  case (Some m)
  obtain d v e where v: "see_device cfg (aaa_db s) m (ri_nas_ip req) username now = (d, v, e)" by (metis prod_cases3)
  note frame = see_device_frame [OF v]
  have ev: "evaluate d (cfg_tz cfg) ctx = evaluate (aaa_db s) (cfg_tz cfg) ctx" for ctx using frame by (intro evaluate_policies) simp
  have g: "guest_active d m now = guest_active (aaa_db s) m now" using frame by (simp add: guest_active_def)
  have "map_option device_view (Some v) = map_option device_view dev"
    using frame assms(4) Some by (auto simp: station_view_def device_view_def split: option.splits)
  note view = decision_about_view [OF this]
  have "\<not> \<not> nas_enabled n" using assms(2) by simp
  note guards = if_not_P [OF this] if_not_P [OF assms(3) [unfolded Some]]
  show ?thesis
    unfolding view [symmetric]
    unfolding decide_request_def decision_about_def Let_def assms(1) guards Some option.case prod.case v snd_conv ev g ..
qed

lemma authorize_answer:
  assumes "ri_method (request_info a) = Some method" "find_nas (aaa_db s) (ri_nas_ip (request_info a)) = Inr nas"
  shows "snd (authorize cfg s a now clock) =
    snd (snd (decide_request cfg s a (request_info a) nas (if method = u ''MAB'' then [] else identity_of a method) now clock))"
proof -
  have "method \<noteq> []" using assms(1) by (auto simp: request_info_def AUTH_METHODS_def Let_def u_def split: option.splits if_splits)
  with assms show ?thesis
    by (auto simp: authorize_def opt_text_def Let_def split: prod.splits sum.splits)
qed

section \<open>Accounting\<close>

definition session_key :: "RadiusSession \<Rightarrow> pystr \<times> pystr" where
  "session_key x = (rs_nas_ip x, rs_acct_session_id x)"

definition sessions_ok :: "RadiusSession list \<Rightarrow> bool" where
  "sessions_ok xs \<longleftrightarrow> distinct (map session_key xs) \<and> distinct (map rs_id xs)"

lemma is_session_key: "is_session n i x \<longleftrightarrow> session_key x = (n, i)"
  by (auto simp: is_session_def session_key_def)

lemma sessions_ok_filter: "sessions_ok xs \<Longrightarrow> sessions_ok (filter P xs)"
  by (simp add: sessions_ok_def distinct_map_filter)

lemma put_session_present:
  assumes "sessions_ok xs" "x \<in> set xs" "session_key y = session_key x" "rs_id y = rs_id x"
  shows "sessions_ok (put_session y xs) \<and> set (put_session y xs) = insert y (set xs - {x})"
proof -
  have ex: "list_ex (\<lambda>z. rs_id z = rs_id y) xs" using assms(2,4) by (auto simp: list_ex_iff)
  have same: "z \<in> set xs \<Longrightarrow> rs_id z = rs_id y \<longleftrightarrow> z = x" for z
    using assms by (auto simp: sessions_ok_def distinct_map dest: inj_onD)
  have "map session_key (map (\<lambda>z. if rs_id z = rs_id y then y else z) xs) = map session_key xs"
    "map rs_id (map (\<lambda>z. if rs_id z = rs_id y then y else z) xs) = map rs_id xs"
    using same assms(3,4) by (auto intro!: map_cong)
  moreover have "set (map (\<lambda>z. if rs_id z = rs_id y then y else z) xs) = insert y (set xs - {x})"
    using same assms(2) by (auto simp: image_iff)
  ultimately show ?thesis
    using assms(1) ex unfolding put_session_def sessions_ok_def by (simp del: map_map set_map)
qed

lemma put_session_fresh:
  assumes "sessions_ok xs" "session_key y \<notin> session_key ` set xs" "rs_id y \<notin> rs_id ` set xs"
  shows "sessions_ok (put_session y xs) \<and> set (put_session y xs) = insert y (set xs)"
proof -
  have "\<not> list_ex (\<lambda>z. rs_id z = rs_id y) xs" using assms(3) by (auto simp: list_ex_iff image_iff)
  then show ?thesis using assms by (auto simp: put_session_def sessions_ok_def)
qed

lemma session_fields [simp]:
  "session_key (session_report a req x) = session_key x" "rs_id (session_report a req x) = rs_id x"
  "session_key (session_context c n x) = session_key x" "rs_id (session_context c n x) = rs_id x"
  "session_key (session_counters a now x) = session_key x" "rs_id (session_counters a now x) = rs_id x"
  by (simp_all add: session_report_def session_context_def session_counters_def session_key_def Let_def split: option.splits)

text \<open>The accept a session owes its context to: the newest of the last day at the same client, or at another
  address of the same network client, for the same station, or for the same user when no station is known.\<close>

definition accept_row :: "db \<Rightarrow> pystr \<Rightarrow> pystr \<Rightarrow> pystr \<Rightarrow> int \<Rightarrow> AuthLog \<Rightarrow> bool" where
  "accept_row d nas mac username now r \<longleftrightarrow>
     alog_result r = ACCEPT \<and> now - alog_timestamp r < 24 * 3600 * second \<and>
     (alog_nas_ip r = nas \<or>
        (\<exists>n. find_nas d nas = Inr (Some n) \<and> 47 \<in> set (nas_ip_address n) \<and> alog_nas_name r = nas_name n)) \<and>
     (if mac \<noteq> [] then alog_mac_address r = mac else username \<noteq> [] \<and> alog_username r = username)"

definition newest_row :: "(AuthLog \<Rightarrow> bool) \<Rightarrow> AuthLog list \<Rightarrow> AuthLog option \<Rightarrow> bool" where
  "newest_row P rows c \<longleftrightarrow>
     (case c of
        None \<Rightarrow> \<forall>r\<in>set rows. \<not> P r
      | Some r \<Rightarrow> P r \<and> (\<exists>older newer. rows = older @ r # newer \<and> (\<forall>x\<in>set newer. \<not> P x)))"

lemma newest_row_last_filter: "newest_row P rows (if filter P rows = [] then None else Some (last (filter P rows)))"
proof (cases "filter P rows = []")
  case False
  then have "\<exists>r\<in>set rows. P r" by (auto simp: filter_empty_conv)
  then obtain older r newer where r: "rows = older @ r # newer" "P r" "\<forall>x\<in>set newer. \<not> P x" by (metis split_list_last_prop)
  then have "filter P newer = []" by (simp add: filter_empty_conv)
  with r show ?thesis by (auto simp: newest_row_def)
qed (simp add: newest_row_def filter_empty_conv)

lemma latest_accept_newest:
  assumes "latest_accept d nas (none_if_empty mac) username now = Inr c"
  shows "newest_row (accept_row d nas mac username now) (auth_logs d) c"
proof -
  obtain n where n: "find_nas d nas = Inr n" using assms by (auto simp: latest_accept_def rbind_eq_Inr)
  let ?rows = "filter (accept_row d nas mac username now) (auth_logs d)"
  have "c = (if ?rows = [] then None else Some (last ?rows))"
  proof (cases "mac = [] \<and> username = []")
    case True
    then have "?rows = []" by (simp add: accept_row_def)
    with True assms n show ?thesis by (simp add: latest_accept_def none_if_empty_def opt_text_def)
  next
    case False
    let ?same = "\<lambda>r. alog_nas_ip r = nas \<or>
        (case n of Some n \<Rightarrow> 47 \<in> set (nas_ip_address n) \<and> alog_nas_name r = nas_name n | None \<Rightarrow> False)"
    have "?rows = filter (if mac \<noteq> [] then (\<lambda>r. Some (alog_mac_address r) = Some mac) else (\<lambda>r. alog_username r = username))
        (filter (\<lambda>r. ?same r \<and> alog_result r = ACCEPT \<and> alog_timestamp r > now - day_us) (auth_logs d))"
      using False n by (auto simp: accept_row_def day_us_def split: option.splits intro!: filter_cong)
    with False assms n show ?thesis
      by (auto simp: latest_accept_def none_if_empty_def opt_text_def simp del: filter_filter split: if_splits)
  qed
  with newest_row_last_filter show ?thesis by simp
qed

text \<open>The row a Start or Interim-Update writes, given the row there was, if any, and that accept: what the
  request reports replaces what was known, what it leaves out stays.\<close>

definition session_row :: "attrs \<Rightarrow> RadiusSession option \<Rightarrow> AuthLog option \<Rightarrow> int \<Rightarrow> RadiusSession \<Rightarrow> bool" where
  "session_row a old c now y \<longleftrightarrow>
     (let req = request_info a;
          name = take 64 (opt_text (attrs_get a (u ''User-Name'')));
          was = (\<lambda>f. case old of Some x \<Rightarrow> f x | None \<Rightarrow> []);
          count = (\<lambda>f. case old of Some x \<Rightarrow> f x | None \<Rightarrow> 0);
          long = (\<lambda>low giga. map_option (\<lambda>n. (case attrs_int a giga of Some g \<Rightarrow> g | None \<Rightarrow> 0) * 2 ^ 32 + n) (attrs_int a low));
          given = (\<lambda>v f. case v of Some n \<Rightarrow> n | None \<Rightarrow> count f)
      in (case old of
            Some x \<Rightarrow> rs_id y = rs_id x \<and> rs_started_at y = rs_started_at x
          | None \<Rightarrow> rs_started_at y = now - (case attrs_int a (u ''Acct-Session-Time'') of Some t \<Rightarrow> t | None \<Rightarrow> 0) * second) \<and>
         rs_updated_at y = now \<and>
         rs_acct_username y = or_empty name (was rs_acct_username) \<and>
         rs_calling_station_id y = or_empty (ri_calling_station req) (was rs_calling_station_id) \<and>
         rs_nas_ip_address y = or_text (parse_ip (attrs_get a (u ''NAS-IP-Address''))) (was rs_nas_ip_address) \<and>
         rs_nas_identifier y = or_empty (take 64 (opt_text (attrs_get a (u ''NAS-Identifier'')))) (was rs_nas_identifier) \<and>
         rs_audit_session_id y = or_empty (audit_session_id a) (was rs_audit_session_id) \<and>
         rs_mac_address y = or_text (ri_mac req) (was rs_mac_address) \<and>
         rs_framed_ip y = or_text (parse_ip (attrs_get a (u ''Framed-IP-Address'')))
           (or_text (parse_ip (attrs_get a (u ''Framed-IPv6-Address''))) (was rs_framed_ip)) \<and>
         rs_username y = or_empty (case c of Some r \<Rightarrow> alog_username r | None \<Rightarrow> [])
           (or_empty (was rs_username) (case c of Some _ \<Rightarrow> [] | None \<Rightarrow> or_empty (canonical_username (Some name)) name)) \<and>
         rs_auth_method y = (case c of Some r \<Rightarrow> alog_auth_method r | None \<Rightarrow> was rs_auth_method) \<and>
         rs_policy_name y = (case c of Some r \<Rightarrow> alog_policy_name r | None \<Rightarrow> was rs_policy_name) \<and>
         rs_vlan y = (case c of Some r \<Rightarrow> alog_vlan r | None \<Rightarrow> Option.bind old rs_vlan) \<and>
         rs_decision_digest y = (case c of Some r \<Rightarrow> alog_decision_digest r | None \<Rightarrow> was rs_decision_digest) \<and>
         rs_ssid y = or_empty (or_text (ri_ssid req) (was rs_ssid)) (case c of Some r \<Rightarrow> alog_ssid r | None \<Rightarrow> []) \<and>
         rs_input_octets y = given (long (u ''Acct-Input-Octets'') (u ''Acct-Input-Gigawords'')) rs_input_octets \<and>
         rs_output_octets y = given (long (u ''Acct-Output-Octets'') (u ''Acct-Output-Gigawords'')) rs_output_octets \<and>
         rs_session_time y = given (attrs_int a (u ''Acct-Session-Time'')) rs_session_time)"

lemma octets_map:
  "octets a low giga = map_option (\<lambda>n. (case attrs_int a giga of Some g \<Rightarrow> g | None \<Rightarrow> 0) * 2 ^ 32 + n) (attrs_int a low)"
  by (simp add: octets_def split: option.splits)

lemma or_empty_framed: "or_empty (or_text p (opt_text q)) w = or_text p (or_text q w)"
  by (auto simp: or_empty_def or_text_def opt_text_def split: option.splits)

lemma session_context_columns:
  "rs_username (session_context c n x) = or_empty (case c of Some r \<Rightarrow> alog_username r | None \<Rightarrow> [])
     (or_empty (rs_username x) (case c of Some _ \<Rightarrow> [] | None \<Rightarrow> or_empty (canonical_username (Some n)) n))"
  "rs_auth_method (session_context c n x) = (case c of Some r \<Rightarrow> alog_auth_method r | None \<Rightarrow> rs_auth_method x)"
  "rs_policy_name (session_context c n x) = (case c of Some r \<Rightarrow> alog_policy_name r | None \<Rightarrow> rs_policy_name x)"
  "rs_vlan (session_context c n x) = (case c of Some r \<Rightarrow> alog_vlan r | None \<Rightarrow> rs_vlan x)"
  "rs_decision_digest (session_context c n x) = (case c of Some r \<Rightarrow> alog_decision_digest r | None \<Rightarrow> rs_decision_digest x)"
  "rs_ssid (session_context c n x) = or_empty (rs_ssid x) (case c of Some r \<Rightarrow> alog_ssid r | None \<Rightarrow> [])"
  by (cases c; simp add: session_context_def or_empty_def)+

lemma session_context_keeps:
  "rs_acct_username (session_context c n x) = rs_acct_username x" "rs_calling_station_id (session_context c n x) = rs_calling_station_id x"
  "rs_nas_ip_address (session_context c n x) = rs_nas_ip_address x" "rs_nas_identifier (session_context c n x) = rs_nas_identifier x"
  "rs_audit_session_id (session_context c n x) = rs_audit_session_id x" "rs_mac_address (session_context c n x) = rs_mac_address x"
  "rs_framed_ip (session_context c n x) = rs_framed_ip x" "rs_started_at (session_context c n x) = rs_started_at x"
  "rs_input_octets (session_context c n x) = rs_input_octets x" "rs_output_octets (session_context c n x) = rs_output_octets x"
  "rs_session_time (session_context c n x) = rs_session_time x" "rs_id (session_context c n x) = rs_id x"
  by (cases c; simp add: session_context_def)+

lemma session_counters_columns:
  "rs_id (session_counters a now x) = rs_id x" "rs_username (session_counters a now x) = rs_username x"
  "rs_acct_username (session_counters a now x) = rs_acct_username x" "rs_calling_station_id (session_counters a now x) = rs_calling_station_id x"
  "rs_nas_ip_address (session_counters a now x) = rs_nas_ip_address x" "rs_nas_identifier (session_counters a now x) = rs_nas_identifier x"
  "rs_audit_session_id (session_counters a now x) = rs_audit_session_id x" "rs_mac_address (session_counters a now x) = rs_mac_address x"
  "rs_framed_ip (session_counters a now x) = rs_framed_ip x" "rs_ssid (session_counters a now x) = rs_ssid x"
  "rs_auth_method (session_counters a now x) = rs_auth_method x" "rs_policy_name (session_counters a now x) = rs_policy_name x"
  "rs_vlan (session_counters a now x) = rs_vlan x" "rs_decision_digest (session_counters a now x) = rs_decision_digest x"
  "rs_started_at (session_counters a now x) = rs_started_at x"
  "rs_updated_at (session_counters a now x) = now"
  "rs_input_octets (session_counters a now x) =
     (case octets a (u ''Acct-Input-Octets'') (u ''Acct-Input-Gigawords'') of Some n \<Rightarrow> n | None \<Rightarrow> rs_input_octets x)"
  "rs_output_octets (session_counters a now x) =
     (case octets a (u ''Acct-Output-Octets'') (u ''Acct-Output-Gigawords'') of Some n \<Rightarrow> n | None \<Rightarrow> rs_output_octets x)"
  "rs_session_time (session_counters a now x) = (case attrs_int a (u ''Acct-Session-Time'') of Some n \<Rightarrow> n | None \<Rightarrow> rs_session_time x)"
  by (simp_all add: session_counters_def)

lemma session_report_columns:
  "rs_id (session_report a req x) = rs_id x" "rs_username (session_report a req x) = rs_username x"
  "rs_auth_method (session_report a req x) = rs_auth_method x" "rs_policy_name (session_report a req x) = rs_policy_name x"
  "rs_vlan (session_report a req x) = rs_vlan x" "rs_decision_digest (session_report a req x) = rs_decision_digest x"
  "rs_started_at (session_report a req x) = rs_started_at x" "rs_input_octets (session_report a req x) = rs_input_octets x"
  "rs_output_octets (session_report a req x) = rs_output_octets x" "rs_session_time (session_report a req x) = rs_session_time x"
  "rs_acct_username (session_report a req x) = or_empty (take 64 (opt_text (attrs_get a (u ''User-Name'')))) (rs_acct_username x)"
  "rs_calling_station_id (session_report a req x) = or_empty (ri_calling_station req) (rs_calling_station_id x)"
  "rs_nas_ip_address (session_report a req x) = or_text (parse_ip (attrs_get a (u ''NAS-IP-Address''))) (rs_nas_ip_address x)"
  "rs_nas_identifier (session_report a req x) = or_empty (take 64 (opt_text (attrs_get a (u ''NAS-Identifier'')))) (rs_nas_identifier x)"
  "rs_audit_session_id (session_report a req x) = or_empty (audit_session_id a) (rs_audit_session_id x)"
  "rs_mac_address (session_report a req x) = or_text (ri_mac req) (rs_mac_address x)"
  "rs_framed_ip (session_report a req x) = or_text (parse_ip (attrs_get a (u ''Framed-IP-Address'')))
     (or_text (parse_ip (attrs_get a (u ''Framed-IPv6-Address''))) (rs_framed_ip x))"
  "rs_ssid (session_report a req x) = or_text (ri_ssid req) (rs_ssid x)"
  by (simp_all add: session_report_def Let_def or_empty_framed)

lemmas session_columns = session_counters_columns session_context_columns session_context_keeps session_report_columns

lemma written_row:
  assumes "\<forall>x. old = Some x \<longrightarrow> x0 = x" "old = None \<longrightarrow> x0 = new_session d nas sid
      (now - (case attrs_int a (u ''Acct-Session-Time'') of Some t \<Rightarrow> t | None \<Rightarrow> 0) * second) now"
  shows "session_row a old c now (session_counters a now (session_context c (take 64 (opt_text (attrs_get a (u ''User-Name''))))
     (session_report a (request_info a) x0)))"
proof -
  have before: "rs_acct_username x0 = (case old of Some x \<Rightarrow> rs_acct_username x | None \<Rightarrow> [])"
    "rs_calling_station_id x0 = (case old of Some x \<Rightarrow> rs_calling_station_id x | None \<Rightarrow> [])"
    "rs_nas_ip_address x0 = (case old of Some x \<Rightarrow> rs_nas_ip_address x | None \<Rightarrow> [])"
    "rs_nas_identifier x0 = (case old of Some x \<Rightarrow> rs_nas_identifier x | None \<Rightarrow> [])"
    "rs_audit_session_id x0 = (case old of Some x \<Rightarrow> rs_audit_session_id x | None \<Rightarrow> [])"
    "rs_mac_address x0 = (case old of Some x \<Rightarrow> rs_mac_address x | None \<Rightarrow> [])"
    "rs_framed_ip x0 = (case old of Some x \<Rightarrow> rs_framed_ip x | None \<Rightarrow> [])"
    "rs_ssid x0 = (case old of Some x \<Rightarrow> rs_ssid x | None \<Rightarrow> [])"
    "rs_username x0 = (case old of Some x \<Rightarrow> rs_username x | None \<Rightarrow> [])"
    "rs_auth_method x0 = (case old of Some x \<Rightarrow> rs_auth_method x | None \<Rightarrow> [])"
    "rs_policy_name x0 = (case old of Some x \<Rightarrow> rs_policy_name x | None \<Rightarrow> [])"
    "rs_decision_digest x0 = (case old of Some x \<Rightarrow> rs_decision_digest x | None \<Rightarrow> [])"
    "rs_vlan x0 = Option.bind old rs_vlan" "rs_input_octets x0 = (case old of Some x \<Rightarrow> rs_input_octets x | None \<Rightarrow> 0)"
    "rs_output_octets x0 = (case old of Some x \<Rightarrow> rs_output_octets x | None \<Rightarrow> 0)"
    "rs_session_time x0 = (case old of Some x \<Rightarrow> rs_session_time x | None \<Rightarrow> 0)"
    using assms by (cases old; simp add: new_session_def)+
  have "case old of Some x \<Rightarrow> rs_id x0 = rs_id x \<and> rs_started_at x0 = rs_started_at x
     | None \<Rightarrow> rs_started_at x0 = now - (case attrs_int a (u ''Acct-Session-Time'') of Some t \<Rightarrow> t | None \<Rightarrow> 0) * second"
    using assms by (cases old) (simp_all add: new_session_def)
  then show ?thesis
    unfolding session_row_def Let_def session_columns octets_map before by (cases old) simp_all
qed

text \<open>The session with a key, if there is one.\<close>

definition held :: "RadiusSession set \<Rightarrow> pystr \<times> pystr \<Rightarrow> RadiusSession option \<Rightarrow> bool" where
  "held S k old \<longleftrightarrow> (case old of Some x \<Rightarrow> x \<in> S \<and> session_key x = k | None \<Rightarrow> k \<notin> session_key ` S)"

lemma find_session_held: "held (set xs) (nas, sid) (find (is_session nas sid) xs)"
proof (cases "find (is_session nas sid) xs")
  case None
  then have "(nas, sid) \<notin> session_key ` set xs" by (auto simp: find_None_iff is_session_key)
  with None show ?thesis by (simp add: held_def)
next
  case (Some x)
  then have "x \<in> set xs \<and> session_key x = (nas, sid)" by (auto simp: find_Some_iff is_session_key)
  with Some show ?thesis by (simp add: held_def)
qed

lemma session_update_writes:
  assumes "session_update d a (request_info a) sid now = Inr d'"
  obtains c y where
    "session_row a (find (is_session (ri_nas_ip (request_info a)) sid) (radius_sessions d)) c now y"
    "newest_row (accept_row d (ri_nas_ip (request_info a)) (rs_mac_address y)
       (canonical_username (Some (take 64 (opt_text (attrs_get a (u ''User-Name'')))))) now) (auth_logs d) c"
    "session_key y = (ri_nas_ip (request_info a), sid)"
    "find (is_session (ri_nas_ip (request_info a)) sid) (radius_sessions d) = None \<longrightarrow> rs_id y = next_id rs_id (radius_sessions d)"
    "d' = d\<lparr>radius_sessions := put_session y (radius_sessions d)\<rparr>"
proof -
  let ?req = "request_info a" and ?old = "find (is_session (ri_nas_ip (request_info a)) sid) (radius_sessions d)"
  let ?name = "take 64 (opt_text (attrs_get a (u ''User-Name'')))"
  define begun where "begun = now - (case attrs_int a (u ''Acct-Session-Time'') of Some t \<Rightarrow> t | None \<Rightarrow> 0) * second"
  define x0 where "x0 = (case ?old of Some x \<Rightarrow> x | None \<Rightarrow> new_session d (ri_nas_ip ?req) sid begun now)"
  obtain c where c: "latest_accept d (ri_nas_ip ?req) (none_if_empty (rs_mac_address (session_report a ?req x0))) (canonical_username (Some ?name)) now = Inr c"
    "commit_session (session_counters a now (session_context c ?name (session_report a ?req x0))) d = Inr d'"
    using assms unfolding session_update_def Let_def x0_def begun_def
    by (auto simp: rbind_eq_Inr minus_seconds_def Let_def split: option.splits if_splits)
  let ?y = "session_counters a now (session_context c ?name (session_report a ?req x0))"
  have row: "session_row a ?old c now ?y" by (rule written_row) (auto simp: x0_def begun_def)
  have "rs_mac_address (session_report a ?req x0) = rs_mac_address ?y"
    by (simp add: session_columns)
  moreover have "session_key ?y = (ri_nas_ip ?req, sid)" "?old = None \<longrightarrow> rs_id ?y = next_id rs_id (radius_sessions d)"
    using find_session_held [of "radius_sessions d" "ri_nas_ip ?req" sid]
    by (auto simp: x0_def held_def split: option.splits) (auto simp: new_session_def session_key_def)
  moreover have "d' = d\<lparr>radius_sessions := put_session ?y (radius_sessions d)\<rparr>"
    using c(2) by (simp add: commit_session_def split: if_splits)
  ultimately show thesis using row latest_accept_newest [of d] c(1) by (intro that [of c ?y]) auto
qed

lemma put_session_key:
  assumes "sessions_ok xs" "held (set xs) (session_key y) old" "\<forall>x. old = Some x \<longrightarrow> rs_id y = rs_id x"
    "old = None \<longrightarrow> rs_id y = next_id rs_id xs"
  shows "sessions_ok (put_session y xs) \<and> set (put_session y xs) = insert y {x \<in> set xs. session_key x \<noteq> session_key y}"
proof (cases old)
  case None
  with assms(2) have no: "session_key y \<notin> session_key ` set xs" by (simp add: held_def)
  have "rs_id y \<notin> rs_id ` set xs" using next_id_fresh [of _ xs rs_id] assms(4) None by force
  with put_session_fresh [OF assms(1) no] have "sessions_ok (put_session y xs) \<and> set (put_session y xs) = insert y (set xs)" by simp
  moreover have "{x \<in> set xs. session_key x \<noteq> session_key y} = set xs" using no by (auto simp: image_iff)
  ultimately show ?thesis by simp
next
  case (Some x)
  with assms(2) have x: "x \<in> set xs" "session_key y = session_key x" by (simp_all add: held_def)
  have "inj_on session_key (set xs)" using assms(1) by (simp add: sessions_ok_def distinct_map)
  then have "z = x \<longleftrightarrow> session_key z = session_key y" if "z \<in> set xs" for z
    using that x unfolding inj_on_def by metis
  then have "set xs - {x} = {z \<in> set xs. session_key z \<noteq> session_key y}" by blast
  with put_session_present [OF assms(1) x] assms(3) Some show ?thesis by simp
qed

text \<open>The kind of an accounting request.\<close>

definition acct_status :: "attrs \<Rightarrow> pystr option" where
  "acct_status a = map_of STATUS (lower (opt_text (attrs_get a (u ''Acct-Status-Type''))))"

definition acct_sid :: "attrs \<Rightarrow> pystr" where
  "acct_sid a = take 64 (opt_text (attrs_get a (u ''Acct-Session-Id'')))"

lemma accounting_update:
  assumes "sessions_ok (radius_sessions d)" "session_update d a (request_info a) sid now = Inr d'"
  shows "sessions_ok (radius_sessions d') \<and> d' = d\<lparr>radius_sessions := radius_sessions d'\<rparr> \<and>
    (\<exists>y prev c. held (set (radius_sessions d)) (ri_nas_ip (request_info a), sid) prev \<and>
       newest_row (accept_row d (ri_nas_ip (request_info a)) (rs_mac_address y)
         (canonical_username (Some (take 64 (opt_text (attrs_get a (u ''User-Name'')))))) now) (auth_logs d) c \<and>
       session_row a prev c now y \<and> session_key y = (ri_nas_ip (request_info a), sid) \<and>
       set (radius_sessions d') = insert y {x \<in> set (radius_sessions d). session_key x \<noteq> (ri_nas_ip (request_info a), sid)})"
proof -
  let ?old = "find (is_session (ri_nas_ip (request_info a)) sid) (radius_sessions d)"
  from session_update_writes [OF assms(2)] obtain c y where y: "session_row a ?old c now y"
    "newest_row (accept_row d (ri_nas_ip (request_info a)) (rs_mac_address y)
       (canonical_username (Some (take 64 (opt_text (attrs_get a (u ''User-Name'')))))) now) (auth_logs d) c"
    "session_key y = (ri_nas_ip (request_info a), sid)" "?old = None \<longrightarrow> rs_id y = next_id rs_id (radius_sessions d)"
    "d' = d\<lparr>radius_sessions := put_session y (radius_sessions d)\<rparr>" by blast
  have held: "held (set (radius_sessions d)) (session_key y) ?old" using find_session_held y(3) by simp
  have "\<forall>x. ?old = Some x \<longrightarrow> rs_id y = rs_id x" using y(1) by (auto simp: session_row_def Let_def)
  from put_session_key [OF assms(1) held this y(4)] y held show ?thesis by (auto intro!: exI [of _ y])
qed

lemma accounting_session_cases:
  assumes "accounting s a now = (s', e)" "acct_status a = Some st" "ri_nas_ip (request_info a) \<noteq> []"
    "st \<notin> {u ''accounting-on'', u ''accounting-off''}"
  obtains (none) "acct_sid a = []" "s' = s" "e = None"
  | (stop) "acct_sid a \<noteq> []" "st = u ''stop''" "e = None" "aaa_db s' = (aaa_db s)\<lparr>radius_sessions :=
      filter (\<lambda>x. session_key x \<noteq> (ri_nas_ip (request_info a), acct_sid a)) (radius_sessions (aaa_db s))\<rparr>"
  | (failed) x where "acct_sid a \<noteq> []" "st \<noteq> u ''stop''" "s' = s" "e = Some x"
  | (row) "acct_sid a \<noteq> []" "st \<noteq> u ''stop''" "e = None" "session_update (aaa_db s) a (request_info a) (acct_sid a) now = Inr (aaa_db s')"
proof -
  have off: "\<not> (st = u ''accounting-on'' \<or> st = u ''accounting-off'')" using assms(4) by simp
  note acc = assms(1) [unfolded accounting_def Let_def, folded acct_status_def acct_sid_def,
      unfolded assms(2) option.case if_not_P [OF assms(3)] if_not_P [OF off]]
  consider "acct_sid a = []" | "acct_sid a \<noteq> []" "st = u ''stop''" | "acct_sid a \<noteq> []" "st \<noteq> u ''stop''" by blast
  then show thesis
  proof cases
    case 1
    with acc show thesis by (intro none) auto
  next
    case 2
    from acc [unfolded if_not_P [OF 2(1)] if_P [OF 2(2)] is_session_key] show thesis by (intro stop [OF 2]) (auto simp: publish_def)
  next
    case 3
    show thesis
    proof (cases "session_update (aaa_db s) a (request_info a) (acct_sid a) now")
      case (Inl x)
      with 3 acc show thesis by (intro failed [OF 3, of x]) auto
    next
      case (Inr d')
      with 3 acc have "e = None" "aaa_db s' = d'" by (auto simp: publish_def)
      with Inr show thesis by (intro row [OF 3]) simp_all
    qed
  qed
qed

text \<open>C5. The session table follows the accounting requests.  There is never more than one session per
  client and session id; Start and Interim-Update leave exactly one row for it, Stop leaves none,
  Accounting-On and -Off leave none of that client, with or without a session id, and no request
  touches another session or another table.  The row written is fixed in every column: what the
  request reports, what was known before, and the context of the newest accept of the last day.  A
  request without a known status, a client address or (for a session) a session id changes nothing,
  and so does one that raises.\<close>

theorem accounting_sessions:
  assumes "sessions_ok (radius_sessions (aaa_db s))" "accounting s a now = (s', e)"
  shows "sessions_ok (radius_sessions (aaa_db s')) \<and> (e \<noteq> None \<longrightarrow> s' = s) \<and>
    aaa_db s' = (aaa_db s)\<lparr>radius_sessions := radius_sessions (aaa_db s')\<rparr> \<and>
    (let old = set (radius_sessions (aaa_db s)); new = set (radius_sessions (aaa_db s'));
         nas = ri_nas_ip (request_info a); sid = acct_sid a;
         name = canonical_username (Some (take 64 (opt_text (attrs_get a (u ''User-Name''))))) in
     case acct_status a of
       None \<Rightarrow> new = old
     | Some st \<Rightarrow>
         if nas = [] then new = old
         else if st \<in> {u ''accounting-on'', u ''accounting-off''} then new = {x \<in> old. rs_nas_ip x \<noteq> nas}
         else if sid = [] then new = old
         else if st = u ''stop'' then new = {x \<in> old. session_key x \<noteq> (nas, sid)}
         else e = None \<longrightarrow>
           (\<exists>y prev c. held old (nas, sid) prev \<and>
              newest_row (accept_row (aaa_db s) nas (rs_mac_address y) name now) (auth_logs (aaa_db s)) c \<and>
              session_row a prev c now y \<and> session_key y = (nas, sid) \<and>
              new = insert y {x \<in> old. session_key x \<noteq> (nas, sid)}))"
proof -
  note acc = assms(2) [unfolded accounting_def Let_def, folded acct_status_def acct_sid_def]
  let ?nas = "ri_nas_ip (request_info a)"
  consider (same) "acct_status a = None \<or> ?nas = []"
    | (on) st where "acct_status a = Some st" "?nas \<noteq> []" "st \<in> {u ''accounting-on'', u ''accounting-off''}"
    | (other) st where "acct_status a = Some st" "?nas \<noteq> []" "st \<notin> {u ''accounting-on'', u ''accounting-off''}"
    by (cases "acct_status a") auto
  then show ?thesis
  proof cases
    case same
    with acc have "s' = s" by (auto split: option.splits)
    with same assms(1) show ?thesis by (auto simp: Let_def split: option.splits)
  next
    case (on st)
    with acc have "e = None" "aaa_db s' = (aaa_db s)\<lparr>radius_sessions := filter (\<lambda>x. rs_nas_ip x \<noteq> ?nas) (radius_sessions (aaa_db s))\<rparr>"
      by (auto simp: publish_def)
    with on sessions_ok_filter [OF assms(1)] show ?thesis by (simp add: Let_def)
  next
    case (other st)
    with assms(2) show ?thesis
    proof (cases rule: accounting_session_cases)
      case none
      with other assms(1) show ?thesis by (simp add: Let_def)
    next
      case stop
      with sessions_ok_filter [OF assms(1)] show ?thesis
        unfolding Let_def other(1) option.case if_not_P [OF other(2)] if_not_P [OF other(3)] if_not_P [OF stop(1)] if_P [OF stop(2)]
        by simp
    next
      case (failed x)
      with other assms(1) show ?thesis by (simp add: Let_def)
    next
      case row
      with accounting_update [OF assms(1) row(4)] other show ?thesis by (simp add: Let_def)
    qed
  qed
qed

text \<open>A client reboots: its Accounting-On, without a session id, clears the session it had.\<close>

definition lab_on :: attrs where
  "lab_on = [(u ''acct-status-type'', [u ''Accounting-On'']), (u ''naco-nas-ip'', [u ''10.0.0.7''])]"

definition lab_running :: aaa_state where
  "lab_running = initial_aaa (lab_db\<lparr>radius_sessions := [new_session lab_db (u ''10.0.0.7'') (u ''7'') 0 0]\<rparr>)"

theorem accounting_sessions_witness:
  "sessions_ok (radius_sessions (aaa_db lab_running)) \<and> acct_sid lab_on = [] \<and> radius_sessions (aaa_db lab_running) \<noteq> [] \<and>
   set (radius_sessions (aaa_db (fst (accounting lab_running lab_on 0)))) = {}"
proof -
  have l: "lower (u ''Acct-Status-Type'') = u ''acct-status-type''" "lower (u ''Acct-Session-Id'') = u ''acct-session-id''"
    "lower (u ''Accounting-On'') = u ''accounting-on''" by (simp_all add: lower_def lower_char_def u_def)
  have st: "acct_status lab_on = Some (u ''accounting-on'')"
    by (simp add: acct_status_def attrs_get_def od_get_def lab_on_def opt_text_def l STATUS_def)
  have sid: "acct_sid lab_on = []"
    by (simp add: acct_sid_def attrs_get_def od_get_def lab_on_def opt_text_def l)
  have ip: "ri_nas_ip (request_info lab_on) = u ''10.0.0.7''"
    by (simp add: request_info_def attrs_get_def od_get_def lab_on_def opt_text_def lab_names lab_ip Let_def)
  have ok: "sessions_ok (radius_sessions (aaa_db lab_running))" and run: "radius_sessions (aaa_db lab_running) \<noteq> []"
    and mine: "\<forall>x\<in>set (radius_sessions (aaa_db lab_running)). rs_nas_ip x = u ''10.0.0.7''"
    by (simp_all add: sessions_ok_def lab_running_def initial_aaa_def new_session_def)
  have ne: "u ''10.0.0.7'' \<noteq> []" by (simp add: u_def)
  show ?thesis
    using accounting_sessions [OF ok, of lab_on 0 "fst (accounting lab_running lab_on 0)" "snd (accounting lab_running lab_on 0)"]
      ok run mine ne by (simp add: st sid ip Let_def)
qed

end
