(* ===== verification/AaaApp.thy ===== *)
theory AaaApp
  imports ServiceSafety
begin

text \<open>
  \<open>naco/aaa/app.py\<close>: the internal HTTP API that FreeRADIUS calls, with the status codes \<open>rlm_rest\<close>
  turns into its return codes.  A handler that raises is answered with 500 by the framework.  The
  latency histogram and the metrics page are not modelled.
\<close>

definition MAX_BODY :: nat where
  "MAX_BODY = 64 * 1024"

datatype response = Response nat "json option"   \<comment> \<open>status and JSON body\<close>

record http_request =
  hr_authorization :: pystr
  hr_body :: bytes

record app_state =
  app_aaa :: aaa_state
  app_last_request :: "int option"   \<comment> \<open>\<open>naco.core.runtime\<close>\<close>

record app_cfg =
  ac_aaa :: aaa_cfg
  ac_internal_token :: bytes
  ac_json_loads :: "pystr \<Rightarrow> json option"

definition require_token :: "app_cfg \<Rightarrow> http_request \<Rightarrow> bool" where
  "require_token cfg r =
     (let (scheme, token) = partition1 32 (hr_authorization r)
      in lower scheme = u ''bearer'' \<and> utf8_encode (strip (after_sep token)) = Some (ac_internal_token cfg))"

definition mark_aaa_request :: "int \<Rightarrow> app_state \<Rightarrow> app_state" where
  "mark_aaa_request now s = s\<lparr>app_last_request := Some now\<rparr>"

text \<open>\<open>_attrs\<close>: \<open>Inl\<close> is the status of the \<open>HTTPException\<close>.\<close>

definition request_attrs :: "app_cfg \<Rightarrow> http_request \<Rightarrow> nat + attrs" where
  "request_attrs cfg r =
     (if length (hr_body r) > MAX_BODY then Inl 413
      else (case loads (ac_json_loads cfg) (hr_body r) of
              None \<Rightarrow> Inl 400
            | Some j \<Rightarrow> (case Attrs_parse j of Inl _ \<Rightarrow> Inl 400 | Inr a \<Rightarrow> Inr a)))"

definition client_reply :: "ClientDef \<Rightarrow> json" where
  "client_reply c =
     reply [(u ''control:'' @ (if 58 \<in> set (cd_ip c) then u ''FreeRADIUS-Client-IPv6-Address'' else u ''FreeRADIUS-Client-IP-Address''), JStr (cd_ip c)),
            (u ''control:FreeRADIUS-Client-Secret'', JStr (cd_secret c)),
            (u ''control:FreeRADIUS-Client-Shortname'', JStr (cd_name c)),
            (u ''control:FreeRADIUS-Client-NAS-Type'', JStr (u ''other'')),
            (u ''control:FreeRADIUS-Client-Require-MA'', JStr (if cd_require_message_authenticator c then u ''yes'' else u ''no''))]"

text \<open>The routes; \<open>guarded\<close> runs a handler behind the token check.\<close>

definition guarded :: "app_cfg \<Rightarrow> http_request \<Rightarrow> int \<Rightarrow> app_state \<Rightarrow> (app_state \<Rightarrow> app_state \<times> response) \<Rightarrow> app_state \<times> response" where
  "guarded cfg r now s handler =
     (if \<not> require_token cfg r then (s, Response 403 None) else handler (mark_aaa_request now s))"

definition get_client :: "app_cfg \<Rightarrow> app_state \<Rightarrow> http_request \<Rightarrow> pystr \<Rightarrow> int \<Rightarrow> app_state \<times> response" where
  "get_client cfg s r ip now =
     guarded cfg r now s (\<lambda>s.
       if parse_ip (Some ip) = None then (s, Response 404 None)
       else (case lookup_client (aaa_db (app_aaa s)) ip of
               Inl _ \<Rightarrow> (s, Response 500 None)
             | Inr None \<Rightarrow> (s, Response 404 None)
             | Inr (Some c) \<Rightarrow> (s, Response 200 (Some (client_reply c)))))"

definition get_status :: "app_cfg \<Rightarrow> app_state \<Rightarrow> http_request \<Rightarrow> int \<Rightarrow> app_state \<times> response" where
  "get_status cfg s r now = guarded cfg r now s (\<lambda>s. (s, Response 204 None))"

definition post_authenticate :: "app_cfg \<Rightarrow> app_state \<Rightarrow> http_request \<Rightarrow> int \<Rightarrow> int \<Rightarrow> app_state \<times> response" where
  "post_authenticate cfg s r now clock =
     guarded cfg r now s (\<lambda>s.
       case request_attrs cfg r of
         Inl st \<Rightarrow> (s, Response st None)
       | Inr a \<Rightarrow>
           (let (s', res) = authenticate (ac_aaa cfg) (app_aaa s) a now clock
            in (s\<lparr>app_aaa := s'\<rparr>,
                case res of Inl _ \<Rightarrow> Response 500 None | Inr ok \<Rightarrow> Response (if ok then 204 else 401) None)))"

definition accept_reply :: "Decision \<Rightarrow> (pystr \<times> json) list" where
  "accept_reply dcn =
     foldl (\<lambda>d (k, v). od_set d k v) [(u ''control:NACo-Decision'', JStr (u ''accept''))]
       ((case dec_vlan dcn of Some v \<Rightarrow> if v \<noteq> 0 then vlan_attributes v else [] | None \<Rightarrow> []) @ dec_reply_attributes dcn)"

definition post_authorize :: "app_cfg \<Rightarrow> app_state \<Rightarrow> http_request \<Rightarrow> int \<Rightarrow> int \<Rightarrow> app_state \<times> response" where
  "post_authorize cfg s r now clock =
     guarded cfg r now s (\<lambda>s.
       case request_attrs cfg r of
         Inl st \<Rightarrow> (s, Response st None)
       | Inr a \<Rightarrow>
           (let (s', res) = authorize (ac_aaa cfg) (app_aaa s) a now clock
            in (s\<lparr>app_aaa := s'\<rparr>,
                case res of
                  Inl _ \<Rightarrow> Response 500 None
                | Inr dcn \<Rightarrow>
                    if \<not> accepted dcn then Response 200 (Some (reply [(u ''control:NACo-Decision'', JStr (u ''reject''))]))
                    else Response 200 (Some (reply (accept_reply dcn))))))"

definition post_accounting :: "app_cfg \<Rightarrow> app_state \<Rightarrow> http_request \<Rightarrow> int \<Rightarrow> app_state \<times> response" where
  "post_accounting cfg s r now =
     guarded cfg r now s (\<lambda>s.
       case request_attrs cfg r of
         Inl st \<Rightarrow> (s, Response st None)
       | Inr a \<Rightarrow>
           (let (s', e) = accounting (app_aaa s) a now
            in (s\<lparr>app_aaa := s'\<rparr>, case e of Some _ \<Rightarrow> Response 500 None | None \<Rightarrow> Response 204 None)))"

section \<open>What FreeRADIUS is told\<close>

text \<open>The value of an attribute in a reply.\<close>

definition replied :: "response \<Rightarrow> pystr \<Rightarrow> json option" where
  "replied r name =
     (case r of
        Response _ (Some (JObj d)) \<Rightarrow> (case od_get d name of Some (JObj e) \<Rightarrow> od_get e (u ''value'') | _ \<Rightarrow> None)
      | _ \<Rightarrow> None)"

lemma replied_reply: "replied (Response st (Some (reply attrs))) name = od_get attrs name"
proof -
  have "map_of (map (\<lambda>(name, v). (name, JObj [(u ''value'', v), (u ''do_xlat'', JBool False)])) attrs) name =
      map_option (\<lambda>v. JObj [(u ''value'', v), (u ''do_xlat'', JBool False)]) (map_of attrs name)"
    by (induction attrs) auto
  then show ?thesis by (simp add: replied_def reply_def od_get_def split: option.splits)
qed

lemma od_get_update_all: "k \<notin> fst ` set es \<Longrightarrow> od_get (foldl (\<lambda>d (k, v). od_set d k v) d es) k = od_get d k"
  by (induction es arbitrary: d) (auto split: prod.splits)

lemma attr_name_no_colon: "NAME_match n \<Longrightarrow> 58 \<notin> set n"
proof -
  have an: "58 \<notin> set m" if "attr_name m" for m
    using that by (auto simp: attr_name_def name_char_def is_alpha_def is_digit_def list_all_iff split: list.splits)
  assume "NAME_match n"
  then consider "attr_name n" | "n \<noteq> []" "last n = 10" "attr_name (butlast n)" by (auto simp: NAME_match_def)
  then show ?thesis
  proof cases
    case 2
    then have "set n = set (butlast n) \<union> {10}" by (metis append_butlast_last_id list.simps(15) set_append set_empty)
    with an [OF 2(3)] show ?thesis by auto
  qed (simp add: an)
qed

text \<open>Names a policy may not set keep their value in a reply.\<close>

lemma policy_cannot_set:
  assumes "safe_attrs attrs" "58 \<in> set k \<or> lower k \<in> set FORBIDDEN"
  shows "k \<notin> fst ` set attrs"
proof
  assume "k \<in> fst ` set attrs"
  then obtain v where "(k, v) \<in> set attrs" by auto
  with assms(1) have "NAME_match k" "\<not> forbidden (lower k)" by (auto simp: safe_attrs_def attr_ok_def)
  with assms(2) attr_name_no_colon [of k] show False by (auto simp: forbidden_def)
qed

lemma tunnel_names:
  "lower (u ''Tunnel-Type'') \<in> set FORBIDDEN" "lower (u ''Tunnel-Medium-Type'') \<in> set FORBIDDEN"
  "lower (u ''Tunnel-Private-Group-Id'') \<in> set FORBIDDEN" "58 \<in> set (u ''control:NACo-Decision'')"
  by (simp_all add: FORBIDDEN_def lower_def lower_char_def u_def)

lemma accept_reply_keys:
  assumes "safe_attrs (dec_reply_attributes dcn)"
  shows "od_get (accept_reply dcn) (u ''control:NACo-Decision'') = Some (JStr (u ''accept''))"
    and "dec_vlan dcn = Some v \<Longrightarrow> v \<noteq> 0 \<Longrightarrow>
      od_get (accept_reply dcn) (u ''Tunnel-Private-Group-Id'') = Some (JStr (str_int v)) \<and>
      od_get (accept_reply dcn) (u ''Tunnel-Type'') = Some (JStr (u ''VLAN''))"
proof -
  note no = policy_cannot_set [OF assms]
  have keep: "od_get (foldl (\<lambda>d (k, v). od_set d k v) d (dec_reply_attributes dcn)) k = od_get d k"
    if "58 \<in> set k \<or> lower k \<in> set FORBIDDEN" for d k
    using od_get_update_all [OF no [OF that]] .
  show "od_get (accept_reply dcn) (u ''control:NACo-Decision'') = Some (JStr (u ''accept''))"
    by (simp add: accept_reply_def keep tunnel_names vlan_attributes_def split: option.splits) (simp add: od_get_def)
  assume "dec_vlan dcn = Some v" "v \<noteq> 0"
  then show "od_get (accept_reply dcn) (u ''Tunnel-Private-Group-Id'') = Some (JStr (str_int v)) \<and>
      od_get (accept_reply dcn) (u ''Tunnel-Type'') = Some (JStr (u ''VLAN''))"
    by (simp add: accept_reply_def keep tunnel_names vlan_attributes_def) (simp add: od_get_def)
qed

lemma evaluate_attrs_safe: "evaluate d tz ctx = Inr dcn \<Longrightarrow> accepted dcn \<Longrightarrow> safe_attrs (dec_reply_attributes dcn)"
proof -
  assume e: "evaluate d tz ctx = Inr dcn" "accepted dcn"
  then obtain ps where ps: "rmap compile_policy (policy_rows d) = Inr ps" "decide ps ctx tz = Inr dcn"
    by (auto simp: evaluate_def load_policies_def split: sum.splits)
  from decide_accepted [OF ps(2) e(2)] obtain p where p: "p \<in> set ps" "cp_action p = PERMIT" "dcn = policy_verdict p"
    by (metis in_set_conv_decomp)
  from rmap_Inr_set [OF ps(1) p(1)] obtain r where "compile_policy r = Inr p" by blast
  from compile_policy_fields [OF this] have "validate_reply_attributes None (pol_reply_attributes r) = Inr (cp_reply_attributes p)" by simp
  from validate_safe [OF _ this] p show ?thesis by (simp add: dictionary_ok_def policy_verdict_def)
qed

lemma authorize_attrs_safe:
  assumes "authorize cfg s a now clock = (s', Inr dcn)" "accepted dcn"
  shows "safe_attrs (dec_reply_attributes dcn)"
  using assms(1)
proof (cases rule: authorize_Inr)
  case (1 nas d evs)
  from decide_request_accepts [OF 1(2) assms(2)] assms(2) show ?thesis using evaluate_attrs_safe by blast
qed

lemma replied_none [simp]: "replied (Response st None) n = None"
  by (simp add: replied_def)

lemma post_authorize_accepts:
  assumes "post_authorize cfg s r now clock = (s', resp)" "require_token cfg r" "request_attrs cfg r = Inr a"
    "authorize (ac_aaa cfg) (app_aaa s) a now clock = (aaa, Inr dcn)" "accepted dcn"
  shows "resp = Response 200 (Some (reply (accept_reply dcn)))"
  using assms by (auto simp: post_authorize_def guarded_def mark_aaa_request_def)

lemma post_authorize_cases:
  assumes "post_authorize cfg s r now clock = (s', resp)"
    "replied resp (u ''control:NACo-Decision'') = Some (JStr (u ''accept''))"
  shows "require_token cfg r \<and> (\<exists>a aaa dcn. request_attrs cfg r = Inr a \<and>
    authorize (ac_aaa cfg) (app_aaa s) a now clock = (aaa, Inr dcn) \<and> accepted dcn)"
  using assms
  by (auto simp: post_authorize_def guarded_def mark_aaa_request_def replied_reply od_get_def
      split: if_splits sum.splits prod.splits)

text \<open>The header names the scheme \<open>Bearer\<close>, in any case, and after the first space exactly the token, with white space around it at
  most.\<close>

definition presents_token :: "bytes \<Rightarrow> http_request \<Rightarrow> bool" where
  "presents_token token r \<longleftrightarrow>
     (\<exists>scheme rest. hr_authorization r = scheme @ 32 # rest \<and> lower scheme = u ''bearer'' \<and> utf8_encode (strip rest) = Some token)"

lemma partition1_first: "32 \<notin> set a \<Longrightarrow> partition1 32 (a @ 32 # b) = (a, Some b)"
  by (induction a) auto

lemma require_token_iff:
  assumes "ac_internal_token cfg \<noteq> []"
  shows "require_token cfg r \<longleftrightarrow> presents_token (ac_internal_token cfg) r"
proof
  assume t: "require_token cfg r"
  have h: "32 \<in> set (hr_authorization r)"
  proof (rule ccontr)
    assume "32 \<notin> set (hr_authorization r)"
    with t assms show False by (simp add: require_token_def partition1_eq after_sep_def strip_def lstrip_def rstrip_def)
  qed
  then have d: "hr_authorization r = takeWhile (\<lambda>c. c \<noteq> 32) (hr_authorization r) @ 32 # tl (dropWhile (\<lambda>c. c \<noteq> 32) (hr_authorization r))"
    by (metis (mono_tags, lifting) dropWhile_eq_Nil_conv hd_dropWhile list.exhaust_sel takeWhile_dropWhile_id)
  from t h have "lower (takeWhile (\<lambda>c. c \<noteq> 32) (hr_authorization r)) = u ''bearer''"
    "utf8_encode (strip (tl (dropWhile (\<lambda>c. c \<noteq> 32) (hr_authorization r)))) = Some (ac_internal_token cfg)"
    by (simp_all add: require_token_def partition1_eq after_sep_def)
  with d show "presents_token (ac_internal_token cfg) r" unfolding presents_token_def by blast
next
  assume "presents_token (ac_internal_token cfg) r"
  then obtain scheme rest where p: "hr_authorization r = scheme @ 32 # rest" "lower scheme = u ''bearer''"
    "utf8_encode (strip rest) = Some (ac_internal_token cfg)" by (auto simp: presents_token_def)
  have "lower_char 32 \<notin> set (u ''bearer'')" by (simp add: lower_char_def u_def)
  then have "32 \<notin> set scheme" using p(2) by (metis image_eqI list.set_map lower_def)
  with p show "require_token cfg r" by (simp add: require_token_def partition1_first after_sep_def)
qed

text \<open>C1. FreeRADIUS is told \<open>accept\<close> exactly for a request that presents the internal token, with a body of at most 64 KiB that
  parses, and that \<open>authorize\<close> accepted; then the VLAN in the reply is the one decided, whatever attributes the policy
  sets.  A request without the token is answered 403 and changes nothing.\<close>

theorem post_authorize_answer:
  assumes "post_authorize cfg s r now clock = (s', resp)" "ac_internal_token cfg \<noteq> []"
  shows "(replied resp (u ''control:NACo-Decision'') = Some (JStr (u ''accept'')) \<longleftrightarrow>
      presents_token (ac_internal_token cfg) r \<and> length (hr_body r) \<le> 64 * 1024 \<and> (\<exists>a aaa dcn. request_attrs cfg r = Inr a \<and>
        authorize (ac_aaa cfg) (app_aaa s) a now clock = (aaa, Inr dcn) \<and> accepted dcn)) \<and>
    (\<forall>a aaa dcn v. presents_token (ac_internal_token cfg) r \<and> request_attrs cfg r = Inr a \<and>
        authorize (ac_aaa cfg) (app_aaa s) a now clock = (aaa, Inr dcn) \<and> accepted dcn \<and>
        dec_vlan dcn = Some v \<and> v \<noteq> 0 \<longrightarrow>
      replied resp (u ''Tunnel-Private-Group-Id'') = Some (JStr (str_int v))) \<and>
    (\<not> presents_token (ac_internal_token cfg) r \<longrightarrow> s' = s \<and> resp = Response 403 None)"
    (is "(?A \<longleftrightarrow> ?B) \<and> ?C \<and> ?D")
proof (intro conjI, rule iffI)
  note tok = require_token_iff [OF assms(2)]
  have size: "length (hr_body r) \<le> 64 * 1024" if "request_attrs cfg r = Inr a" for a
    using that by (auto simp: request_attrs_def MAX_BODY_def split: if_splits)
  show "?A \<Longrightarrow> ?B" using post_authorize_cases [OF assms(1)] size tok by blast
  have yes: "resp = Response 200 (Some (reply (accept_reply dcn))) \<and> safe_attrs (dec_reply_attributes dcn)"
    if "presents_token (ac_internal_token cfg) r" "request_attrs cfg r = Inr a"
      "authorize (ac_aaa cfg) (app_aaa s) a now clock = (aaa, Inr dcn)" "accepted dcn" for a aaa dcn
    using post_authorize_accepts [OF assms(1) _ that(2-4)] authorize_attrs_safe [OF that(3,4)] that(1) tok by blast
  show "?B \<Longrightarrow> ?A" using yes accept_reply_keys(1) by (auto simp: replied_reply)
  show ?C using yes accept_reply_keys(2) by (auto simp: replied_reply)
  show ?D using assms(1) tok by (auto simp: post_authorize_def guarded_def)
qed

text \<open>The request of the lab as FreeRADIUS posts it.\<close>

definition lab_http :: http_request where
  "lab_http = \<lparr>hr_authorization = u ''Bearer tok'', hr_body = []\<rparr>"

definition lab_app_cfg :: app_cfg where
  "lab_app_cfg = \<lparr>ac_aaa = lab_cfg, ac_internal_token = map byte (u ''tok''),
     ac_json_loads = (\<lambda>_. Some (JObj (map (\<lambda>(k, vs). (k, JStr (hd vs))) lab_req)))\<rparr>"

lemma lab_posted: "require_token lab_app_cfg lab_http" "request_attrs lab_app_cfg lab_http = Inr lab_req"
proof -
  show "require_token lab_app_cfg lab_http"
    by (simp add: require_token_def lab_http_def lab_app_cfg_def u_def lower_def lower_char_def after_sep_def
        strip_def lstrip_def rstrip_def is_space_def utf8_char_def is_surrogate_def)
  have "list_all (\<lambda>(k, vs). ascii (hd vs) \<and> lower k = k \<and> length vs = 1) lab_req"
    by (simp add: lab_req_def ascii_def u_def lower_def lower_char_def)
  then have "Attrs_parse (from_escaped_bytes (JObj (map (\<lambda>(k, vs). (k, JStr (hd vs))) lab_req))) = Inr lab_req"
    by (simp add: lab_req_def Attrs_parse_def ascii_from_escaped entry_values_def entry_raw_def ascii_rlm_text Attrs_init_def)
  then show "request_attrs lab_app_cfg lab_http = Inr lab_req"
    by (simp add: request_attrs_def lab_http_def lab_app_cfg_def MAX_BODY_def loads_def)
qed

theorem post_authorize_answer_witness:
  "\<exists>s' resp. post_authorize lab_app_cfg \<lparr>app_aaa = lab_after, app_last_request = None\<rparr> lab_http 0 60 = (s', resp) \<and>
    replied resp (u ''control:NACo-Decision'') = Some (JStr (u ''accept''))"
proof -
  obtain s' resp where
    p: "post_authorize lab_app_cfg \<lparr>app_aaa = lab_after, app_last_request = None\<rparr> lab_http 0 60 = (s', resp)"
    by (rule prod.exhaust)
  have c: "ac_aaa lab_app_cfg = lab_cfg" "ac_internal_token lab_app_cfg \<noteq> []" by (simp_all add: lab_app_cfg_def)
  moreover have "presents_token (ac_internal_token lab_app_cfg) lab_http" "length (hr_body lab_http) \<le> 64 * 1024"
    using lab_posted(1) require_token_iff [OF c(2)] by (simp_all add: lab_http_def)
  ultimately show ?thesis using post_authorize_answer [OF p c(2)] lab_posted(2) lab_authorize p by auto
qed

end
