(* ===== verification/TacacsProtocol.thy ===== *)
theory TacacsProtocol
  imports Hashes
begin

text \<open>
  \<open>naco/tacacs/protocol.py\<close>: the wire format of TACACS+.  Parsers return \<open>Inl\<close> with the message of the
  \<open>ProtocolError\<close>; encoders return \<open>Inl\<close> with the exception of \<open>struct\<close> or \<open>str.encode\<close>.  A \<open>_Reader\<close> is
  the part of the body that is not read yet.
\<close>

section \<open>Packing\<close>

definition pack_int :: "nat \<times> nat \<Rightarrow> py_exc + bytes" where
  "pack_int f = (case f of (k, n) \<Rightarrow> if n < 256 ^ k then Inr (be_bytes k n) else Inl StructError)"

text \<open>\<open>struct.pack\<close> in network order: each field is its width in bytes and its value.\<close>

definition struct_pack :: "(nat \<times> nat) list \<Rightarrow> py_exc + bytes" where
  "struct_pack fs = rbind (rmap pack_int fs) (\<lambda>bs. Inr (concat bs))"

fun struct_unpack :: "nat list \<Rightarrow> bytes \<Rightarrow> nat list" where
  "struct_unpack [] bs = []"
| "struct_unpack (k # ks) bs = be_nat (take k bs) # struct_unpack ks (drop k bs)"

definition encode_text :: "pystr \<Rightarrow> py_exc + bytes" where
  "encode_text s = (case utf8_encode s of None \<Rightarrow> Inl UnicodeEncodeError | Some bs \<Rightarrow> Inr bs)"

section \<open>Constants\<close>

abbreviation MAJOR_VERSION :: nat where "MAJOR_VERSION \<equiv> 0xC"
abbreviation HEADER_LEN :: nat where "HEADER_LEN \<equiv> 12"
abbreviation MAX_BODY_LEN :: nat where "MAX_BODY_LEN \<equiv> 65536"
abbreviation TAC_AUTHEN :: nat where "TAC_AUTHEN \<equiv> 1"
abbreviation TAC_AUTHOR :: nat where "TAC_AUTHOR \<equiv> 2"
abbreviation TAC_ACCT :: nat where "TAC_ACCT \<equiv> 3"
abbreviation ACTION_LOGIN :: nat where "ACTION_LOGIN \<equiv> 1"
abbreviation TYPE_ASCII :: nat where "TYPE_ASCII \<equiv> 1"
abbreviation TYPE_PAP :: nat where "TYPE_PAP \<equiv> 2"
abbreviation SERVICE_ENABLE :: nat where "SERVICE_ENABLE \<equiv> 2"
abbreviation STATUS_PASS :: nat where "STATUS_PASS \<equiv> 1"
abbreviation STATUS_FAIL :: nat where "STATUS_FAIL \<equiv> 2"
abbreviation STATUS_GETUSER :: nat where "STATUS_GETUSER \<equiv> 4"
abbreviation STATUS_GETPASS :: nat where "STATUS_GETPASS \<equiv> 5"
abbreviation STATUS_ERROR :: nat where "STATUS_ERROR \<equiv> 7"
abbreviation AUTHOR_PASS_ADD :: nat where "AUTHOR_PASS_ADD \<equiv> 1"
abbreviation AUTHOR_FAIL :: nat where "AUTHOR_FAIL \<equiv> 0x10"
abbreviation ACCT_SUCCESS :: nat where "ACCT_SUCCESS \<equiv> 1"
abbreviation ACCT_ERROR :: nat where "ACCT_ERROR \<equiv> 2"

text \<open>Flags are tested bit by bit: \<open>FLAG_UNENCRYPTED\<close> is bit 0 and \<open>FLAG_SINGLE_CONNECT\<close> bit 2 of the header's
  flags, \<open>CONTINUE_FLAG_ABORT\<close> is bit 0, and \<open>ACCT_FLAG_START\<close>, \<open>STOP\<close>, \<open>WATCHDOG\<close> are bits 1 to 3.\<close>

section \<open>Obfuscation\<close>

fun pad_blocks :: "bytes \<Rightarrow> bytes \<Rightarrow> nat \<Rightarrow> bytes" where
  "pad_blocks seed prev 0 = []"
| "pad_blocks seed prev (Suc k) = (let h = md5 (seed @ prev) in h @ pad_blocks seed h k)"

definition pad :: "bytes \<Rightarrow> nat \<Rightarrow> nat \<Rightarrow> nat \<Rightarrow> nat \<Rightarrow> bytes" where
  "pad key session_id version seq_no len =
     (let seed = be_bytes 4 session_id @ key @ [byte version, byte seq_no]
      in take len (pad_blocks seed [] ((len + 15) div 16)))"

text \<open>\<open>struct.pack\<close> and \<open>bytes\<close> refuse numbers that do not fit.\<close>

definition crypt :: "bytes \<Rightarrow> bytes \<Rightarrow> nat \<Rightarrow> nat \<Rightarrow> nat \<Rightarrow> py_exc + bytes" where
  "crypt body key session_id version seq_no =
     (if body = [] then Inr body
      else if session_id \<ge> 256 ^ 4 then Inl StructError
      else if version \<ge> 256 \<or> seq_no \<ge> 256 then Inl (ValueError (u ''bytes must be in range(0, 256)''))
      else Inr (be_bytes (length body) (be_nat body XOR
             be_nat (pad key session_id version seq_no (length body)))))"

section \<open>Header\<close>

record Header =
  hd_version :: nat
  hd_type :: nat
  hd_seq_no :: nat
  hd_flags :: nat
  hd_session_id :: nat
  hd_length :: nat

definition hex02 :: "nat \<Rightarrow> pystr" where
  "hex02 n = [hex_digit (n div 16), hex_digit (n mod 16)]"

definition Header_decode :: "bytes \<Rightarrow> pystr + Header" where
  "Header_decode raw =
     (if length raw \<noteq> HEADER_LEN then Inl (u ''short header'')
      else
        (let f = struct_unpack [1, 1, 1, 1, 4, 4] raw;
             version = f ! 0; kind = f ! 1; seq_no = f ! 2; flags = f ! 3; session_id = f ! 4; len = f ! 5
         in if version div 16 \<noteq> MAJOR_VERSION \<or> version mod 16 \<notin> {0, 1}
            then Inl (u ''unsupported version 0x'' @ hex02 version)
            else if kind \<notin> {TAC_AUTHEN, TAC_AUTHOR, TAC_ACCT} then Inl (u ''unknown packet type '' @ dec kind)
            else if len > MAX_BODY_LEN then Inl (u ''body too large ('' @ dec len @ u '' bytes)'')
            else if seq_no = 0xFF then Inl (u ''sequence number exhausted'')
            else Inr \<lparr>hd_version = version, hd_type = kind, hd_seq_no = seq_no, hd_flags = flags,
                      hd_session_id = session_id, hd_length = len\<rparr>))"

definition Header_encode :: "Header \<Rightarrow> py_exc + bytes" where
  "Header_encode h =
     struct_pack [(1, hd_version h), (1, hd_type h), (1, hd_seq_no h), (1, hd_flags h), (4, hd_session_id h), (4, hd_length h)]"

definition packet :: "Header \<Rightarrow> bytes \<Rightarrow> bytes \<Rightarrow> py_exc + bytes" where
  "packet req body key =
     (let h = \<lparr>hd_version = hd_version req, hd_type = hd_type req, hd_seq_no = hd_seq_no req + 1,
               hd_flags = (if bit (hd_flags req) 2 then 4 else 0), hd_session_id = hd_session_id req,
               hd_length = length body\<rparr>
      in rbind (Header_encode h) (\<lambda>head.
           rbind (crypt body key (hd_session_id h) (hd_version h) (hd_seq_no h)) (\<lambda>c. Inr (head @ c))))"

section \<open>Reading bodies\<close>

definition reader_take :: "nat \<Rightarrow> bytes \<Rightarrow> pystr + bytes \<times> bytes" where
  "reader_take n r =
     (if n > length r then Inl (u ''declared lengths exceed the body'') else Inr (take n r, drop n r))"

definition reader_unpack :: "nat list \<Rightarrow> bytes \<Rightarrow> pystr + nat list \<times> bytes" where
  "reader_unpack ks r = rbind (reader_take (sum_list ks) r) (\<lambda>(c, r). Inr (struct_unpack ks c, r))"

definition reader_text :: "nat \<Rightarrow> bytes \<Rightarrow> pystr + pystr \<times> bytes" where
  "reader_text n r = rbind (reader_take n r) (\<lambda>(c, r). Inr (decode_replace c, r))"

definition reader_done :: "bytes \<Rightarrow> pystr + unit" where
  "reader_done r = (if r \<noteq> [] then Inl (u ''trailing bytes after the body'') else Inr ())"

record AuthenStart =
  st_action :: nat
  st_priv_lvl :: nat
  st_authen_type :: nat
  st_authen_service :: nat
  st_user :: pystr
  st_port :: pystr
  st_rem_addr :: pystr
  st_data :: bytes

definition AuthenStart_decode :: "bytes \<Rightarrow> pystr + AuthenStart" where
  "AuthenStart_decode body =
     rbind (reader_unpack (replicate 8 1) body) (\<lambda>(f, r).
     rbind (reader_text (f ! 4) r) (\<lambda>(user, r).
     rbind (reader_text (f ! 5) r) (\<lambda>(port, r).
     rbind (reader_text (f ! 6) r) (\<lambda>(rem, r).
     rbind (reader_take (f ! 7) r) (\<lambda>(data, r).
     rbind (reader_done r) (\<lambda>_.
       if f ! 1 > 15 then Inl (u ''privilege level above 15'')
       else Inr \<lparr>st_action = f ! 0, st_priv_lvl = f ! 1, st_authen_type = f ! 2, st_authen_service = f ! 3,
                 st_user = user, st_port = port, st_rem_addr = rem, st_data = data\<rparr>))))))"

record AuthenContinue =
  ct_user_msg :: pystr
  ct_data :: bytes
  ct_abort :: bool

definition AuthenContinue_decode :: "bytes \<Rightarrow> pystr + AuthenContinue" where
  "AuthenContinue_decode body =
     rbind (reader_unpack [2, 2, 1] body) (\<lambda>(f, r).
     rbind (reader_text (f ! 0) r) (\<lambda>(msg, r).
     rbind (reader_take (f ! 1) r) (\<lambda>(data, r).
     rbind (reader_done r) (\<lambda>_.
       Inr \<lparr>ct_user_msg = msg, ct_data = data, ct_abort = bit (f ! 2) 0\<rparr>))))"

record Request =
  rq_flags :: nat
  rq_authen_method :: nat
  rq_priv_lvl :: nat
  rq_authen_type :: nat
  rq_authen_service :: nat
  rq_user :: pystr
  rq_port :: pystr
  rq_rem_addr :: pystr
  rq_args :: "pystr list"

fun reader_texts :: "nat list \<Rightarrow> bytes \<Rightarrow> pystr + pystr list \<times> bytes" where
  "reader_texts [] r = Inr ([], r)"
| "reader_texts (n # ns) r =
     rbind (reader_text n r) (\<lambda>(t, r). rbind (reader_texts ns r) (\<lambda>(ts, r). Inr (t # ts, r)))"

definition Request_decode :: "bytes \<Rightarrow> bool \<Rightarrow> pystr + Request" where
  "Request_decode body accounting =
     rbind (if accounting then reader_unpack [1] body else Inr ([0], body)) (\<lambda>(g, r).
     rbind (reader_unpack (replicate 8 1) r) (\<lambda>(f, r).
     rbind (reader_unpack (replicate (f ! 7) 1) r) (\<lambda>(lengths, r).
     rbind (reader_text (f ! 4) r) (\<lambda>(user, r).
     rbind (reader_text (f ! 5) r) (\<lambda>(port, r).
     rbind (reader_text (f ! 6) r) (\<lambda>(rem, r).
     rbind (reader_texts lengths r) (\<lambda>(args, r).
     rbind (reader_done r) (\<lambda>_.
       if f ! 1 > 15 then Inl (u ''privilege level above 15'')
       else Inr \<lparr>rq_flags = g ! 0, rq_authen_method = f ! 0, rq_priv_lvl = f ! 1, rq_authen_type = f ! 2,
                 rq_authen_service = f ! 3, rq_user = user, rq_port = port, rq_rem_addr = rem, rq_args = args\<rparr>))))))))"

section \<open>Writing replies\<close>

definition limited_text :: "pystr \<Rightarrow> nat \<Rightarrow> py_exc + bytes" where
  "limited_text value limit = rbind (encode_text value) (\<lambda>b. Inr (take limit b))"

definition authen_reply :: "nat \<Rightarrow> pystr \<Rightarrow> bool \<Rightarrow> bytes \<Rightarrow> py_exc + bytes" where
  "authen_reply status server_msg noecho data =
     rbind (limited_text server_msg 0xFFFF) (\<lambda>msg.
     rbind (struct_pack [(1, status), (1, if noecho then 1 else 0), (2, length msg), (2, length data)]) (\<lambda>head.
       Inr (head @ msg @ data)))"

definition byte_lengths :: "bytes list \<Rightarrow> py_exc + bytes" where
  "byte_lengths xs =
     rmap (\<lambda>x. if length x < 256 then Inr (byte (length x)) else Inl (ValueError (u ''bytes must be in range(0, 256)''))) xs"

definition author_reply :: "nat \<Rightarrow> pystr list \<Rightarrow> pystr \<Rightarrow> py_exc + bytes" where
  "author_reply status args server_msg =
     rbind (rmap (\<lambda>a. limited_text a 255) args) (\<lambda>encoded.
     rbind (limited_text server_msg 0xFFFF) (\<lambda>msg.
     rbind (struct_pack [(1, status), (1, length encoded), (2, length msg), (2, 0)]) (\<lambda>head.
     rbind (byte_lengths encoded) (\<lambda>lens.
       Inr (head @ lens @ msg @ concat encoded)))))"

definition acct_reply :: "nat \<Rightarrow> pystr \<Rightarrow> py_exc + bytes" where
  "acct_reply status server_msg =
     rbind (limited_text server_msg 0xFFFF) (\<lambda>msg.
     rbind (struct_pack [(2, length msg), (2, 0), (1, status)]) (\<lambda>head. Inr (head @ msg)))"

section \<open>Client-side encoders\<close>

definition authen_start :: "nat \<Rightarrow> nat \<Rightarrow> nat \<Rightarrow> nat \<Rightarrow> pystr \<Rightarrow> pystr \<Rightarrow> pystr \<Rightarrow> bytes \<Rightarrow> py_exc + bytes" where
  "authen_start action priv_lvl authen_type service user port rem_addr data =
     rbind (encode_text user) (\<lambda>us. rbind (encode_text port) (\<lambda>p. rbind (encode_text rem_addr) (\<lambda>a.
     rbind (struct_pack [(1, action), (1, priv_lvl), (1, authen_type), (1, service), (1, length us), (1, length p),
              (1, length a), (1, length data)]) (\<lambda>head.
       Inr (head @ us @ p @ a @ data)))))"

definition authen_continue :: "bytes \<Rightarrow> pystr \<Rightarrow> bool \<Rightarrow> py_exc + bytes" where
  "authen_continue data user_msg abort =
     rbind (encode_text user_msg) (\<lambda>m.
     rbind (struct_pack [(2, length m), (2, length data), (1, if abort then 1 else 0)]) (\<lambda>head.
       Inr (head @ m @ data)))"

definition request :: "pystr list \<Rightarrow> pystr \<Rightarrow> nat \<Rightarrow> nat option \<Rightarrow> pystr \<Rightarrow> pystr \<Rightarrow> nat \<Rightarrow> nat \<Rightarrow> nat \<Rightarrow> py_exc + bytes" where
  "request args user priv_lvl accounting_flags port rem_addr authen_type service meth =
     rbind (encode_text user) (\<lambda>us. rbind (encode_text port) (\<lambda>p. rbind (encode_text rem_addr) (\<lambda>a.
     rbind (rmap encode_text args) (\<lambda>encoded.
     rbind (case accounting_flags of None \<Rightarrow> Inr [] | Some g \<Rightarrow> if g < 256 then Inr [byte g] else Inl (ValueError (u ''bytes must be in range(0, 256)''))) (\<lambda>flags.
     rbind (struct_pack [(1, meth), (1, priv_lvl), (1, authen_type), (1, service), (1, length us), (1, length p),
              (1, length a), (1, length encoded)]) (\<lambda>head.
     rbind (byte_lengths encoded) (\<lambda>lens.
       Inr (flags @ head @ lens @ us @ p @ a @ concat encoded))))))))"

section \<open>Packing and unpacking\<close>

lemma pack_int_Inr: "pack_int f = Inr bs \<longleftrightarrow> snd f < 256 ^ fst f \<and> bs = be_bytes (fst f) (snd f)"
  by (auto simp: pack_int_def split: prod.splits)

lemma struct_pack_iff: "struct_pack fs = Inr bs \<longleftrightarrow>
    list_all (\<lambda>(k, n). n < 256 ^ k) fs \<and> bs = concat (map (\<lambda>(k, n). be_bytes k n) fs)"
proof -
  have "rmap pack_int fs = Inr bss \<longleftrightarrow> list_all (\<lambda>(k, n). n < 256 ^ k) fs \<and> bss = map (\<lambda>(k, n). be_bytes k n) fs" for bss
    by (induction fs arbitrary: bss) (auto simp: rbind_eq_Inr pack_int_Inr)
  then show ?thesis by (auto simp: struct_pack_def rbind_eq_Inr)
qed

lemma struct_unpack_pack:
  "struct_pack fs = Inr bs \<Longrightarrow> length bs = sum_list (map fst fs) \<and> struct_unpack (map fst fs) bs = map snd fs"
  unfolding struct_pack_iff by (induction fs arbitrary: bs) (auto simp: be_nat_be_bytes)

lemma reader_take_append [simp]: "length a = n \<Longrightarrow> reader_take n (a @ r) = Inr (a, r)"
  by (auto simp: reader_take_def)

lemma reader_unpack_pack: "struct_pack fs = Inr bs \<Longrightarrow> reader_unpack (map fst fs) (bs @ r) = Inr (map snd fs, r)"
  using struct_unpack_pack [of fs bs] by (simp add: reader_unpack_def)

definition plain_text :: "pystr \<Rightarrow> bool" where
  "plain_text s \<longleftrightarrow> list_all is_scalar s"

lemma encode_plain: "plain_text s \<Longrightarrow> encode_text s = Inr bs \<Longrightarrow> decode_replace bs = s"
  using utf8_round [of s bs replace_handler]
  by (auto simp: encode_text_def plain_text_def decode_replace_def split: option.splits)

lemma reader_text_append: "plain_text s \<Longrightarrow> encode_text s = Inr bs \<Longrightarrow> reader_text (length bs) (bs @ r) = Inr (s, r)"
  by (simp add: reader_text_def encode_plain)

lemma reader_texts_append:
  "list_all plain_text ts \<Longrightarrow> rmap encode_text ts = Inr bss \<Longrightarrow> reader_texts (map length bss) (concat bss @ r) = Inr (ts, r)"
  by (induction ts arbitrary: bss) (auto simp: rbind_eq_Inr reader_text_append)

lemma byte_lengths_iff: "byte_lengths xs = Inr lens \<longleftrightarrow> list_all (\<lambda>x. length x < 256) xs \<and> lens = map (byte \<circ> length) xs"
  unfolding byte_lengths_def by (induction xs arbitrary: lens) (auto simp: rbind_eq_Inr split: if_splits)

lemma struct_unpack_ones: "length bs = n \<Longrightarrow> struct_unpack (replicate n 1) bs = map unat bs"
  by (induction bs arbitrary: n) (auto simp: be_nat_def)

lemma reader_unpack_lengths:
  assumes "byte_lengths xs = Inr lens"
  shows "reader_unpack (replicate (length xs) 1) (lens @ r) = Inr (map length xs, r)"
proof -
  from assms have xs: "list_all (\<lambda>x. length x < 256) xs" and lens: "lens = map (byte \<circ> length) xs"
    by (simp_all add: byte_lengths_iff)
  have "map unat lens = map length xs"
    unfolding lens using xs by (induction xs) (simp_all add: unat_byte_small)
  moreover have "length lens = length xs" by (simp add: lens)
  ultimately show ?thesis
    using struct_unpack_ones [of lens "length xs"] by (simp add: reader_unpack_def sum_list_replicate)
qed

lemma reader_done_Nil [simp]: "reader_done [] = Inr ()"
  by (simp add: reader_done_def)

lemmas reading = reader_text_append reader_texts_append reader_unpack_lengths

lemma replicate8: "replicate 8 (Suc 0) = [1, 1, 1, 1, 1, 1, 1, 1]"
  by (simp add: eval_nat_numeral)

section \<open>Bodies round trip\<close>

lemma authen_start_round:
  assumes "authen_start action priv kind service user port rem data = Inr body" "priv \<le> 15"
    "plain_text user" "plain_text port" "plain_text rem"
  shows "AuthenStart_decode body = Inr \<lparr>st_action = action, st_priv_lvl = priv, st_authen_type = kind,
    st_authen_service = service, st_user = user, st_port = port, st_rem_addr = rem, st_data = data\<rparr>"
proof -
  from assms(1) obtain us p a head where e: "encode_text user = Inr us" "encode_text port = Inr p" "encode_text rem = Inr a"
    and h: "struct_pack [(1, action), (1, priv), (1, kind), (1, service), (1, length us), (1, length p), (1, length a), (1, length data)] = Inr head"
    and body: "body = head @ us @ p @ a @ data"
    by (auto simp: authen_start_def rbind_eq_Inr)
  from reader_unpack_pack [OF h, of "us @ p @ a @ data"]
  have "reader_unpack (replicate 8 1) body = Inr ([action, priv, kind, service, length us, length p, length a, length data], us @ p @ a @ data)"
    by (simp add: body replicate8)
  then show ?thesis
    using assms e reader_take_append [of data "length data" "[]"] by (simp add: AuthenStart_decode_def reading)
qed

lemma authen_continue_round:
  assumes "authen_continue data msg abort = Inr body" "plain_text msg"
  shows "AuthenContinue_decode body = Inr \<lparr>ct_user_msg = msg, ct_data = data, ct_abort = abort\<rparr>"
proof -
  from assms(1) obtain m head where e: "encode_text msg = Inr m"
    and h: "struct_pack [(2, length m), (2, length data), (1, if abort then 1 else 0)] = Inr head"
    and body: "body = head @ m @ data"
    by (auto simp: authen_continue_def rbind_eq_Inr)
  from reader_unpack_pack [OF h, of "m @ data"] show ?thesis
    using assms e reader_take_append [of data "length data" "[]"]
    by (simp add: AuthenContinue_decode_def body reading bit_0)
qed

text \<open>A well-formed authorization or accounting request is read back as it was sent: every field, the
  user, port and address, and all arguments.\<close>

theorem request_round_trip:
  assumes "request args user priv flags port rem kind service meth = Inr body" "priv \<le> 15"
    "plain_text user \<and> plain_text port \<and> plain_text rem \<and> list_all plain_text args"
  shows "Request_decode body (flags \<noteq> None) = Inr \<lparr>rq_flags = (case flags of None \<Rightarrow> 0 | Some g \<Rightarrow> g),
    rq_authen_method = meth, rq_priv_lvl = priv, rq_authen_type = kind, rq_authen_service = service,
    rq_user = user, rq_port = port, rq_rem_addr = rem, rq_args = args\<rparr>"
proof -
  from assms(1) obtain us p a enc fl head lens where
    e: "encode_text user = Inr us" "encode_text port = Inr p" "encode_text rem = Inr a" "rmap encode_text args = Inr enc"
    and fl: "fl = (case flags of None \<Rightarrow> [] | Some g \<Rightarrow> [byte g])" "case flags of None \<Rightarrow> True | Some g \<Rightarrow> g < 256"
    and h: "struct_pack [(1, meth), (1, priv), (1, kind), (1, service), (1, length us), (1, length p), (1, length a), (1, length enc)] = Inr head"
    and lens: "byte_lengths enc = Inr lens"
    and body: "body = fl @ head @ lens @ us @ p @ a @ concat enc"
    by (auto simp: request_def rbind_eq_Inr split: option.splits if_splits)
  let ?r = "lens @ us @ p @ a @ concat enc"
  have g: "(if flags \<noteq> None then reader_unpack [1] body else Inr ([0], body)) =
      Inr ([case flags of None \<Rightarrow> 0 | Some g \<Rightarrow> g], head @ ?r)"
    using fl by (cases flags) (simp_all add: body reader_unpack_def reader_take_def be_nat_def unat_byte_small)
  from reader_unpack_pack [OF h, of ?r]
  have f: "reader_unpack (replicate 8 1) (head @ ?r) =
      Inr ([meth, priv, kind, service, length us, length p, length a, length enc], ?r)"
    by (simp add: replicate8)
  show ?thesis
    unfolding Request_decode_def g using assms(2,3) f reader_unpack_lengths [OF lens, of "us @ p @ a @ concat enc"]
      reader_texts_append [OF _ e(4), of "[]"] reader_text_append [OF _ e(1)] reader_text_append [OF _ e(2)]
      reader_text_append [OF _ e(3)] by simp
qed

theorem request_round_trip_witness:
  "\<exists>body. request [u ''cmd=show''] (u ''bob'') 1 (Some 2) (u ''tty1'') [] 1 1 6 = Inr body \<and>
    Request_decode body True = Inr \<lparr>rq_flags = 2, rq_authen_method = 6, rq_priv_lvl = 1, rq_authen_type = 1,
      rq_authen_service = 1, rq_user = u ''bob'', rq_port = u ''tty1'', rq_rem_addr = [], rq_args = [u ''cmd=show'']\<rparr>"
proof -
  have "\<exists>body. request [u ''cmd=show''] (u ''bob'') 1 (Some 2) (u ''tty1'') [] 1 1 6 = Inr body"
    by (simp add: request_def encode_text_def u_def is_surrogate_def utf8_char_def struct_pack_def pack_int_def byte_lengths_def)
  then obtain body where b: "request [u ''cmd=show''] (u ''bob'') 1 (Some 2) (u ''tty1'') [] 1 1 6 = Inr body" ..
  have "plain_text (u ''bob'') \<and> plain_text (u ''tty1'') \<and> plain_text [] \<and> list_all plain_text [u ''cmd=show'']"
    by (simp add: plain_text_def u_def is_scalar_def is_surrogate_def)
  from request_round_trip [OF b _ this] b show ?thesis by simp
qed

section \<open>The pseudo-pad\<close>

lemma length_pad_blocks: "length (pad_blocks seed prev k) = 16 * k"
  by (induction k arbitrary: prev) (simp_all add: Let_def)

text \<open>What obfuscation relies on: a pad as long as the body.\<close>

locale pseudo_pad =
  fixes pad :: "nat \<Rightarrow> bytes"
  assumes pad_length: "length (pad n) = n"
begin

definition xored :: "bytes \<Rightarrow> bytes" where
  "xored body = map2 (XOR) body (pad (length body))"

lemma length_xored [simp]: "length (xored body) = length body"
  by (simp add: xored_def pad_length)

lemma xored_xored: "xored (xored body) = body"
proof -
  have "map2 (XOR) (map2 (XOR) xs ys) ys = xs" if "length ys = length xs" for xs ys :: bytes
    using that by (induction xs ys rule: list_induct2') (auto simp: xor.assoc)
  from this [of "pad (length body)" body] show ?thesis
    unfolding xored_def by (simp add: pad_length)
qed

end

interpretation tac_pad: pseudo_pad "pad key session_id version seq_no" for key session_id version seq_no
  by unfold_locales (auto simp: pad_def length_pad_blocks Let_def)

lemma be_bytes_xor: "be_bytes k (m XOR n) = map2 (XOR) (be_bytes k m) (be_bytes k n)"
proof (induction k arbitrary: m n)
  case (Suc k)
  have "(m XOR n) div 256 = m div 256 XOR n div 256"
    using drop_bit_xor [of 8 m n] by (simp add: drop_bit_eq_div)
  moreover have "(word_of_nat (m XOR n) :: 8 word) = word_of_nat m XOR word_of_nat n"
    by (rule of_nat_xor_eq)
  ultimately show ?case using Suc by simp
qed simp

lemma crypt_xored:
  "session_id < 256 ^ 4 \<Longrightarrow> version < 256 \<Longrightarrow> seq_no < 256 \<Longrightarrow>
    crypt body key session_id version seq_no = Inr (tac_pad.xored key session_id version seq_no body)"
  by (auto simp: crypt_def be_bytes_xor be_bytes_be_nat tac_pad.pad_length tac_pad.xored_def)

lemma Header_decode_fields:
  assumes "Header_decode raw = Inr h"
  shows "hd_version h div 16 = 12" "hd_version h < 256" "hd_version h mod 16 \<in> {0, 1}" "hd_type h \<in> {1, 2, 3}"
    "hd_seq_no h < 255" "hd_flags h < 256" "hd_session_id h < 256 ^ 4" "hd_length h \<le> MAX_BODY_LEN" "length raw = 12"
proof -
  have b: "be_nat (take k bs) < 256 ^ k" for k bs
  proof -
    have "(256::nat) ^ length (take k bs) \<le> 256 ^ k" by (rule power_increasing) simp_all
    then show ?thesis using be_nat_bound [of "take k bs"] by (rule less_le_trans [rotated])
  qed
  from assms b [of 1] b [of 4] show "hd_version h div 16 = 12" "hd_version h < 256" "hd_version h mod 16 \<in> {0, 1}"
    "hd_type h \<in> {1, 2, 3}" "hd_flags h < 256" "hd_session_id h < 256 ^ 4"
    "hd_length h \<le> MAX_BODY_LEN" "length raw = 12"
    by (auto simp: Header_decode_def Let_def split: if_splits)
  from assms b [of 1 "drop (Suc (Suc 0)) raw"] show "hd_seq_no h < 255"
    by (auto simp: Header_decode_def Let_def split: if_splits)
qed

text \<open>The header of a reply, and that it survives the wire.\<close>

definition reply_header :: "Header \<Rightarrow> bytes \<Rightarrow> Header" where
  "reply_header req body = \<lparr>hd_version = hd_version req, hd_type = hd_type req, hd_seq_no = hd_seq_no req + 1,
     hd_flags = (if bit (hd_flags req) 2 then 4 else 0), hd_session_id = hd_session_id req, hd_length = length body\<rparr>"

lemma Header_round:
  assumes "hd_version h div 16 = 12" "hd_version h mod 16 \<in> {0, 1}" "hd_type h \<in> {1, 2, 3}" "hd_seq_no h < 255"
    "hd_flags h < 256" "hd_session_id h < 256 ^ 4" "hd_length h \<le> MAX_BODY_LEN"
  shows "\<exists>head. Header_encode h = Inr head \<and> length head = 12 \<and> Header_decode head = Inr h"
proof -
  let ?fs = "[(1, hd_version h), (1, hd_type h), (1, hd_seq_no h), (1, hd_flags h), (4, hd_session_id h), (4, hd_length h)]"
  have "hd_version h < 256" using assms(1) by auto
  with assms have "list_all (\<lambda>(k, n). n < 256 ^ k) ?fs" by auto
  then obtain head where head: "struct_pack ?fs = Inr head" by (simp add: struct_pack_iff)
  from struct_unpack_pack [OF head] have "length head = 12"
    "struct_unpack [1, 1, 1, 1, 4, 4] head = [hd_version h, hd_type h, hd_seq_no h, hd_flags h, hd_session_id h, hd_length h]"
    by (simp_all del: struct_unpack.simps)
  with assms have "Header_decode head = Inr h" by (auto simp: Header_decode_def Let_def simp del: struct_unpack.simps)
  with head \<open>length head = 12\<close> show ?thesis by (auto simp: Header_encode_def)
qed

text \<open>C24. Every reply the server can write to a request it has read is a packet of the same session and
  version with the next sequence number, which the other side decodes and, with the same key,
  restores to the body.\<close>

theorem reply_round_trip:
  assumes "Header_decode raw = Inr h" "odd (hd_seq_no h)" "length body \<le> MAX_BODY_LEN"
  shows "\<exists>pkt. packet h body key = Inr pkt \<and> Header_decode (take HEADER_LEN pkt) = Inr (reply_header h body) \<and>
    crypt (drop HEADER_LEN pkt) key (hd_session_id h) (hd_version h) (hd_seq_no h + 1) = Inr body"
proof -
  note f = Header_decode_fields [OF assms(1)]
  have seq: "hd_seq_no h + 1 < 255" using f(5) assms(2) by presburger
  have "\<exists>head. Header_encode (reply_header h body) = Inr head \<and> length head = 12 \<and> Header_decode head = Inr (reply_header h body)"
    by (rule Header_round) (use f seq assms(3) in \<open>auto simp: reply_header_def\<close>)
  then obtain head where head: "Header_encode (reply_header h body) = Inr head" "length head = 12"
    "Header_decode head = Inr (reply_header h body)" by blast
  have c: "crypt bs key (hd_session_id h) (hd_version h) (hd_seq_no h + 1) =
      Inr (tac_pad.xored key (hd_session_id h) (hd_version h) (hd_seq_no h + 1) bs)" for bs
    using f seq by (intro crypt_xored) simp_all
  from head(1) c [of body] have "packet h body key =
      Inr (head @ tac_pad.xored key (hd_session_id h) (hd_version h) (hd_seq_no h + 1) body)"
    by (simp add: packet_def reply_header_def)
  with head c show ?thesis by (simp add: tac_pad.xored_xored)
qed

theorem reply_round_trip_witness:
  "\<exists>h pkt. Header_decode (be_bytes 1 0xC0 @ be_bytes 1 1 @ be_bytes 1 1 @ be_bytes 1 0 @ be_bytes 4 7 @ be_bytes 4 0) = Inr h \<and>
    packet h [1, 2, 3] [] = Inr pkt \<and> Header_decode (take HEADER_LEN pkt) = Inr (reply_header h [1, 2, 3])"
proof -
  let ?h = "\<lparr>hd_version = 0xC0, hd_type = 1, hd_seq_no = 1, hd_flags = 0, hd_session_id = 7, hd_length = 0\<rparr>"
  let ?raw = "be_bytes 1 0xC0 @ be_bytes 1 1 @ be_bytes 1 1 @ be_bytes 1 0 @ be_bytes 4 7 @ be_bytes 4 0"
  have "Header_decode ?raw = Inr ?h" using Header_round [of ?h] by (auto simp: Header_encode_def struct_pack_iff)
  from reply_round_trip [OF this, of "[1, 2, 3]" "[]"] this show ?thesis by auto
qed

end
