(* ===== verification/TacacsAuthz.thy ===== *)
theory TacacsAuthz
  imports TacacsProtocol Identity Glob Attributes
begin

text \<open>
  \<open>naco/tacacs/authz.py\<close>: device-administration decisions.  The pattern \<open>_SERVICE_ATTRIBUTE\<close> is written as
  the scanner it describes: its groups are separated by characters they cannot contain, so that
  every match is the greedy one.
\<close>

record Verdict =
  vd_allowed :: bool
  vd_reason :: pystr

definition admin_rights :: "UserInfo option \<Rightarrow> Verdict" where
  "admin_rights user =
     (case user of
        None \<Rightarrow> \<lparr>vd_allowed = False, vd_reason = u ''unknown user''\<rparr>
      | Some i \<Rightarrow>
          if \<not> ui_enabled i then \<lparr>vd_allowed = False, vd_reason = u ''user disabled''\<rparr>
          else if ui_device_admin_privilege i = None then \<lparr>vd_allowed = False, vd_reason = u ''no device-administration rights''\<rparr>
          else \<lparr>vd_allowed = True, vd_reason = u ''ok''\<rparr>)"

definition granted_privilege :: "UserInfo \<Rightarrow> int" where
  "granted_privilege i = (case ui_device_admin_privilege i of Some p \<Rightarrow> p | None \<Rightarrow> 0)"

definition privilege_allowed :: "UserInfo \<Rightarrow> int \<Rightarrow> Verdict" where
  "privilege_allowed i requested =
     (if requested > granted_privilege i
      then \<lparr>vd_allowed = False, vd_reason = u ''privilege '' @ str_int requested @ u '' requested, '' @ str_int (granted_privilege i) @ u '' granted''\<rparr>
      else \<lparr>vd_allowed = True, vd_reason = u ''ok''\<rparr>)"

section \<open>Service attributes\<close>

text \<open>Why a line is refused; every one is a \<open>ValueError\<close>.\<close>

datatype service_error = Not_A_Pair pystr | No_Value pystr | Priv_Lvl | Too_Long pystr

definition service_char :: "nat \<Rightarrow> bool" where
  "service_char c \<longleftrightarrow> is_alpha c \<or> is_digit c \<or> c = 95 \<or> c = 46 \<or> c = 45"

definition service_attr_char :: "nat \<Rightarrow> bool" where
  "service_attr_char c \<longleftrightarrow> service_char c \<or> c = 58"

text \<open>\<open>_SERVICE_ATTRIBUTE.match\<close>: service, attribute, separator and value.\<close>

definition service_match :: "pystr \<Rightarrow> (pystr \<times> pystr \<times> nat \<times> pystr) option" where
  "service_match line =
     (let s = lstrip line;
          service = takeWhile service_char s;
          s = lstrip (dropWhile service_char s)
      in if service = [] \<or> length service > 32 then None
         else
           (case s of
              [] \<Rightarrow> None
            | c # s \<Rightarrow>
                if c \<noteq> 58 then None
                else
                  (let s = lstrip s;
                       attr = takeWhile service_attr_char s;
                       s = lstrip (dropWhile service_attr_char s)
                   in if attr = [] \<or> length attr > 64 then None
                      else
                        (case s of
                           [] \<Rightarrow> None
                         | sep # s \<Rightarrow>
                             if sep \<noteq> 61 \<and> sep \<noteq> 42 then None
                             else if \<not> list_all (\<lambda>c. 0x20 \<le> c \<and> c \<le> 0x7e) (strip s) then None
                             else Some (service, attr, sep, strip s)))))"

definition parse_service_attribute :: "pystr \<Rightarrow> service_error + pystr \<times> pystr" where
  "parse_service_attribute line =
     (case service_match line of
        None \<Rightarrow> Inl (Not_A_Pair (take 60 (strip line)))
      | Some (service, attr, sep, value) \<Rightarrow>
          if value = [] then Inl (No_Value attr)
          else if lower service = u ''shell'' \<and> lower attr = u ''priv-lvl'' then Inl Priv_Lvl
          else
            (let pair = attr @ [sep] @ value
             in if length pair > 255 then Inl (Too_Long attr) else Inr (service, pair)))"

fun service_attributes_of :: "pystr \<Rightarrow> pystr list \<Rightarrow> service_error + pystr list" where
  "service_attributes_of service [] = Inr []"
| "service_attributes_of service (line # ls) =
     rbind (parse_service_attribute line) (\<lambda>(name, pair).
       rbind (service_attributes_of service ls) (\<lambda>out.
         Inr (if lower name = lower service then pair # out else out)))"

definition service_attributes :: "UserInfo \<Rightarrow> pystr \<Rightarrow> service_error + pystr list" where
  "service_attributes i service = service_attributes_of service (ui_device_admin_attributes i)"

section \<open>Arguments\<close>

fun index_of :: "nat \<Rightarrow> pystr \<Rightarrow> nat option" where
  "index_of c [] = None"
| "index_of c (x # xs) = (if x = c then Some 0 else map_option Suc (index_of c xs))"

text \<open>The position of the separator of a pair: the first \<open>=\<close> or \<open>*\<close>, an occurrence at the start not counted.\<close>

definition pair_sep :: "pystr \<Rightarrow> nat option" where
  "pair_sep pair =
     (let found = filter (\<lambda>i. i > 0) (List.map_filter (\<lambda>c. index_of c pair) [61, 42])
      in if found = [] then None else Some (foldl min (hd found) found))"

definition add_arg :: "(pystr, pystr) odict \<times> pystr list \<Rightarrow> pystr \<Rightarrow> (pystr, pystr) odict \<times> pystr list" where
  "add_arg acc pair =
     (case acc of (attrs, cmd_args) \<Rightarrow>
        (case pair_sep pair of
           None \<Rightarrow> (attrs, cmd_args)
         | Some sep \<Rightarrow>
             (let key = lower (strip (take sep pair)); value = drop (sep + 1) pair
              in if key = u ''cmd-arg'' then (attrs, cmd_args @ [value])
                 else if od_get attrs key = None then (od_set attrs key value, cmd_args)
                 else (attrs, cmd_args))))"

definition parse_args :: "pystr list \<Rightarrow> (pystr, pystr) odict \<times> pystr list" where
  "parse_args args = foldl add_arg ([], []) args"

definition command_line :: "pystr \<Rightarrow> pystr list \<Rightarrow> pystr" where
  "command_line cmd cmd_args = join [32] (words (join [32] (cmd # filter (\<lambda>a. a \<noteq> u ''<cr>'') cmd_args)))"

section \<open>Command sets\<close>

record CompiledCommandSet =
  ccs_name :: pystr
  ccs_default :: CommandAction
  ccs_rules :: "(CommandAction \<times> pystr) list"

definition load_command_set :: "db \<Rightarrow> nat option \<Rightarrow> CompiledCommandSet option" where
  "load_command_set d command_set_id =
     (case command_set_id of
        None \<Rightarrow> None
      | Some i \<Rightarrow>
          (case find (\<lambda>cs. cs_id cs = i) (command_sets d) of
             None \<Rightarrow> None
           | Some cs \<Rightarrow>
               Some \<lparr>ccs_name = cs_name cs, ccs_default = cs_default_action cs,
                     ccs_rules = map (\<lambda>r. (cr_action r, cr_pattern r))
                       (sort_key cr_position (filter (\<lambda>r. cr_command_set_id r = cs_id cs) (command_rules d)))\<rparr>))"

fun action_word :: "CommandAction \<Rightarrow> pystr" where
  "action_word CMD_PERMIT = u ''permit''"
| "action_word CMD_DENY = u ''deny''"

definition rule_hit :: "pystr \<Rightarrow> CommandAction \<times> pystr \<Rightarrow> bool" where
  "rule_hit line rule = fnmatchcase (casefold line) (casefold (join [32] (words (snd rule))))"

definition rule_verdict :: "CommandAction \<times> pystr \<Rightarrow> Verdict" where
  "rule_verdict rule =
     \<lparr>vd_allowed = (fst rule = CMD_PERMIT), vd_reason = action_word (fst rule) @ u '' by rule '' @ [39] @ snd rule @ [39]\<rparr>"

definition default_verdict :: "CompiledCommandSet \<Rightarrow> Verdict" where
  "default_verdict cs =
     \<lparr>vd_allowed = (ccs_default cs = CMD_PERMIT), vd_reason = action_word (ccs_default cs) @ u '' by default of '' @ ccs_name cs\<rparr>"

fun first_rule :: "pystr \<Rightarrow> Verdict \<Rightarrow> (CommandAction \<times> pystr) list \<Rightarrow> Verdict" where
  "first_rule line fallback [] = fallback"
| "first_rule line fallback (rule # rules) =
     (if rule_hit line rule then rule_verdict rule else first_rule line fallback rules)"

definition command_allowed :: "pystr \<Rightarrow> CompiledCommandSet option \<Rightarrow> Verdict" where
  "command_allowed line command_set =
     (case command_set of
        None \<Rightarrow> \<lparr>vd_allowed = True, vd_reason = u ''no command set: privilege level governs''\<rparr>
      | Some cs \<Rightarrow> first_rule line (default_verdict cs) (ccs_rules cs))"

section \<open>Lemmas\<close>

interpretation cmds: first_match "\<lambda>rule. Inr (rule_hit line rule)" rule_verdict fallback
    "\<lambda>rules. Inr (first_rule line fallback rules)" for line fallback
  by unfold_locales simp_all

text \<open>The command set as stored: its rules in the order of their positions.\<close>

definition stored_rules :: "db \<Rightarrow> nat \<Rightarrow> CommandRule list" where
  "stored_rules d i = sort_key cr_position (filter (\<lambda>r. cr_command_set_id r = i) (command_rules d))"

lemma words_aux_nospace: "list_all (\<lambda>c. \<not> is_space c) w \<Longrightarrow> x \<in> set (words_aux w s) \<Longrightarrow> list_all (\<lambda>c. \<not> is_space c) x \<and> x \<noteq> []"
  by (induction w s rule: words_aux.induct) (auto split: if_splits)

lemma words_nospace: "x \<in> set (words s) \<Longrightarrow> list_all (\<lambda>c. \<not> is_space c) x \<and> x \<noteq> []"
  unfolding words_def by (rule words_aux_nospace) simp_all

lemma words_aux_append: "list_all (\<lambda>c. \<not> is_space c) x \<Longrightarrow> words_aux w (x @ s) = words_aux (rev x @ w) s"
  by (induction x arbitrary: w) auto

lemma words_join: "list_all (\<lambda>x. list_all (\<lambda>c. \<not> is_space c) x \<and> x \<noteq> []) ws \<Longrightarrow> words (join [32] ws) = ws"
proof (induction ws rule: induct_list012)
  case (2 w)
  then show ?case using words_aux_append [of w "[]" "[]"] by (simp add: words_def)
next
  case (3 w v ws)
  then have "words_aux [] (w @ 32 # join [32] (v # ws)) = w # words_aux [] (join [32] (v # ws))"
    using words_aux_append [of w "[]" "32 # join [32] (v # ws)"] by (simp add: is_space_def)
  with 3 show ?case by (simp add: words_def)
qed (simp add: words_def)

lemma command_line_normal: "join [32] (words (command_line cmd args)) = command_line cmd args"
proof -
  let ?ws = "words (join [32] (cmd # filter (\<lambda>a. a \<noteq> u ''<cr>'') args))"
  have "words (join [32] ?ws) = ?ws"
    by (rule words_join) (use words_nospace in \<open>auto simp: list_all_iff\<close>)
  then show ?thesis by (simp add: command_line_def)
qed

text \<open>A command is decided by the first rule, in the order of positions, whose pattern matches the
  command line without regard to case and spacing; when no rule matches the default of the set
  decides, and there is no other way to be allowed once the set exists.\<close>

theorem command_allowed_first_rule:
  assumes "find (\<lambda>cs. cs_id cs = i) (command_sets d) = Some cs"
  shows "vd_allowed (command_allowed line (load_command_set d (Some i))) \<longleftrightarrow>
    (\<exists>before r after. stored_rules d i = before @ r # after \<and> (\<forall>q\<in>set before. \<not> rule_hit line (cr_action q, cr_pattern q)) \<and>
       rule_hit line (cr_action r, cr_pattern r) \<and> cr_action r = CMD_PERMIT) \<or>
    (\<forall>q\<in>set (stored_rules d i). \<not> rule_hit line (cr_action q, cr_pattern q)) \<and> cs_default_action cs = CMD_PERMIT"
proof -
  let ?p = "\<lambda>r. (cr_action r, cr_pattern r)"
  let ?fb = "default_verdict \<lparr>ccs_name = cs_name cs, ccs_default = cs_default_action cs, ccs_rules = map ?p (stored_rules d i)\<rparr>"
  have "cs_id cs = i" using assms by (simp add: find_Some_iff) metis
  then have e: "command_allowed line (load_command_set d (Some i)) = first_rule line ?fb (map ?p (stored_rules d i))"
    using assms by (simp add: command_allowed_def load_command_set_def stored_rules_def)
  show ?thesis (is "?A \<longleftrightarrow> ?B")
  proof
    assume ?A
    from cmds.eval_cases [of line ?fb "map ?p (stored_rules d i)" "first_rule line ?fb (map ?p (stored_rules d i))"]
    consider "\<forall>q\<in>set (stored_rules d i). \<not> rule_hit line (?p q)" "first_rule line ?fb (map ?p (stored_rules d i)) = ?fb"
      | xs r ys where "map ?p (stored_rules d i) = xs @ r # ys" "\<forall>q\<in>set xs. \<not> rule_hit line q" "rule_hit line r"
          "first_rule line ?fb (map ?p (stored_rules d i)) = rule_verdict r" by auto
    then show ?B
    proof cases
      case 1
      with \<open>?A\<close> show ?thesis by (auto simp: e default_verdict_def)
    next
      case (2 xs r ys)
      then obtain before q after where "stored_rules d i = before @ q # after" "xs = map ?p before" "r = ?p q"
        by (auto simp: map_eq_append_conv map_eq_Cons_conv)
      moreover from this 2 \<open>?A\<close> have "cr_action q = CMD_PERMIT" by (simp add: e rule_verdict_def)
      ultimately show ?thesis using 2 by (intro disjI1) (metis (mono_tags, lifting) image_eqI list.set_map)
    qed
  next
    assume ?B
    then show ?A
    proof (elim disjE exE conjE)
      fix before r after
      assume a: "stored_rules d i = before @ r # after" "\<forall>q\<in>set before. \<not> rule_hit line (?p q)" "rule_hit line (?p r)"
        "cr_action r = CMD_PERMIT"
      from a(2) have "Inr (rule_hit line q) = Inr False" if "q \<in> set (map ?p before)" for q using that by auto
      from cmds.eval_first [of "map ?p before" line "?p r" ?fb "map ?p after", OF this] a show ?A by (simp add: e rule_verdict_def)
    next
      assume a: "\<forall>q\<in>set (stored_rules d i). \<not> rule_hit line (?p q)" "cs_default_action cs = CMD_PERMIT"
      then have "Inr (rule_hit line q) = Inr False" if "q \<in> set (map ?p (stored_rules d i))" for q using that by auto
      from cmds.eval_none [of "map ?p (stored_rules d i)" line ?fb, OF this] a show ?A by (simp add: e default_verdict_def)
    qed
  qed
qed

text \<open>A set that permits \<open>show *\<close> and denies the rest.\<close>

definition lab_set_db :: db where
  "lab_set_db = empty_db\<lparr>command_sets := [\<lparr>cs_id = 1, cs_name = u ''ops'', cs_description = [], cs_default_action = CMD_DENY,
       cs_created_at = 0, cs_updated_at = 0\<rparr>],
     command_rules := [\<lparr>cr_id = 1, cr_command_set_id = 1, cr_position = 0, cr_action = CMD_PERMIT, cr_pattern = u ''show *''\<rparr>]\<rparr>"

theorem command_allowed_first_rule_witness:
  "vd_allowed (command_allowed (u ''SHOW run'') (load_command_set lab_set_db (Some 1)))"
proof -
  have f: "find (\<lambda>cs. cs_id cs = 1) (command_sets lab_set_db) = Some \<lparr>cs_id = 1, cs_name = u ''ops'', cs_description = [],
       cs_default_action = CMD_DENY, cs_created_at = 0, cs_updated_at = 0\<rparr>" by (simp add: lab_set_db_def)
  have w: "casefold (join [32] (words (u ''show *''))) = u ''show '' @ [42]" "casefold (u ''SHOW run'') = u ''show run''"
    by (simp_all add: words_def u_def is_space_def casefold_def fold_char_def lower_char_def)
  have "list_all plain_char (u ''show '')" "startswith (u ''show run'') (u ''show '')"
    by (simp_all add: u_def plain_char_def startswith_def)
  then have "rule_hit (u ''SHOW run'') (CMD_PERMIT, u ''show *'')" by (simp add: rule_hit_def w fnmatchcase_prefix)
  moreover have "stored_rules lab_set_db 1 =
      [] @ \<lparr>cr_id = 1, cr_command_set_id = 1, cr_position = 0, cr_action = CMD_PERMIT, cr_pattern = u ''show *''\<rparr> # []"
    by (simp add: stored_rules_def lab_set_db_def)
  ultimately show ?thesis unfolding command_allowed_first_rule [OF f] by fastforce
qed

end
