(* ===== verification/TacacsServer.thy ===== *)
theory TacacsServer
  imports TacacsAuthz GuessDelay NetUtils "HOL-Library.List_Lexorder"
begin

text \<open>
  \<open>naco/tacacs/server.py\<close>: connections, ASCII logins bound to their session, authorization and accounting.
  The state of the server is the database, the guess guard, the connection counters and the
  events; a connection keeps the logins in progress.  A handler returns the state and either the
  reply or the exception that ends the connection.  Whether a log row can be stored is a parameter
  (\<open>tcf_stores\<close>).  A handler is one step; handlers of different connections interleave.
  Counters of the metrics page and log lines are not modelled.
\<close>

section \<open>State\<close>

datatype awaiting = Await_User | Await_Pass

record Login =
  lg_start :: AuthenStart
  lg_user :: pystr
  lg_awaiting :: awaiting
  lg_next_seq :: nat

record tac_conn =
  cn_ip :: pystr
  cn_name :: pystr
  cn_key :: bytes
  cn_logins :: "(nat, Login) odict"

datatype tac_event = TacacsEvent TacacsKind pystr pystr pystr pystr pystr   \<comment> \<open>user, device, command, result, reason\<close>

record tac_server =
  ts_db :: db
  ts_failures :: GuessGuard
  ts_total :: nat
  ts_per_client :: "(pystr, nat) odict"
  ts_events :: "tac_event list"

record tac_cfg =
  tcf_env :: auth_env
  tcf_max_connections :: nat
  tcf_max_per_client :: nat
  tcf_stores :: "TacacsLog \<Rightarrow> bool"

datatype tac_exc = ProtocolError pystr | StoreError | AttributeError service_error | Raised py_exc

definition TacacsServer_init :: "db \<Rightarrow> tac_server" where
  "TacacsServer_init d = \<lparr>ts_db = d, ts_failures = GuessGuard_default 5, ts_total = 0, ts_per_client = [], ts_events = []\<rparr>"

fun lift_exc :: "('e \<Rightarrow> tac_exc) \<Rightarrow> 'e + 'a \<Rightarrow> tac_exc + 'a" where
  "lift_exc f (Inl e) = Inl (f e)"
| "lift_exc f (Inr x) = Inr x"

section \<open>Logging\<close>

definition tac_row :: "db \<Rightarrow> tac_conn \<Rightarrow> TacacsKind \<Rightarrow> pystr \<Rightarrow> pystr \<Rightarrow> pystr \<Rightarrow> nat \<Rightarrow> pystr \<Rightarrow> pystr \<Rightarrow> pystr \<Rightarrow> int \<Rightarrow> TacacsLog" where
  "tac_row d conn kind username rem_addr port privilege command res reason now =
     \<lparr>tlog_id = next_id tlog_id (tacacs_logs d), tlog_timestamp = now, tlog_kind = kind, tlog_username = take 64 username,
      tlog_client_ip = cn_ip conn, tlog_rem_addr = take 64 rem_addr, tlog_port = take 64 port,
      tlog_privilege = int privilege, tlog_command = take 4000 command, tlog_result = take 16 res, tlog_reason = take 255 reason\<rparr>"

definition record_entry :: "tac_cfg \<Rightarrow> tac_conn \<Rightarrow> tac_server \<Rightarrow> TacacsKind \<Rightarrow> pystr \<Rightarrow> pystr \<Rightarrow> pystr \<Rightarrow> nat \<Rightarrow> pystr \<Rightarrow> pystr \<Rightarrow> pystr \<Rightarrow> int \<Rightarrow>
    tac_server \<times> bool" where
  "record_entry cfg conn s kind username rem_addr port privilege command res reason now =
     (let row = tac_row (ts_db s) conn kind username rem_addr port privilege command res reason now
      in if tcf_stores cfg row
         then (s\<lparr>ts_db := (ts_db s)\<lparr>tacacs_logs := tacacs_logs (ts_db s) @ [row]\<rparr>,
                 ts_events := ts_events s @ [TacacsEvent kind username (cn_name conn) command res reason]\<rparr>, True)
         else (s, False))"

text \<open>Record, then answer; a row that cannot be stored ends the connection.\<close>

definition answer_recorded :: "tac_server \<times> bool \<Rightarrow> tac_exc + bytes \<Rightarrow> tac_server \<times> (tac_exc + bytes)" where
  "answer_recorded r reply = (case r of (s, ok) \<Rightarrow> (s, if ok then reply else Inl StoreError))"

section \<open>Authentication\<close>

definition what_of :: "AuthenStart \<Rightarrow> pystr" where
  "what_of start = (if st_authen_service start = SERVICE_ENABLE then u ''enable'' else u ''login'')"

definition authen_fail :: "tac_cfg \<Rightarrow> tac_conn \<Rightarrow> tac_server \<Rightarrow> AuthenStart \<Rightarrow> pystr \<Rightarrow> pystr \<Rightarrow> int \<Rightarrow> tac_server \<times> (tac_exc + bytes)" where
  "authen_fail cfg conn s start username reason now =
     answer_recorded
       (record_entry cfg conn s AUTHEN username (st_rem_addr start) (st_port start) (st_priv_lvl start)
          (what_of start) (u ''FAIL'') reason now)
       (lift_exc Raised (authen_reply STATUS_FAIL [] False []))"

definition login_key :: "pystr \<Rightarrow> pystr" where
  "login_key username = or_empty (canonical_username (Some username)) (take 64 username)"

definition login_source :: "tac_conn \<Rightarrow> AuthenStart \<Rightarrow> pystr" where
  "login_source conn start = cn_ip conn @ [124] @ st_rem_addr start"

definition tac_verify :: "tac_cfg \<Rightarrow> tac_conn \<Rightarrow> tac_server \<Rightarrow> AuthenStart \<Rightarrow> pystr \<Rightarrow> pystr \<Rightarrow> int \<Rightarrow> int \<Rightarrow>
    tac_server \<times> (tac_exc + bytes)" where
  "tac_verify cfg conn s start username password now clock =
     (let key = login_key username;
          source = login_source conn start;
          (g, wait) = gg_delay_for (ts_failures s) key source clock;
          s = s\<lparr>ts_failures := g\<rparr>
      in if wait > 0
         then authen_fail cfg conn s start username (u ''too many failed attempts '' @ [0x2014] @ u '' slowed down'') now
         else
           (case authenticate_user (tcf_env cfg) (ts_db s) username password now of
              Inl e \<Rightarrow> (s, Inl (Raised e))
            | Inr (d, r) \<Rightarrow>
                (let s = s\<lparr>ts_db := d\<rparr> in
                 if \<not> ir_ok r then
                   (case gg_failure (ts_failures s) key source clock of
                      (g, Some e) \<Rightarrow> (s\<lparr>ts_failures := g\<rparr>, Inl (Raised e))
                    | (g, None) \<Rightarrow> authen_fail cfg conn (s\<lparr>ts_failures := g\<rparr>) start (ir_username r) (ir_reason r) now)
                 else
                   (let s = s\<lparr>ts_failures := gg_success (ts_failures s) key source\<rparr>;
                        rights = admin_rights (ir_user r)
                    in if \<not> vd_allowed rights then authen_fail cfg conn s start (ir_username r) (vd_reason rights) now
                       else
                         (case ir_user r of
                            None \<Rightarrow> (s, Inl (Raised TypeError))
                          | Some user \<Rightarrow>
                              (let level = privilege_allowed user (int (st_priv_lvl start)) in
                               if st_authen_service start = SERVICE_ENABLE \<and> \<not> vd_allowed level
                               then authen_fail cfg conn s start (ir_username r) (vd_reason level) now
                               else answer_recorded
                                      (record_entry cfg conn s AUTHEN (ir_username r) (st_rem_addr start) (st_port start)
                                         (st_priv_lvl start) (what_of start) (u ''PASS'') (u ''ok'') now)
                                      (lift_exc Raised (authen_reply STATUS_PASS [] False []))))))))"

definition ask_password :: "tac_exc + bytes" where
  "ask_password = lift_exc Raised (authen_reply STATUS_GETPASS (u ''Password: '') True [])"

definition ask_user :: "tac_exc + bytes" where
  "ask_user = lift_exc Raised (authen_reply STATUS_GETUSER (u ''Username: '') False [])"

definition handle_start :: "tac_cfg \<Rightarrow> tac_conn \<Rightarrow> tac_server \<Rightarrow> Header \<Rightarrow> AuthenStart \<Rightarrow> int \<Rightarrow> int \<Rightarrow>
    tac_conn \<times> tac_server \<times> (tac_exc + bytes)" where
  "handle_start cfg conn s header start now clock =
     (let conn = conn\<lparr>cn_logins := od_del (cn_logins conn) (hd_session_id header)\<rparr>;
          pending = (\<lambda>user aw. conn\<lparr>cn_logins := od_set (cn_logins conn) (hd_session_id header)
            \<lparr>lg_start = start, lg_user = user, lg_awaiting = aw, lg_next_seq = hd_seq_no header + 2\<rparr>\<rparr>)
      in if st_action start \<noteq> ACTION_LOGIN
         then (conn, authen_fail cfg conn s start (st_user start) (u ''only login is supported'') now)
         else if st_authen_type start = TYPE_PAP
         then (conn, tac_verify cfg conn s start (st_user start) (decode_replace (st_data start)) now clock)
         else if st_authen_type start \<noteq> TYPE_ASCII
         then (conn, authen_fail cfg conn s start (st_user start) (u ''authentication type not supported'') now)
         else if st_user start \<noteq> [] then (pending (st_user start) Await_Pass, s, ask_password)
         else (pending [] Await_User, s, ask_user))"

definition handle_continue :: "tac_cfg \<Rightarrow> tac_conn \<Rightarrow> tac_server \<Rightarrow> Header \<Rightarrow> AuthenContinue \<Rightarrow> int \<Rightarrow> int \<Rightarrow>
    tac_conn \<times> tac_server \<times> (tac_exc + bytes)" where
  "handle_continue cfg conn s header cont now clock =
     (let sid = hd_session_id header;
          gone = conn\<lparr>cn_logins := od_del (cn_logins conn) sid\<rparr>;
          unexpected = (gone, s, lift_exc Raised (authen_reply STATUS_ERROR (u ''unexpected packet'') False []))
      in case od_get (cn_logins conn) sid of
           None \<Rightarrow> unexpected
         | Some login \<Rightarrow>
             if hd_seq_no header \<noteq> lg_next_seq login then unexpected
             else
               (let answer = or_empty (ct_user_msg cont) (decode_replace (ct_data cont)) in
                if ct_abort cont then (gone, s, lift_exc Raised (authen_reply STATUS_FAIL (u ''aborted'') False []))
                else
                  (case lg_awaiting login of
                     Await_User \<Rightarrow>
                       (conn\<lparr>cn_logins := od_set (cn_logins conn) sid
                          (login\<lparr>lg_user := answer, lg_awaiting := Await_Pass, lg_next_seq := hd_seq_no header + 2\<rparr>)\<rparr>,
                        s, ask_password)
                   | Await_Pass \<Rightarrow> (gone, tac_verify cfg gone s (lg_start login) (lg_user login) answer now clock))))"

section \<open>Authorization\<close>

definition req_username :: "db \<Rightarrow> Request \<Rightarrow> pystr" where
  "req_username d req = (case lookup_user d (rq_user req) of Some i \<Rightarrow> ui_username i | None \<Rightarrow> login_key (rq_user req))"

definition handle_authorize :: "tac_cfg \<Rightarrow> tac_conn \<Rightarrow> tac_server \<Rightarrow> Request \<Rightarrow> int \<Rightarrow> tac_server \<times> (tac_exc + bytes)" where
  "handle_authorize cfg conn s req now =
     (let d = ts_db s;
          user = lookup_user d (rq_user req);
          (attrs, cmd_args) = parse_args (rq_args req);
          cmd = (case od_get attrs (u ''cmd'') of Some c \<Rightarrow> c | None \<Rightarrow> []);
          line = (if cmd \<noteq> [] then command_line cmd cmd_args else u ''shell'');
          recorded = (\<lambda>line res reason. record_entry cfg conn s AUTHOR (req_username d req) (rq_rem_addr req) (rq_port req)
            (rq_priv_lvl req) line res reason now);
          deny = (\<lambda>line reason. answer_recorded (recorded line (u ''FAIL'') reason)
            (lift_exc Raised (author_reply AUTHOR_FAIL [] [])));
          rights = admin_rights user
      in if \<not> vd_allowed rights then deny line (vd_reason rights)
         else
           (case user of
              None \<Rightarrow> (s, Inl (Raised TypeError))
            | Some i \<Rightarrow>
                (let service = (case od_get attrs (u ''service'') of Some v \<Rightarrow> v | None \<Rightarrow> []);
                     level = (case ui_device_admin_privilege i of Some p \<Rightarrow> str_int p | None \<Rightarrow> u ''None'')
                 in if lower service \<noteq> u ''shell'' then
                      (case service_attributes i service of
                         Inl e \<Rightarrow> (s, Inl (AttributeError e))
                       | Inr extra \<Rightarrow>
                           if extra = [] then
                             (let line = or_empty service (u ''?'') in
                              deny line (u ''no attributes for service '' @ line @ u '' in group '' @
                                (case ui_group_name i of Some g \<Rightarrow> g | None \<Rightarrow> u ''None'')))
                           else answer_recorded (recorded service (u ''PASS'') (take 255 (join (u '', '') extra)))
                                  (lift_exc Raised (author_reply AUTHOR_PASS_ADD extra [])))
                    else if cmd = [] then
                      answer_recorded (recorded line (u ''PASS'') (u ''priv-lvl '' @ level))
                        (case service_attributes i (u ''shell'') of
                           Inl e \<Rightarrow> Inl (AttributeError e)
                         | Inr extra \<Rightarrow>
                             lift_exc Raised (author_reply AUTHOR_PASS_ADD ((u ''priv-lvl='' @ level) # extra) []))
                    else
                      (let verdict = command_allowed line (load_command_set d (ui_command_set_id i)) in
                       if \<not> vd_allowed verdict then deny line (vd_reason verdict)
                       else answer_recorded (recorded line (u ''PASS'') (vd_reason verdict))
                              (lift_exc Raised (author_reply AUTHOR_PASS_ADD [] []))))))"

section \<open>Accounting\<close>

definition acct_kind :: "nat \<Rightarrow> pystr" where
  "acct_kind flags =
     (if bit flags 1 then u ''START'' else if bit flags 2 then u ''STOP'' else if bit flags 3 then u ''WATCHDOG'' else u ''OTHER'')"

definition handle_account :: "tac_cfg \<Rightarrow> tac_conn \<Rightarrow> tac_server \<Rightarrow> Request \<Rightarrow> int \<Rightarrow> tac_server \<times> (tac_exc + bytes)" where
  "handle_account cfg conn s req now =
     (let (attrs, cmd_args) = parse_args (rq_args req);
          what = (case od_get attrs (u ''cmd'') of
                    Some (c # cs) \<Rightarrow> command_line (c # cs) cmd_args
                  | _ \<Rightarrow> join [32] (map (\<lambda>(k, v). k @ [61] @ v) (sort_key fst attrs)));
          (s, stored) = record_entry cfg conn s ACCT (login_key (rq_user req)) (rq_rem_addr req) (rq_port req)
            (rq_priv_lvl req) what (acct_kind (rq_flags req)) [] now
      in (s, lift_exc Raised (acct_reply (if stored then ACCT_SUCCESS else ACCT_ERROR) [])))"

section \<open>Connections\<close>

definition dispatch :: "tac_cfg \<Rightarrow> tac_conn \<Rightarrow> tac_server \<Rightarrow> Header \<Rightarrow> bytes \<Rightarrow> int \<Rightarrow> int \<Rightarrow>
    tac_conn \<times> tac_server \<times> (tac_exc + bytes)" where
  "dispatch cfg conn s header body now clock =
     (if hd_type header = TAC_AUTHEN then
        if hd_seq_no header = 1 then
          (case AuthenStart_decode body of
             Inl e \<Rightarrow> (conn, s, Inl (ProtocolError e))
           | Inr start \<Rightarrow> handle_start cfg conn s header start now clock)
        else
          (case AuthenContinue_decode body of
             Inl e \<Rightarrow> (conn, s, Inl (ProtocolError e))
           | Inr cont \<Rightarrow> handle_continue cfg conn s header cont now clock)
      else if hd_seq_no header \<noteq> 1 then
        (conn, s, Inl (ProtocolError (u ''authorization and accounting are single-packet sessions'')))
      else
        (case Request_decode body (hd_type header \<noteq> TAC_AUTHOR) of
           Inl e \<Rightarrow> (conn, s, Inl (ProtocolError e))
         | Inr req \<Rightarrow>
             (conn, if hd_type header = TAC_AUTHOR then handle_authorize cfg conn s req now else handle_account cfg conn s req now)))"

text \<open>Reading a packet: the header, the decrypted body and the unread input; \<open>Inl None\<close> when the input ends
  or the idle timeout passes first.\<close>

definition read_packet :: "tac_conn \<Rightarrow> bytes \<Rightarrow> pystr option + Header \<times> bytes \<times> bytes" where
  "read_packet conn input =
     (if length input < HEADER_LEN then Inl None
      else
        (case Header_decode (take HEADER_LEN input) of
           Inl e \<Rightarrow> Inl (Some e)
         | Inr h \<Rightarrow>
             if bit (hd_flags h) 0 then Inl (Some (u ''unencrypted packets are refused''))
             else if even (hd_seq_no h) then Inl (Some (u ''clients send odd sequence numbers''))
             else
               (let input = drop HEADER_LEN input in
                if length input < hd_length h then Inl None
                else
                  (case crypt (take (hd_length h) input) (cn_key conn) (hd_session_id h) (hd_version h) (hd_seq_no h) of
                     Inl _ \<Rightarrow> Inl None
                   | Inr body \<Rightarrow> Inr (h, body, drop (hd_length h) input)))))"

text \<open>One turn of the loop in \<open>run\<close>; \<open>None\<close> when it returns or raises.\<close>

definition serve_packet :: "tac_cfg \<Rightarrow> tac_conn \<Rightarrow> tac_server \<Rightarrow> bytes \<Rightarrow> int \<Rightarrow> int \<Rightarrow> tac_server \<times> (tac_conn \<times> bytes \<times> bytes) option" where
  "serve_packet cfg conn s input now clock =
     (case read_packet conn input of
        Inl _ \<Rightarrow> (s, None)
      | Inr (h, body, rest) \<Rightarrow>
          (case dispatch cfg conn s h body now clock of
             (conn', s', Inl _) \<Rightarrow> (s', None)
           | (conn', s', Inr reply) \<Rightarrow>
               (case packet h reply (cn_key conn') of
                  Inl _ \<Rightarrow> (s', None)
                | Inr out \<Rightarrow> (s', Some (conn', rest, out)))))"

text \<open>The loop on the input received so far; \<open>ticks\<close> are the two clocks at each complete packet.\<close>

fun run :: "tac_cfg \<Rightarrow> tac_conn \<Rightarrow> tac_server \<Rightarrow> bytes \<Rightarrow> (int \<times> int) list \<Rightarrow> tac_server \<times> bytes list" where
  "run cfg conn s input [] = (s, [])"
| "run cfg conn s input ((now, clock) # ticks) =
     (case serve_packet cfg conn s input now clock of
        (s', None) \<Rightarrow> (s', [])
      | (s', Some (conn', rest, out)) \<Rightarrow> (let (s'', outs) = run cfg conn' s' rest ticks in (s'', out # outs)))"

section \<open>The server\<close>

text \<open>\<open>_peer\<close>: the address of the client in its usual spelling, IPv4 when it is mapped.\<close>

definition peer :: "pystr \<Rightarrow> pystr" where
  "peer raw =
     (case ip_address raw of
        None \<Rightarrow> raw
      | Some (V4 n) \<Rightarrow> show_ip (V4 n)
      | Some (V6 n sc) \<Rightarrow> if n div 2 ^ 32 = 0xFFFF then show_ip (V4 (n mod 2 ^ 32)) else show_ip (V6 n sc))"

definition tac_client :: "db \<Rightarrow> pystr \<Rightarrow> TacacsClient option" where
  "tac_client d ip = find (\<lambda>c. tc_ip_address c = ip \<and> tc_enabled c) (tacacs_clients d)"

definition per_client :: "tac_server \<Rightarrow> pystr \<Rightarrow> nat" where
  "per_client s ip = (case od_get (ts_per_client s) ip of Some n \<Rightarrow> n | None \<Rightarrow> 0)"

definition tac_accept :: "tac_cfg \<Rightarrow> tac_server \<Rightarrow> pystr \<Rightarrow> tac_server option" where
  "tac_accept cfg s ip =
     (if ts_total s \<ge> tcf_max_connections cfg \<or> per_client s ip \<ge> tcf_max_per_client cfg then None
      else Some (s\<lparr>ts_total := ts_total s + 1, ts_per_client := od_set (ts_per_client s) ip (per_client s ip + 1)\<rparr>))"

definition tac_release :: "tac_server \<Rightarrow> pystr \<Rightarrow> tac_server" where
  "tac_release s ip =
     (let n = per_client s ip - 1
      in s\<lparr>ts_total := ts_total s - 1,
           ts_per_client := (if n = 0 then od_del (ts_per_client s) ip else od_set (ts_per_client s) ip n)\<rparr>)"

definition new_conn :: "pystr \<Rightarrow> TacacsClient \<Rightarrow> py_exc + tac_conn" where
  "new_conn ip client =
     rbind (encode_text (tc_key client)) (\<lambda>key. Inr \<lparr>cn_ip = ip, cn_name = tc_name client, cn_key = key, cn_logins = []\<rparr>)"

text \<open>\<open>_handle\<close>, for a connection whose whole input is known.\<close>

definition handle :: "tac_cfg \<Rightarrow> tac_server \<Rightarrow> pystr \<Rightarrow> bytes \<Rightarrow> (int \<times> int) list \<Rightarrow> tac_server \<times> bytes list" where
  "handle cfg s raw_peer input ticks =
     (let ip = peer raw_peer in
      case tac_accept cfg s ip of
        None \<Rightarrow> (s, [])
      | Some s1 \<Rightarrow>
          (let (s2, outs) =
             (case tac_client (ts_db s1) ip of
                None \<Rightarrow> (s1, [])
              | Some client \<Rightarrow> (case new_conn ip client of Inl _ \<Rightarrow> (s1, []) | Inr conn \<Rightarrow> run cfg conn s1 input ticks))
           in (tac_release s2 ip, outs)))"

end
