(* ===== verification/TacacsSafety.thy ===== *)
theory TacacsSafety
  imports TacacsServer
begin

text \<open>
  What the TACACS+ server guarantees: who can get a PASS, which commands are authorized, and that
  the connection limits hold in every interleaving of connections.
\<close>

section \<open>Replies\<close>

lemma lift_exc_Inr [simp]: "lift_exc f r = Inr x \<longleftrightarrow> r = Inr x"
  by (cases r) auto

lemma struct_pack_hd: "struct_pack ((Suc 0, n) # fs) = Inr bs \<Longrightarrow> bs \<noteq> [] \<and> hd bs = byte n"
  by (auto simp: struct_pack_iff byte_def)

lemma authen_reply_hd: "authen_reply st msg ne data = Inr rep \<Longrightarrow> hd rep = byte st"
  by (auto simp: authen_reply_def rbind_eq_Inr dest!: struct_pack_hd)

lemma author_reply_hd: "author_reply st args msg = Inr rep \<Longrightarrow> hd rep = byte st"
  by (auto simp: author_reply_def rbind_eq_Inr dest!: struct_pack_hd)

lemma byte_inject [simp]: "a < 256 \<Longrightarrow> b < 256 \<Longrightarrow> byte a = byte b \<longleftrightarrow> a = b"
  using unat_byte_small by metis

lemma answer_recorded_Inr: "answer_recorded r reply = (s', Inr rep) \<longleftrightarrow> r = (s', True) \<and> reply = Inr rep"
  by (auto simp: answer_recorded_def split: prod.splits if_splits)

lemma authen_fail_no_pass: "authen_fail cfg conn s start name reason now = (s', Inr rep) \<Longrightarrow> hd rep \<noteq> byte 1"
  by (auto simp: authen_fail_def answer_recorded_Inr dest!: authen_reply_hd)

section \<open>Logins\<close>

text \<open>The password is verified now, the account may administer devices, and \<open>enable\<close> does not ask for more
  than its level.\<close>

definition proven_login :: "tac_cfg \<Rightarrow> db \<Rightarrow> AuthenStart \<Rightarrow> pystr \<Rightarrow> pystr \<Rightarrow> int \<Rightarrow> bool" where
  "proven_login cfg d start username password now \<longleftrightarrow>
     (\<exists>d' r i. authenticate_user (tcf_env cfg) d username password now = Inr (d', r) \<and> ir_ok r \<and> ir_user r = Some i \<and>
        ui_enabled i \<and> ui_device_admin_privilege i \<noteq> None \<and>
        (st_authen_service start = SERVICE_ENABLE \<longrightarrow> int (st_priv_lvl start) \<le> granted_privilege i))"

lemma admin_rights_allowed: "vd_allowed (admin_rights user) \<longleftrightarrow>
    (\<exists>i. user = Some i \<and> ui_enabled i \<and> ui_device_admin_privilege i \<noteq> None)"
  by (auto simp: admin_rights_def split: option.splits)

lemma tac_verify_pass:
  assumes "tac_verify cfg conn s start username password now clock = (s', Inr rep)" "hd rep = byte 1"
  shows "proven_login cfg (ts_db s) start username password now"
proof -
  obtain g wait where g: "gg_delay_for (ts_failures s) (login_key username) (login_source conn start) clock = (g, wait)"
    by (rule prod.exhaust)
  from assms g authen_fail_no_pass obtain d r where
    dr: "authenticate_user (tcf_env cfg) (ts_db s) username password now = Inr (d, r)" and w: "\<not> wait > 0"
    by (fastforce simp: tac_verify_def Let_def split: sum.splits if_splits)
  have ok: "ir_ok r"
    using assms g dr w authen_fail_no_pass
    by (fastforce simp: tac_verify_def Let_def split: if_splits prod.splits option.splits)
  have rights: "vd_allowed (admin_rights (ir_user r))"
    using assms g dr w ok authen_fail_no_pass by (fastforce simp: tac_verify_def Let_def split: if_splits)
  then obtain i where i: "ir_user r = Some i" "ui_enabled i" "ui_device_admin_privilege i \<noteq> None"
    by (auto simp: admin_rights_allowed)
  have "st_authen_service start = SERVICE_ENABLE \<Longrightarrow> vd_allowed (privilege_allowed i (int (st_priv_lvl start)))"
    using assms g dr w ok rights i authen_fail_no_pass by (fastforce simp: tac_verify_def Let_def split: if_splits)
  with dr ok i show ?thesis by (fastforce simp: proven_login_def privilege_allowed_def split: if_splits)
qed

text \<open>C21. A device is told PASS only for a verified password of an enabled user with device-administration
  rights, and for \<open>enable\<close> at most at the level of the user's group: either the password in a PAP start, or
  what was typed at the password prompt of the login this very session is waiting for - the message of this
  CONTINUE packet, or its data when there is no message - with the expected sequence number.  A login
  answered with PASS is gone.\<close>

theorem authen_pass_sound:
  assumes "dispatch cfg conn s header body now clock = (conn', s', Inr rep)" "hd_type header = TAC_AUTHEN" "hd rep = byte STATUS_PASS"
  shows "(if hd_seq_no header = 1
      then \<exists>start. AuthenStart_decode body = Inr start \<and> st_action start = ACTION_LOGIN \<and> st_authen_type start = TYPE_PAP \<and>
        proven_login cfg (ts_db s) start (st_user start) (decode_replace (st_data start)) now
      else \<exists>login cont. od_get (cn_logins conn) (hd_session_id header) = Some login \<and> lg_next_seq login = hd_seq_no header \<and>
        lg_awaiting login = Await_Pass \<and> AuthenContinue_decode body = Inr cont \<and> \<not> ct_abort cont \<and>
        proven_login cfg (ts_db s) (lg_start login) (lg_user login)
          (if ct_user_msg cont = [] then decode_replace (ct_data cont) else ct_user_msg cont) now) \<and>
    od_get (cn_logins conn') (hd_session_id header) = None"
proof (cases "hd_seq_no header = 1")
  case True
  with assms obtain start where st: "AuthenStart_decode body = Inr start"
    and h: "handle_start cfg conn s header start now clock = (conn', s', Inr rep)"
    by (auto simp: dispatch_def split: sum.splits)
  have prompts: "\<not> (\<exists>x. ask_password = Inr x \<and> hd x = byte 1)" "\<not> (\<exists>x. ask_user = Inr x \<and> hd x = byte 1)"
    by (auto simp: ask_password_def ask_user_def dest!: authen_reply_hd)
  from h assms(3) authen_fail_no_pass have act: "st_action start = ACTION_LOGIN"
    by (fastforce simp: handle_start_def Let_def split: if_splits)
  have pap: "st_authen_type start = TYPE_PAP"
  proof (rule ccontr)
    assume "st_authen_type start \<noteq> TYPE_PAP"
    with h act assms(3) prompts authen_fail_no_pass show False
      by (fastforce simp: handle_start_def Let_def split: if_splits)
  qed
  from h act pap have v: "tac_verify cfg (conn\<lparr>cn_logins := od_del (cn_logins conn) (hd_session_id header)\<rparr>) s start (st_user start)
      (decode_replace (st_data start)) now clock = (s', Inr rep)"
    and gone: "conn' = conn\<lparr>cn_logins := od_del (cn_logins conn) (hd_session_id header)\<rparr>"
    by (auto simp: handle_start_def Let_def)
  from tac_verify_pass [OF v] assms(3) st act pap gone True show ?thesis by auto
next
  case False
  with assms obtain cont where ct: "AuthenContinue_decode body = Inr cont"
    and h: "handle_continue cfg conn s header cont now clock = (conn', s', Inr rep)"
    by (auto simp: dispatch_def split: sum.splits)
  have prompt: "\<not> (\<exists>x. ask_password = Inr x \<and> hd x = byte 1)"
    by (auto simp: ask_password_def dest!: authen_reply_hd)
  from h assms(3) obtain login where lg: "od_get (cn_logins conn) (hd_session_id header) = Some login" "lg_next_seq login = hd_seq_no header"
    by (auto simp: handle_continue_def Let_def dest!: authen_reply_hd split: option.splits if_splits)
  from h lg assms(3) prompt have aw: "lg_awaiting login = Await_Pass" and ab: "\<not> ct_abort cont"
    by (auto simp: handle_continue_def Let_def dest!: authen_reply_hd split: if_splits awaiting.splits)
  from h lg aw ab have v: "tac_verify cfg (conn\<lparr>cn_logins := od_del (cn_logins conn) (hd_session_id header)\<rparr>) s (lg_start login)
      (lg_user login) (or_empty (ct_user_msg cont) (decode_replace (ct_data cont))) now clock = (s', Inr rep)"
    and gone: "conn' = conn\<lparr>cn_logins := od_del (cn_logins conn) (hd_session_id header)\<rparr>"
    by (auto simp: handle_continue_def Let_def)
  from tac_verify_pass [OF v] assms(3) lg aw ab ct gone False show ?thesis by (auto simp: or_empty_def)
qed

section \<open>Authorization\<close>

text \<open>C22. A device is told to go on only for an enabled user with device-administration rights, after the
  decision was logged: for a command of the shell only when the user's command set allows the
  line, for another service only with the attributes the group spells out for it.\<close>

theorem author_pass_sound:
  assumes "handle_authorize cfg conn s req now = (s', Inr rep)" "hd rep = byte AUTHOR_PASS_ADD"
  shows "\<exists>i attrs cmd_args. lookup_user (ts_db s) (rq_user req) = Some i \<and> ui_enabled i \<and> ui_device_admin_privilege i \<noteq> None \<and>
    parse_args (rq_args req) = (attrs, cmd_args) \<and>
    (let service = (case od_get attrs (u ''service'') of Some v \<Rightarrow> v | None \<Rightarrow> []);
         cmd = (case od_get attrs (u ''cmd'') of Some c \<Rightarrow> c | None \<Rightarrow> [])
     in (if lower service \<noteq> u ''shell''
         then \<exists>extra. service_attributes i service = Inr extra \<and> extra \<noteq> [] \<and> author_reply AUTHOR_PASS_ADD extra [] = Inr rep
         else cmd = [] \<or> vd_allowed (command_allowed (command_line cmd cmd_args) (load_command_set (ts_db s) (ui_command_set_id i))))) \<and>
    (\<exists>row. tacacs_logs (ts_db s') = tacacs_logs (ts_db s) @ [row] \<and> tlog_kind row = AUTHOR \<and> tlog_result row = u ''PASS'')"
proof -
  obtain attrs cmd_args where pa: "parse_args (rq_args req) = (attrs, cmd_args)" by (rule prod.exhaust)
  have no: "\<not> (\<exists>x. author_reply AUTHOR_FAIL [] [] = Inr x \<and> hd x = byte 1)" by (auto dest!: author_reply_hd)
  have rec: "\<exists>row. tacacs_logs (ts_db s') = tacacs_logs (ts_db s) @ [row] \<and> tlog_kind row = AUTHOR \<and> tlog_result row = u ''PASS''"
    if "record_entry cfg conn s AUTHOR n ra po pr line (u ''PASS'') reason now = (s', True)" for n ra po pr line reason
    using that by (auto simp: record_entry_def tac_row_def Let_def u_def split: if_splits)
  have rights: "vd_allowed (admin_rights (lookup_user (ts_db s) (rq_user req)))"
    using assms no pa by (auto simp: handle_authorize_def Let_def answer_recorded_Inr split: if_splits)
  then obtain i where i: "lookup_user (ts_db s) (rq_user req) = Some i" "ui_enabled i" "ui_device_admin_privilege i \<noteq> None"
    by (auto simp: admin_rights_allowed)
  define service where "service = (case od_get attrs (u ''service'') of Some v \<Rightarrow> v | None \<Rightarrow> [])"
  define cmd where "cmd = (case od_get attrs (u ''cmd'') of Some c \<Rightarrow> c | None \<Rightarrow> [])"
  note eqs = handle_authorize_def Let_def pa i(1) service_def [symmetric] cmd_def [symmetric]
  consider (other) "lower service \<noteq> u ''shell''" | (start) "lower service = u ''shell''" "cmd = []"
    | (cmd) "lower service = u ''shell''" "cmd \<noteq> []" by blast
  then have "(if lower service \<noteq> u ''shell''
         then \<exists>extra. service_attributes i service = Inr extra \<and> extra \<noteq> [] \<and> author_reply AUTHOR_PASS_ADD extra [] = Inr rep
         else cmd = [] \<or> vd_allowed (command_allowed (command_line cmd cmd_args) (load_command_set (ts_db s) (ui_command_set_id i)))) \<and>
      (\<exists>row. tacacs_logs (ts_db s') = tacacs_logs (ts_db s) @ [row] \<and> tlog_kind row = AUTHOR \<and> tlog_result row = u ''PASS'')"
  proof cases
    case other
    with assms rights no show ?thesis
      by (auto simp: eqs answer_recorded_Inr dest: rec split: sum.splits if_splits)
  next
    case start
    with assms(1) rights show ?thesis
      by (auto simp: eqs answer_recorded_Inr dest: rec)
  next
    case cmd
    with assms rights no show ?thesis
      by (auto simp: eqs answer_recorded_Inr dest: rec split: if_splits)
  qed
  with i pa show ?thesis unfolding service_def cmd_def Let_def by auto
qed

section \<open>A lab\<close>

definition lab_group :: Group where
  "lab_group = \<lparr>grp_id = 1, grp_name = u ''ops'', grp_description = [], grp_device_admin_privilege = Some 15,
     grp_command_set_id = None, grp_device_admin_attributes = [], grp_created_at = 0, grp_updated_at = 0\<rparr>"

definition lab_tac_db :: db where
  "lab_tac_db = empty_db\<lparr>groups := [lab_group], users := [\<lparr>usr_id = 1, usr_username = u ''alice'', usr_source = LDAP,
     usr_password_hash = None, usr_email = [], usr_full_name = [], usr_group_id = Some 1, usr_enabled = True,
     usr_created_at = 0, usr_updated_at = 0, usr_last_login_at = None\<rparr>]\<rparr>"

definition lab_tac_cfg :: tac_cfg where
  "lab_tac_cfg = \<lparr>tcf_env = lab_env id, tcf_max_connections = 2, tcf_max_per_client = 1, tcf_stores = (\<lambda>_. True)\<rparr>"

definition lab_conn :: tac_conn where
  "lab_conn = \<lparr>cn_ip = u ''10.0.0.9'', cn_name = u ''sw1'', cn_key = map byte (u ''key''), cn_logins = []\<rparr>"

definition lab_header :: Header where
  "lab_header = \<lparr>hd_version = 0xC1, hd_type = 1, hd_seq_no = 1, hd_flags = 0, hd_session_id = 7, hd_length = 17\<rparr>"

definition lab_start :: AuthenStart where
  "lab_start = \<lparr>st_action = 1, st_priv_lvl = 1, st_authen_type = 2, st_authen_service = 1, st_user = u ''alice'', st_port = [],
     st_rem_addr = [], st_data = map byte (u ''pass'')\<rparr>"

lemma lab_tac_login: "\<exists>d' r i. authenticate_user (lab_env id) lab_tac_db (u ''alice'') (u ''pass'') 0 = Inr (d', r) \<and> ir_ok r \<and> ir_user r = Some i \<and>
    ui_enabled i \<and> ui_device_admin_privilege i = Some 15"
  by (simp add: authenticate_user_def canonical_alice load_user_def lab_tac_db_def empty_db_def lab_env_def directory_login_def lab_ldap_login
      provision_def provision_group_def granted_def user_info_def Let_def update_user_def lab_group_def)
    (simp add: lab_ldap_def granted_def group_by_id_def)

lemma pass_reply: "\<exists>rep. authen_reply STATUS_PASS [] False [] = Inr rep"
  by (simp add: authen_reply_def limited_text_def encode_text_def struct_pack_def pack_int_def)

lemma lab_pap:
  "\<exists>s' rep. handle_start lab_tac_cfg lab_conn (TacacsServer_init lab_tac_db) lab_header lab_start 0 0 = (lab_conn, s', Inr rep) \<and>
    hd rep = byte 1"
proof -
  obtain d' r i where a: "authenticate_user (lab_env id) lab_tac_db (u ''alice'') (u ''pass'') 0 = Inr (d', r)" "ir_ok r" "ir_user r = Some i"
    "ui_enabled i" "ui_device_admin_privilege i = Some 15" using lab_tac_login by blast
  obtain rep where rep: "authen_reply STATUS_PASS [] False [] = Inr rep" using pass_reply by blast
  have d: "decode_replace (map byte (u ''pass'')) = u ''pass''"
    using encode_plain [of "u ''pass''" "map byte (u ''pass'')"]
    by (simp add: plain_text_def encode_text_def u_def is_scalar_def is_surrogate_def utf8_char_def)
  have "vd_allowed (admin_rights (Some i))" using a by (simp add: admin_rights_allowed)
  with a rep show ?thesis using authen_reply_hd [OF rep]
    by (simp add: handle_start_def lab_start_def lab_conn_def lab_header_def od_del_def tac_verify_def TacacsServer_init_def
        fresh_guard_no_delay lab_tac_cfg_def d Let_def answer_recorded_def record_entry_def)
qed

theorem authen_pass_sound_witness:
  "\<exists>body conn' s' rep. dispatch lab_tac_cfg lab_conn (TacacsServer_init lab_tac_db) lab_header body 0 0 = (conn', s', Inr rep) \<and>
    hd rep = byte STATUS_PASS \<and> proven_login lab_tac_cfg lab_tac_db lab_start (u ''alice'') (decode_replace (st_data lab_start)) 0"
proof -
  have "\<exists>body. authen_start 1 1 2 1 (u ''alice'') [] [] (map byte (u ''pass'')) = Inr body"
    by (simp add: authen_start_def encode_text_def u_def is_surrogate_def utf8_char_def struct_pack_def pack_int_def)
  then obtain body where "authen_start 1 1 2 1 (u ''alice'') [] [] (map byte (u ''pass'')) = Inr body" ..
  from authen_start_round [OF this] have b: "AuthenStart_decode body = Inr lab_start"
    by (simp add: lab_start_def plain_text_def u_def is_scalar_def is_surrogate_def)
  from lab_pap obtain s' rep where
    p: "handle_start lab_tac_cfg lab_conn (TacacsServer_init lab_tac_db) lab_header lab_start 0 0 = (lab_conn, s', Inr rep)" "hd rep = byte 1" by blast
  have dp: "dispatch lab_tac_cfg lab_conn (TacacsServer_init lab_tac_db) lab_header body 0 0 = (lab_conn, s', Inr rep)"
    by (simp add: dispatch_def b p(1)) (simp add: lab_header_def)
  have "proven_login lab_tac_cfg lab_tac_db lab_start (u ''alice'') (decode_replace (st_data lab_start)) 0"
    using authen_pass_sound [OF dp _ p(2)] b by (auto simp: lab_header_def lab_start_def TacacsServer_init_def)
  with dp p(2) show ?thesis by blast
qed

theorem author_pass_sound_witness:
  "\<exists>s' rep row. handle_authorize lab_tac_cfg lab_conn (TacacsServer_init lab_tac_db)
      \<lparr>rq_flags = 0, rq_authen_method = 6, rq_priv_lvl = 1, rq_authen_type = 1, rq_authen_service = 1, rq_user = u ''alice'',
       rq_port = [], rq_rem_addr = [], rq_args = [u ''service=shell'', u ''cmd=show'']\<rparr> 0 = (s', Inr rep) \<and>
    tacacs_logs (ts_db s') = [row]"
    (is "\<exists>s' rep row. handle_authorize lab_tac_cfg lab_conn ?s ?req 0 = _ \<and> _")
proof -
  have pa: "parse_args [u ''service=shell'', u ''cmd=show''] = ([(u ''service'', u ''shell''), (u ''cmd'', u ''show'')], [])"
    by (simp add: parse_args_def add_arg_def pair_sep_def List.map_filter_def u_def strip_def lstrip_def rstrip_def is_space_def
        lower_def lower_char_def od_get_def)
  have lu: "lookup_user lab_tac_db (u ''alice'') = Some (user_info (hd (users lab_tac_db)) (Some lab_group))"
    by (simp add: lookup_user_def canonical_alice load_user_def lab_tac_db_def group_by_id_def) (simp add: lab_group_def)
  have "\<exists>rep. author_reply AUTHOR_PASS_ADD [] [] = Inr rep"
    by (simp add: author_reply_def limited_text_def encode_text_def struct_pack_def pack_int_def byte_lengths_def)
  then obtain rep where rep: "author_reply AUTHOR_PASS_ADD [] [] = Inr rep" ..
  have low: "lower (u ''shell'') = u ''shell''" by (simp add: lower_def lower_char_def u_def)
  let ?i = "user_info (hd (users lab_tac_db)) (Some lab_group)" and ?a = "[(u ''service'', u ''shell''), (u ''cmd'', u ''show'')]"
  have i: "vd_allowed (admin_rights (Some ?i))" "ui_command_set_id ?i = None"
    by (simp_all add: admin_rights_def user_info_def lab_group_def lab_tac_db_def)
  have od: "od_get ?a (u ''service'') = Some (u ''shell'')" "od_get ?a (u ''cmd'') = Some (u ''show'')" by (simp_all add: od_get_def)
  have st: "\<exists>s'. record_entry lab_tac_cfg lab_conn ?s k n ra po pr cmd res reason 0 = (s', True)" for k n ra po pr cmd res reason
    by (simp add: record_entry_def lab_tac_cfg_def)
  have db: "ts_db ?s = lab_tac_db" by (simp add: TacacsServer_init_def)
  have "\<exists>s'. handle_authorize lab_tac_cfg lab_conn ?s ?req 0 = (s', Inr rep)"
    using rep st by (simp add: handle_authorize_def pa db lu i od low load_command_set_def command_allowed_def answer_recorded_Inr Let_def)
  then obtain s' where s': "handle_authorize lab_tac_cfg lab_conn ?s ?req 0 = (s', Inr rep)" ..
  from author_pass_sound [OF s'] author_reply_hd [OF rep] obtain row where
    "tacacs_logs (ts_db s') = tacacs_logs (ts_db ?s) @ [row]" by auto
  then have "tacacs_logs (ts_db s') = [row]" by (simp add: TacacsServer_init_def lab_tac_db_def empty_db_def)
  with s' show ?thesis by blast
qed

section \<open>Connections\<close>

text \<open>The server and its open connections, from accepting to closing; \<open>None\<close> until the client is looked up.
  Packets of the connections and changes of the database interleave in any order.\<close>

inductive tac_reach :: "tac_cfg \<Rightarrow> tac_server \<Rightarrow> (pystr \<times> tac_conn option) list \<Rightarrow> bool" for cfg :: tac_cfg where
  tac_init: "tac_reach cfg (TacacsServer_init d) []"
| tac_accepted: "tac_reach cfg s conns \<Longrightarrow> tac_accept cfg s (peer raw) = Some s' \<Longrightarrow> tac_reach cfg s' (conns @ [(peer raw, None)])"
| tac_known: "tac_reach cfg s conns \<Longrightarrow> i < length conns \<Longrightarrow> conns ! i = (ip, None) \<Longrightarrow> tac_client (ts_db s) ip = Some client \<Longrightarrow>
    new_conn ip client = Inr c \<Longrightarrow> tac_reach cfg s (conns[i := (ip, Some c)])"
| tac_packet: "tac_reach cfg s conns \<Longrightarrow> i < length conns \<Longrightarrow> conns ! i = (ip, Some c) \<Longrightarrow>
    serve_packet cfg c s input now clock = (s', Some (c', rest, out)) \<Longrightarrow> tac_reach cfg s' (conns[i := (ip, Some c')])"
| tac_last_packet: "tac_reach cfg s conns \<Longrightarrow> i < length conns \<Longrightarrow> conns ! i = (ip, Some c) \<Longrightarrow>
    serve_packet cfg c s input now clock = (s', None) \<Longrightarrow> tac_reach cfg s' conns"
| tac_closed: "tac_reach cfg s (pre @ (ip, c) # post) \<Longrightarrow> tac_reach cfg (tac_release s ip) (pre @ post)"
| tac_database: "tac_reach cfg s conns \<Longrightarrow> tac_reach cfg (s\<lparr>ts_db := d\<rparr>) conns"

definition open_from :: "(pystr \<times> tac_conn option) list \<Rightarrow> pystr \<Rightarrow> nat" where
  "open_from conns ip = length (filter (\<lambda>x. fst x = ip) conns)"

text \<open>The counters count the open connections, and no entry is left behind for a client without one.\<close>

definition counts_ok :: "tac_cfg \<Rightarrow> tac_server \<Rightarrow> (pystr \<times> tac_conn option) list \<Rightarrow> bool" where
  "counts_ok cfg s conns \<longleftrightarrow>
     ts_total s = length conns \<and> length conns \<le> tcf_max_connections cfg \<and>
     (\<forall>ip. od_get (ts_per_client s) ip = (if open_from conns ip = 0 then None else Some (open_from conns ip))) \<and>
     (\<forall>ip. open_from conns ip \<le> tcf_max_per_client cfg)"

lemma open_from_simps [simp]:
  "open_from [] ip = 0" "open_from (x # xs) ip = (if fst x = ip then Suc (open_from xs ip) else open_from xs ip)"
  "open_from (xs @ ys) ip = open_from xs ip + open_from ys ip"
  by (simp_all add: open_from_def)

lemma open_from_update: "i < length xs \<Longrightarrow> xs ! i = (a, c) \<Longrightarrow> open_from (xs[i := (a, c')]) ip = open_from xs ip"
  by (induction xs arbitrary: i) (auto split: nat.splits)

lemma counts_ok_update: "i < length xs \<Longrightarrow> xs ! i = (a, c) \<Longrightarrow> counts_ok cfg s (xs[i := (a, c')]) \<longleftrightarrow> counts_ok cfg s xs"
  by (simp add: counts_ok_def open_from_update)

text \<open>Serving a packet does not touch the counters.\<close>

definition same_counts :: "tac_server \<Rightarrow> tac_server \<Rightarrow> bool" where
  "same_counts s s' \<longleftrightarrow> ts_total s' = ts_total s \<and> ts_per_client s' = ts_per_client s"

lemma same_counts_updates [simp]:
  "same_counts s s" "same_counts (s\<lparr>ts_failures := g\<rparr>) s' = same_counts s s'" "same_counts (s\<lparr>ts_db := d\<rparr>) s' = same_counts s s'"
  "same_counts s (s'\<lparr>ts_failures := g\<rparr>) = same_counts s s'" "same_counts s (s'\<lparr>ts_db := d\<rparr>) = same_counts s s'"
  by (simp_all add: same_counts_def)

lemma recorded_frame: "same_counts s0 s \<Longrightarrow>
    same_counts s0 (fst (answer_recorded (record_entry cfg conn s k n ra po pr cmd res reason now) reply))"
  by (simp add: same_counts_def answer_recorded_def record_entry_def Let_def)

lemma authen_fail_frame: "same_counts s0 s \<Longrightarrow> same_counts s0 (fst (authen_fail cfg conn s start name reason now))"
  by (simp add: authen_fail_def recorded_frame)

lemma tac_verify_frame: "same_counts s (fst (tac_verify cfg conn s start name pw now clock))"
  unfolding tac_verify_def Let_def
  by (simp add: authen_fail_frame recorded_frame split: prod.split sum.split option.split)

lemma handle_start_frame: "same_counts s (fst (snd (handle_start cfg conn s h start now clock)))"
  by (simp add: handle_start_def Let_def authen_fail_frame tac_verify_frame)

lemma handle_continue_frame: "same_counts s (fst (snd (handle_continue cfg conn s h cont now clock)))"
  by (simp add: handle_continue_def Let_def tac_verify_frame split: option.split awaiting.split)

lemma handle_authorize_frame: "same_counts s (fst (handle_authorize cfg conn s req now))"
  unfolding handle_authorize_def Let_def
  by (cases "parse_args (rq_args req)"; cases "lookup_user (ts_db s) (rq_user req)")
    (simp_all add: recorded_frame sum.case_distrib [of fst] split: sum.split)

lemma handle_account_frame: "same_counts s (fst (handle_account cfg conn s req now))"
  by (simp add: handle_account_def Let_def same_counts_def record_entry_def split: prod.splits)

lemma dispatch_frame: "same_counts s (fst (snd (dispatch cfg conn s h body now clock)))"
  by (simp add: dispatch_def handle_start_frame handle_continue_frame handle_authorize_frame handle_account_frame
      split: sum.splits)

lemma serve_packet_frame: "serve_packet cfg conn s input now clock = (s', r) \<Longrightarrow> same_counts s s'"
proof -
  have d: "dispatch cfg conn s h body now clock = (c', s', x) \<Longrightarrow> same_counts s s'" for h body c' s' x
    using dispatch_frame [of s cfg conn h body now clock] by simp
  assume "serve_packet cfg conn s input now clock = (s', r)"
  then show ?thesis
    by (auto simp: serve_packet_def split: sum.splits prod.splits dest: d)
qed

lemma counts_ok_same: "same_counts s s' \<Longrightarrow> counts_ok cfg s conns \<Longrightarrow> counts_ok cfg s' conns"
  by (simp add: same_counts_def counts_ok_def)

lemma counts_ok_get: "counts_ok cfg s conns \<Longrightarrow>
    od_get (ts_per_client s) ip = (if open_from conns ip = 0 then None else Some (open_from conns ip))"
  by (simp add: counts_ok_def)

lemma per_client_open: "counts_ok cfg s conns \<Longrightarrow> per_client s ip = open_from conns ip"
  by (simp add: per_client_def counts_ok_get)

lemma counts_ok_accept: "counts_ok cfg s conns \<Longrightarrow> tac_accept cfg s ip = Some s' \<Longrightarrow> counts_ok cfg s' (conns @ [(ip, c)])"
proof -
  assume ok: "counts_ok cfg s conns" and s': "tac_accept cfg s ip = Some s'"
  then have "per_client s ip = open_from conns ip" by (simp add: per_client_open)
  with ok s' counts_ok_get [OF ok] show ?thesis
    by (simp add: tac_accept_def counts_ok_def split: if_splits) (auto simp: fun_upd_def)
qed

lemma counts_ok_release: "counts_ok cfg s (pre @ (ip, c) # post) \<Longrightarrow> counts_ok cfg (tac_release s ip) (pre @ post)"
proof -
  assume ok: "counts_ok cfg s (pre @ (ip, c) # post)"
  have n: "per_client s ip = Suc (open_from (pre @ post) ip)" using per_client_open [OF ok, of ip] by simp
  have "open_from (pre @ post) x \<le> open_from (pre @ (ip, c) # post) x" for x by simp
  with ok have "open_from (pre @ post) x \<le> tcf_max_per_client cfg" for x unfolding counts_ok_def by (meson le_trans)
  moreover have "od_get (ts_per_client (tac_release s ip)) x =
      (if open_from (pre @ post) x = 0 then None else Some (open_from (pre @ post) x))" for x
    using n counts_ok_get [OF ok, of x] by (auto simp: tac_release_def Let_def)
  moreover from ok have "ts_total (tac_release s ip) = length (pre @ post)" "length (pre @ post) \<le> tcf_max_connections cfg"
    by (auto simp: tac_release_def Let_def counts_ok_def)
  ultimately show ?thesis by (simp add: counts_ok_def)
qed

lemma tac_reach_counts: "tac_reach cfg s conns \<Longrightarrow> counts_ok cfg s conns"
proof (induction rule: tac_reach.induct)
  case (tac_init d)
  then show ?case by (simp add: counts_ok_def TacacsServer_init_def)
next
  case (tac_database s conns d)
  then show ?case using counts_ok_same [of s "s\<lparr>ts_db := d\<rparr>"] by simp
qed (auto simp: counts_ok_accept counts_ok_release counts_ok_update intro: counts_ok_same [OF serve_packet_frame])

text \<open>C23. However connections, packets and database changes interleave, the counters of the server are the
  numbers of open connections in total and per client, these stay within the configured limits, and
  a client without a connection has no counter left.\<close>

theorem connection_limits:
  assumes "tac_reach cfg s conns"
  shows "ts_total s = length conns \<and> length conns \<le> tcf_max_connections cfg \<and>
    (\<forall>ip. open_from conns ip \<le> tcf_max_per_client cfg \<and>
      od_get (ts_per_client s) ip = (if open_from conns ip = 0 then None else Some (open_from conns ip)))"
  using tac_reach_counts [OF assms] by (auto simp: counts_ok_def)

theorem connection_limits_witness:
  "\<exists>s. tac_reach lab_tac_cfg s [(peer (u ''sw''), None)] \<and> ts_total s = 1 \<and> tac_accept lab_tac_cfg s (peer (u ''sw'')) = None"
proof -
  let ?ip = "peer (u ''sw'')"
  have "\<exists>s. tac_accept lab_tac_cfg (TacacsServer_init empty_db) ?ip = Some s"
    by (simp add: tac_accept_def TacacsServer_init_def lab_tac_cfg_def per_client_def)
  then obtain s where s: "tac_accept lab_tac_cfg (TacacsServer_init empty_db) ?ip = Some s" ..
  from tac_accepted [OF tac_init s] have r: "tac_reach lab_tac_cfg s [(?ip, None)]" by simp
  from connection_limits [OF r] have "ts_total s = 1" "od_get (ts_per_client s) ?ip = Some 1" by simp_all
  then have "tac_accept lab_tac_cfg s ?ip = None" by (simp add: tac_accept_def per_client_def lab_tac_cfg_def)
  with r \<open>ts_total s = 1\<close> show ?thesis by blast
qed

end
