(* ===== verification/AdminSessions.thy ===== *)
theory AdminSessions
  imports Passwords Models RateLimit
begin

text \<open>
  Who calls the administration API: \<open>naco/api/errors.py\<close>, \<open>naco/api/sessions.py\<close> and
  \<open>naco/api/deps.py\<close>.  A request is what Starlette hands to a route: its method, scheme, headers,
  cookies and peer address.  Operations take the database and the time and give a result, an
  \<open>ApiError\<close> with its status, message and code or another exception, with the database as it is
  committed then; a raised error undoes what was not committed.  Cookie attributes are not modelled.
\<close>

section \<open>Errors\<close>

datatype api_exc = ApiError nat pystr pystr | PyRaised py_exc | RowGone | IntegrityError

definition error_codes :: "(nat \<times> pystr) list" where
  "error_codes =
     [(400, u ''bad_request''), (401, u ''unauthenticated''), (403, u ''forbidden''), (404, u ''not_found''),
      (405, u ''method_not_allowed''), (409, u ''conflict''), (413, u ''too_large''), (422, u ''validation_error''),
      (429, u ''rate_limited''), (500, u ''internal_error''), (503, u ''unavailable'')]"

definition api_error :: "nat \<Rightarrow> pystr \<Rightarrow> api_exc" where
  "api_error status message =
     ApiError status message (case map_of error_codes status of Some code \<Rightarrow> code | None \<Rightarrow> u ''error'')"

fun http_status :: "api_exc \<Rightarrow> nat" where
  "http_status (ApiError status _ _) = status"
| "http_status _ = 500"

lemma http_status_api_error [simp]: "http_status (api_error status message) = status"
  by (simp add: api_error_def)

section \<open>Sessions\<close>

record SecurityConfig =
  sc_require_totp :: bool
  sc_session_idle_minutes :: nat
  sc_session_max_hours :: nat
  sc_login_max_attempts :: nat
  sc_login_window_seconds :: nat

definition COOKIE :: pystr where
  "COOKIE = u ''naco_session''"

definition TOUCH_EVERY :: int where
  "TOUCH_EVERY = 60 * second"

definition token_hash :: "pystr \<Rightarrow> py_exc + pystr" where
  "token_hash raw = rbind (encode_or_raise raw) (\<lambda>bs. Inr (hexdigest (sha256 bs)))"

text \<open>\<open>create\<close>: the row for the two random tokens; the unique column refuses a hash that is there.\<close>

definition create_session :: "SecurityConfig \<Rightarrow> db \<Rightarrow> AdminUser \<Rightarrow> pystr \<Rightarrow> pystr \<Rightarrow> pystr \<times> pystr \<Rightarrow> int \<Rightarrow> api_exc + db \<times> AdminSession" where
  "create_session cfg d admin ip user_agent tokens now =
     (case token_hash (fst tokens) of
        Inl e \<Rightarrow> Inl (PyRaised e)
      | Inr h \<Rightarrow>
          if h \<in> set (map as_token_hash (admin_sessions d)) then Inl IntegrityError
          else
            (let s = \<lparr>as_id = next_id as_id (admin_sessions d), as_token_hash = h, as_admin_id = au_id admin,
                      as_csrf_token = snd tokens, as_created_at = now, as_last_seen_at = now,
                      as_expires_at = now + int (sc_session_max_hours cfg) * 3600 * second,
                      as_ip = take 45 ip, as_user_agent = take 256 user_agent\<rparr>
             in Inr (d\<lparr>admin_sessions := admin_sessions d @ [s]\<rparr>, s)))"

definition session_idle :: "SecurityConfig \<Rightarrow> int" where
  "session_idle cfg = int (sc_session_idle_minutes cfg) * 60 * second"

text \<open>\<open>resolve\<close>: what is found, and the database; with a session found, the new \<open>last_seen_at\<close> is not
  committed yet.\<close>

definition resolve :: "SecurityConfig \<Rightarrow> db \<Rightarrow> pystr option \<Rightarrow> int \<Rightarrow> py_exc + (AdminSession \<times> AdminUser) option \<times> db" where
  "resolve cfg d raw now =
     (case raw of
        None \<Rightarrow> Inr (None, d)
      | Some r \<Rightarrow>
          if r = [] \<or> length r > 128 then Inr (None, d)
          else rbind (token_hash r) (\<lambda>h.
            case find (\<lambda>s. as_token_hash s = h) (admin_sessions d) of
              None \<Rightarrow> Inr (None, d)
            | Some s \<Rightarrow>
                (case row_get au_id (admin_users d) (as_admin_id s) of
                   None \<Rightarrow> Inr (None, d)
                 | Some admin \<Rightarrow>
                     if as_expires_at s \<le> now \<or> as_last_seen_at s + session_idle cfg \<le> now \<or> \<not> au_enabled admin
                     then Inr (None, d\<lparr>admin_sessions := row_delete as_id (as_id s) (admin_sessions d)\<rparr>)
                     else if now - as_last_seen_at s \<ge> TOUCH_EVERY
                     then Inr (Some (s\<lparr>as_last_seen_at := now\<rparr>, admin),
                               d\<lparr>admin_sessions := row_update as_id (as_id s) (\<lambda>x. x\<lparr>as_last_seen_at := now\<rparr>) (admin_sessions d)\<rparr>)
                     else Inr (Some (s, admin), d))))"

definition revoke_all :: "nat \<Rightarrow> nat option \<Rightarrow> db \<Rightarrow> db" where
  "revoke_all admin_id keep_id d =
     d\<lparr>admin_sessions := filter (\<lambda>s. \<not> (as_admin_id s = admin_id \<and> (case keep_id of None \<Rightarrow> True | Some k \<Rightarrow> as_id s \<noteq> k)))
       (admin_sessions d)\<rparr>"

section \<open>The caller\<close>

record web_request =
  wr_method :: pystr
  wr_scheme :: pystr
  wr_header :: "pystr \<Rightarrow> pystr option"
  wr_cookie :: "pystr \<Rightarrow> pystr option"
  wr_client :: "pystr option"

datatype principal_kind = Session_Kind | Token_Kind

record Principal =
  pr_kind :: principal_kind
  pr_username :: pystr
  pr_role :: AdminRole
  pr_admin_id :: "nat option"
  pr_session_id :: "nat option"
  pr_token_id :: "nat option"
  pr_csrf_token :: pystr
  pr_restricted :: "pystr option"
  pr_ip :: pystr

definition SAFE_METHODS :: "pystr list" where
  "SAFE_METHODS = [u ''GET'', u ''HEAD'', u ''OPTIONS'']"

definition TOKEN_PREFIX :: pystr where
  "TOKEN_PREFIX = u ''naco_''"

definition client_ip :: "web_request \<Rightarrow> pystr" where
  "client_ip request = after_sep (wr_client request)"

definition header_or_empty :: "web_request \<Rightarrow> pystr \<Rightarrow> pystr" where
  "header_or_empty request name = after_sep (wr_header request name)"

definition truthy :: "pystr option \<Rightarrow> bool" where
  "truthy s \<longleftrightarrow> s \<noteq> None \<and> s \<noteq> Some []"

definition restriction :: "SecurityConfig \<Rightarrow> AdminUser \<Rightarrow> pystr option" where
  "restriction cfg admin =
     (if au_must_change_password admin then Some (u ''password'')
      else if sc_require_totp cfg \<and> \<not> truthy (au_totp_secret admin) then Some (u ''totp'')
      else None)"

definition own_origin :: "web_request \<Rightarrow> pystr" where
  "own_origin request = wr_scheme request @ u ''://'' @ header_or_empty request (u ''host'')"

definition check_same_origin :: "web_request \<Rightarrow> api_exc + unit" where
  "check_same_origin request =
     rbind (case wr_header request (u ''origin'') of
              Some origin \<Rightarrow>
                if origin \<noteq> own_origin request then Inl (ApiError 403 (u ''cross-origin request refused'') (u ''csrf'')) else Inr ()
            | None \<Rightarrow> Inr ()) (\<lambda>_.
       case wr_header request (u ''sec-fetch-site'') of
         Some site \<Rightarrow>
           if site \<notin> {u ''same-origin'', u ''none''} then Inl (ApiError 403 (u ''cross-site request refused'') (u ''csrf'')) else Inr ()
       | None \<Rightarrow> Inr ())"

definition invalid_token :: api_exc where
  "invalid_token = api_error 401 (u ''invalid API token'')"

definition token_principal :: "db \<Rightarrow> pystr \<Rightarrow> pystr \<Rightarrow> int \<Rightarrow> (api_exc + Principal) \<times> db" where
  "token_principal d raw ip now =
     (if \<not> startswith raw TOKEN_PREFIX \<or> length raw > 128 then (Inl invalid_token, d)
      else
        (case token_hash raw of
           Inl e \<Rightarrow> (Inl (PyRaised e), d)
         | Inr dig \<Rightarrow>
             (case find (\<lambda>t. tok_token_hash t = dig) (api_tokens d) of
                None \<Rightarrow> (Inl invalid_token, d)
              | Some t \<Rightarrow>
                  if tok_revoked_at t \<noteq> None \<or> (case tok_expires_at t of None \<Rightarrow> False | Some e \<Rightarrow> e \<le> now)
                  then (Inl invalid_token, d)
                  else
                    (Inr \<lparr>pr_kind = Token_Kind, pr_username = u ''token:'' @ tok_name t, pr_role = tok_role t, pr_admin_id = None,
                          pr_session_id = None, pr_token_id = Some (tok_id t), pr_csrf_token = [], pr_restricted = None,
                          pr_ip = ip\<rparr>,
                     if (case tok_last_used_at t of None \<Rightarrow> True | Some l \<Rightarrow> now - l > 60 * second)
                     then d\<lparr>api_tokens := row_update tok_id (tok_id t) (\<lambda>x. x\<lparr>tok_last_used_at := Some now\<rparr>) (api_tokens d)\<rparr>
                     else d))))"

text \<open>The CSRF check of a cookie request that changes state; \<open>hmac.compare_digest\<close> compares the encoded
  texts.\<close>

definition check_csrf :: "web_request \<Rightarrow> AdminSession \<Rightarrow> api_exc + unit" where
  "check_csrf request s =
     (if wr_method request \<in> set SAFE_METHODS then Inr ()
      else
        (let sent = header_or_empty request (u ''x-csrf-token'');
             bad = Inl (ApiError 403 (u ''missing or invalid CSRF token'') (u ''csrf''))
         in if sent = [] then bad
            else
              (case (encode_or_raise sent, encode_or_raise (as_csrf_token s)) of
                 (Inr a, Inr b) \<Rightarrow> if a \<noteq> b then bad else check_same_origin request
               | _ \<Rightarrow> Inl (PyRaised UnicodeEncodeError))))"

definition bearer_credential :: "web_request \<Rightarrow> pystr option" where
  "bearer_credential request =
     (let (scheme, rest) = partition1 32 (header_or_empty request (u ''authorization'')); credential = after_sep rest
      in if lower scheme = u ''bearer'' \<and> credential \<noteq> [] then Some (strip credential) else None)"

definition current_principal :: "SecurityConfig \<Rightarrow> web_request \<Rightarrow> db \<Rightarrow> int \<Rightarrow> (api_exc + Principal) \<times> db" where
  "current_principal cfg request d now =
     (let ip = client_ip request in
      case bearer_credential request of
        Some credential \<Rightarrow> token_principal d credential ip now
      | None \<Rightarrow>
          (case resolve cfg d (wr_cookie request COOKIE) now of
             Inl e \<Rightarrow> (Inl (PyRaised e), d)
           | Inr (None, d') \<Rightarrow> (Inl (api_error 401 (u ''not signed in'')), d')
           | Inr (Some (s, admin), d') \<Rightarrow>
               (case check_csrf request s of
                  Inl e \<Rightarrow> (Inl e, d)
                | Inr _ \<Rightarrow>
                    (Inr \<lparr>pr_kind = Session_Kind, pr_username = au_username admin, pr_role = au_role admin,
                          pr_admin_id = Some (au_id admin), pr_session_id = Some (as_id s), pr_token_id = None,
                          pr_csrf_token = as_csrf_token s, pr_restricted = restriction cfg admin, pr_ip = ip\<rparr>, d'))))"

fun role_value :: "AdminRole \<Rightarrow> pystr" where
  "role_value VIEWER = u ''VIEWER''"
| "role_value OPERATOR = u ''OPERATOR''"
| "role_value SUPERUSER = u ''SUPERUSER''"

definition require :: "AdminRole \<Rightarrow> bool \<Rightarrow> Principal \<Rightarrow> api_exc + Principal" where
  "require role setup_allowed p =
     (if truthy (pr_restricted p) \<and> \<not> setup_allowed then
        (let what = (if pr_restricted p = Some (u ''password'') then u ''change your password'' else u ''enroll two-factor authentication'')
         in Inl (ApiError 403 (u ''finish account setup first: '' @ what) (u ''setup_required'')))
      else if \<not> allows (pr_role p) role then Inl (api_error 403 (u ''requires the '' @ role_value role @ u '' role''))
      else Inr p)"

text \<open>\<open>Depends(require(role))\<close>: the caller, then the gate.\<close>

definition gate :: "SecurityConfig \<Rightarrow> AdminRole \<Rightarrow> bool \<Rightarrow> web_request \<Rightarrow> db \<Rightarrow> int \<Rightarrow> (api_exc + Principal) \<times> db" where
  "gate cfg role setup_allowed request d now =
     (case current_principal cfg request d now of (r, d') \<Rightarrow> (rbind r (require role setup_allowed), d'))"

section \<open>The gate\<close>

lemma resolve_Some:
  assumes "resolve cfg d raw now = Inr (Some (s', admin), d')"
  obtains r h s where "raw = Some r" "token_hash r = Inr h" "s \<in> set (admin_sessions d)" "as_token_hash s = h"
    "s' = s\<lparr>as_last_seen_at := as_last_seen_at s'\<rparr>" "admin \<in> set (admin_users d)" "as_admin_id s = au_id admin"
    "au_enabled admin" "now < as_expires_at s" "now < as_last_seen_at s + session_idle cfg"
proof -
  from assms obtain r h where rh: "raw = Some r" "token_hash r = Inr h" "r \<noteq> []" "\<not> length r > 128"
    by (cases raw) (auto simp: resolve_def rbind_eq_Inr split: if_splits)
  with assms obtain s where s: "find (\<lambda>s. as_token_hash s = h) (admin_sessions d) = Some s"
    and a: "row_get au_id (admin_users d) (as_admin_id s) = Some admin"
    and live: "\<not> (as_expires_at s \<le> now \<or> as_last_seen_at s + session_idle cfg \<le> now \<or> \<not> au_enabled admin)"
    and s': "s' = s\<lparr>as_last_seen_at := now\<rparr> \<or> s' = s"
    by (auto simp: resolve_def split: option.splits if_splits)
  have "s \<in> set (admin_sessions d)" "as_token_hash s = h" using s by (auto simp: find_Some_iff)
  moreover have "s' = s\<lparr>as_last_seen_at := as_last_seen_at s'\<rparr>" using s' by auto
  ultimately show ?thesis using that [OF rh(1,2)] row_get_Some [OF a] live by auto
qed

lemma resolve_db:
  assumes "resolve cfg d raw now = Inr (x, d')"
  shows "d' = d \<or> (\<exists>i. d' = d\<lparr>admin_sessions := row_delete as_id i (admin_sessions d)\<rparr>) \<or>
    (\<exists>i. d' = d\<lparr>admin_sessions := row_update as_id i (\<lambda>s. s\<lparr>as_last_seen_at := now\<rparr>) (admin_sessions d)\<rparr>)"
proof (cases raw)
  case (Some r)
  with assms show ?thesis
    by (cases "token_hash r") (auto simp: resolve_def split: option.splits if_splits)
qed (use assms in \<open>simp add: resolve_def\<close>)

definition token_stands :: "db \<Rightarrow> int \<Rightarrow> web_request \<Rightarrow> AdminRole \<Rightarrow> bool" where
  "token_stands d now request role \<longleftrightarrow>
     (\<exists>credential dig. bearer_credential request = Some credential \<and> token_hash credential = Inr dig \<and>
        (\<exists>t\<in>set (api_tokens d). tok_token_hash t = dig \<and> tok_revoked_at t = None \<and>
           (tok_expires_at t = None \<or> now < the (tok_expires_at t)) \<and> allows (tok_role t) role))"

lemma token_principal_sound:
  assumes "token_principal d raw ip now = (Inr p, d')"
  shows "pr_restricted p = None \<and> (\<exists>dig. token_hash raw = Inr dig \<and> (\<exists>t\<in>set (api_tokens d). tok_token_hash t = dig \<and>
    tok_revoked_at t = None \<and> (tok_expires_at t = None \<or> now < the (tok_expires_at t)) \<and> pr_role p = tok_role t))"
  using assms
  by (auto simp: token_principal_def Let_def find_Some_iff not_le split: if_splits sum.splits option.splits)

definition session_stands :: "SecurityConfig \<Rightarrow> db \<Rightarrow> int \<Rightarrow> web_request \<Rightarrow> AdminRole \<Rightarrow> bool \<Rightarrow> bool" where
  "session_stands cfg d now request role setup_allowed \<longleftrightarrow>
     (\<exists>raw h. wr_cookie request COOKIE = Some raw \<and> token_hash raw = Inr h \<and>
        (\<exists>s\<in>set (admin_sessions d). \<exists>admin\<in>set (admin_users d).
           as_token_hash s = h \<and> as_admin_id s = au_id admin \<and> au_enabled admin \<and> allows (au_role admin) role \<and>
           now < as_expires_at s \<and> now < as_last_seen_at s + session_idle cfg \<and>
           (setup_allowed \<or> \<not> au_must_change_password admin \<and> (sc_require_totp cfg \<longrightarrow> truthy (au_totp_secret admin))) \<and>
           (wr_method request \<in> set SAFE_METHODS \<or>
              (\<exists>sent. wr_header request (u ''x-csrf-token'') = Some sent \<and> sent \<noteq> [] \<and>
                 encode_or_raise sent = encode_or_raise (as_csrf_token s)) \<and>
              (\<forall>origin. wr_header request (u ''origin'') = Some origin \<longrightarrow> origin = own_origin request))))"

lemma check_csrf_ok:
  assumes "check_csrf request s = Inr x" "wr_method request \<notin> set SAFE_METHODS"
  shows "\<exists>sent. wr_header request (u ''x-csrf-token'') = Some sent \<and> sent \<noteq> [] \<and> encode_or_raise sent = encode_or_raise (as_csrf_token s)"
    and "wr_header request (u ''origin'') = Some origin \<Longrightarrow> origin = own_origin request"
  using assms
  by (auto simp: check_csrf_def header_or_empty_def after_sep_def check_same_origin_def Let_def rbind_eq_Inr
      split: option.splits sum.splits if_splits)

lemma require_ok: "require role setup_allowed p = Inr q \<longleftrightarrow> p = q \<and> (truthy (pr_restricted p) \<longrightarrow> setup_allowed) \<and> allows (pr_role p) role"
  by (auto simp: require_def Let_def)

lemma restriction_None: "\<not> truthy (restriction cfg admin) \<Longrightarrow> \<not> au_must_change_password admin \<and> (sc_require_totp cfg \<longrightarrow> truthy (au_totp_secret admin))"
  by (auto simp: restriction_def truthy_def split: if_splits)

text \<open>C6. A route with \<open>require(role)\<close> runs only for an API token that is stored, not revoked and not
  expired, or for a session cookie whose session is neither expired nor idle for too long and whose
  account is enabled, finished with its setup (unless the route is part of it), and, when the method
  may change state, with the session's CSRF token and no foreign origin; in both cases with a role
  that allows the required one.\<close>

theorem gate_sound:
  assumes "gate cfg role setup_allowed request d now = (Inr p, d')"
  shows "token_stands d now request role \<or> (bearer_credential request = None \<and> session_stands cfg d now request role setup_allowed)"
proof (cases "bearer_credential request")
  case (Some credential)
  from assms Some obtain q where q: "token_principal d credential (client_ip request) now = (Inr q, d')" "require role setup_allowed q = Inr p"
    by (auto simp: gate_def current_principal_def rbind_eq_Inr split: prod.splits)
  from token_principal_sound [OF q(1)] q(2) Some show ?thesis by (auto simp: token_stands_def require_ok)
next
  case None
  from assms None obtain s admin q where r: "resolve cfg d (wr_cookie request COOKIE) now = Inr (Some (s, admin), d')"
    and c: "check_csrf request s = Inr ()" and q: "require role setup_allowed q = Inr p" "pr_role q = au_role admin"
      "pr_restricted q = restriction cfg admin"
    by (auto simp: gate_def current_principal_def rbind_eq_Inr split: prod.splits sum.splits option.splits)
  from resolve_Some [OF r] obtain raw h s0 where s0: "wr_cookie request COOKIE = Some raw" "token_hash raw = Inr h"
    "s0 \<in> set (admin_sessions d)" "as_token_hash s0 = h" "s = s0\<lparr>as_last_seen_at := as_last_seen_at s\<rparr>"
    "admin \<in> set (admin_users d)" "as_admin_id s0 = au_id admin" "au_enabled admin" "now < as_expires_at s0"
    "now < as_last_seen_at s0 + session_idle cfg" by blast
  have csrf: "as_csrf_token s = as_csrf_token s0" by (subst s0(5)) simp
  have "setup_allowed \<or> \<not> au_must_change_password admin \<and> (sc_require_totp cfg \<longrightarrow> truthy (au_totp_secret admin))"
    using q restriction_None [of cfg admin] by (auto simp: require_ok)
  with s0 q check_csrf_ok [OF c] csrf None show ?thesis unfolding session_stands_def by (metis require_ok)
qed


definition lab_admin :: AdminUser where
  "lab_admin = \<lparr>au_id = 7, au_username = u ''root'', au_password_hash = u ''h'', au_role = SUPERUSER, au_enabled = True,
     au_must_change_password = False, au_totp_secret = Some (u ''S''), au_totp_pending_secret = None, au_totp_last_step = None,
     au_recovery_codes = [], au_created_at = 0, au_updated_at = 0, au_last_login_at = None, au_password_changed_at = None\<rparr>"

text \<open>A signed-in administrator.\<close>

definition lab_admin_db :: "AdminUser \<Rightarrow> db" where
  "lab_admin_db admin = empty_db\<lparr>admin_users := [admin], admin_sessions :=
     [\<lparr>as_id = 5, as_token_hash = hexdigest (sha256 (map byte (u ''raw''))), as_admin_id = 7, as_csrf_token = u ''csrf'', as_created_at = 0,
       as_last_seen_at = 0, as_expires_at = 3600 * second, as_ip = [], as_user_agent = []\<rparr>]\<rparr>"

definition lab_web_request :: web_request where
  "lab_web_request = \<lparr>wr_method = u ''POST'', wr_scheme = u ''https'', wr_header = [u ''x-csrf-token'' \<mapsto> u ''csrf''],
     wr_cookie = [COOKIE \<mapsto> u ''raw''], wr_client = None\<rparr>"

definition lab_security :: SecurityConfig where
  "lab_security = \<lparr>sc_require_totp = True, sc_session_idle_minutes = 30, sc_session_max_hours = 12, sc_login_max_attempts = 10,
     sc_login_window_seconds = 300\<rparr>"

lemma lab_token_hash: "token_hash (u ''raw'') = Inr (hexdigest (sha256 (map byte (u ''raw''))))"
  by (simp add: token_hash_def encode_or_raise_def is_surrogate_def utf8_char_def u_def)

lemma lab_bearer: "bearer_credential lab_web_request = None"
  by (simp add: bearer_credential_def header_or_empty_def lab_web_request_def after_sep_def lower_def)

lemma lab_gate:
  assumes "au_id admin = 7" "au_enabled admin" "au_role admin = SUPERUSER"
  shows "\<exists>p. gate lab_security VIEWER True lab_web_request (lab_admin_db admin) (1 * second) = (Inr p, lab_admin_db admin) \<and>
    pr_kind p = Session_Kind \<and> pr_admin_id p = Some 7 \<and> pr_session_id p = Some 5"
proof -
  have "encode_or_raise (u ''csrf'') = Inr (map byte (u ''csrf''))"
    by (simp add: encode_or_raise_def is_surrogate_def utf8_char_def u_def)
  then have csrf: "check_csrf lab_web_request s = Inr ()" if "as_csrf_token s = u ''csrf''" for s
    using that by (simp add: check_csrf_def lab_web_request_def header_or_empty_def after_sep_def check_same_origin_def SAFE_METHODS_def)
  obtain s where "resolve lab_security (lab_admin_db admin) (Some (u ''raw'')) (1 * second) = Inr (Some (s, admin), lab_admin_db admin)"
    "as_csrf_token s = u ''csrf''" "as_id s = 5"
    using assms by (simp add: resolve_def lab_token_hash lab_admin_db_def row_get_def lab_security_def session_idle_def TOUCH_EVERY_def second_def)
  moreover have "wr_cookie lab_web_request COOKIE = Some (u ''raw'')" by (simp add: lab_web_request_def)
  ultimately show ?thesis
    using csrf [of s] assms by (simp add: gate_def current_principal_def lab_bearer require_def allows_def)
qed

theorem gate_sound_witness:
  "token_stands (lab_admin_db lab_admin) (1 * second) lab_web_request VIEWER \<or>
   (bearer_credential lab_web_request = None \<and> session_stands lab_security (lab_admin_db lab_admin) (1 * second) lab_web_request VIEWER True)"
proof -
  obtain p where "gate lab_security VIEWER True lab_web_request (lab_admin_db lab_admin) (1 * second) = (Inr p, lab_admin_db lab_admin)"
    using lab_gate [of lab_admin] by (auto simp: lab_admin_def)
  from gate_sound [OF this] show ?thesis .
qed


end
