(* ===== verification/Coa.thy ===== *)
theory Coa
  imports TacacsProtocol IpAddr
begin

text \<open>
  \<open>naco/radius/vendors.py\<close> and \<open>naco/radius/coa.py\<close>: the Disconnect-Request client of RFC 5176.  The
  network is a parameter: whether the socket opens, and what arrives while the client waits after
  each transmission.  The random identifier and the time are arguments.  The counter of outcomes is
  not modelled.
\<close>

section \<open>Vendors\<close>

datatype sid_field = Acct_Session_Id | User_Name | Calling_Station_Id | Nas_Ip_Address | Nas_Identifier | Audit_Session_Id

record Vendor =
  vn_label :: pystr
  vn_identify :: "sid_field list"
  vn_coa_port :: nat
  vn_event_timestamp :: bool
  vn_message_authenticator :: bool

definition Vendor_of :: "pystr \<Rightarrow> Vendor" where
  "Vendor_of label =
     \<lparr>vn_label = label, vn_identify = [Acct_Session_Id, User_Name, Calling_Station_Id, Nas_Ip_Address, Nas_Identifier],
      vn_coa_port = 3799, vn_event_timestamp = True, vn_message_authenticator = True\<rparr>"

definition VENDORS :: "(pystr \<times> Vendor) list" where
  "VENDORS =
     [(u ''standard'', Vendor_of (u ''Standard (RFC 5176) '' @ [0x2014] @ u '' Huawei, H3C/Comware, MikroTik, UniFi, Omada, others'')),
      (u ''cisco'', (Vendor_of (u ''Cisco IOS-XE / Catalyst 9800''))\<lparr>vn_identify := [Acct_Session_Id, Calling_Station_Id, Audit_Session_Id]\<rparr>),
      (u ''meraki'', (Vendor_of (u ''Cisco Meraki''))\<lparr>vn_identify := [Calling_Station_Id, Nas_Ip_Address, Audit_Session_Id],
         vn_coa_port := 1700, vn_event_timestamp := False\<rparr>),
      (u ''aruba'', (Vendor_of (u ''HPE Aruba Networking (AOS-CX, AOS-S, AOS 8/10, Instant)''))\<lparr>vn_event_timestamp := False\<rparr>),
      (u ''juniper'', (Vendor_of (u ''Juniper''))\<lparr>vn_identify := [Acct_Session_Id, User_Name, Calling_Station_Id, Nas_Ip_Address],
         vn_event_timestamp := False\<rparr>),
      (u ''fortinet'', (Vendor_of (u ''Fortinet''))\<lparr>vn_identify := [User_Name, Calling_Station_Id, Nas_Ip_Address]\<rparr>),
      (u ''extreme'', (Vendor_of (u ''Extreme Networks''))\<lparr>vn_identify := [Calling_Station_Id, Nas_Ip_Address], vn_event_timestamp := False\<rparr>),
      (u ''ruckus-icx'', (Vendor_of (u ''Ruckus ICX''))\<lparr>vn_identify := [Calling_Station_Id, Nas_Ip_Address], vn_event_timestamp := False,
         vn_message_authenticator := False\<rparr>)]"

definition vendor :: "pystr option \<Rightarrow> Vendor" where
  "vendor key =
     (let k = (case key of None \<Rightarrow> u ''standard'' | Some s \<Rightarrow> if s = [] then u ''standard'' else s);
          default = snd (hd VENDORS)
      in case map_of VENDORS k of Some v \<Rightarrow> v | None \<Rightarrow> default)"

section \<open>Packets\<close>

abbreviation DISCONNECT_REQUEST :: nat where "DISCONNECT_REQUEST \<equiv> 40"
abbreviation DISCONNECT_ACK :: nat where "DISCONNECT_ACK \<equiv> 41"
abbreviation ATTR_EVENT_TIMESTAMP :: nat where "ATTR_EVENT_TIMESTAMP \<equiv> 55"
abbreviation ATTR_MESSAGE_AUTHENTICATOR :: nat where "ATTR_MESSAGE_AUTHENTICATOR \<equiv> 80"
abbreviation ATTR_NAS_IP_ADDRESS :: nat where "ATTR_NAS_IP_ADDRESS \<equiv> 4"
abbreviation ATTR_VENDOR_SPECIFIC :: nat where "ATTR_VENDOR_SPECIFIC \<equiv> 26"

record SessionIds =
  sid_acct_session_id :: pystr
  sid_user_name :: pystr
  sid_calling_station_id :: pystr
  sid_nas_ip_address :: pystr
  sid_nas_identifier :: pystr
  sid_audit_session_id :: pystr

fun sid_value :: "SessionIds \<Rightarrow> sid_field \<Rightarrow> pystr" where
  "sid_value ids Acct_Session_Id = sid_acct_session_id ids"
| "sid_value ids User_Name = sid_user_name ids"
| "sid_value ids Calling_Station_Id = sid_calling_station_id ids"
| "sid_value ids Nas_Ip_Address = sid_nas_ip_address ids"
| "sid_value ids Nas_Identifier = sid_nas_identifier ids"
| "sid_value ids Audit_Session_Id = sid_audit_session_id ids"

text \<open>The attribute number of a plain field.\<close>

fun sid_kind :: "sid_field \<Rightarrow> nat" where
  "sid_kind Acct_Session_Id = 44"
| "sid_kind User_Name = 1"
| "sid_kind Calling_Station_Id = 31"
| "sid_kind Nas_Identifier = 32"
| "sid_kind Nas_Ip_Address = ATTR_NAS_IP_ADDRESS"
| "sid_kind Audit_Session_Id = ATTR_VENDOR_SPECIFIC"

definition radius_attr :: "nat \<Rightarrow> bytes \<Rightarrow> bytes" where
  "radius_attr kind value = (let v = take 253 value in [byte kind, byte (length v + 2)] @ v)"

text \<open>The attributes of one wanted field, none when it is empty or not an IPv4 address where one is needed.\<close>

definition identity_attr :: "SessionIds \<Rightarrow> sid_field \<Rightarrow> py_exc + bytes" where
  "identity_attr ids field =
     (let value = sid_value ids field in
      if value = [] then Inr []
      else if field = Nas_Ip_Address then
        Inr (case parse_v4 value of None \<Rightarrow> [] | Some n \<Rightarrow> radius_attr ATTR_NAS_IP_ADDRESS (be_bytes 4 n))
      else if field = Audit_Session_Id then
        rbind (encode_text (u ''audit-session-id='' @ value)) (\<lambda>b.
          Inr (radius_attr ATTR_VENDOR_SPECIFIC (be_bytes 4 9 @ radius_attr 1 b)))
      else rbind (encode_text value) (\<lambda>b. Inr (radius_attr (sid_kind field) b)))"

definition session_identity :: "SessionIds \<Rightarrow> sid_field list \<Rightarrow> py_exc + bytes" where
  "session_identity ids wanted = rbind (rmap (identity_attr ids) wanted) (\<lambda>bs. Inr (concat bs))"

text \<open>\<open>packet[i:i + len(v)] = v\<close>.\<close>

definition splice :: "bytes \<Rightarrow> nat \<Rightarrow> bytes \<Rightarrow> bytes" where
  "splice p i v = take i p @ v @ drop (i + length v) p"

definition build_disconnect :: "bytes \<Rightarrow> nat \<Rightarrow> SessionIds \<Rightarrow> Vendor \<Rightarrow> nat \<Rightarrow> py_exc + bytes" where
  "build_disconnect secret identifier ids nas event_time =
     rbind (session_identity ids (vn_identify nas)) (\<lambda>attrs0.
     rbind (if vn_event_timestamp nas
            then rbind (struct_pack [(4, event_time)]) (\<lambda>t. Inr (attrs0 @ radius_attr ATTR_EVENT_TIMESTAMP t))
            else Inr attrs0) (\<lambda>attrs1.
       let ma_offset = 20 + length attrs1 + 2;
           attrs = (if vn_message_authenticator nas
                    then attrs1 @ radius_attr ATTR_MESSAGE_AUTHENTICATOR (replicate 16 0) else attrs1)
       in rbind (struct_pack [(1, DISCONNECT_REQUEST), (1, identifier), (2, 20 + length attrs)]) (\<lambda>header.
            let p0 = header @ replicate 16 0 @ attrs;
                p1 = (if vn_message_authenticator nas then splice p0 ma_offset (hmac_md5 secret p0) else p0)
            in Inr (splice p1 4 (md5 (p1 @ secret))))))"

text \<open>\<open>_find_attr\<close>; the caller has checked that \<open>len\<close> is within the packet.\<close>

function find_attr_from :: "bytes \<Rightarrow> nat \<Rightarrow> nat \<Rightarrow> nat \<Rightarrow> nat option" where
  "find_attr_from pkt kind len pos =
     (if pos + 2 \<le> len then
        (let a_type = unat (pkt ! pos); a_len = unat (pkt ! (pos + 1)) in
         if a_len < 2 \<or> pos + a_len > len then None
         else if a_type = kind then Some (pos + 2)
         else find_attr_from pkt kind len (pos + a_len))
      else None)"
  by pat_completeness auto
termination
  by (relation "measure (\<lambda>(_, _, len, pos). len - pos)") auto

declare find_attr_from.simps [simp del]

definition find_attr :: "bytes \<Rightarrow> nat \<Rightarrow> nat \<Rightarrow> nat option" where
  "find_attr pkt kind len = find_attr_from pkt kind len 20"

definition slice :: "nat \<Rightarrow> nat \<Rightarrow> bytes \<Rightarrow> bytes" where
  "slice i j p = take (j - i) (drop i p)"

definition verify_response :: "bytes \<Rightarrow> bytes \<Rightarrow> bytes \<Rightarrow> bool" where
  "verify_response req resp secret =
     (if length resp < 20 \<or> length req < 20 then False
      else
        (let len = be_nat (slice 2 4 resp) in
         if len < 20 \<or> len > length resp \<or> resp ! 1 \<noteq> req ! 1 then False
         else if md5 (take 4 resp @ slice 4 20 req @ slice 20 len resp @ secret) \<noteq> slice 4 20 resp then False
         else
           (case find_attr resp ATTR_MESSAGE_AUTHENTICATOR len of
              None \<Rightarrow> True
            | Some ma \<Rightarrow>
                if unat (resp ! (ma - 1)) \<noteq> 18 then False
                else hmac_md5 secret (splice (splice (take len resp) 4 (slice 4 20 req)) ma (replicate 16 0))
                       = slice ma (ma + 16) resp)))"

section \<open>Exchange\<close>

datatype Outcome = ACK | NAK | TIMEOUT | ERROR

datatype coa_detail = No_Detail | Invalid_Address pystr | Os_Error pystr | Answered_Code nat | No_Answer pystr nat

record CoaTarget =
  ct_ip :: pystr
  ct_port :: nat
  ct_secret :: pystr

datatype CoaResult = CoaResult Outcome coa_detail

text \<open>What the socket delivers, and the network: whether it opens, and what arrives during each wait.\<close>

datatype net_event = Datagram "pystr \<times> nat" bytes | NetError pystr

record coa_net =
  net_open :: "pystr option"
  net_window :: "nat \<Rightarrow> net_event list"

text \<open>\<open>datagram_received\<close> and \<open>error_received\<close>: the future is set once.\<close>

fun net_receive :: "bytes \<Rightarrow> bytes \<Rightarrow> pystr \<times> nat \<Rightarrow> (pystr + bytes) option \<Rightarrow> net_event \<Rightarrow> (pystr + bytes) option" where
  "net_receive req secret peer (Some a) e = Some a"
| "net_receive req secret peer None (Datagram addr data) =
     (if addr = peer \<and> verify_response req data secret then Some (Inr data) else None)"
| "net_receive req secret peer None (NetError e) = Some (Inl e)"

text \<open>The transmissions that are left; the request is sent again unchanged.\<close>

fun coa_attempts :: "bytes \<Rightarrow> bytes \<Rightarrow> pystr \<times> nat \<Rightarrow> CoaTarget \<Rightarrow> (nat \<Rightarrow> net_event list) \<Rightarrow> nat \<Rightarrow> nat \<Rightarrow> (pystr + bytes) option \<Rightarrow> CoaResult" where
  "coa_attempts req secret peer target window i 0 fut = CoaResult TIMEOUT (No_Answer (ct_ip target) (ct_port target))"
| "coa_attempts req secret peer target window i (Suc n) fut =
     (case foldl (net_receive req secret peer) fut (window i) of
        None \<Rightarrow> coa_attempts req secret peer target window (Suc i) n None
      | Some (Inl e) \<Rightarrow> CoaResult ERROR (Os_Error e)
      | Some (Inr answer) \<Rightarrow>
          if unat (answer ! 0) = DISCONNECT_ACK then CoaResult ACK No_Detail
          else CoaResult NAK (Answered_Code (unat (answer ! 0))))"

definition disconnect :: "coa_net \<Rightarrow> CoaTarget \<Rightarrow> SessionIds \<Rightarrow> Vendor \<Rightarrow> nat \<Rightarrow> nat \<Rightarrow> nat \<Rightarrow> py_exc + CoaResult" where
  "disconnect net target ids nas retries identifier time =
     (case ip_address (ct_ip target) of
        None \<Rightarrow> Inr (CoaResult ERROR (Invalid_Address (ct_ip target)))
      | Some ip \<Rightarrow>
          rbind (encode_text (ct_secret target)) (\<lambda>secret.
          rbind (build_disconnect secret identifier ids nas time) (\<lambda>packet.
            Inr (case net_open net of
                   Some e \<Rightarrow> CoaResult ERROR (Os_Error e)
                 | None \<Rightarrow> coa_attempts packet secret (show_ip ip, ct_port target) target (net_window net) 0 retries None))))"

section \<open>Only a genuine answer counts\<close>

lemma receive_answer: "foldl (net_receive req secret peer) None es = Some (Inr data) \<Longrightarrow>
    Datagram peer data \<in> set es \<and> verify_response req data secret"
proof (induction es)
  case (Cons e es)
  have stays: "foldl (net_receive req secret peer) (Some a) xs = Some a" for a xs by (induction xs) auto
  show ?case
  proof (cases "net_receive req secret peer None e")
    case None
    with Cons show ?thesis by simp
  next
    case (Some a)
    with Cons.prems have "a = Inr data" by (simp add: stays)
    with Some show ?thesis by (cases e) (auto split: if_splits)
  qed
qed simp

lemma attempts_ack:
  assumes "coa_attempts req secret peer target window i n None = CoaResult ACK dt"
  shows "\<exists>j data. i \<le> j \<and> j < i + n \<and> Datagram peer data \<in> set (window j) \<and> verify_response req data secret \<and> data ! 0 = byte DISCONNECT_ACK"
  using assms
proof (induction n arbitrary: i)
  case (Suc n)
  show ?case
  proof (cases "foldl (net_receive req secret peer) None (window i)")
    case None
    with Suc.prems have "coa_attempts req secret peer target window (Suc i) n None = CoaResult ACK dt" by simp
    from Suc.IH [OF this] obtain j data where "Suc i \<le> j" "j < Suc i + n" "Datagram peer data \<in> set (window j)"
      "verify_response req data secret" "data ! 0 = byte DISCONNECT_ACK" by blast
    then show ?thesis by (intro exI [of _ j] exI [of _ data]) simp
  next
    case (Some a)
    with Suc.prems obtain data where a: "a = Inr data" "unat (data ! 0) = 41" by (auto split: sum.splits if_splits)
    then have "data ! 0 = byte 41" by (metis byte_unat)
    with receive_answer [of req secret peer "window i" data] Some a show ?thesis by auto
  qed
qed simp

text \<open>What a NAS that knows the secret answers, without attributes.\<close>

definition plain_answer :: "bytes \<Rightarrow> bytes \<Rightarrow> nat \<Rightarrow> bytes" where
  "plain_answer req secret code =
     (let head = [byte code, req ! 1, 0, 20] in head @ md5 (head @ slice 4 20 req @ secret))"

lemma plain_answer_verified: "20 \<le> length req \<Longrightarrow> verify_response req (plain_answer req secret code) secret"
  by (simp add: verify_response_def plain_answer_def Let_def slice_def be_nat_def find_attr_def find_attr_from.simps)

text \<open>C31. A disconnect counts as acknowledged only if, during one of the transmissions, a datagram with the
  code of an acknowledgement came from exactly the address and port of the NAS, with the identifier
  of the request and an authenticator over it that only the shared secret gives.\<close>

theorem disconnect_ack_authentic:
  assumes "disconnect net target ids nas retries identifier time = Inr (CoaResult ACK dt)"
  shows "\<exists>ip secret req i data. ip_address (ct_ip target) = Some ip \<and> encode_text (ct_secret target) = Inr secret \<and>
    build_disconnect secret identifier ids nas time = Inr req \<and> i < retries \<and>
    Datagram (show_ip ip, ct_port target) data \<in> set (net_window net i) \<and>
    data ! 0 = byte DISCONNECT_ACK \<and> data ! 1 = req ! 1 \<and>
    slice 4 20 data = md5 (take 4 data @ slice 4 20 req @ slice 20 (be_nat (slice 2 4 data)) data @ secret)"
proof -
  from assms obtain ip secret req where a: "ip_address (ct_ip target) = Some ip" "encode_text (ct_secret target) = Inr secret"
    "build_disconnect secret identifier ids nas time = Inr req"
    "coa_attempts req secret (show_ip ip, ct_port target) target (net_window net) 0 retries None = CoaResult ACK dt"
    by (auto simp: disconnect_def rbind_eq_Inr split: option.splits)
  from attempts_ack [OF a(4)] obtain i data where d: "i < retries"
    "Datagram (show_ip ip, ct_port target) data \<in> set (net_window net i)" "verify_response req data secret" "data ! 0 = byte DISCONNECT_ACK"
    by auto
  then have "data ! 1 = req ! 1" "slice 4 20 data = md5 (take 4 data @ slice 4 20 req @ slice 20 (be_nat (slice 2 4 data)) data @ secret)"
    by (auto simp: verify_response_def Let_def split: if_splits)
  with a d show ?thesis by blast
qed

definition lab_net :: "bytes \<Rightarrow> coa_net" where
  "lab_net answer = \<lparr>net_open = None, net_window = (\<lambda>i. if i = 1 then [Datagram (u ''10.0.0.7'', 3799) answer] else [])\<rparr>"

definition lab_target :: CoaTarget where
  "lab_target = \<lparr>ct_ip = u ''10.0.0.7'', ct_port = 3799, ct_secret = u ''s''\<rparr>"

definition lab_ids :: SessionIds where
  "lab_ids = \<lparr>sid_acct_session_id = u ''1'', sid_user_name = [], sid_calling_station_id = [], sid_nas_ip_address = [],
     sid_nas_identifier = [], sid_audit_session_id = []\<rparr>"

section \<open>The request is well formed\<close>

text \<open>Walking over attributes.\<close>

definition encoded :: "(nat \<times> bytes) list \<Rightarrow> bytes" where
  "encoded kvs = concat (map (\<lambda>(k, v). radius_attr k v) kvs)"

lemma encoded_simps [simp]: "encoded [] = []" "encoded ((k, v) # kvs) = radius_attr k v @ encoded kvs" "encoded (xs @ ys) = encoded xs @ encoded ys"
  by (simp_all add: encoded_def)

lemma length_radius_attr [simp]: "length (radius_attr k v) = min 253 (length v) + 2"
  by (simp add: radius_attr_def Let_def)

lemma radius_attr_nth: "k < 256 \<Longrightarrow> unat ((pre @ radius_attr k v @ rest) ! length pre) = k"
  "unat ((pre @ radius_attr k v @ rest) ! Suc (length pre)) = min 253 (length v) + 2"
  by (simp_all add: radius_attr_def Let_def nth_append unat_byte_small)

lemma find_attr_here:
  assumes "k < 256" "p = pre @ radius_attr k v @ rest"
  shows "find_attr_from p k (length p) (length pre) = Some (length pre + 2)"
  using assms radius_attr_nth [where pre = pre and k = k and v = v and rest = rest]
  by (subst find_attr_from.simps) (simp add: Let_def)

lemma find_attr_skip:
  assumes "k < 256" "k \<noteq> kind" "p = pre @ radius_attr k v @ rest"
  shows "find_attr_from p kind (length p) (length pre) = find_attr_from p kind (length p) (length (pre @ radius_attr k v))"
  using assms radius_attr_nth [where pre = pre and k = k and v = v and rest = rest]
  by (subst find_attr_from.simps) (auto simp: Let_def add.commute min_def)

lemma find_attr_after:
  assumes "list_all (\<lambda>(k, v). k < 256 \<and> k \<noteq> kind) kvs" "kind < 256" "p = pre @ encoded kvs @ radius_attr kind w @ rest"
  shows "find_attr_from p kind (length p) (length pre) = Some (length pre + length (encoded kvs) + 2)"
  using assms
proof (induction kvs arbitrary: pre)
  case Nil
  then show ?case using find_attr_here [of kind p pre w rest] by simp
next
  case (Cons kv kvs)
  obtain k v where kv: "kv = (k, v)" by (rule prod.exhaust)
  with Cons.prems have "find_attr_from p kind (length p) (length pre) = find_attr_from p kind (length p) (length (pre @ radius_attr k v))"
    using find_attr_skip [of k kind p pre v "encoded kvs @ radius_attr kind w @ rest"] by simp
  also have "\<dots> = Some (length (pre @ radius_attr k v) + length (encoded kvs) + 2)"
    using Cons.IH [of "pre @ radius_attr k v"] Cons.prems kv by simp
  finally show ?case by (simp add: kv)
qed

lemma identity_attr_encoded:
  assumes "identity_attr ids f = Inr b"
  shows "\<exists>kvs. b = encoded kvs \<and> list_all (\<lambda>(k, v). k < 256 \<and> k \<noteq> ATTR_MESSAGE_AUTHENTICATOR) kvs"
proof -
  have one: "\<exists>kvs. radius_attr k v = encoded kvs \<and> list_all (\<lambda>(k, v). k < 256 \<and> k \<noteq> ATTR_MESSAGE_AUTHENTICATOR) kvs"
    if "k < 256" "k \<noteq> ATTR_MESSAGE_AUTHENTICATOR" for k v
    using that by (intro exI [of _ "[(k, v)]"]) simp
  have none: "\<exists>kvs. [] = encoded kvs \<and> list_all (\<lambda>(k, v). k < 256 \<and> k \<noteq> ATTR_MESSAGE_AUTHENTICATOR) kvs"
    by (rule exI [of _ "[]"]) simp
  from assms show ?thesis
    by (cases f) (auto simp: identity_attr_def Let_def rbind_eq_Inr none intro!: one split: if_splits option.splits)
qed

lemma session_identity_encoded:
  assumes "session_identity ids wanted = Inr bs"
  shows "\<exists>kvs. bs = encoded kvs \<and> list_all (\<lambda>(k, v). k < 256 \<and> k \<noteq> ATTR_MESSAGE_AUTHENTICATOR) kvs"
proof -
  have "rmap (identity_attr ids) ws = Inr bss \<Longrightarrow>
      \<exists>kvs. concat bss = encoded kvs \<and> list_all (\<lambda>(k, v). k < 256 \<and> k \<noteq> ATTR_MESSAGE_AUTHENTICATOR) kvs" for ws bss
  proof (induction ws arbitrary: bss)
    case Nil
    then show ?case by (intro exI [of _ "[]"]) simp
  next
    case (Cons w ws)
    then obtain b bss' where b: "identity_attr ids w = Inr b" "rmap (identity_attr ids) ws = Inr bss'" "bss = b # bss'"
      by (auto simp: rbind_eq_Inr)
    from identity_attr_encoded [OF b(1)] Cons.IH [OF b(2)] obtain ks ls where
      "b = encoded ks" "concat bss' = encoded ls" "list_all (\<lambda>(k, v). k < 256 \<and> k \<noteq> ATTR_MESSAGE_AUTHENTICATOR) (ks @ ls)" by auto
    with b(3) show ?case by (intro exI [of _ "ks @ ls"]) simp
  qed
  with assms show ?thesis by (auto simp: session_identity_def rbind_eq_Inr)
qed

lemma splice_append: "length a = i \<Longrightarrow> length b = length v \<Longrightarrow> splice (a @ b @ c) i v = a @ v @ c"
  by (simp add: splice_def)

lemma slice_append: "length a = i \<Longrightarrow> length b = j - i \<Longrightarrow> slice i j (a @ b @ c) = b"
  by (simp add: slice_def)

definition zeros16 :: bytes where
  "zeros16 = replicate 16 0"

text \<open>The parts of a request: header, authenticator, identifying attributes, Message-Authenticator.\<close>

lemma build_disconnect_parts:
  assumes "build_disconnect secret identifier ids nas time = Inr p"
  obtains header kvs where "length header = 4" "header ! 0 = byte DISCONNECT_REQUEST" "header ! 1 = byte identifier"
    "be_nat (slice 2 4 header) = length p" "list_all (\<lambda>(k, v). k < 256 \<and> k \<noteq> ATTR_MESSAGE_AUTHENTICATOR) kvs"
    "let ma = (if vn_message_authenticator nas
               then [byte 80, byte 18] @ hmac_md5 secret (header @ zeros16 @ encoded kvs @ [byte 80, byte 18] @ zeros16) else [])
     in p = header @ md5 ((header @ zeros16 @ encoded kvs @ ma) @ secret) @ encoded kvs @ ma"
proof -
  from assms obtain attrs0 attrs1 header where a: "session_identity ids (vn_identify nas) = Inr attrs0"
    "attrs1 = attrs0 \<or> (\<exists>t. attrs1 = attrs0 @ radius_attr ATTR_EVENT_TIMESTAMP t)"
    and h: "struct_pack [(1, DISCONNECT_REQUEST), (1, identifier),
      (2, 20 + length (if vn_message_authenticator nas then attrs1 @ radius_attr ATTR_MESSAGE_AUTHENTICATOR zeros16 else attrs1))] = Inr header"
    and p: "p = (let p0 = header @ zeros16 @ (if vn_message_authenticator nas then attrs1 @ radius_attr ATTR_MESSAGE_AUTHENTICATOR zeros16 else attrs1);
        p1 = (if vn_message_authenticator nas then splice p0 (20 + length attrs1 + 2) (hmac_md5 secret p0) else p0)
        in splice p1 4 (md5 (p1 @ secret)))"
    unfolding build_disconnect_def by (auto simp: rbind_eq_Inr Let_def zeros16_def split: if_splits)
  obtain ks where ks: "attrs0 = encoded ks" "list_all (\<lambda>(k, v). k < 256 \<and> k \<noteq> ATTR_MESSAGE_AUTHENTICATOR) ks"
    using session_identity_encoded [OF a(1)] by blast
  have "\<exists>kvs. attrs1 = encoded kvs \<and> list_all (\<lambda>(k, v). k < 256 \<and> k \<noteq> ATTR_MESSAGE_AUTHENTICATOR) kvs"
    using a(2)
  proof
    assume "\<exists>t. attrs1 = attrs0 @ radius_attr ATTR_EVENT_TIMESTAMP t"
    then obtain t where "attrs1 = encoded (ks @ [(ATTR_EVENT_TIMESTAMP, t)])" using ks by auto
    then show ?thesis using ks(2) by (intro exI [of _ "ks @ [(ATTR_EVENT_TIMESTAMP, t)]"]) simp
  qed (use ks in blast)
  then obtain kvs where kvs: "attrs1 = encoded kvs" "list_all (\<lambda>(k, v). k < 256 \<and> k \<noteq> ATTR_MESSAGE_AUTHENTICATOR) kvs" by blast
  have z: "length zeros16 = 16" "radius_attr 80 zeros16 = [byte 80, byte 18] @ zeros16"
    by (simp_all add: zeros16_def radius_attr_def Let_def)
  let ?ma = "if vn_message_authenticator nas
    then [byte 80, byte 18] @ hmac_md5 secret (header @ zeros16 @ encoded kvs @ [byte 80, byte 18] @ zeros16) else []"
  define n where "n = 20 + length attrs1 + length ?ma"
  have one: "be_bytes (Suc 0) m = [byte m]" for m by (simp add: byte_def)
  from h have hdr: "header = [byte DISCONNECT_REQUEST, byte identifier] @ be_bytes 2 n @ []" "n < 256 ^ 2"
    unfolding struct_pack_iff by (auto simp: one n_def z simp del: be_bytes.simps)
  have hd: "length header = 4" "header ! 0 = byte DISCONNECT_REQUEST" "header ! 1 = byte identifier"
    "be_nat (slice 2 4 header) = n"
    by (subst hdr(1), use hdr(2) in \<open>simp add: slice_def be_nat_be_bytes\<close>)+
  have "p = header @ md5 ((header @ zeros16 @ encoded kvs @ ?ma) @ secret) @ encoded kvs @ ?ma"
  proof -
    have four: "splice (header @ zeros16 @ c) 4 (md5 x) = header @ md5 x @ c" for c x
      by (rule splice_append) (simp_all add: hd(1) z)
    have last16: "splice (header @ zeros16 @ encoded kvs @ byte 80 # byte 18 # zeros16) (22 + length (encoded kvs)) (hmac_md5 secret y) =
        header @ zeros16 @ encoded kvs @ byte 80 # byte 18 # hmac_md5 secret y" for y
      using splice_append [of "header @ zeros16 @ encoded kvs @ [byte 80, byte 18]" "22 + length (encoded kvs)" zeros16 "hmac_md5 secret y" "[]"]
      by (simp add: hd(1) z)
    show ?thesis by (cases "vn_message_authenticator nas") (simp_all add: p kvs(1) Let_def z(2) four last16)
  qed
  moreover from this have "be_nat (slice 2 4 header) = length p" using hd kvs(1) by (simp add: n_def)
  ultimately show ?thesis using that [of header kvs] hd kvs(2) by (simp add: Let_def)
qed

text \<open>A Disconnect-Request has the code, identifier and length it should have; its authenticator is the
  digest of the packet with a zero authenticator and the secret, and where the vendor takes a
  Message-Authenticator it is the last attribute, found by walking over the attributes, and the
  keyed digest of the packet with both fields zero.\<close>

theorem build_disconnect_wellformed:
  assumes "build_disconnect secret identifier ids nas time = Inr p"
  shows "p ! 0 = byte DISCONNECT_REQUEST \<and> p ! 1 = byte identifier \<and> be_nat (slice 2 4 p) = length p \<and>
    slice 4 20 p = md5 (splice p 4 zeros16 @ secret) \<and>
    (if vn_message_authenticator nas
     then \<exists>ma. find_attr p ATTR_MESSAGE_AUTHENTICATOR (length p) = Some ma \<and> ma + 16 = length p \<and>
       slice ma (ma + 16) p = hmac_md5 secret (splice (splice p 4 zeros16) ma zeros16)
     else True)"
proof -
  from assms obtain header kvs where h: "length header = 4" "header ! 0 = byte DISCONNECT_REQUEST" "header ! 1 = byte identifier"
    "be_nat (slice 2 4 header) = length p" "list_all (\<lambda>(k, v). k < 256 \<and> k \<noteq> ATTR_MESSAGE_AUTHENTICATOR) kvs"
    and p: "let ma = (if vn_message_authenticator nas
               then [byte 80, byte 18] @ hmac_md5 secret (header @ zeros16 @ encoded kvs @ [byte 80, byte 18] @ zeros16) else [])
     in p = header @ md5 ((header @ zeros16 @ encoded kvs @ ma) @ secret) @ encoded kvs @ ma"
    by (rule build_disconnect_parts)
  obtain m ma where p': "p = header @ m @ encoded kvs @ ma" "length m = 16" "m = md5 ((header @ zeros16 @ encoded kvs @ ma) @ secret)"
    "ma = (if vn_message_authenticator nas
       then [byte 80, byte 18] @ hmac_md5 secret (header @ zeros16 @ encoded kvs @ [byte 80, byte 18] @ zeros16) else [])"
    using p by (simp add: Let_def)
  have z: "length zeros16 = 16" by (simp add: zeros16_def)
  have s4: "splice p 4 zeros16 = header @ zeros16 @ encoded kvs @ ma" using splice_append [of header 4 m zeros16] p' h(1) z by simp
  have "slice 4 20 p = m" using slice_append [of header 4 m 20] p' h(1) by simp
  moreover have "slice 2 4 p = slice 2 4 header" using h(1) by (simp add: p'(1) slice_def)
  moreover have "\<exists>k. find_attr p ATTR_MESSAGE_AUTHENTICATOR (length p) = Some k \<and> k + 16 = length p \<and>
       slice k (k + 16) p = hmac_md5 secret (splice (splice p 4 zeros16) k zeros16)" if mauth: "vn_message_authenticator nas"
  proof -
    let ?h = "hmac_md5 secret (header @ zeros16 @ encoded kvs @ [byte 80, byte 18] @ zeros16)"
    let ?k = "length (header @ m) + length (encoded kvs) + 2"
    have ma: "ma = radius_attr 80 ?h" using p'(4) mauth by (simp add: radius_attr_def Let_def)
    have "find_attr_from p 80 (length p) (length (header @ m)) = Some ?k"
      by (rule find_attr_after [of _ kvs _ _ ?h "[]"]) (use h(5) in \<open>simp_all add: p'(1) ma\<close>)
    then have "find_attr p 80 (length p) = Some ?k" using h(1) p'(2) by (simp add: find_attr_def)
    moreover have "slice ?k (?k + 16) p = ?h"
      using slice_append [of "header @ m @ encoded kvs @ [byte 80, byte 18]" ?k ?h "?k + 16" "[]"] p'(1,4) mauth by simp
    moreover have "splice (splice p 4 zeros16) ?k zeros16 = header @ zeros16 @ encoded kvs @ [byte 80, byte 18] @ zeros16"
      using splice_append [of "header @ zeros16 @ encoded kvs @ [byte 80, byte 18]" ?k ?h zeros16 "[]"] p'(2,4) h(1) z mauth
      by (simp add: s4)
    ultimately show ?thesis using p'(1,4) mauth by simp
  qed
  ultimately show ?thesis using h p' s4 by (auto simp: nth_append)
qed

text \<open>The lab's request, and the answer of a NAS to its second transmission.\<close>

lemma lab_request: "\<exists>req. build_disconnect (map byte (u ''s'')) 7 lab_ids (vendor None) 1 = Inr req"
  by (simp add: build_disconnect_def vendor_def VENDORS_def Vendor_of_def lab_ids_def session_identity_def identity_attr_def encode_text_def
      u_def is_surrogate_def utf8_char_def struct_pack_def pack_int_def Let_def)

theorem build_disconnect_wellformed_witness:
  "\<exists>req ma. build_disconnect (map byte (u ''s'')) 7 lab_ids (vendor None) 1 = Inr req \<and>
    find_attr req ATTR_MESSAGE_AUTHENTICATOR (length req) = Some ma \<and> ma + 16 = length req"
proof -
  obtain req where r: "build_disconnect (map byte (u ''s'')) 7 lab_ids (vendor None) 1 = Inr req" using lab_request by blast
  have "vn_message_authenticator (vendor None)" by (simp add: vendor_def VENDORS_def Vendor_of_def)
  with build_disconnect_wellformed [OF r] r show ?thesis by auto
qed

theorem disconnect_ack_authentic_witness:
  "\<exists>req i data. disconnect (lab_net (plain_answer req (map byte (u ''s'')) 41)) lab_target lab_ids (vendor None) 3 7 1 = Inr (CoaResult ACK No_Detail) \<and>
    data \<in> {plain_answer req (map byte (u ''s'')) 41} \<and> Datagram (u ''10.0.0.7'', 3799) data \<in> set (net_window (lab_net data) i)"
proof -
  obtain req where r: "build_disconnect (map byte (u ''s'')) 7 lab_ids (vendor None) 1 = Inr req" using lab_request by blast
  let ?a = "plain_answer req (map byte (u ''s'')) 41"
  have "20 \<le> length req"
  proof (rule build_disconnect_parts [OF r], goal_cases)
    case (1 header kvs)
    from 1(1,6) show ?case by (simp add: Let_def split: if_splits)
  qed
  then have v: "verify_response req ?a (map byte (u ''s''))" by (rule plain_answer_verified)
  have ip: "ip_address (u ''10.0.0.7'') = Some (V4 0x0A000007)" "show_ip (V4 0x0A000007) = u ''10.0.0.7''"
    by (simp_all add: ip_address_def parse_v4_def parse_octet_def u_def is_digit_def undec_def show_v4_def dec.simps)
  have s: "encode_text (u ''s'') = Inr (map byte (u ''s''))" by (simp add: encode_text_def u_def is_surrogate_def utf8_char_def)
  have code: "?a ! 0 = byte 41" by (simp add: plain_answer_def Let_def)
  have "coa_attempts req (map byte (u ''s'')) (u ''10.0.0.7'', 3799) lab_target (net_window (lab_net ?a)) 0 3 None = CoaResult ACK No_Detail"
    using v code by (simp add: numeral_3_eq_3 lab_net_def unat_byte_small)
  then have d: "disconnect (lab_net ?a) lab_target lab_ids (vendor None) 3 7 1 = Inr (CoaResult ACK No_Detail)"
    using r ip s by (simp add: disconnect_def lab_target_def) (simp add: lab_net_def)
  from disconnect_ack_authentic [OF d] ip obtain i data where
    "Datagram (u ''10.0.0.7'', 3799) data \<in> set (net_window (lab_net ?a) i)" by (auto simp: lab_target_def)
  then have "data = ?a" "Datagram (u ''10.0.0.7'', 3799) ?a \<in> set (net_window (lab_net ?a) i)" by (auto simp: lab_net_def split: if_splits)
  with d show ?thesis by blast
qed

end
