(* ===== verification/Reevaluate.thy ===== *)
theory Reevaluate
  imports ServiceSafety Coa
begin

text \<open>
  \<open>naco/radius/reevaluate.py\<close>: after a change the live sessions are decided again, and those whose
  decision is different now are disconnected.  The network of each request, the random
  identifiers and the retry count are parameters.  Requests go out concurrently; their results are
  listed in the order of the sessions.  The log trail is not modelled.
\<close>

record ReevalSummary =
  sm_checked :: nat
  sm_changed :: nat
  sm_disconnected :: nat
  sm_failed :: nat
  sm_reasons :: "pystr list"

record reeval_env =
  re_tz :: zone
  re_net :: "RadiusSession \<Rightarrow> coa_net"
  re_random :: "RadiusSession \<Rightarrow> nat"
  re_retries :: nat

definition decision_changed :: "Decision \<Rightarrow> pystr \<Rightarrow> bool" where
  "decision_changed dcn dig \<longleftrightarrow> \<not> accepted dcn \<or> digest dcn \<noteq> dig"

definition session_ids :: "RadiusSession \<Rightarrow> SessionIds" where
  "session_ids s =
     \<lparr>sid_acct_session_id = rs_acct_session_id s, sid_user_name = rs_acct_username s,
      sid_calling_station_id = rs_calling_station_id s, sid_nas_ip_address = rs_nas_ip_address s,
      sid_nas_identifier = rs_nas_identifier s, sid_audit_session_id = rs_audit_session_id s\<rparr>"

definition send_disconnect :: "reeval_env \<Rightarrow> int \<Rightarrow> RadiusSession \<Rightarrow> NasClient \<Rightarrow> py_exc + CoaResult" where
  "send_disconnect env now s nas =
     disconnect (re_net env s) \<lparr>ct_ip = rs_nas_ip s, ct_port = nas_coa_port nas, ct_secret = nas_secret nas\<rparr> (session_ids s)
       (vendor (Some (nas_vendor nas))) (re_retries env) (re_random env s) (nat (now div second))"

section \<open>What the sessions refer to\<close>

record world =
  w_nas :: NasDirectory
  w_users :: "(pystr, UserInfo) odict"
  w_devices :: "(pystr, Device) odict"
  w_guests :: "pystr list"

definition load_world :: "db \<Rightarrow> RadiusSession list \<Rightarrow> int \<Rightarrow> py_exc + world" where
  "load_world d sessions now =
     (let usernames = filter (\<lambda>n. n \<noteq> []) (map rs_username sessions);
          macs = filter (\<lambda>m. m \<noteq> []) (map rs_mac_address sessions)
      in rbind (nas_directory d) (\<lambda>nas.
           Inr \<lparr>w_nas = nas,
                w_users = od_index usr_username (\<lambda>x. (user_info x (group_by_id d (usr_group_id x)))\<lparr>ui_device_admin_attributes := []\<rparr>)
                  (filter (\<lambda>x. usr_username x \<in> set usernames) (users d)),
                w_devices = od_index dev_mac_address id (filter (\<lambda>v. dev_mac_address v \<in> set macs) (devices d)),
                w_guests = map gr_mac_address (filter (\<lambda>g. gr_mac_address g \<in> set macs \<and> gr_revoked_at g = None \<and> gr_expires_at g > now)
                  (guest_registrations d))\<rparr>))"

section \<open>Re-evaluation\<close>

definition session_decision :: "world \<Rightarrow> CompiledPolicy list \<Rightarrow> zone \<Rightarrow> int \<Rightarrow> RadiusSession \<Rightarrow> NasClient \<Rightarrow> py_exc + Decision" where
  "session_decision w ps tz now s nas =
     (let mac = none_if_empty (rs_mac_address s) in
      case subject_context (rs_auth_method s) (rs_username s) (od_get (w_users w) (rs_username s)) mac
             (case mac of Some m \<Rightarrow> od_get (w_devices w) m | None \<Rightarrow> None)
             (case mac of Some m \<Rightarrow> m \<in> set (w_guests w) | None \<Rightarrow> False)
             (nas_name nas) (rs_nas_ip s) (none_if_empty (rs_ssid s)) now of
        Inl dcn \<Rightarrow> Inr dcn
      | Inr ctx \<Rightarrow> decide ps ctx tz)"

text \<open>The loop over the sessions: how many were checked, and which have to go.\<close>

fun reeval_targets :: "world \<Rightarrow> CompiledPolicy list \<Rightarrow> zone \<Rightarrow> int \<Rightarrow> RadiusSession list \<Rightarrow>
    py_exc + nat \<times> (RadiusSession \<times> NasClient) list" where
  "reeval_targets w ps tz now [] = Inr (0, [])"
| "reeval_targets w ps tz now (s # ss) =
     (case (if rs_auth_method s \<in> set AUTH_METHODS then nd_find (w_nas w) (rs_nas_ip s) else None) of
        None \<Rightarrow> reeval_targets w ps tz now ss
      | Some nas \<Rightarrow>
          rbind (session_decision w ps tz now s nas) (\<lambda>dcn.
            rbind (reeval_targets w ps tz now ss) (\<lambda>(checked, targets).
              Inr (Suc checked, if decision_changed dcn (rs_decision_digest s) then (s, nas) # targets else targets))))"

text \<open>The summary and the requests sent with their results.\<close>

definition reevaluate :: "reeval_env \<Rightarrow> db \<Rightarrow> int \<Rightarrow> pystr list \<Rightarrow> py_exc + ReevalSummary \<times> ((RadiusSession \<times> NasClient) \<times> CoaResult) list" where
  "reevaluate env d now reasons =
     (let nothing = \<lparr>sm_checked = 0, sm_changed = 0, sm_disconnected = 0, sm_failed = 0, sm_reasons = reasons\<rparr>;
          sessions = filter (\<lambda>s. rs_decision_digest s \<noteq> []) (radius_sessions d)
      in case load_policies d of
           Inl _ \<Rightarrow> Inr (nothing, [])
         | Inr ps \<Rightarrow>
             if sessions = [] then Inr (nothing, [])
             else
               rbind (load_world d sessions now) (\<lambda>w.
               rbind (reeval_targets w ps (re_tz env) now sessions) (\<lambda>(checked, targets).
               rbind (rmap (\<lambda>(s, nas). send_disconnect env now s nas) targets) (\<lambda>results.
                 let acked = length (filter (\<lambda>r. case r of CoaResult oc _ \<Rightarrow> oc = ACK) results)
                 in Inr (nothing\<lparr>sm_checked := checked, sm_changed := length targets, sm_disconnected := acked,
                           sm_failed := length targets - acked\<rparr>, zip targets results)))))"

section \<open>Coalescing\<close>

record Reevaluator =
  rv_wake :: bool
  rv_reasons :: "pystr list"

definition Reevaluator_init :: Reevaluator where
  "Reevaluator_init = \<lparr>rv_wake = False, rv_reasons = []\<rparr>"

definition schedule :: "Reevaluator \<Rightarrow> pystr \<Rightarrow> Reevaluator" where
  "schedule r reason = r\<lparr>rv_reasons := rv_reasons r @ [reason], rv_wake := True\<rparr>"

text \<open>A turn of \<open>run_forever\<close> after the delay: what the next run is for.\<close>

definition take_reasons :: "Reevaluator \<Rightarrow> Reevaluator \<times> pystr list" where
  "take_reasons r = (r\<lparr>rv_wake := False, rv_reasons := []\<rparr>, rv_reasons r)"

section \<open>Agreement with live authorization\<close>

text \<open>Rows the schema guarantees: unique names, addresses and clients.\<close>

definition keys_ok :: "db \<Rightarrow> bool" where
  "keys_ok d \<longleftrightarrow> distinct (map usr_username (users d)) \<and> distinct (map dev_mac_address (devices d)) \<and>
     distinct (map nas_ip_address (nas_clients d))"

lemma subject_context_user:
  "map_option (\<lambda>i. (ui_enabled i, ui_group_name i)) a = map_option (\<lambda>i. (ui_enabled i, ui_group_name i)) b \<Longrightarrow>
    subject_context m n a mac dev g nn ni ssid now = subject_context m n b mac dev g nn ni ssid now"
  by (cases a; cases b) (auto simp: subject_context_def Let_def)

definition texts :: "('a \<Rightarrow> pystr) \<Rightarrow> 'a list \<Rightarrow> pystr set" where
  "texts f xs = f ` set xs - {[]}"

lemma texts_iff: "f x \<in> texts f xs \<longleftrightarrow> f x \<noteq> []" if "x \<in> set xs"
  using that by (auto simp: texts_def)

lemma load_world_fields:
  assumes "load_world d ss now = Inr w"
  shows "nas_directory d = Inr (w_nas w)"
    and "w_users w = od_index usr_username (\<lambda>x. (user_info x (group_by_id d (usr_group_id x)))\<lparr>ui_device_admin_attributes := []\<rparr>)
      (filter (\<lambda>x. usr_username x \<in> texts rs_username ss) (users d))"
    and "w_devices w = od_index dev_mac_address id (filter (\<lambda>v. dev_mac_address v \<in> texts rs_mac_address ss) (devices d))"
    and "set (w_guests w) = {m. m \<in> texts rs_mac_address ss \<and> guest_active d m now}"
  using assms by (auto simp: load_world_def Let_def rbind_eq_Inr guest_active_def list_ex_iff texts_def)
    (force simp: image_iff)

lemma world_user:
  assumes "keys_ok d" "load_world d ss now = Inr w" "s \<in> set ss"
  shows "map_option (\<lambda>i. (ui_enabled i, ui_group_name i)) (od_get (w_users w) (rs_username s)) =
    (if rs_username s = [] then None
     else map_option (\<lambda>i. (ui_enabled i, ui_group_name i)) (map_option fst (load_user d (rs_username s))))"
  using assms texts_iff [OF assms(3), of rs_username]
  by (simp add: load_world_fields(2) [OF assms(2)] od_index_filter_get keys_ok_def load_user_def user_info_def split: option.splits)

lemma world_device:
  assumes "keys_ok d" "load_world d ss now = Inr w" "s \<in> set ss" "rs_mac_address s \<noteq> []"
  shows "od_get (w_devices w) (rs_mac_address s) = find (\<lambda>v. dev_mac_address v = rs_mac_address s) (devices d)"
  using assms texts_iff [OF assms(3), of rs_mac_address]
  by (simp add: load_world_fields(3) [OF assms(2)] od_index_filter_get keys_ok_def option.map_id)

lemma world_guest:
  assumes "load_world d ss now = Inr w" "s \<in> set ss" "rs_mac_address s \<noteq> []"
  shows "rs_mac_address s \<in> set (w_guests w) \<longleftrightarrow> guest_active d (rs_mac_address s) now"
  using assms texts_iff [OF assms(2), of rs_mac_address] by (simp add: load_world_fields(4) [OF assms(1)])

text \<open>A live request of the session's station: with the method, the client, the station, the network name and
  the user of the session, past the checks that only a request can pass - over MAB the station's address
  is its name (and the session has no user), and a password was verified within the last two minutes.\<close>

definition asks_again :: "aaa_state \<Rightarrow> attrs \<Rightarrow> int \<Rightarrow> RadiusSession \<Rightarrow> bool" where
  "asks_again st a clock s \<longleftrightarrow>
     ri_method (request_info a) = Some (rs_auth_method s) \<and> ri_nas_ip (request_info a) = rs_nas_ip s \<and>
     ri_mac (request_info a) = none_if_empty (rs_mac_address s) \<and> ri_ssid (request_info a) = none_if_empty (rs_ssid s) \<and>
     (if rs_auth_method s = u ''MAB''
      then rs_username s = [] \<and> rs_mac_address s \<noteq> [] \<and> normalize_mac (attrs_get a (u ''User-Name'')) = Some (rs_mac_address s)
      else identity_of a (rs_auth_method s) = rs_username s) \<and>
     (rs_auth_method s \<in> set PASSWORD_METHODS \<longrightarrow>
        recently_verified (aaa_verified st) (verified_key_of (rs_username s) (request_info a)) clock)"

text \<open>The inventory still has the station of the session.\<close>

definition station_known :: "db \<Rightarrow> RadiusSession \<Rightarrow> bool" where
  "station_known d s \<longleftrightarrow> rs_mac_address s \<noteq> [] \<longrightarrow> rs_mac_address s \<in> dev_mac_address ` set (devices d)"

definition station_of :: "db \<Rightarrow> RadiusSession \<Rightarrow> Device option" where
  "station_of d s = (if rs_mac_address s = [] then None else find (\<lambda>v. dev_mac_address v = rs_mac_address s) (devices d))"

lemma station_of_view:
  assumes "asks_again st a clock s" "station_known d s"
  shows "map_option device_view (station_of d s) = station_view cfg d (ri_mac (request_info a))"
proof (cases "rs_mac_address s = []")
  case False
  with assms(2) obtain v where "find (\<lambda>v. dev_mac_address v = rs_mac_address s) (devices d) = Some v"
    by (cases "find (\<lambda>v. dev_mac_address v = rs_mac_address s) (devices d)") (auto simp: station_known_def find_None_iff)
  with False assms(1) show ?thesis by (simp add: asks_again_def none_if_empty_def station_of_def station_view_def)
qed (use assms(1) in \<open>simp add: asks_again_def none_if_empty_def station_of_def station_view_def\<close>)

lemma session_decision_live:
  assumes "keys_ok (aaa_db st)" "load_world (aaa_db st) ss now = Inr w" "s \<in> set ss" "load_policies (aaa_db st) = Inr ps" "asks_again st a clock s"
  shows "session_decision w ps (cfg_tz cfg) now s nas =
    decision_about cfg st (request_info a) (rs_auth_method s) nas (rs_username s) (station_of (aaa_db st) s) now clock"
proof -
  let ?d = "aaa_db st"
  have user: "map_option (\<lambda>i. (ui_enabled i, ui_group_name i)) (od_get (w_users w) (rs_username s)) =
      map_option (\<lambda>i. (ui_enabled i, ui_group_name i))
        (if rs_auth_method s \<noteq> u ''MAB'' \<and> rs_username s \<noteq> [] then map_option fst (load_user ?d (rs_username s)) else None)"
    using world_user [OF assms(1-3)] assms(5) by (auto simp: asks_again_def)
  have ev: "decide ps ctx (cfg_tz cfg) = evaluate ?d (cfg_tz cfg) ctx" for ctx using assms(4) by (simp add: evaluate_def)
  have verified: "\<not> (rs_auth_method s \<in> set PASSWORD_METHODS \<and>
      \<not> recently_verified (aaa_verified st) (verified_key_of (rs_username s) (request_info a)) clock)"
    using assms(5) by (auto simp: asks_again_def)
  have req: "ri_mac (request_info a) = none_if_empty (rs_mac_address s)" "ri_nas_ip (request_info a) = rs_nas_ip s"
    "ri_ssid (request_info a) = none_if_empty (rs_ssid s)" using assms(5) by (simp_all add: asks_again_def)
  have "rs_mac_address s \<noteq> [] \<Longrightarrow> od_get (w_devices w) (rs_mac_address s) = find (\<lambda>v. dev_mac_address v = rs_mac_address s) (devices ?d)"
    "rs_mac_address s \<noteq> [] \<Longrightarrow> (rs_mac_address s \<in> set (w_guests w)) = guest_active ?d (rs_mac_address s) now"
    by (rule world_device [OF assms(1-3)] world_guest [OF assms(2,3)], assumption)+
  then show ?thesis
    unfolding session_decision_def decision_about_def Let_def ev req if_not_P [OF verified] subject_context_user [OF user]
    by (cases "rs_mac_address s = []") (simp_all add: none_if_empty_def station_of_def)
qed

lemma authorize_about:
  assumes "asks_again st a clock s" "station_known (aaa_db st) s" "find_nas (aaa_db st) (rs_nas_ip s) = Inr (Some nas)" "nas_enabled nas"
  shows "snd (authorize cfg st a now clock) =
    decision_about cfg st (request_info a) (rs_auth_method s) nas (rs_username s) (station_of (aaa_db st) s) now clock"
proof -
  have m: "ri_method (request_info a) = Some (rs_auth_method s)" and ip: "ri_nas_ip (request_info a) = rs_nas_ip s"
    and name: "(if rs_auth_method s = u ''MAB'' then [] else identity_of a (rs_auth_method s)) = rs_username s"
    using assms(1) by (auto simp: asks_again_def)
  have mab: "\<not> (rs_auth_method s = u ''MAB'' \<and>
      (ri_mac (request_info a) = None \<or> normalize_mac (attrs_get a (u ''User-Name'')) \<noteq> ri_mac (request_info a)))"
    using assms(1) by (auto simp: asks_again_def none_if_empty_def)
  have "snd (authorize cfg st a now clock) =
      snd (snd (decide_request cfg st a (request_info a) (Some nas) (rs_username s) now clock))"
    using authorize_answer [OF m, of st "Some nas" cfg now clock] assms(3) unfolding ip name by blast
  also have "\<dots> = decision_about cfg st (request_info a) (rs_auth_method s) nas (rs_username s) (station_of (aaa_db st) s) now clock"
    by (rule decide_request_answer [OF m assms(4) mab station_of_view [OF assms(1,2)]])
  finally show ?thesis .
qed

lemma reeval_targets_mem:
  assumes "reeval_targets w ps tz now ss = Inr (n, ts)" "distinct ss" "s \<in> set ss"
  shows "(s, nas) \<in> set ts \<longleftrightarrow> rs_auth_method s \<in> set AUTH_METHODS \<and> nd_find (w_nas w) (rs_nas_ip s) = Some nas \<and>
    (\<exists>dcn. session_decision w ps tz now s nas = Inr dcn \<and> decision_changed dcn (rs_decision_digest s))"
proof -
  have sub: "fst ` set ts \<subseteq> set ss" if "reeval_targets w ps tz now ss = Inr (n, ts)" for ss n ts
    using that by (induction ss arbitrary: n ts) (fastforce simp: rbind_eq_Inr split: option.splits if_splits)+
  show ?thesis
    using assms
  proof (induction ss arbitrary: n ts)
    case (Cons x ss)
    show ?case
    proof (cases "if rs_auth_method x \<in> set AUTH_METHODS then nd_find (w_nas w) (rs_nas_ip x) else None")
      case None
      with Cons.prems(1) have r: "reeval_targets w ps tz now ss = Inr (n, ts)" by simp
      show ?thesis
      proof (cases "s = x")
        case True
        with sub [OF r] Cons.prems(2) None show ?thesis by (force split: if_splits)
      qed (use Cons r in auto)
    next
      case (Some m)
      with Cons.prems(1) obtain dcn k us where r: "session_decision w ps tz now x m = Inr dcn" "reeval_targets w ps tz now ss = Inr (k, us)"
        "ts = (if decision_changed dcn (rs_decision_digest x) then (x, m) # us else us)"
        by (auto simp: rbind_eq_Inr)
      show ?thesis
      proof (cases "s = x")
        case True
        with sub [OF r(2)] Cons.prems(2) have "(s, nas) \<notin> set us" by force
        with True r Some show ?thesis by (auto split: if_splits)
      qed (use Cons r in auto)
    qed
  qed simp
qed

text \<open>C32. A session of an enabled client is disconnected exactly when \<open>authorize\<close>, asked now with what the
  session's own accounting says, would not give the decision the NAS was told - it would reject, or
  accept with another digest: the bulk evaluation looks up users, devices, guests and clients as the
  live path does.  The conditions are those where the two paths can be compared: the policies load, the
  request passes the live checks a session cannot fail (\<open>asks_again\<close>), the station is still in the
  inventory and the client is enabled.\<close>

theorem reevaluate_agrees_with_live:
  assumes "reevaluate env (aaa_db st) now reasons = Inr (summary, sent)" "load_policies (aaa_db st) = Inr ps" "keys_ok (aaa_db st)"
    "distinct (radius_sessions (aaa_db st))" "s \<in> set (radius_sessions (aaa_db st))" "rs_decision_digest s \<noteq> []"
    "rs_nas_ip s \<noteq> [] \<and> 47 \<notin> set (rs_nas_ip s)" "find_nas (aaa_db st) (rs_nas_ip s) = Inr (Some nas)" "nas_enabled nas"
    "asks_again st a clock s" "station_known (aaa_db st) s" "cfg_tz cfg = re_tz env"
  shows "((\<exists>n r. ((s, n), r) \<in> set sent) \<longleftrightarrow>
      (\<exists>dcn. snd (authorize cfg st a now clock) = Inr dcn \<and> (\<not> accepted dcn \<or> digest dcn \<noteq> rs_decision_digest s))) \<and>
    (\<forall>n r. ((s, n), r) \<in> set sent \<longrightarrow> n = nas)"
proof -
  let ?d = "aaa_db st"
  let ?ss = "filter (\<lambda>s. rs_decision_digest s \<noteq> []) (radius_sessions ?d)"
  have s: "s \<in> set ?ss" "distinct ?ss" using assms(4-6) by simp_all
  then have "?ss \<noteq> []" by (metis empty_iff list.set(1))
  with assms(1,2) obtain w n ts rs where w: "load_world ?d ?ss now = Inr w" and ts: "reeval_targets w ps (re_tz env) now ?ss = Inr (n, ts)"
    and rs: "rmap (\<lambda>(s, nas). send_disconnect env now s nas) ts = Inr rs" "sent = zip ts rs"
    by (auto simp: reevaluate_def Let_def rbind_eq_Inr)
  have sent: "(\<exists>r. ((s, n), r) \<in> set sent) \<longleftrightarrow> (s, n) \<in> set ts" for n
    using rmap_Inr_length [OF rs(1)] unfolding rs(2)
    by (metis in_set_impl_in_set_zip1 in_set_zipE)
  have find: "nd_find (w_nas w) (rs_nas_ip s) = Some n \<longleftrightarrow> n = nas" for n
    using nd_find_agrees [OF load_world_fields(1) [OF w]] assms(3,7,8) by (auto simp: keys_ok_def)
  have known_method: "rs_auth_method s \<in> set AUTH_METHODS"
    using assms(10) by (auto simp: asks_again_def request_info_def Let_def split: option.splits if_splits)
  have "session_decision w ps (re_tz env) now s nas = snd (authorize cfg st a now clock)"
    using session_decision_live [OF assms(3) w s(1) assms(2,10), of cfg nas] authorize_about [OF assms(10,11,8,9), of cfg now] assms(12) by simp
  note same = this
  have "(s, n) \<in> set ts \<longleftrightarrow> n = nas \<and>
      (\<exists>dcn. snd (authorize cfg st a now clock) = Inr dcn \<and> decision_changed dcn (rs_decision_digest s))" for n
    unfolding same [symmetric] using reeval_targets_mem [OF ts s(2,1), of n] find known_method by auto
  with sent show ?thesis by (auto simp: decision_changed_def)
qed

section \<open>Names do not matter\<close>

definition rename_policy :: "(Policy \<Rightarrow> pystr) \<Rightarrow> (Policy \<Rightarrow> pystr) \<Rightarrow> Policy \<Rightarrow> Policy" where
  "rename_policy name description p = p\<lparr>pol_name := name p, pol_description := description p\<rparr>"

lemma sort_key_map: "sort_key f (map g xs) = map g (sort_key (f \<circ> g) xs)"
proof (induction xs)
  case (Cons x xs)
  have "insort_key f (g x) (map g ys) = map g (insort_key (f \<circ> g) x ys)" for ys by (induction ys) auto
  with Cons show ?case by (simp add: comp_def)
qed simp

lemma policy_rows_renamed:
  "policy_rows (d\<lparr>policies := map (rename_policy n e) (policies d)\<rparr>) = map (rename_policy n e) (policy_rows d)"
proof -
  have "policy_order \<circ> rename_policy n e = policy_order" "pol_enabled \<circ> rename_policy n e = pol_enabled"
    by (auto simp: policy_order_def rename_policy_def)
  then show ?thesis by (simp add: policy_rows_def filter_map sort_key_map)
qed

text \<open>Compiled policies and decisions up to names.\<close>

definition same_policy :: "CompiledPolicy \<Rightarrow> CompiledPolicy \<Rightarrow> bool" where
  "same_policy p q \<longleftrightarrow> cp_action p = cp_action q \<and> cp_vlan p = cp_vlan q \<and> cp_reply_attributes p = cp_reply_attributes q \<and>
     cp_conditions p = cp_conditions q"

definition effect :: "Decision \<Rightarrow> PolicyAction \<times> int option \<times> (pystr \<times> json) list" where
  "effect dcn = (dec_action dcn, dec_vlan dcn, dec_reply_attributes dcn)"

lemma decision_changed_effect: "effect a = effect b \<Longrightarrow> decision_changed a dig \<longleftrightarrow> decision_changed b dig"
  by (simp add: decision_changed_def effect_def accepted_def digest_def digest_doc_def)

lemma load_policies_renamed:
  "rel_sum (\<lambda>_ _. True) (list_all2 same_policy) (load_policies d) (load_policies (d\<lparr>policies := map (rename_policy n e) (policies d)\<rparr>))"
proof -
  have one: "rel_sum (\<lambda>_ _. True) same_policy (compile_policy p) (compile_policy (rename_policy n e p))" for p
    by (auto simp: compile_policy_def rename_policy_def same_policy_def split: sum.splits option.splits)
  have "rel_sum (\<lambda>_ _. True) (list_all2 same_policy) (rmap compile_policy ps) (rmap compile_policy (map (rename_policy n e) ps))" for ps
  proof (induction ps)
    case (Cons p ps)
    from one [of p] Cons show ?case
      by (cases "compile_policy p"; cases "compile_policy (rename_policy n e p)"; cases "rmap compile_policy ps";
          cases "rmap compile_policy (map (rename_policy n e) ps)") auto
  qed simp
  then show ?thesis by (simp add: load_policies_def policy_rows_renamed)
qed

lemma decide_same:
  "list_all2 same_policy ps qs \<Longrightarrow> rel_sum (=) (\<lambda>a b. effect a = effect b) (decide ps ctx tz) (decide qs ctx tz)"
proof (induction rule: list_all2_induct)
  case (Cons p ps q qs)
  then have "policy_matches q ctx tz = policy_matches p ctx tz" "effect (policy_verdict p) = effect (policy_verdict q)"
    by (auto simp: same_policy_def policy_matches_def policy_verdict_def effect_def deny_def)
  with Cons show ?case by (cases "policy_matches p ctx tz") auto
qed simp

lemma session_decision_same:
  "list_all2 same_policy ps qs \<Longrightarrow>
    rel_sum (=) (\<lambda>a b. effect a = effect b) (session_decision w ps tz now s nas) (session_decision w qs tz now s nas)"
  by (auto simp: session_decision_def Let_def decide_same split: sum.splits)

lemma reeval_targets_same: "list_all2 same_policy ps qs \<Longrightarrow> reeval_targets w ps tz now ss = reeval_targets w qs tz now ss"
proof (induction ss)
  case (Cons s ss)
  have "rbind (session_decision w ps tz now s nas) (\<lambda>dcn. rbind R (\<lambda>(c, ts). Inr (Suc c, if decision_changed dcn dig then (s, nas) # ts else ts))) =
      rbind (session_decision w qs tz now s nas) (\<lambda>dcn. rbind R (\<lambda>(c, ts). Inr (Suc c, if decision_changed dcn dig then (s, nas) # ts else ts)))"
    for nas R dig
    using session_decision_same [OF Cons.prems, of w tz now s nas]
  proof (cases rule: rel_sum.cases)
    case (2 a b)
    from decision_changed_effect [OF 2(3), of dig] show ?thesis by (simp add: 2)
  qed simp
  from this [of _ "reeval_targets w qs tz now ss" "rs_decision_digest s"] Cons.IH [OF Cons.prems] show ?case
    unfolding reeval_targets.simps by (cases "if rs_auth_method s \<in> set AUTH_METHODS then nd_find (w_nas w) (rs_nas_ip s) else None") simp_all
qed simp

text \<open>Renaming policies or editing their descriptions disconnects nobody: the re-evaluation does exactly
  what it does without the change.\<close>

theorem renaming_disconnects_nobody:
  "reevaluate env (d\<lparr>policies := map (rename_policy name description) (policies d)\<rparr>) now reasons = reevaluate env d now reasons"
proof -
  let ?d = "d\<lparr>policies := map (rename_policy name description) (policies d)\<rparr>"
  have w: "load_world ?d ss now = load_world d ss now" for ss
    by (simp add: load_world_def nas_directory_def group_by_id_def cong: option.case_cong)
  show ?thesis
  proof (cases "load_policies d")
    case (Inl e)
    with load_policies_renamed [of d name description] show ?thesis
      by (cases "load_policies ?d") (auto simp: reevaluate_def Let_def)
  next
    case (Inr ps)
    with load_policies_renamed [of d name description] obtain qs where qs: "load_policies ?d = Inr qs" "list_all2 same_policy ps qs"
      by (cases "load_policies ?d") auto
    from Inr qs(1) w reeval_targets_same [OF qs(2)] show ?thesis by (simp add: reevaluate_def Let_def)
  qed
qed

section \<open>No reason is lost\<close>

text \<open>The scheduler with what was scheduled so far and the runs so far; a run needs \<open>_wake\<close>.\<close>

inductive reev_reach :: "Reevaluator \<Rightarrow> pystr list \<Rightarrow> pystr list list \<Rightarrow> bool" where
  reev_init: "reev_reach Reevaluator_init [] []"
| reev_schedule: "reev_reach r given runs \<Longrightarrow> reev_reach (schedule r reason) (given @ [reason]) runs"
| reev_run: "reev_reach r given runs \<Longrightarrow> rv_wake r \<Longrightarrow> take_reasons r = (r', reasons) \<Longrightarrow> reev_reach r' given (runs @ [reasons])"

text \<open>Bursts of changes are coalesced without losing one: the runs so far and what is pending are
  exactly the reasons scheduled, in order, no run is for nothing, and the scheduler is awake
  whenever something is pending.\<close>

theorem reevaluator_coalesces:
  assumes "reev_reach r given runs"
  shows "concat runs @ rv_reasons r = given \<and> [] \<notin> set runs \<and> (rv_wake r \<longleftrightarrow> rv_reasons r \<noteq> [])"
  using assms by (induction rule: reev_reach.induct) (auto simp: Reevaluator_init_def schedule_def take_reasons_def)

theorem reevaluator_coalesces_witness:
  "\<exists>r. reev_reach r [u ''a'', u ''b''] [[u ''a'', u ''b'']] \<and> \<not> rv_wake r"
proof -
  let ?s = "schedule (schedule Reevaluator_init (u ''a'')) (u ''b'')"
  have "reev_reach ?s [u ''a'', u ''b''] []"
    using reev_schedule [OF reev_schedule [OF reev_init], of "u ''a''" "u ''b''"] by simp
  from reev_run [OF this, of "fst (take_reasons ?s)" "[u ''a'', u ''b'']"]
  have "reev_reach (fst (take_reasons ?s)) [u ''a'', u ''b''] [[u ''a'', u ''b'']]"
    by (simp add: schedule_def take_reasons_def Reevaluator_init_def)
  moreover from reevaluator_coalesces [OF this] have "\<not> rv_wake (fst (take_reasons ?s))" by simp
  ultimately show ?thesis by blast
qed

text \<open>A session of the lab over EAP-TLS whose user is gone, and its station asking again.\<close>

definition lab_session :: RadiusSession where
  "lab_session = (new_session empty_db (u ''10.0.0.7'') (u ''1'') 0 0)\<lparr>rs_auth_method := u ''EAP-TLS'', rs_username := u ''alice'', rs_decision_digest := u ''x''\<rparr>"

definition lab_reeval_state :: aaa_state where
  "lab_reeval_state = initial_aaa (empty_db\<lparr>nas_clients := [lab_ap], radius_sessions := [lab_session]\<rparr>)"

definition lab_tls_req :: attrs where
  "lab_tls_req = [(u ''naco-auth-method'', [u ''EAP-TLS'']), (u ''naco-nas-ip'', [u ''10.0.0.7'']), (u ''tls-client-cert-common-name'', [u ''alice''])]"

definition lab_reeval_env :: reeval_env where
  "lab_reeval_env = \<lparr>re_tz = (\<lambda>_. 0), re_net = (\<lambda>_. \<lparr>net_open = Some (u ''unreachable''), net_window = (\<lambda>_. [])\<rparr>), re_random = (\<lambda>_. 7), re_retries = 3\<rparr>"

lemma lab_reeval_facts:
  "load_policies (aaa_db lab_reeval_state) = Inr []" "keys_ok (aaa_db lab_reeval_state)" "station_known (aaa_db lab_reeval_state) lab_session"
  "rs_nas_ip lab_session = u ''10.0.0.7''" "rs_decision_digest lab_session = u ''x''" "rs_auth_method lab_session = u ''EAP-TLS''"
  "find_nas (aaa_db lab_reeval_state) (u ''10.0.0.7'') = Inr (Some lab_ap)" "radius_sessions (aaa_db lab_reeval_state) = [lab_session]"
  "nas_enabled lab_ap" "cfg_tz lab_cfg = re_tz lab_reeval_env"
  by (simp_all add: load_policies_def policy_rows_def lab_reeval_state_def initial_aaa_def empty_db_def keys_ok_def station_known_def
      lab_session_def new_session_def find_nas_def lab_ap_def lab_nas_def lab_cfg_def lab_reeval_env_def)

lemma lab_tls_attrs:
  "attrs_get lab_tls_req (u ''NACo-Auth-Method'') = Some (u ''EAP-TLS'')" "attrs_get lab_tls_req (u ''NACo-NAS-IP'') = Some (u ''10.0.0.7'')"
  "attrs_get lab_tls_req (u ''TLS-Client-Cert-Common-Name'') = Some (u ''alice'')" "attrs_get lab_tls_req (u ''Calling-Station-Id'') = None"
  "attrs_get lab_tls_req (u ''Called-Station-Id'') = None" "attrs_all lab_tls_req (u ''Cisco-AVPair'') = []"
proof -
  have "lower (u ''TLS-Client-Cert-Common-Name'') = u ''tls-client-cert-common-name''" by (simp add: lower_def lower_char_def u_def)
  then show "attrs_get lab_tls_req (u ''NACo-Auth-Method'') = Some (u ''EAP-TLS'')" "attrs_get lab_tls_req (u ''NACo-NAS-IP'') = Some (u ''10.0.0.7'')"
    "attrs_get lab_tls_req (u ''TLS-Client-Cert-Common-Name'') = Some (u ''alice'')" "attrs_get lab_tls_req (u ''Calling-Station-Id'') = None"
    "attrs_get lab_tls_req (u ''Called-Station-Id'') = None" "attrs_all lab_tls_req (u ''Cisco-AVPair'') = []"
    by (simp_all add: attrs_get_def attrs_all_def lab_names lab_tls_req_def od_get_def)
qed

lemma lab_tls_info: "request_info lab_tls_req =
    \<lparr>ri_method = Some (u ''EAP-TLS''), ri_nas_ip = u ''10.0.0.7'', ri_mac = None, ri_ssid = None, ri_calling_station = []\<rparr>"
proof -
  have "list_all (\<lambda>n. lower n \<notin> {u ''naco-auth-method'', u ''naco-nas-ip'', u ''tls-client-cert-common-name''}) SSID_ATTRIBUTES"
    by (simp add: SSID_ATTRIBUTES_def lower_def lower_char_def u_def)
  then have "map (\<lambda>n. strip (opt_text (attrs_get lab_tls_req n))) SSID_ATTRIBUTES = map (\<lambda>_. []) SSID_ATTRIBUTES"
    by (intro map_cong) (auto simp: list_all_iff attrs_get_def lab_tls_req_def od_get_def opt_text_def strip_def lstrip_def rstrip_def)
  then have "find (\<lambda>v. v \<noteq> []) (map (\<lambda>n. strip (opt_text (attrs_get lab_tls_req n))) SSID_ATTRIBUTES) = None"
    by (simp add: find_None_iff)
  then have "request_ssid lab_tls_req = None"
    by (simp add: request_ssid_def lab_tls_attrs parse_called_station_def)
  then show ?thesis
    by (simp add: request_info_def lab_tls_attrs lab_ip opt_text_def AUTH_METHODS_def normalize_mac_def)
qed

lemma lab_asks_again: "asks_again lab_reeval_state lab_tls_req 0 lab_session"
  by (simp add: asks_again_def lab_tls_info identity_of_def lab_tls_attrs canonical_alice PASSWORD_METHODS_def)
    (simp add: lab_session_def new_session_def none_if_empty_def)

lemma lab_live: "\<exists>dcn. snd (authorize lab_cfg lab_reeval_state lab_tls_req 0 0) = Inr dcn \<and> \<not> accepted dcn"
proof -
  have "load_user (aaa_db lab_reeval_state) n = None" for n by (simp add: load_user_def lab_reeval_state_def initial_aaa_def empty_db_def)
  then show ?thesis
    using lab_reeval_facts(7,9)
    by (simp add: authorize_def lab_tls_info opt_text_def decide_request_def subject_context_def deny_not_accepted Let_def
        split: prod.splits sum.splits)
qed

lemma lab_reeval: "\<exists>summary sent. reevaluate lab_reeval_env (aaa_db lab_reeval_state) 0 [] = Inr (summary, sent)"
proof -
  let ?d = "aaa_db lab_reeval_state"
  have nd: "nas_directory ?d = Inr \<lparr>nd_exact = [(u ''10.0.0.7'', lab_ap)], nd_networks = []\<rparr>"
    by (simp add: nas_directory_def NasDirectory_init_def is_network_def lab_reeval_state_def initial_aaa_def lab_ap_def lab_nas_def
        narrowest_first_def od_index_def u_def)
  then obtain w where w: "load_world ?d [lab_session] 0 = Inr w" by (auto simp: load_world_def Let_def)
  have nas: "nd_find (w_nas w) (u ''10.0.0.7'') = Some lab_ap"
    using load_world_fields(1) [OF w] nd by (auto simp: nd_find_def od_get_def dest!: sym [of _ "w_nas w"])
  have "session_decision w [] (cfg_tz lab_cfg) 0 lab_session lab_ap = snd (authorize lab_cfg lab_reeval_state lab_tls_req 0 0)"
    using session_decision_live [OF lab_reeval_facts(2) w _ lab_reeval_facts(1) lab_asks_again, of lab_cfg lab_ap]
      authorize_about [OF lab_asks_again lab_reeval_facts(3), of lab_ap lab_cfg 0] lab_reeval_facts(4,7,9) by simp
  with lab_live obtain dcn where dcn: "session_decision w [] (re_tz lab_reeval_env) 0 lab_session lab_ap = Inr dcn" "\<not> accepted dcn"
    using lab_reeval_facts(10) by auto
  have sd: "\<exists>r. send_disconnect lab_reeval_env 0 lab_session lab_ap = Inr r"
  proof (cases "ip_address (u ''10.0.0.7'')")
    case None
    then show ?thesis by (simp add: send_disconnect_def disconnect_def lab_reeval_facts)
  next
    case (Some ip)
    then show ?thesis
      by (simp add: send_disconnect_def disconnect_def lab_reeval_facts)
        (simp add: lab_reeval_env_def build_disconnect_def vendor_def VENDORS_def Vendor_of_def session_ids_def lab_session_def new_session_def
          lab_ap_def lab_nas_def session_identity_def identity_attr_def encode_text_def is_surrogate_def u_def struct_pack_def pack_int_def Let_def)
  qed
  then obtain r where "send_disconnect lab_reeval_env 0 lab_session lab_ap = Inr r" by blast
  with dcn show ?thesis by (simp add: reevaluate_def lab_reeval_facts w nas Let_def AUTH_METHODS_def decision_changed_def)
qed

theorem reevaluate_agrees_with_live_witness:
  "\<exists>summary sent r. reevaluate lab_reeval_env (aaa_db lab_reeval_state) 0 [] = Inr (summary, sent) \<and> ((lab_session, lab_ap), r) \<in> set sent"
proof -
  obtain summary sent where r: "reevaluate lab_reeval_env (aaa_db lab_reeval_state) 0 [] = Inr (summary, sent)" using lab_reeval by blast
  have "rs_nas_ip lab_session \<noteq> [] \<and> 47 \<notin> set (rs_nas_ip lab_session)" "rs_decision_digest lab_session \<noteq> []"
    by (simp_all add: lab_reeval_facts, simp_all add: u_def)
  with reevaluate_agrees_with_live [OF r lab_reeval_facts(1,2) _ _ _ _ _ lab_reeval_facts(9) lab_asks_again lab_reeval_facts(3,10)]
  have "\<exists>n r. ((lab_session, n), r) \<in> set sent" "\<forall>n r. ((lab_session, n), r) \<in> set sent \<longrightarrow> n = lab_ap"
    using lab_live lab_reeval_facts by auto
  with r show ?thesis by blast
qed

end
