(* ===== verification/AuditTrail.thy ===== *)
theory AuditTrail
  imports AdminSessions Reevaluate GuessDelay
begin

text \<open>
  The state of the administration API and its audit trail: \<open>naco/api/audit.py\<close> and the helpers of
  \<open>naco/api/common.py\<close>.  The state is the database, the sign-in throttles of \<open>naco/api/routes/auth.py\<close>,
  the re-evaluation queue and the audit rows announced on the event bus.  A route gives its result with the state; when it
  raises, only what was committed stays.
\<close>

record api_state =
  ap_db :: db
  ap_guesses :: GuessGuard
  ap_per_ip :: "SlidingWindow option"
  ap_reeval :: Reevaluator
  ap_announced :: "AuditLog list"

type_synonym 'a route = "(api_exc + 'a) \<times> api_state"

definition MASK :: json where
  "MASK = JStr (u ''***'')"

definition dict_get :: "(pystr \<times> json) list \<Rightarrow> pystr \<Rightarrow> json" where
  "dict_get d key = (case map_of d key of None \<Rightarrow> JNull | Some v \<Rightarrow> v)"

definition diff :: "(pystr \<times> json) list \<Rightarrow> (pystr \<times> json) list \<Rightarrow> pystr list \<Rightarrow> (pystr \<times> json) list" where
  "diff before after secret_fields =
     map (\<lambda>key. (key, if key \<in> set secret_fields then JArr [MASK, MASK] else JArr [dict_get before key, dict_get after key]))
       (filter (\<lambda>key. dict_get before key \<noteq> dict_get after key) (sort (remdups (map fst before @ map fst after))))"

text \<open>\<open>write\<close>: the row, cut to the widths of its columns.\<close>

definition audit_row :: "db \<Rightarrow> pystr \<Rightarrow> ActorType \<Rightarrow> pystr \<Rightarrow> pystr \<Rightarrow> pystr \<Rightarrow> pystr \<Rightarrow> pystr \<Rightarrow> (pystr \<times> json) list \<Rightarrow> int \<Rightarrow> AuditLog" where
  "audit_row d actor actor_type ip action target_type target_id target_name changes now =
     \<lparr>aud_id = next_id aud_id (audit_logs d), aud_timestamp = now, aud_actor = take 64 actor, aud_actor_type = actor_type,
      aud_ip = take 45 ip, aud_action = take 64 action, aud_target_type = take 32 target_type, aud_target_id = take 64 target_id,
      aud_target_name = take 128 target_name, aud_changes = JObj changes\<rparr>"

definition audit_add :: "AuditLog \<Rightarrow> db \<Rightarrow> db" where
  "audit_add row d = d\<lparr>audit_logs := audit_logs d @ [row]\<rparr>"

text \<open>\<open>AuditTrail.record\<close>, with the announcement that \<open>audit_trail\<close> makes once the row is committed.\<close>

definition trail_row :: "Principal \<Rightarrow> db \<Rightarrow> pystr \<Rightarrow> pystr \<Rightarrow> pystr \<Rightarrow> pystr \<Rightarrow> (pystr \<times> json) list \<Rightarrow> int \<Rightarrow> AuditLog" where
  "trail_row p d action target_type target_id target_name changes now =
     audit_row d (pr_username p) (if pr_kind p = Token_Kind then TOKEN else ADMIN) (pr_ip p) action target_type target_id
       target_name changes now"

text \<open>Commit a changed database together with its audit row.\<close>

definition commit_with :: "AuditLog \<Rightarrow> db \<Rightarrow> api_state \<Rightarrow> api_state" where
  "commit_with row d st = st\<lparr>ap_db := audit_add row d, ap_announced := ap_announced st @ [row]\<rparr>"

definition reevaluate_later :: "pystr \<Rightarrow> api_state \<Rightarrow> api_state" where
  "reevaluate_later reason st = st\<lparr>ap_reeval := schedule (ap_reeval st) reason\<rparr>"

section \<open>Helpers of the routes\<close>

definition get_or_404 :: "('a \<Rightarrow> nat) \<Rightarrow> 'a list \<Rightarrow> nat \<Rightarrow> pystr \<Rightarrow> api_exc + 'a" where
  "get_or_404 key rows ident what =
     (case row_get key rows ident of None \<Rightarrow> Inl (api_error 404 (what @ u '' not found'')) | Some x \<Rightarrow> Inr x)"

definition like :: "pystr \<Rightarrow> pystr" where
  "like term = [37] @ concat (map (\<lambda>c. if c \<in> {92, 37, 95} then [92, c] else [c]) term) @ [37]"

definition fetch_page :: "nat \<Rightarrow> nat \<Rightarrow> 'a list \<Rightarrow> 'a list \<times> nat" where
  "fetch_page page per_page rows = (take per_page (drop ((page - 1) * per_page) rows), length rows)"

text \<open>A route behind \<open>require(role)\<close>.\<close>

definition with_gate :: "SecurityConfig \<Rightarrow> AdminRole \<Rightarrow> bool \<Rightarrow> web_request \<Rightarrow> int \<Rightarrow> (Principal \<Rightarrow> api_state \<Rightarrow> 'a route) \<Rightarrow> api_state \<Rightarrow> 'a route" where
  "with_gate cfg role setup_allowed req now body st =
     (case gate cfg role setup_allowed req (ap_db st) now of
        (Inl e, d) \<Rightarrow> (Inl e, st\<lparr>ap_db := d\<rparr>)
      | (Inr p, d) \<Rightarrow> body p (st\<lparr>ap_db := d\<rparr>))"

end
