(* ===== verification/AdminAuth.thy ===== *)
theory AdminAuth
  imports AuditTrail
begin

text \<open>
  Sign-in and account setup: \<open>naco/api/totp.py\<close> and \<open>naco/api/routes/auth.py\<close>.  \<open>pyotp\<close> is not part of
  the sources: the one-time password of a secret and a time step is the parameter \<open>ev_otp\<close>, a text of ASCII
  digits.  The random values a route draws are in its environment.  A route that ends its transaction before a
  password check (\<open>release\<close>) sees afterwards what other requests committed meanwhile: \<open>ev_meanwhile k\<close> is what
  happens at its k-th such point.  The provisioning URI and its QR code are functions of \<open>pyotp\<close> and
  \<open>qrcode\<close> and left out, as are the cookie's attributes and the \<open>Retry-After\<close> header.
\<close>

section \<open>One-time passwords\<close>

record api_env =
  ev_bcrypt :: bcrypt_lib
  ev_otp :: "pystr \<Rightarrow> int \<Rightarrow> pystr"
  ev_tokens :: "pystr \<times> pystr"
  ev_totp_secret :: pystr
  ev_choice :: "nat \<Rightarrow> nat"
  ev_meanwhile :: "nat \<Rightarrow> api_state \<Rightarrow> api_state"

text \<open>\<open>str.isdigit\<close> as of Unicode 14: the blocks of ten decimal digits and the other characters.\<close>

definition digit_blocks :: "nat list" where
  "digit_blocks =
     [
      48, 1632, 1776, 1984, 2406, 2534, 2662, 2790, 2918, 3046, 3174, 3302, 3430, 3558, 3664, 3792, 3872, 4160, 4240,
      6112, 6160, 6470, 6784, 6800, 6992, 7088, 7232, 7248, 8320, 42528, 43216, 43264, 43472, 43504, 43600, 44016,
      65296, 66720, 68912, 69734, 69872, 69942, 70096, 70384, 70736, 70864, 71248, 71360, 71472, 71904, 72016, 72784,
      73040, 73120, 92768, 92864, 93008, 123200, 123632, 125264, 130032]"

definition digit_ranges :: "(nat \<times> nat) list" where
  "digit_ranges =
     [
      (178, 179), (185, 185), (4969, 4977), (6608, 6618), (8304, 8304), (8308, 8313), (9312, 9320), (9332, 9340),
      (9352, 9360), (9450, 9450), (9461, 9469), (9471, 9471), (10102, 10110), (10112, 10120), (10122, 10130),
      (68160, 68163), (69216, 69224), (69714, 69722), (120782, 120831), (127232, 127242)]"

definition isdigit :: "pystr \<Rightarrow> bool" where
  "isdigit s \<longleftrightarrow> s \<noteq> [] \<and> list_all (\<lambda>c. list_ex (\<lambda>z. z \<le> c \<and> c \<le> z + 9) digit_blocks \<or>
     list_ex (\<lambda>(a, b). a \<le> c \<and> c \<le> b) digit_ranges) s"

definition STEP :: int where
  "STEP = 30 * second"

definition RECOVERY_CODES :: nat where
  "RECOVERY_CODES = 10"

definition current_step :: "int \<Rightarrow> int" where
  "current_step now = now div STEP"

text \<open>The loop of \<open>match\<close>; \<open>hmac.compare_digest\<close> refuses text that is not ASCII.\<close>

fun match_steps :: "(pystr \<Rightarrow> int \<Rightarrow> pystr) \<Rightarrow> pystr \<Rightarrow> pystr \<Rightarrow> int option \<Rightarrow> int list \<Rightarrow> py_exc + int option" where
  "match_steps otp secret code last_step [] = Inr None"
| "match_steps otp secret code last_step (candidate # rest) =
     (if (case last_step of None \<Rightarrow> False | Some l \<Rightarrow> candidate \<le> l) then match_steps otp secret code last_step rest
      else if \<not> list_all (\<lambda>c. c < 128) code then Inl TypeError
      else if otp secret candidate = code then Inr (Some candidate)
      else match_steps otp secret code last_step rest)"

definition totp_match :: "(pystr \<Rightarrow> int \<Rightarrow> pystr) \<Rightarrow> pystr \<Rightarrow> pystr \<Rightarrow> int option \<Rightarrow> int \<Rightarrow> py_exc + int option" where
  "totp_match otp secret code last_step now =
     (let code = filter (\<lambda>c. c \<noteq> 32) (strip code)
      in if length code \<noteq> 6 \<or> \<not> isdigit code then Inr None
         else (let step = current_step now in match_steps otp secret code last_step [step - 1, step, step + 1]))"

definition code_alphabet :: pystr where
  "code_alphabet = u ''abcdefghjkmnpqrstuvwxyz23456789''"

text \<open>\<open>secrets.choice\<close> number \<open>k\<close> takes the letter at \<open>ev_choice k\<close>.\<close>

definition new_recovery_codes :: "(nat \<Rightarrow> nat) \<Rightarrow> pystr list" where
  "new_recovery_codes choice =
     (let letter = (\<lambda>k. code_alphabet ! (choice k mod length code_alphabet))
      in map (\<lambda>i. map (\<lambda>j. letter (8 * i + j)) [0..<4] @ [45] @ map (\<lambda>j. letter (8 * i + j)) [4..<8]) [0..<RECOVERY_CODES])"

definition looks_like_recovery_code :: "pystr \<Rightarrow> bool" where
  "looks_like_recovery_code code =
     (let code = lower (strip code) in length code = 9 \<and> code ! 4 = 45)"

section \<open>Signing in\<close>

definition ip_window :: "SecurityConfig \<Rightarrow> api_state \<Rightarrow> SlidingWindow" where
  "ip_window cfg st =
     (case ap_per_ip st of
        None \<Rightarrow> SlidingWindow_init (sc_login_max_attempts cfg) (int (sc_login_window_seconds cfg) * second) 50000
      | Some w \<Rightarrow> w)"

definition reset_throttles :: "api_state \<Rightarrow> api_state" where
  "reset_throttles st = st\<lparr>ap_per_ip := None, ap_guesses := gg_clear (ap_guesses st)\<rparr>"

record Me =
  me_username :: pystr
  me_role :: AdminRole
  me_restricted :: "pystr option"
  me_totp_enabled :: bool
  me_csrf_token :: pystr

definition me_of :: "SecurityConfig \<Rightarrow> AdminUser \<Rightarrow> pystr \<Rightarrow> Me" where
  "me_of cfg admin csrf =
     \<lparr>me_username = au_username admin, me_role = au_role admin, me_restricted = restriction cfg admin,
      me_totp_enabled = truthy (au_totp_secret admin), me_csrf_token = csrf\<rparr>"

definition own_admin :: "db \<Rightarrow> Principal \<Rightarrow> api_exc + AdminUser" where
  "own_admin d p =
     (case (pr_kind p, pr_admin_id p) of
        (Session_Kind, Some i) \<Rightarrow>
          (case row_get au_id (admin_users d) i of None \<Rightarrow> Inl (api_error 401 (u ''not signed in'')) | Some admin \<Rightarrow> Inr admin)
      | _ \<Rightarrow> Inl (api_error 403 (u ''not available to API tokens'')))"

text \<open>\<open>db.refresh(admin)\<close>.\<close>

definition refresh_admin :: "api_state \<Rightarrow> nat \<Rightarrow> api_exc + AdminUser" where
  "refresh_admin st i = (case row_get au_id (admin_users (ap_db st)) i of None \<Rightarrow> Inl RowGone | Some admin \<Rightarrow> Inr admin)"

definition set_admin :: "nat \<Rightarrow> (AdminUser \<Rightarrow> AdminUser) \<Rightarrow> int \<Rightarrow> db \<Rightarrow> db" where
  "set_admin i f now d = d\<lparr>admin_users := row_update au_id i (\<lambda>x. (f x)\<lparr>au_updated_at := now\<rparr>) (admin_users d)\<rparr>"

fun first_verified :: "bcrypt_lib \<Rightarrow> pystr \<Rightarrow> pystr list \<Rightarrow> py_exc + pystr option" where
  "first_verified bc code [] = Inr None"
| "first_verified bc code (hashed # rest) =
     rbind (verify_password bc code (Some hashed)) (\<lambda>ok. if ok then Inr (Some hashed) else first_verified bc code rest)"

text \<open>\<open>_second_factor\<close>: \<open>None\<close> refuses the code, else the factor that it used up and that is to be committed
  with the sign-in.\<close>

datatype factor = Not_Enrolled | Totp_Step int | Recovery_Hash pystr

fun spend :: "factor \<Rightarrow> AdminUser \<Rightarrow> AdminUser" where
  "spend Not_Enrolled admin = admin"
| "spend (Totp_Step step) admin = admin\<lparr>au_totp_last_step := Some step\<rparr>"
| "spend (Recovery_Hash used) admin = admin\<lparr>au_recovery_codes := filter (\<lambda>h. h \<noteq> used) (au_recovery_codes admin)\<rparr>"

definition use_recovery_code :: "api_env \<Rightarrow> nat \<Rightarrow> pystr list \<Rightarrow> pystr \<Rightarrow> api_state \<Rightarrow> factor option route" where
  "use_recovery_code env i candidates code st =
     (case first_verified (ev_bcrypt env) (lower (strip code)) candidates of
        Inl e \<Rightarrow> (Inl (PyRaised e), st)
      | Inr None \<Rightarrow> (Inr None, st)
      | Inr (Some used) \<Rightarrow>
          (case refresh_admin st i of
             Inl e \<Rightarrow> (Inl e, st)
           | Inr admin \<Rightarrow> (Inr (if used \<notin> set (au_recovery_codes admin) then None else Some (Recovery_Hash used)), st)))"

definition second_factor :: "api_env \<Rightarrow> nat \<Rightarrow> pystr \<Rightarrow> int \<Rightarrow> api_state \<Rightarrow> factor option route" where
  "second_factor env i code now st =
     (case refresh_admin st i of
        Inl e \<Rightarrow> (Inl e, st)
      | Inr admin \<Rightarrow>
          if \<not> au_enabled admin \<or> \<not> truthy (au_totp_secret admin) then
            (Inr (if \<not> truthy (au_totp_secret admin) \<and> au_enabled admin then Some Not_Enrolled else None), st)
          else
            (case totp_match (ev_otp env) (after_sep (au_totp_secret admin)) code (au_totp_last_step admin) now of
               Inl e \<Rightarrow> (Inl (PyRaised e), st)
             | Inr (Some step) \<Rightarrow> (Inr (Some (Totp_Step step)), st)
             | Inr None \<Rightarrow>
                 if \<not> looks_like_recovery_code code then (Inr None, st)
                 else use_recovery_code env i (au_recovery_codes admin) code (ev_meanwhile env 1 st)))"

record LoginIn =
  li_username :: pystr
  li_password :: pystr
  li_totp_code :: pystr

definition em_dash :: pystr where
  "em_dash = u '' '' @ [0x2014] @ u '' ''"

definition ceil_seconds :: "int \<Rightarrow> int" where
  "ceil_seconds wait = - (- wait div second)"

text \<open>The failed end of a sign-in: the guess is counted, the attempt audited and committed.\<close>

definition login_failed :: "api_state \<Rightarrow> pystr \<Rightarrow> pystr \<Rightarrow> bool \<Rightarrow> int \<Rightarrow> 'a route" where
  "login_failed st name ip is_account now =
     (let (g, raised) = gg_failure (ap_guesses st) name ip now; st = st\<lparr>ap_guesses := g\<rparr> in
      case raised of
        Some e \<Rightarrow> (Inl (PyRaised e), st)
      | None \<Rightarrow>
          (let row = audit_row (ap_db st) (if is_account then name else u ''(unknown)'') ADMIN ip (u ''auth.login_failed'') [] [] [] [] now
           in (Inl (api_error 401 (u ''invalid username, password or code'')), commit_with row (ap_db st) st)))"

definition login_done :: "SecurityConfig \<Rightarrow> api_env \<Rightarrow> api_state \<Rightarrow> web_request \<Rightarrow> pystr \<Rightarrow> nat \<Rightarrow> factor \<Rightarrow> int \<Rightarrow> (Me \<times> pystr) route" where
  "login_done cfg env st req name i factor now =
     (let ip = client_ip req;
          st = st\<lparr>ap_guesses := gg_success (ap_guesses st) name ip\<rparr>;
          d = set_admin i (\<lambda>x. (spend factor x)\<lparr>au_last_login_at := Some now\<rparr>) now (ap_db st)
      in case row_get au_id (admin_users d) i of
           None \<Rightarrow> (Inl RowGone, st)
         | Some admin \<Rightarrow>
             (case create_session cfg d admin ip (header_or_empty req (u ''user-agent'')) (ev_tokens env) now of
                Inl e \<Rightarrow> (Inl e, st)
              | Inr (d', s) \<Rightarrow>
                  (let row = audit_row d' (au_username admin) ADMIN ip (u ''auth.login'') [] [] [] [] now
                   in (Inr (me_of cfg admin (as_csrf_token s), fst (ev_tokens env)), commit_with row d' st))))"

text \<open>After the throttles: the password, then the second factor.\<close>

definition login_verify :: "SecurityConfig \<Rightarrow> api_env \<Rightarrow> api_state \<Rightarrow> web_request \<Rightarrow> LoginIn \<Rightarrow> int \<Rightarrow> (Me \<times> pystr) route" where
  "login_verify cfg env st req body now =
     (let name = lower (strip (li_username body));
          ip = client_ip req;
          found = find (\<lambda>a. au_username a = name) (admin_users (ap_db st));
          st = ev_meanwhile env 0 st
      in case verify_password (ev_bcrypt env) (li_password body) (map_option au_password_hash found) of
           Inl e \<Rightarrow> (Inl (PyRaised e), st)
         | Inr ok \<Rightarrow>
             (case found of
                None \<Rightarrow> login_failed st name ip False now
              | Some admin \<Rightarrow>
                  if \<not> (ok \<and> au_enabled admin) then login_failed st name ip True now
                  else
                    (case second_factor env (au_id admin) (li_totp_code body) now st of
                       (Inl e, st) \<Rightarrow> (Inl e, st)
                     | (Inr None, st) \<Rightarrow> login_failed st name ip True now
                     | (Inr (Some factor), st) \<Rightarrow> login_done cfg env st req name (au_id admin) factor now)))"

definition login :: "SecurityConfig \<Rightarrow> api_env \<Rightarrow> web_request \<Rightarrow> LoginIn \<Rightarrow> int \<Rightarrow> api_state \<Rightarrow> (Me \<times> pystr) route" where
  "login cfg env req body now st =
     (if \<not> startswith (header_or_empty req (u ''content-type'')) (u ''application/json'') then (Inl (api_error 415 (u ''send JSON'')), st)
      else
        (case check_same_origin req of
           Inl e \<Rightarrow> (Inl e, st)
         | Inr _ \<Rightarrow>
             (let ip = client_ip req;
                  name = lower (strip (li_username body));
                  (w, in_limit) = sw_hit (ip_window cfg st) ip now;
                  st = st\<lparr>ap_per_ip := Some w\<rparr>
              in if \<not> in_limit then (Inl (api_error 429 (u ''too many sign-in attempts'' @ em_dash @ u ''try again later'')), st)
                 else
                   (let (g, wait) = gg_delay_for (ap_guesses st) name ip now;
                        st = st\<lparr>ap_guesses := g\<rparr>
                    in if wait > 0 then
                         (Inl (api_error 429 (u ''too many failed attempts'' @ em_dash @ u ''wait '' @ str_int (ceil_seconds wait) @ u '' s'')), st)
                       else login_verify cfg env st req body now))))"

section \<open>Routes of a signed-in administrator\<close>

text \<open>Each takes the caller that \<open>with_gate cfg VIEWER True\<close> found.\<close>

definition logout :: "int \<Rightarrow> Principal \<Rightarrow> api_state \<Rightarrow> unit route" where
  "logout now p st =
     (let d = (case pr_session_id p of
                 None \<Rightarrow> ap_db st
               | Some i \<Rightarrow> (ap_db st)\<lparr>admin_sessions := row_delete as_id i (admin_sessions (ap_db st))\<rparr>)
      in (Inr (), commit_with (trail_row p d (u ''auth.logout'') [] [] [] [] now) d st))"

definition me :: "SecurityConfig \<Rightarrow> Principal \<Rightarrow> api_state \<Rightarrow> Me route" where
  "me cfg p st =
     (if pr_kind p = Token_Kind then
        (Inr \<lparr>me_username = pr_username p, me_role = pr_role p, me_restricted = None, me_totp_enabled = False, me_csrf_token = []\<rparr>, st)
      else (rbind (own_admin (ap_db st) p) (\<lambda>admin. Inr (me_of cfg admin (pr_csrf_token p))), st))"

text \<open>An audited change of one's own account: the other sessions end when \<open>revoke\<close> is set.\<close>

definition change_own :: "Principal \<Rightarrow> AdminUser \<Rightarrow> (AdminUser \<Rightarrow> AdminUser) \<Rightarrow> bool \<Rightarrow> pystr \<Rightarrow> int \<Rightarrow> api_state \<Rightarrow> api_state" where
  "change_own p admin f revoke action now st =
     (let d = set_admin (au_id admin) f now (ap_db st);
          d = (if revoke then revoke_all (au_id admin) (pr_session_id p) d else d)
      in commit_with (trail_row p d action (u ''admin'') (dec (au_id admin)) (au_username admin) [] now) d st)"

definition change_password :: "api_env \<Rightarrow> pystr \<Rightarrow> pystr \<Rightarrow> int \<Rightarrow> Principal \<Rightarrow> api_state \<Rightarrow> unit route" where
  "change_password env current_password new_password now p st =
     (case own_admin (ap_db st) p of
        Inl e \<Rightarrow> (Inl e, st)
      | Inr admin \<Rightarrow>
          (let st = ev_meanwhile env 0 st in
           case verify_password (ev_bcrypt env) current_password (Some (au_password_hash admin)) of
             Inl e \<Rightarrow> (Inl (PyRaised e), st)
           | Inr False \<Rightarrow> (Inl (api_error 403 (u ''current password is wrong'')), st)
           | Inr True \<Rightarrow>
               (case validate_admin_password new_password of
                  Inl (ValueError message) \<Rightarrow> (Inl (api_error 422 message), st)
                | Inl _ \<Rightarrow> (Inl (api_error 422 (u ''surrogates not allowed'')), st)   \<comment> \<open>\<open>UnicodeEncodeError\<close> is a \<open>ValueError\<close>; end of its text\<close>
                | Inr _ \<Rightarrow>
                    if new_password = current_password then
                      (Inl (api_error 422 (u ''choose a password you have not used just now'')), st)
                    else
                      (case hash_password (ev_bcrypt env) new_password of
                         Inl e \<Rightarrow> (Inl (PyRaised e), st)
                       | Inr new_hash \<Rightarrow>
                           (case refresh_admin st (au_id admin) of
                              Inl e \<Rightarrow> (Inl e, st)
                            | Inr admin \<Rightarrow>
                                (Inr (), change_own p admin
                                   (\<lambda>x. x\<lparr>au_password_hash := new_hash, au_must_change_password := False, au_password_changed_at := Some now\<rparr>)
                                   True (u ''auth.password_changed'') now st))))))"


definition totp_setup :: "api_env \<Rightarrow> pystr \<Rightarrow> int \<Rightarrow> Principal \<Rightarrow> api_state \<Rightarrow> pystr route" where
  "totp_setup env password now p st =
     (case own_admin (ap_db st) p of
        Inl e \<Rightarrow> (Inl e, st)
      | Inr admin \<Rightarrow>
          if au_must_change_password admin then (Inl (ApiError 403 (u ''change your password first'') (u ''setup_required'')), st)
          else
            (let st = ev_meanwhile env 0 st in
             case verify_password (ev_bcrypt env) password (Some (au_password_hash admin)) of
               Inl e \<Rightarrow> (Inl (PyRaised e), st)
             | Inr False \<Rightarrow> (Inl (api_error 403 (u ''password is wrong'')), st)
             | Inr True \<Rightarrow>
                 (case refresh_admin st (au_id admin) of
                    Inl e \<Rightarrow> (Inl e, st)
                  | Inr admin \<Rightarrow>
                      if truthy (au_totp_secret admin) then
                        (Inl (api_error 409 (u ''two-factor authentication is already enabled'')), st)
                      else
                        (Inr (ev_totp_secret env), change_own p admin (\<lambda>x. x\<lparr>au_totp_pending_secret := Some (ev_totp_secret env)\<rparr>)
                           False (u ''auth.totp_setup_started'') now st))))"

definition totp_confirm :: "api_env \<Rightarrow> pystr \<Rightarrow> int \<Rightarrow> Principal \<Rightarrow> api_state \<Rightarrow> pystr list route" where
  "totp_confirm env code now p st =
     (case own_admin (ap_db st) p of
        Inl e \<Rightarrow> (Inl e, st)
      | Inr admin \<Rightarrow>
          if \<not> truthy (au_totp_pending_secret admin) then (Inl (api_error 409 (u ''start the setup first'')), st)
          else
            (case totp_match (ev_otp env) (after_sep (au_totp_pending_secret admin)) code None now of
               Inl e \<Rightarrow> (Inl (PyRaised e), st)
             | Inr None \<Rightarrow> (Inl (api_error 422 (u ''that code is not valid'' @ em_dash @ u ''check the time on your device'')), st)
             | Inr (Some step) \<Rightarrow>
                 (let codes = new_recovery_codes (ev_choice env);
                      pending = au_totp_pending_secret admin;
                      st = ev_meanwhile env 0 st
                  in case rmap (hash_password (ev_bcrypt env)) codes of
                       Inl e \<Rightarrow> (Inl (PyRaised e), st)
                     | Inr hashes \<Rightarrow>
                         (case refresh_admin st (au_id admin) of
                            Inl e \<Rightarrow> (Inl e, st)
                          | Inr admin \<Rightarrow>
                              if au_totp_pending_secret admin \<noteq> pending then
                                (Inl (api_error 409 (u ''the setup changed meanwhile'' @ em_dash @ u ''start again'')), st)
                              else
                                (Inr codes, change_own p admin
                                   (\<lambda>x. x\<lparr>au_totp_secret := pending, au_totp_pending_secret := None, au_totp_last_step := Some step,
                                          au_recovery_codes := hashes\<rparr>)
                                   True (u ''auth.totp_enabled'') now st)))))"

definition totp_disable :: "api_env \<Rightarrow> pystr \<Rightarrow> pystr \<Rightarrow> int \<Rightarrow> Principal \<Rightarrow> api_state \<Rightarrow> unit route" where
  "totp_disable env password code now p st =
     (case own_admin (ap_db st) p of
        Inl e \<Rightarrow> (Inl e, st)
      | Inr admin \<Rightarrow>
          if \<not> truthy (au_totp_secret admin) then (Inl (api_error 409 (u ''two-factor authentication is not enabled'')), st)
          else
            (let st = ev_meanwhile env 0 st in
             case verify_password (ev_bcrypt env) password (Some (au_password_hash admin)) of
               Inl e \<Rightarrow> (Inl (PyRaised e), st)
             | Inr password_ok \<Rightarrow>
                 (case refresh_admin st (au_id admin) of
                    Inl e \<Rightarrow> (Inl e, st)
                  | Inr admin \<Rightarrow>
                      (case (if truthy (au_totp_secret admin)
                             then totp_match (ev_otp env) (after_sep (au_totp_secret admin)) code (au_totp_last_step admin) now
                             else Inr None) of
                         Inl e \<Rightarrow> (Inl (PyRaised e), st)
                       | Inr step \<Rightarrow>
                           if \<not> password_ok \<or> step = None then (Inl (api_error 403 (u ''password or code is wrong'')), st)
                           else
                             (Inr (), change_own p admin
                                (\<lambda>x. x\<lparr>au_totp_secret := None, au_totp_last_step := None, au_recovery_codes := []\<rparr>)
                                True (u ''auth.totp_disabled'') now st)))))"

record SessionOut =
  so_id :: nat
  so_created_at :: int
  so_last_seen_at :: int
  so_ip :: pystr
  so_user_agent :: pystr
  so_current :: bool

definition my_sessions :: "Principal \<Rightarrow> api_state \<Rightarrow> SessionOut list route" where
  "my_sessions p st =
     (rbind (own_admin (ap_db st) p) (\<lambda>admin.
        Inr (map (\<lambda>s. \<lparr>so_id = as_id s, so_created_at = as_created_at s, so_last_seen_at = as_last_seen_at s, so_ip = as_ip s,
                       so_user_agent = as_user_agent s, so_current = (Some (as_id s) = pr_session_id p)\<rparr>)
               (sort_key (\<lambda>s. - as_last_seen_at s) (filter (\<lambda>s. as_admin_id s = au_id admin) (admin_sessions (ap_db st)))))), st)"

definition end_session :: "nat \<Rightarrow> int \<Rightarrow> Principal \<Rightarrow> api_state \<Rightarrow> unit route" where
  "end_session i now p st =
     (case own_admin (ap_db st) p of
        Inl e \<Rightarrow> (Inl e, st)
      | Inr admin \<Rightarrow>
          (case row_get as_id (admin_sessions (ap_db st)) i of
             None \<Rightarrow> (Inl (api_error 404 (u ''no such session'')), st)
           | Some s \<Rightarrow>
               if as_admin_id s \<noteq> au_id admin then (Inl (api_error 404 (u ''no such session'')), st)
               else
                 (let d = (ap_db st)\<lparr>admin_sessions := row_delete as_id i (admin_sessions (ap_db st))\<rparr>
                  in (Inr (), commit_with (trail_row p d (u ''auth.session_ended'') (u ''admin_session'') (dec i) (au_username admin) [] now) d st))))"


end
