(* ===== verification/AdminSafety.thy ===== *)
theory AdminSafety
  imports AdminAuth
begin

text \<open>
  What signing in guarantees: both factors of an enabled account, one-time codes that work once however
  sign-ins interleave, ended sessions that stay ended, and a password change that ends the others.
\<close>

section \<open>The second factor\<close>

lemma match_steps_Some:
  "match_steps otp secret code last_step steps = Inr (Some s) \<Longrightarrow>
     s \<in> set steps \<and> otp secret s = code \<and> (\<forall>l. last_step = Some l \<longrightarrow> l < s)"
  by (induction steps) (auto split: if_splits option.splits)

lemma totp_match_Some:
  assumes "totp_match otp secret code last_step now = Inr (Some s)"
  shows "otp secret s = filter (\<lambda>c. c \<noteq> 32) (strip code)" "\<bar>s - current_step now\<bar> \<le> 1" "last_step = Some l \<Longrightarrow> l < s"
  using assms match_steps_Some [of otp secret "filter (\<lambda>c. c \<noteq> 32) (strip code)" last_step _ s]
  by (auto simp: totp_match_def Let_def split: if_splits)

lemma first_verified_Some:
  "first_verified bc code hs = Inr (Some h) \<Longrightarrow> h \<in> set hs \<and> verify_password bc code (Some h) = Inr True"
  by (induction hs) (auto simp: rbind_eq_Inr split: if_splits)

text \<open>What makes a factor good: for the account as it was when the check began, and for the recovery
  codes as they are when the sign-in is committed.\<close>

fun factor_good :: "api_env \<Rightarrow> AdminUser \<Rightarrow> pystr list \<Rightarrow> pystr \<Rightarrow> int \<Rightarrow> factor \<Rightarrow> bool" where
  "factor_good env admin codes code now Not_Enrolled \<longleftrightarrow> \<not> truthy (au_totp_secret admin)"
| "factor_good env admin codes code now (Totp_Step s) \<longleftrightarrow>
     truthy (au_totp_secret admin) \<and> ev_otp env (after_sep (au_totp_secret admin)) s = filter (\<lambda>c. c \<noteq> 32) (strip code) \<and>
     \<bar>s - current_step now\<bar> \<le> 1 \<and> (case au_totp_last_step admin of None \<Rightarrow> True | Some l \<Rightarrow> l < s)"
| "factor_good env admin codes code now (Recovery_Hash h) \<longleftrightarrow>
     truthy (au_totp_secret admin) \<and> h \<in> set codes \<and> verify_password (ev_bcrypt env) (lower (strip code)) (Some h) = Inr True"

lemma refresh_admin_ok: "refresh_admin st i = Inr admin \<longleftrightarrow> row_get au_id (admin_users (ap_db st)) i = Some admin"
  by (auto simp: refresh_admin_def split: option.splits)

lemma use_recovery_code_Some:
  assumes "use_recovery_code env i candidates code st = (Inr (Some f), st')"
  obtains h admin where "f = Recovery_Hash h" "st' = st" "row_get au_id (admin_users (ap_db st)) i = Some admin"
    "h \<in> set (au_recovery_codes admin)" "verify_password (ev_bcrypt env) (lower (strip code)) (Some h) = Inr True"
  using assms
  by (auto simp: use_recovery_code_def refresh_admin_ok split: sum.splits option.splits if_splits dest!: first_verified_Some)

lemma second_factor_Some:
  assumes "second_factor env i code now st = (Inr (Some f), st')"
  obtains admin final where "row_get au_id (admin_users (ap_db st)) i = Some admin" "au_enabled admin"
    "row_get au_id (admin_users (ap_db st')) i = Some final" "factor_good env admin (au_recovery_codes final) code now f"
    "st' = (case f of Recovery_Hash _ \<Rightarrow> ev_meanwhile env 1 st | _ \<Rightarrow> st)"
proof -
  from assms obtain admin where a: "row_get au_id (admin_users (ap_db st)) i = Some admin"
    by (auto simp: second_factor_def refresh_admin_def split: option.splits)
  then have r: "refresh_admin st i = Inr admin" by (simp add: refresh_admin_ok)
  show ?thesis
  proof (cases "au_enabled admin \<and> truthy (au_totp_secret admin)")
    case False
    with assms r have "f = Not_Enrolled" "st' = st" "au_enabled admin" "\<not> truthy (au_totp_secret admin)"
      by (auto simp: second_factor_def split: if_splits)
    with that [of admin admin] a show ?thesis by simp
  next
    case on: True
    let ?m = "totp_match (ev_otp env) (after_sep (au_totp_secret admin)) code (au_totp_last_step admin) now"
    show ?thesis
    proof (cases "\<exists>s. ?m = Inr (Some s)")
      case True
      then obtain s where s: "?m = Inr (Some s)" by blast
      with assms r on have "f = Totp_Step s" "st' = st" by (auto simp: second_factor_def)
      with that [of admin admin] a on totp_match_Some [OF s] show ?thesis by (auto split: option.splits)
    next
      case False
      with assms r on have "use_recovery_code env i (au_recovery_codes admin) code (ev_meanwhile env 1 st) = (Inr (Some f), st')"
        by (auto simp: second_factor_def split: sum.splits option.splits if_splits)
      then show ?thesis by (rule use_recovery_code_Some) (use that [of admin] a on in auto)
    qed
  qed
qed

section \<open>Signing in\<close>

lemma login_failed_Inl: "login_failed st name ip is_account now \<noteq> (Inr x, st')"
  by (simp add: login_failed_def Let_def split: prod.splits option.splits)

lemma create_session_Inr:
  assumes "create_session cfg d admin ip ua tokens now = Inr (d', s)"
  shows "d' = d\<lparr>admin_sessions := admin_sessions d @ [s]\<rparr>" "token_hash (fst tokens) = Inr (as_token_hash s)"
    "as_token_hash s \<notin> set (map as_token_hash (admin_sessions d))" "as_admin_id s = au_id admin"
    "as_expires_at s = now + int (sc_session_max_hours cfg) * 3600 * second" "as_last_seen_at s = now"
  using assms by (auto simp: create_session_def Let_def split: sum.splits if_splits)

lemma login_done_Inr:
  assumes "login_done cfg env st req name i f now = (Inr (m, raw), st')"
  obtains admin s where "row_get au_id (admin_users (ap_db st)) i = Some admin" "raw = fst (ev_tokens env)"
    "admin_sessions (ap_db st') = admin_sessions (ap_db st) @ [s]" "token_hash raw = Inr (as_token_hash s)" "as_admin_id s = i"
    "as_expires_at s = now + int (sc_session_max_hours cfg) * 3600 * second"
    "row_get au_id (admin_users (ap_db st')) i = Some ((spend f admin)\<lparr>au_last_login_at := Some now, au_updated_at := now\<rparr>)"
proof -
  define g where "g = (\<lambda>x. (spend f x)\<lparr>au_last_login_at := Some now, au_updated_at := now\<rparr>)"
  have "au_id (g x) = au_id x" for x by (cases f) (simp_all add: g_def)
  note upd = row_get_update [where key = au_id and f = g, OF this]
  from assms obtain admin d' s where a: "row_get au_id (row_update au_id i g (admin_users (ap_db st))) i = Some admin"
    and c: "create_session cfg ((ap_db st)\<lparr>admin_users := row_update au_id i g (admin_users (ap_db st))\<rparr>) admin (client_ip req)
      (header_or_empty req (u ''user-agent'')) (ev_tokens env) now = Inr (d', s)"
    and raw: "raw = fst (ev_tokens env)"
    and st': "admin_sessions (ap_db st') = admin_sessions d'" "admin_users (ap_db st') = admin_users d'"
    by (auto simp: login_done_def Let_def set_admin_def g_def commit_with_def audit_add_def split: option.splits sum.splits)
  from a upd obtain a0 where a0: "row_get au_id (admin_users (ap_db st)) i = Some a0" "admin = g a0" by auto
  have "au_id admin = i" using row_get_Some [OF a] by simp
  with that [OF a0(1) raw] create_session_Inr [OF c] st' a a0(2) raw show ?thesis by (simp add: g_def)
qed

text \<open>C7. A sign-in succeeds only within both throttles, for an enabled account with that name whose
  stored hash the password verifies against, and with a second factor that is good for that account's row as it
  is read again after the password check (whatever other requests committed meanwhile): none only when that row
  is not enrolled, else a one-time password of a time step next to the current one and later than the last one
  used, or a recovery code unused in the row at the commit.  It then uses the factor up in that row and adds
  exactly one session, for the account, with the hash of the returned cookie and an end after the configured
  hours.\<close>

theorem login_sound:
  assumes "login cfg env req body now st = (Inr (m, raw), st')"
  shows "let name = lower (strip (li_username body)); ip = client_ip req;
      checked = ev_meanwhile env 0 (st\<lparr>ap_per_ip := Some (fst (sw_hit (ip_window cfg st) ip now)),
                                      ap_guesses := fst (gg_delay_for (ap_guesses st) name ip now)\<rparr>) in
    snd (sw_hit (ip_window cfg st) ip now) \<and> snd (gg_delay_for (ap_guesses st) name ip now) \<le> 0 \<and>
    (\<exists>admin fresh final f s.
       find (\<lambda>a. au_username a = name) (admin_users (ap_db st)) = Some admin \<and> au_enabled admin \<and>
       verify_password (ev_bcrypt env) (li_password body) (Some (au_password_hash admin)) = Inr True \<and>
       row_get au_id (admin_users (ap_db checked)) (au_id admin) = Some fresh \<and>
       au_enabled fresh \<and> factor_good env fresh (au_recovery_codes final) (li_totp_code body) now f \<and>
       (let before = (case f of Recovery_Hash _ \<Rightarrow> ev_meanwhile env 1 checked | _ \<Rightarrow> checked) in
        row_get au_id (admin_users (ap_db before)) (au_id admin) = Some final \<and>
        row_get au_id (admin_users (ap_db st')) (au_id admin) =
          Some ((spend f final)\<lparr>au_last_login_at := Some now, au_updated_at := now\<rparr>) \<and>
        admin_sessions (ap_db st') = admin_sessions (ap_db before) @ [s]) \<and>
       token_hash raw = Inr (as_token_hash s) \<and> as_admin_id s = au_id admin \<and>
       as_expires_at s = now + int (sc_session_max_hours cfg) * 3600 * second)"
proof -
  define name ip where "name = lower (strip (li_username body))" and "ip = client_ip req"
  define st0 where "st0 = st\<lparr>ap_per_ip := Some (fst (sw_hit (ip_window cfg st) ip now)),
    ap_guesses := fst (gg_delay_for (ap_guesses st) name ip now)\<rparr>"
  from assms have throttles: "snd (sw_hit (ip_window cfg st) ip now)" "snd (gg_delay_for (ap_guesses st) name ip now) \<le> 0"
    and verify: "login_verify cfg env st0 req body now = (Inr (m, raw), st')"
    by (auto simp: login_def Let_def name_def ip_def st0_def split: if_splits sum.splits prod.splits)
  define st1 where "st1 = ev_meanwhile env 0 st0"
  have db0: "ap_db st0 = ap_db st" by (simp add: st0_def)
  from verify obtain admin f st2 where admin: "find (\<lambda>a. au_username a = name) (admin_users (ap_db st)) = Some admin" "au_enabled admin"
      "verify_password (ev_bcrypt env) (li_password body) (Some (au_password_hash admin)) = Inr True"
    and sf: "second_factor env (au_id admin) (li_totp_code body) now st1 = (Inr (Some f), st2)"
    and done': "login_done cfg env st2 req name (au_id admin) f now = (Inr (m, raw), st')"
    by (auto simp: login_verify_def Let_def name_def db0 st1_def login_failed_Inl split: if_splits sum.splits prod.splits option.splits)
  from second_factor_Some [OF sf] obtain fresh final where ff: "row_get au_id (admin_users (ap_db st1)) (au_id admin) = Some fresh"
      "au_enabled fresh" "row_get au_id (admin_users (ap_db st2)) (au_id admin) = Some final"
      "factor_good env fresh (au_recovery_codes final) (li_totp_code body) now f"
      "st2 = (case f of Recovery_Hash _ \<Rightarrow> ev_meanwhile env 1 st1 | _ \<Rightarrow> st1)" by metis
  from login_done_Inr [OF done'] ff(3) obtain s where
      "admin_sessions (ap_db st') = admin_sessions (ap_db st2) @ [s]" "token_hash raw = Inr (as_token_hash s)" "as_admin_id s = au_id admin"
      "as_expires_at s = now + int (sc_session_max_hours cfg) * 3600 * second"
      "row_get au_id (admin_users (ap_db st')) (au_id admin) = Some ((spend f final)\<lparr>au_last_login_at := Some now, au_updated_at := now\<rparr>)"
    by (metis option.inject)
  with throttles admin ff show ?thesis
    unfolding Let_def name_def [symmetric] ip_def [symmetric] st0_def [symmetric] st1_def [symmetric]
    by (intro conjI exI [of _ admin] exI [of _ fresh] exI [of _ final] exI [of _ f] exI [of _ s]) simp_all
qed

section \<open>One-time codes\<close>

text \<open>The committed states of the database, the latest first, while sign-ins to account \<open>i\<close> run at the same
  time, with the factors they used.  A sign-in starts its check in any of these states and commits on top of
  the latest one; every other request may change anything but the account's two-factor data.\<close>

definition factors_of :: "api_state \<Rightarrow> nat \<Rightarrow> (int option \<times> pystr list) option" where
  "factors_of st i = map_option (\<lambda>a. (au_totp_last_step a, au_recovery_codes a)) (row_get au_id (admin_users (ap_db st)) i)"

inductive signins :: "nat \<Rightarrow> api_state list \<Rightarrow> factor list \<Rightarrow> bool" for i where
  start: "signins i [st] []"
| other: "signins i (st # older) fs \<Longrightarrow> factors_of st' i = factors_of st i \<Longrightarrow> signins i (st' # st # older) fs"
| signin: "signins i (st # older) fs \<Longrightarrow> begun \<in> set (st # older) \<Longrightarrow>
    second_factor env i code now begun = (Inr (Some f), st) \<Longrightarrow>
    factors_of st' i = map_option (\<lambda>a. (au_totp_last_step (spend f a), au_recovery_codes (spend f a)))
      (row_get au_id (admin_users (ap_db st)) i) \<Longrightarrow>
    signins i (st' # st # older) (f # fs)"

inductive_cases signins_latest: "signins i (st # older) fs"

definition used_up :: "int option \<times> pystr list \<Rightarrow> factor \<Rightarrow> bool" where
  "used_up a f \<longleftrightarrow>
     (case f of Not_Enrolled \<Rightarrow> True | Totp_Step s \<Rightarrow> (\<exists>l. fst a = Some l \<and> s \<le> l) | Recovery_Hash h \<Rightarrow> h \<notin> set (snd a))"

lemma good_not_used_up:
  assumes "factor_good env admin codes code now f" "f \<noteq> Not_Enrolled"
    "case f of Totp_Step _ \<Rightarrow> au_totp_last_step admin = fst a | _ \<Rightarrow> codes = snd a"
  shows "\<not> used_up a f"
  using assms by (cases f) (auto simp: used_up_def split: option.splits)

lemma spend_used_up: "factor_good env admin codes code now f \<Longrightarrow> used_up (au_totp_last_step (spend f a), au_recovery_codes (spend f a)) f"
  by (cases f) (auto simp: used_up_def)

lemma spend_keeps_used_up:
  assumes "used_up (au_totp_last_step a, au_recovery_codes a) g" "factor_good env admin codes code now f"
    "case f of Totp_Step _ \<Rightarrow> au_totp_last_step admin = au_totp_last_step a | _ \<Rightarrow> True"
  shows "used_up (au_totp_last_step (spend f a), au_recovery_codes (spend f a)) g"
  using assms by (cases f; cases g) (auto simp: used_up_def split: option.splits)

lemma signins_used_up:
  "signins i sts fs \<Longrightarrow> \<forall>a. factors_of (hd sts) i = Some a \<longrightarrow> list_all (used_up a) fs"
proof (induction rule: signins.induct)
  case (signin st older fs begun env code now f st')
  show ?case
  proof (intro allI impI)
    fix a assume a: "factors_of (hd (st' # st # older)) i = Some a"
    from second_factor_Some [OF signin.hyps(3)] obtain admin final where
      r: "row_get au_id (admin_users (ap_db begun)) i = Some admin" "row_get au_id (admin_users (ap_db st)) i = Some final"
        "factor_good env admin (au_recovery_codes final) code now f"
        "st = (case f of Recovery_Hash _ \<Rightarrow> ev_meanwhile env 1 begun | _ \<Rightarrow> begun)" by metis
    have same: "case f of Totp_Step _ \<Rightarrow> au_totp_last_step admin = au_totp_last_step final | _ \<Rightarrow> True"
      using r by (auto split: factor.splits)
    have "list_all (used_up (au_totp_last_step final, au_recovery_codes final)) fs"
      using signin.IH r(2) by (simp add: factors_of_def)
    then have "list_all (used_up (au_totp_last_step (spend f final), au_recovery_codes (spend f final))) fs"
      using spend_keeps_used_up [OF _ r(3) same] by (auto simp: list_all_iff)
    with spend_used_up [OF r(3)] a signin.hyps(4) r(2) show "list_all (used_up a) (f # fs)" by auto
  qed
qed auto

text \<open>C8. However sign-ins to an account interleave with each other and with other requests, no one-time
  password (time step) and no recovery code is accepted twice.\<close>

theorem one_time_codes:
  "signins i sts fs \<Longrightarrow> distinct (filter (\<lambda>f. f \<noteq> Not_Enrolled) fs)"
proof (induction rule: signins.induct)
  case (signin st older fs begun env code now f st')
  from second_factor_Some [OF signin.hyps(3)] obtain admin final where
    r: "row_get au_id (admin_users (ap_db begun)) i = Some admin" "row_get au_id (admin_users (ap_db st)) i = Some final"
      "factor_good env admin (au_recovery_codes final) code now f"
      "st = (case f of Recovery_Hash _ \<Rightarrow> ev_meanwhile env 1 begun | _ \<Rightarrow> begun)" by metis
  have used: "list_all (used_up (au_totp_last_step final, au_recovery_codes final)) fs"
    using signins_used_up [OF signin.hyps(1)] r(2) by (simp add: factors_of_def)
  have "\<not> used_up (au_totp_last_step final, au_recovery_codes final) f" if "f \<noteq> Not_Enrolled"
    by (rule good_not_used_up [OF r(3) that]) (use r in \<open>auto split: factor.splits\<close>)
  with used signin.IH show ?case by (auto simp: list_all_iff)
qed simp_all


definition lab_api :: "AdminUser \<Rightarrow> api_state" where
  "lab_api admin = \<lparr>ap_db = lab_admin_db admin, ap_guesses = GuessGuard_default 3, ap_per_ip = None,
     ap_reeval = Reevaluator_init, ap_announced = []\<rparr>"

text \<open>A library whose check accepts every password, and a one-time password that never changes.\<close>

definition lab_api_env :: api_env where
  "lab_api_env = \<lparr>ev_bcrypt = \<lparr>bc_hashpw = (\<lambda>p. [36]), bc_checkpw = (\<lambda>p h. Some True)\<rparr>, ev_otp = (\<lambda>_ _. u ''123456''),
     ev_tokens = (u ''raw'', u ''csrf''), ev_totp_secret = u ''T'', ev_choice = (\<lambda>k. k), ev_meanwhile = (\<lambda>k st. st)\<rparr>"

lemma lab_row [simp]: "row_get au_id (admin_users (ap_db (lab_api admin))) (au_id admin) = Some admin"
  by (simp add: lab_api_def lab_admin_db_def row_get_def)

lemma lab_code: "filter (\<lambda>c. c \<noteq> 32) (strip (u ''123456'')) = u ''123456''" "isdigit (u ''123456'')" "list_all (\<lambda>c. c < 128) (u ''123456'')"
  by (simp_all add: u_def strip_def lstrip_def rstrip_def is_space_def isdigit_def digit_blocks_def)

lemma lab_factor:
  assumes "au_enabled admin" "au_totp_secret admin = Some (u ''S'')" "au_totp_last_step admin = l" "l = None \<or> l = Some 99"
  shows "second_factor lab_api_env (au_id admin) (u ''123456'') (3000 * second) (lab_api admin) =
    (Inr (Some (Totp_Step (if l = None then 99 else 100))), lab_api admin)"
  using assms
  by (auto simp: second_factor_def refresh_admin_def truthy_def totp_match_def lab_code Let_def lab_api_env_def current_step_def STEP_def second_def)

theorem one_time_codes_witness:
  "signins 7 [lab_api (lab_admin\<lparr>au_totp_last_step := Some 100\<rparr>), lab_api (lab_admin\<lparr>au_totp_last_step := Some 99\<rparr>), lab_api lab_admin]
     [Totp_Step 100, Totp_Step 99] \<and> distinct (filter (\<lambda>f. f \<noteq> Not_Enrolled) [Totp_Step 100, Totp_Step 99])"
proof -
  let ?a = "lab_admin\<lparr>au_totp_last_step := Some 99\<rparr>"
  have [simp]: "au_id lab_admin = 7" "au_recovery_codes lab_admin = []" by (simp_all add: lab_admin_def)
  have rows: "row_get au_id (admin_users (ap_db (lab_api (lab_admin\<lparr>au_totp_last_step := x\<rparr>)))) 7 = Some (lab_admin\<lparr>au_totp_last_step := x\<rparr>)" for x
    using lab_row [of "lab_admin\<lparr>au_totp_last_step := x\<rparr>"] by simp
  have r0: "row_get au_id (admin_users (ap_db (lab_api lab_admin))) 7 = Some lab_admin"
    using lab_row [of lab_admin] by simp
  have "second_factor lab_api_env 7 (u ''123456'') (3000 * second) (lab_api lab_admin) = (Inr (Some (Totp_Step 99)), lab_api lab_admin)"
    using lab_factor [of lab_admin None] by (simp add: lab_admin_def)
  then have one: "signins 7 [lab_api ?a, lab_api lab_admin] [Totp_Step 99]"
    by (intro signins.signin [OF signins.start]) (auto simp: factors_of_def rows r0)
  have two: "second_factor lab_api_env 7 (u ''123456'') (3000 * second) (lab_api ?a) = (Inr (Some (Totp_Step 100)), lab_api ?a)"
    using lab_factor [of ?a "Some 99"] by (simp add: lab_admin_def)
  have "signins 7 [lab_api (lab_admin\<lparr>au_totp_last_step := Some 100\<rparr>), lab_api ?a, lab_api lab_admin] [Totp_Step 100, Totp_Step 99]"
    by (rule signins.signin [OF one _ two]) (simp_all add: factors_of_def rows)
  from this one_time_codes [OF this] show ?thesis by blast
qed


section \<open>The router\<close>

datatype auth_request =
    Login LoginIn | Logout | Get_Me | Change_Password pystr pystr | Totp_Setup pystr | Totp_Confirm pystr
  | Totp_Disable pystr pystr | My_Sessions | End_Session nat

text \<open>The state after a request to one of the routes of \<open>auth.py\<close>.\<close>

fun serve :: "SecurityConfig \<Rightarrow> api_env \<Rightarrow> web_request \<Rightarrow> int \<Rightarrow> auth_request \<Rightarrow> api_state \<Rightarrow> api_state" where
  "serve cfg env req now (Login body) st = snd (login cfg env req body now st)"
| "serve cfg env req now Logout st = snd (with_gate cfg VIEWER True req now (logout now) st)"
| "serve cfg env req now Get_Me st = snd (with_gate cfg VIEWER True req now (me cfg) st)"
| "serve cfg env req now (Change_Password a b) st = snd (with_gate cfg VIEWER True req now (change_password env a b now) st)"
| "serve cfg env req now (Totp_Setup a) st = snd (with_gate cfg VIEWER True req now (totp_setup env a now) st)"
| "serve cfg env req now (Totp_Confirm a) st = snd (with_gate cfg VIEWER True req now (totp_confirm env a now) st)"
| "serve cfg env req now (Totp_Disable a b) st = snd (with_gate cfg VIEWER True req now (totp_disable env a b now) st)"
| "serve cfg env req now My_Sessions st = snd (with_gate cfg VIEWER True req now my_sessions st)"
| "serve cfg env req now (End_Session i) st = snd (with_gate cfg VIEWER True req now (end_session i now) st)"

definition serve_all :: "SecurityConfig \<Rightarrow> (api_env \<times> web_request \<times> int \<times> auth_request) list \<Rightarrow> api_state \<Rightarrow> api_state" where
  "serve_all cfg requests st = foldl (\<lambda>st (env, req, now, r). serve cfg env req now r st) st requests"

definition session_hashes :: "api_state \<Rightarrow> pystr set" where
  "session_hashes st = as_token_hash ` set (admin_sessions (ap_db st))"

text \<open>A request that does not draw the session token with hash \<open>h\<close>, while no other does either.\<close>

definition draws_other :: "pystr \<Rightarrow> api_env \<Rightarrow> bool" where
  "draws_other h env \<longleftrightarrow> token_hash (fst (ev_tokens env)) \<noteq> Inr h \<and>
     (\<forall>k st. h \<notin> session_hashes st \<longrightarrow> h \<notin> session_hashes (ev_meanwhile env k st))"

lemma draws_other_meanwhile: "draws_other h env \<Longrightarrow> h \<notin> session_hashes st \<Longrightarrow> h \<notin> session_hashes (ev_meanwhile env k st)"
  by (simp add: draws_other_def)

lemma gate_sessions:
  assumes "gate cfg role setup_allowed req d now = (r, d')"
  shows "as_token_hash ` set (admin_sessions d') \<subseteq> as_token_hash ` set (admin_sessions d)"
proof (cases "bearer_credential req")
  case (Some credential)
  with assms show ?thesis
    by (auto simp: gate_def current_principal_def token_principal_def split: prod.splits if_splits sum.splits option.splits)
next
  case None
  show ?thesis
  proof (cases "resolve cfg d (wr_cookie req COOKIE) now")
    case (Inl e)
    with assms None show ?thesis by (auto simp: gate_def current_principal_def)
  next
    case (Inr x)
    obtain found d1 where x: "x = (found, d1)" by force
    have "d' = d \<or> d' = d1" using assms None Inr x by (auto simp: gate_def current_principal_def split: option.splits sum.splits prod.splits)
    with resolve_db [OF Inr [unfolded x]] show ?thesis by (auto simp: row_update_def)
  qed
qed

lemma session_hashes_with_gate:
  assumes "h \<notin> session_hashes st" "\<And>p s. h \<notin> session_hashes s \<Longrightarrow> h \<notin> session_hashes (snd (body p s))"
  shows "h \<notin> session_hashes (snd (with_gate cfg role setup_allowed req now body st))"
proof -
  obtain r d where g: "gate cfg role setup_allowed req (ap_db st) now = (r, d)" by force
  have "h \<notin> session_hashes (st\<lparr>ap_db := d\<rparr>)" using gate_sessions [OF g] assms(1) by (auto simp: session_hashes_def)
  with g assms(2) show ?thesis by (cases r) (auto simp: with_gate_def)
qed

lemma session_hashes_simps [simp]:
  "session_hashes (commit_with row d st) = as_token_hash ` set (admin_sessions d)"
  "session_hashes (st\<lparr>ap_guesses := g\<rparr>) = session_hashes st" "session_hashes (st\<lparr>ap_per_ip := w\<rparr>) = session_hashes st"
  "admin_sessions (set_admin i f now d) = admin_sessions d"
  by (simp_all add: session_hashes_def commit_with_def audit_add_def set_admin_def)

lemma session_hashes_change_own: "session_hashes (change_own p admin f revoke action now st) \<subseteq> session_hashes st"
  by (auto simp: change_own_def Let_def revoke_all_def) (auto simp: session_hashes_def)

lemma session_hashes_second_factor:
  "draws_other h env \<Longrightarrow> h \<notin> session_hashes st \<Longrightarrow> h \<notin> session_hashes (snd (second_factor env i code now st))"
  by (auto simp: second_factor_def use_recovery_code_def draws_other_meanwhile split: sum.splits option.splits if_splits)

lemma session_hashes_login_failed: "session_hashes (snd (login_failed st name ip is_account now)) = session_hashes st"
  by (auto simp: login_failed_def Let_def split: prod.splits option.splits) (simp add: session_hashes_def)+

lemma create_session_hashes:
  assumes "create_session cfg d admin ip ua tokens now = Inr (d', s)" "token_hash (fst tokens) \<noteq> Inr h"
    "h \<notin> as_token_hash ` set (admin_sessions d)"
  shows "h \<notin> as_token_hash ` set (admin_sessions d')"
  using create_session_Inr(1,2) [OF assms(1)] assms(2,3) by auto

lemma session_hashes_login_done:
  assumes "draws_other h env" "h \<notin> session_hashes st"
  shows "h \<notin> session_hashes (snd (login_done cfg env st req name i f now))"
proof -
  have h: "token_hash (fst (ev_tokens env)) \<noteq> Inr h" "h \<notin> as_token_hash ` set (admin_sessions (set_admin i g now (ap_db st)))" for g
    using assms by (simp_all add: draws_other_def session_hashes_def)
  show ?thesis using assms(2)
    by (simp add: login_done_def Let_def create_session_hashes [OF _ h] split: option.split sum.split prod.split)
qed

lemma session_hashes_login:
  assumes "draws_other h env" "h \<notin> session_hashes st"
  shows "h \<notin> session_hashes (snd (login cfg env req body now st))"
proof -
  have verify: "h \<notin> session_hashes (snd (login_verify cfg env s req body now))" if "h \<notin> session_hashes s" for s
  proof -
    note m = draws_other_meanwhile [OF assms(1) that, of 0]
    then have "h \<notin> session_hashes st2" if "second_factor env i c now (ev_meanwhile env 0 s) = (r, st2)" for i c r st2
      using session_hashes_second_factor [OF assms(1) m, of i c now] that by simp
    with m show ?thesis
      by (auto simp: login_verify_def Let_def session_hashes_login_failed session_hashes_login_done [OF assms(1)]
          split: sum.splits option.splits prod.splits)
  qed
  then show ?thesis using assms(2) by (auto simp: login_def Let_def split: sum.splits prod.splits)
qed

lemma session_hashes_serve:
  assumes "draws_other h env" "h \<notin> session_hashes st"
  shows "h \<notin> session_hashes (serve cfg env req now r st)"
proof (cases r)
  case (Login body)
  then show ?thesis using session_hashes_login [OF assms] by simp
next
  case Logout
  then show ?thesis
    by (auto intro!: session_hashes_with_gate [OF assms(2)] simp: logout_def Let_def split: option.splits) (auto simp: session_hashes_def)
next
  case Get_Me
  then show ?thesis by (auto intro!: session_hashes_with_gate [OF assms(2)] simp: me_def split: if_splits)
next
  case My_Sessions
  then show ?thesis by (auto intro!: session_hashes_with_gate [OF assms(2)] simp: my_sessions_def)
next
  case (End_Session i)
  then show ?thesis
    by (auto intro!: session_hashes_with_gate [OF assms(2)] simp: end_session_def Let_def split: option.splits sum.splits if_splits)
      (auto simp: session_hashes_def)
next
  case (Change_Password a b)
  then show ?thesis
    by (auto intro!: session_hashes_with_gate [OF assms(2)] simp: change_password_def Let_def draws_other_meanwhile [OF assms(1)]
        split: sum.splits bool.splits py_exc.splits if_splits dest!: session_hashes_change_own [THEN subsetD])
next
  case (Totp_Setup a)
  then show ?thesis
    by (auto intro!: session_hashes_with_gate [OF assms(2)] simp: totp_setup_def Let_def draws_other_meanwhile [OF assms(1)]
        split: sum.splits bool.splits if_splits dest!: session_hashes_change_own [THEN subsetD])
next
  case (Totp_Confirm a)
  then show ?thesis
    by (auto intro!: session_hashes_with_gate [OF assms(2)] simp: totp_confirm_def Let_def draws_other_meanwhile [OF assms(1)]
        split: sum.splits option.splits if_splits dest!: session_hashes_change_own [THEN subsetD])
next
  case (Totp_Disable a b)
  then show ?thesis
    by (auto intro!: session_hashes_with_gate [OF assms(2)] simp: totp_disable_def Let_def draws_other_meanwhile [OF assms(1)]
        split: sum.splits if_splits dest!: session_hashes_change_own [THEN subsetD])
qed


lemma session_hashes_serve_all:
  "h \<notin> session_hashes st \<Longrightarrow> list_all (\<lambda>(env, _). draws_other h env) requests \<Longrightarrow> h \<notin> session_hashes (serve_all cfg requests st)"
proof (induction requests arbitrary: st)
  case (Cons r rs)
  obtain env req now q where r: "r = (env, req, now, q)" by (cases r)
  have "h \<notin> session_hashes (serve cfg env req now q st)" using session_hashes_serve Cons.prems by (simp add: r)
  from Cons.IH [OF this] Cons.prems show ?case by (simp add: serve_all_def r)
qed (simp add: serve_all_def)

lemma gate_unknown_cookie:
  assumes "bearer_credential req = None" "wr_cookie req COOKIE = Some raw" "token_hash raw = Inr h" "h \<notin> session_hashes st"
  shows "gate cfg role setup_allowed req (ap_db st) now = (Inl (api_error 401 (u ''not signed in'')), ap_db st)"
proof -
  have "find (\<lambda>s. as_token_hash s = h) (admin_sessions (ap_db st)) = None"
    using assms(4) by (auto simp: session_hashes_def find_None_iff)
  then have "resolve cfg (ap_db st) (Some raw) now = Inr (None, ap_db st)" by (simp add: resolve_def assms(3))
  then show ?thesis by (simp add: gate_def current_principal_def assms(1,2))
qed

text \<open>The session behind a cookie request that passed the gate.\<close>

lemma gate_session:
  assumes "gate cfg role setup_allowed req d now = (Inr p, d')" "bearer_credential req = None"
    "wr_cookie req COOKIE = Some raw" "token_hash raw = Inr h" "distinct (map as_token_hash (admin_sessions d))"
  obtains i where "pr_session_id p = Some i" "\<And>s. s \<in> set (admin_sessions d') \<Longrightarrow> as_token_hash s = h \<Longrightarrow> as_id s = i"
proof -
  from assms(1-3) obtain s admin where r: "resolve cfg d (Some raw) now = Inr (Some (s, admin), d')"
    and p: "pr_session_id p = Some (as_id s)"
    by (auto simp: gate_def current_principal_def rbind_eq_Inr require_ok split: prod.splits sum.splits option.splits)
  from resolve_Some [OF r] assms(4) obtain s0 where s0: "s0 \<in> set (admin_sessions d)" "as_token_hash s0 = h"
    "s = s0\<lparr>as_last_seen_at := as_last_seen_at s\<rparr>" by (metis option.inject sum.inject(2))
  have id: "as_id s = as_id s0" by (subst s0(3)) simp
  have "as_id x = as_id s" if x: "x \<in> set (admin_sessions d')" "as_token_hash x = h" for x
  proof -
    from resolve_db [OF r] x(1) obtain y where y: "y \<in> set (admin_sessions d)" "as_token_hash y = as_token_hash x" "as_id y = as_id x"
      by (force simp: row_update_def split: if_splits)
    with s0 x(2) assms(5) have "y = s0" by (auto simp: distinct_map dest: inj_onD)
    with y id show ?thesis by simp
  qed
  with that [OF p] show ?thesis by blast
qed

text \<open>C20. After a sign-out, a request with the cookie of that session is answered 401, whatever requests to
  the authentication routes come in between, as long as no sign-in draws the same random token again.\<close>

theorem logout_is_final:
  assumes "with_gate cfg VIEWER True req now (logout now) st = (Inr (), st')" "bearer_credential req = None"
    "wr_cookie req COOKIE = Some raw" "token_hash raw = Inr h" "distinct (map as_token_hash (admin_sessions (ap_db st)))"
    "list_all (\<lambda>(env, _). draws_other h env) requests" "bearer_credential req2 = None" "wr_cookie req2 COOKIE = Some raw"
  shows "fst (gate cfg role setup_allowed req2 (ap_db (serve_all cfg requests st')) now2) = Inl (api_error 401 (u ''not signed in''))"
proof -
  from assms(1) obtain p d where g: "gate cfg VIEWER True req (ap_db st) now = (Inr p, d)"
    and out: "logout now p (st\<lparr>ap_db := d\<rparr>) = (Inr (), st')"
    by (auto simp: with_gate_def split: prod.splits sum.splits)
  from gate_session [OF g assms(2-5)] obtain i where i: "pr_session_id p = Some i"
    "\<And>s. s \<in> set (admin_sessions d) \<Longrightarrow> as_token_hash s = h \<Longrightarrow> as_id s = i" by blast
  have "h \<notin> session_hashes st'" using out i by (auto simp: logout_def Let_def)
  from session_hashes_serve_all [OF this assms(6)] show ?thesis
    using gate_unknown_cookie [OF assms(7,8,4)] by simp
qed

text \<open>A successful password change needed the current password; afterwards the account stores a hash
  against which exactly the new password verifies, setup no longer asks for a change, and of the account's
  sessions only the caller's own is left.\<close>

theorem change_password_effect:
  assumes "bcrypt_ok (ev_bcrypt env)" "change_password env current new now p st = (Inr (), st')" "encode_or_raise q = Inr raw"
  shows "\<exists>i admin. pr_admin_id p = Some i \<and> row_get au_id (admin_users (ap_db st')) i = Some admin \<and>
    verify_password (ev_bcrypt env) q (Some (au_password_hash admin)) = Inr (encode_or_raise new = Inr raw) \<and>
    \<not> au_must_change_password admin \<and> 12 \<le> length new \<and> new \<noteq> current \<and>
    (\<forall>s\<in>set (admin_sessions (ap_db st')). as_admin_id s = i \<longrightarrow> Some (as_id s) = pr_session_id p)"
proof -
  from assms(2) obtain old where old: "own_admin (ap_db st) p = Inr old"
    by (cases "own_admin (ap_db st) p") (auto simp: change_password_def)
  then have p: "pr_admin_id p = Some (au_id old)"
    by (auto simp: own_admin_def split: option.splits principal_kind.splits dest: row_get_Some)
  define st1 where "st1 = ev_meanwhile env 0 st"
  from assms(2) old obtain h admin where n: "validate_admin_password new = Inr ()" "new \<noteq> current"
    and h: "hash_password (ev_bcrypt env) new = Inr h" and a: "refresh_admin st1 (au_id old) = Inr admin"
    and st': "st' = change_own p admin (\<lambda>x. x\<lparr>au_password_hash := h, au_must_change_password := False, au_password_changed_at := Some now\<rparr>)
      True (u ''auth.password_changed'') now st1"
    by (auto simp: change_password_def Let_def st1_def split: sum.splits bool.splits py_exc.splits if_splits)
  have admin: "row_get au_id (admin_users (ap_db st1)) (au_id old) = Some admin" "au_id admin = au_id old"
    using a by (auto simp: refresh_admin_ok dest: row_get_Some)
  have row: "row_get au_id (admin_users (ap_db st')) (au_id old) =
      Some (admin\<lparr>au_password_hash := h, au_must_change_password := False, au_password_changed_at := Some now, au_updated_at := now\<rparr>)"
    using admin by (simp add: st' change_own_def Let_def commit_with_def audit_add_def set_admin_def revoke_all_def row_get_update)
  have len: "12 \<le> length new" using n(1) by (auto simp: validate_admin_password_def validate_length_def split: if_splits)
  have "as_admin_id s = au_id old \<longrightarrow> Some (as_id s) = pr_session_id p" if "s \<in> set (admin_sessions (ap_db st'))" for s
    using that admin(2) by (auto simp: st' change_own_def Let_def commit_with_def audit_add_def revoke_all_def split: option.splits)
  with p row verify_new [OF assms(1) h assms(3)] n(2) len show ?thesis by auto
qed


section \<open>A code that tells the factors apart\<close>

text \<open>C30. With two-factor authentication on, the code of six superscript twos is answered 500 when the password is
  right and 401 when it is wrong: such a character counts as a digit, and comparing it raises \<open>TypeError\<close>.\<close>

theorem login_code_reveals_password:
  assumes "find (\<lambda>a. au_username a = lower (strip (li_username body))) (admin_users (ap_db st)) = Some admin" "au_enabled admin"
    "refresh_admin (ev_meanwhile env 0 st) (au_id admin) = Inr admin" "truthy (au_totp_secret admin)"
    "case au_totp_last_step admin of None \<Rightarrow> True | Some l \<Rightarrow> l \<le> current_step now" "li_totp_code body = [0xB2, 0xB2, 0xB2, 0xB2, 0xB2, 0xB2]"
    "verify_password (ev_bcrypt env) (li_password body) (Some (au_password_hash admin)) = Inr ok"
    "snd (gg_failure (ap_guesses (ev_meanwhile env 0 st)) (lower (strip (li_username body))) (client_ip req) now) = None"
  shows "\<exists>e. fst (login_verify cfg env st req body now) = Inl e \<and> http_status e = (if ok then 500 else 401)"
proof (cases ok)
  case True
  have code: "filter (\<lambda>c. c \<noteq> 32) (strip [0xB2, 0xB2, 0xB2, 0xB2, 0xB2, 0xB2]) = [0xB2, 0xB2, 0xB2, 0xB2, 0xB2, 0xB2]" "isdigit [0xB2, 0xB2, 0xB2, 0xB2, 0xB2, 0xB2]"
    by (simp_all add: strip_def lstrip_def rstrip_def is_space_def isdigit_def digit_ranges_def)
  have "totp_match (ev_otp env) secret [0xB2, 0xB2, 0xB2, 0xB2, 0xB2, 0xB2] (au_totp_last_step admin) now = Inl TypeError" for secret
    using assms(5) unfolding totp_match_def Let_def code by (auto simp: code(2) split: option.splits)
  then have "second_factor env (au_id admin) (li_totp_code body) now (ev_meanwhile env 0 st) = (Inl (PyRaised TypeError), ev_meanwhile env 0 st)"
    by (simp add: second_factor_def assms)
  with assms(1,2,7) True show ?thesis by (simp add: login_verify_def Let_def)
next
  case False
  with assms(1,2,7,8) show ?thesis
    by (auto simp: login_verify_def login_failed_def Let_def split: prod.splits)
qed

section \<open>Witnesses\<close>

lemma lab_verify: "encode_or_raise pw = Inr x \<Longrightarrow> length x \<le> 72 \<Longrightarrow> verify_password (ev_bcrypt lab_api_env) pw (Some (u ''h'')) = Inr True"
  by (simp add: verify_password_def lab_api_env_def encode_or_raise_def is_surrogate_def utf8_char_def u_def Let_def MAX_BYTES_def)

definition lab_login_body :: "pystr \<Rightarrow> LoginIn" where
  "lab_login_body code = \<lparr>li_username = u ''root'', li_password = u ''p'', li_totp_code = code\<rparr>"

lemma lab_login_name: "lower (strip (li_username (lab_login_body code))) = u ''root''"
  by (simp add: lab_login_body_def u_def strip_def lstrip_def rstrip_def is_space_def lower_def lower_char_def)

definition lab_login_request :: web_request where
  "lab_login_request = lab_web_request\<lparr>wr_header := [u ''content-type'' \<mapsto> u ''application/json'']\<rparr>"

lemma lab_login_verify: "verify_password (ev_bcrypt lab_api_env) (li_password (lab_login_body code)) (Some (au_password_hash lab_admin)) = Inr True"
proof -
  have "encode_or_raise (u ''p'') = Inr (map byte (u ''p''))" by (simp add: encode_or_raise_def is_surrogate_def utf8_char_def u_def)
  from lab_verify [OF this] show ?thesis by (simp add: lab_login_body_def lab_admin_def)
qed

lemma lab_found: "find (\<lambda>a. au_username a = u ''root'') (admin_users (ap_db (lab_api lab_admin))) = Some lab_admin"
  by (simp add: lab_api_def lab_admin_db_def lab_admin_def)

theorem login_code_reveals_password_witness:
  "\<exists>e. fst (login_verify lab_security lab_api_env (lab_api lab_admin) lab_login_request (lab_login_body [0xB2, 0xB2, 0xB2, 0xB2, 0xB2, 0xB2]) (3000 * second)) = Inl e \<and>
     http_status e = (if True then 500 else 401)"
proof (rule login_code_reveals_password)
  have m: "ev_meanwhile lab_api_env 0 st = st" for st by (simp add: lab_api_env_def)
  show "refresh_admin (ev_meanwhile lab_api_env 0 (lab_api lab_admin)) (au_id lab_admin) = Inr lab_admin"
    by (simp add: m refresh_admin_def)
  show "snd (gg_failure (ap_guesses (ev_meanwhile lab_api_env 0 (lab_api lab_admin))) (lower (strip (li_username (lab_login_body [0xB2, 0xB2, 0xB2, 0xB2, 0xB2, 0xB2]))))
      (client_ip lab_login_request) (3000 * second)) = None"
    by (simp add: m lab_api_def GuessGuard_default_def GuessGuard_init_def gg_failure_def pd_failure_def pd_get_def ProgressiveDelay_init_def
        pd_overflow_def failing_sources_def od_get_def Let_def)
qed (use lab_found lab_login_verify in \<open>simp_all add: lab_login_name\<close>, simp_all add: lab_admin_def truthy_def lab_login_body_def)


text \<open>The first sign-in of the administrator.\<close>

definition signed_out :: api_state where
  "signed_out = (lab_api lab_admin)\<lparr>ap_db := empty_db\<lparr>admin_users := [lab_admin]\<rparr>\<rparr>"

lemma lab_sign_in: "\<exists>m raw st'. login lab_security lab_api_env lab_login_request (lab_login_body (u ''123456'')) (3000 * second) signed_out = (Inr (m, raw), st')"
proof -
  obtain w where hit: "sw_hit (ip_window lab_security signed_out) [] (3000 * second) = (w, True)"
    by (simp add: ip_window_def signed_out_def lab_api_def SlidingWindow_init_def sw_hit_def sw_open_def od_get_def Let_def lab_security_def)
  define st0 where "st0 = signed_out\<lparr>ap_per_ip := Some w, ap_guesses := GuessGuard_default 3\<rparr>"
  have [simp]: "ap_guesses signed_out = GuessGuard_default 3" "ap_per_ip signed_out = None" "client_ip lab_login_request = []"
    by (simp_all add: signed_out_def lab_api_def lab_login_request_def lab_web_request_def client_ip_def after_sep_def)
  have origin: "check_same_origin lab_login_request = Inr ()" "header_or_empty lab_login_request (u ''content-type'') = u ''application/json''"
    by (simp_all add: check_same_origin_def lab_login_request_def header_or_empty_def after_sep_def)
  have db: "ap_db st0 = empty_db\<lparr>admin_users := [lab_admin]\<rparr>" "ev_meanwhile lab_api_env k st = st" for k st
    by (simp_all add: st0_def signed_out_def lab_api_env_def)
  have row: "refresh_admin st0 7 = Inr lab_admin" "find (\<lambda>a. au_username a = u ''root'') (admin_users (ap_db st0)) = Some lab_admin"
    "au_id lab_admin = 7" "au_enabled lab_admin"
    by (simp_all add: refresh_admin_def db row_get_def lab_admin_def)
  have f: "second_factor lab_api_env 7 (u ''123456'') (3000 * second) st0 = (Inr (Some (Totp_Step 99)), st0)"
    by (simp add: second_factor_def row truthy_def totp_match_def lab_code Let_def lab_api_env_def current_step_def STEP_def second_def lab_admin_def)
  have "\<exists>m raw st'. login_done lab_security lab_api_env st0 lab_login_request (u ''root'') 7 (Totp_Step 99) (3000 * second) = (Inr (m, raw), st')"
    by (simp add: login_done_def Let_def set_admin_def db row_update_def row_get_def row create_session_def lab_token_hash lab_api_env_def empty_db_def)
  then have "\<exists>m raw st'. login_verify lab_security lab_api_env st0 lab_login_request (lab_login_body (u ''123456'')) (3000 * second) = (Inr (m, raw), st')"
    by (simp add: login_verify_def lab_login_name row db(2) Let_def lab_login_verify)
      (simp add: lab_login_body_def f row)
  moreover have "startswith (u ''application/json'') (u ''application/json'')" by (simp add: startswith_def)
  ultimately show ?thesis
    using fresh_guard_no_delay [of "3000 * second" 3 "u ''root''" "[]"]
    by (simp add: login_def origin lab_login_name Let_def st0_def hit) (simp add: second_def)
qed

theorem login_sound_witness:
  "\<exists>m raw st' admin fresh s. login lab_security lab_api_env lab_login_request (lab_login_body (u ''123456'')) (3000 * second) signed_out = (Inr (m, raw), st') \<and>
     find (\<lambda>a. au_username a = u ''root'') (admin_users (ap_db signed_out)) = Some admin \<and>
     row_get au_id (admin_users (ap_db signed_out)) (au_id admin) = Some fresh \<and> au_enabled fresh \<and>
     admin_sessions (ap_db st') = [s] \<and> token_hash raw = Inr (as_token_hash s) \<and> as_admin_id s = au_id admin"
proof -
  obtain m raw st' where l: "login lab_security lab_api_env lab_login_request (lab_login_body (u ''123456'')) (3000 * second) signed_out = (Inr (m, raw), st')"
    using lab_sign_in by blast
  have m: "ev_meanwhile lab_api_env k st = st" for k st by (simp add: lab_api_env_def)
  have none: "admin_sessions (ap_db signed_out) = []" by (simp add: signed_out_def empty_db_def)
  have f: "(case f of Recovery_Hash _ \<Rightarrow> x | _ \<Rightarrow> x) = x" for f :: factor and x :: api_state by (cases f) simp_all
  from login_sound [OF l, unfolded m f lab_login_name Let_def] obtain admin fresh s where
    "find (\<lambda>a. au_username a = u ''root'') (admin_users (ap_db signed_out)) = Some admin"
    "row_get au_id (admin_users (ap_db signed_out)) (au_id admin) = Some fresh" "au_enabled fresh"
    "admin_sessions (ap_db st') = [s]" "token_hash raw = Inr (as_token_hash s)" "as_admin_id s = au_id admin"
    using none by auto
  with l show ?thesis by blast
qed

theorem logout_is_final_witness:
  "fst (gate lab_security VIEWER False lab_web_request
     (ap_db (serve_all lab_security [] (snd (with_gate lab_security VIEWER True lab_web_request (1 * second) (logout (1 * second)) (lab_api lab_admin)))))
     (2 * second)) = Inl (api_error 401 (u ''not signed in''))"
proof -
  obtain p where "gate lab_security VIEWER True lab_web_request (ap_db (lab_api lab_admin)) (1 * second) = (Inr p, ap_db (lab_api lab_admin))"
    using lab_gate [of lab_admin] by (auto simp: lab_admin_def lab_api_def)
  then obtain st' where out: "with_gate lab_security VIEWER True lab_web_request (1 * second) (logout (1 * second)) (lab_api lab_admin) = (Inr (), st')"
    by (simp add: with_gate_def logout_def Let_def)
  have "wr_cookie lab_web_request COOKIE = Some (u ''raw'')" "distinct (map as_token_hash (admin_sessions (ap_db (lab_api lab_admin))))"
    by (simp_all add: lab_web_request_def lab_api_def lab_admin_db_def)
  from logout_is_final [OF out lab_bearer this(1) lab_token_hash this(2) _ lab_bearer this(1), of "[]"] out show ?thesis by simp
qed

definition careful_env :: api_env where
  "careful_env = lab_api_env\<lparr>ev_bcrypt := hex_bcrypt\<rparr>"

theorem change_password_effect_witness:
  "\<exists>p stored st' admin. change_password careful_env (u ''pass'') (u ''new-password'') 0 p (lab_api (lab_admin\<lparr>au_password_hash := stored\<rparr>)) = (Inr (), st') \<and>
     row_get au_id (admin_users (ap_db st')) 7 = Some admin \<and>
     verify_password hex_bcrypt (u ''new-password'') (Some (au_password_hash admin)) = Inr True"
proof -
  have enc: "encode_or_raise (u ''pass'') = Inr (map byte (u ''pass''))" "encode_or_raise (u ''new-password'') = Inr (map byte (u ''new-password''))"
    by (simp_all add: encode_or_raise_def is_surrogate_def utf8_char_def u_def)
  obtain stored where stored: "hash_password hex_bcrypt (u ''pass'') = Inr stored" by (simp add: hash_password_def enc MAX_BYTES_def)
  obtain h where h: "hash_password hex_bcrypt (u ''new-password'') = Inr h" by (simp add: hash_password_def enc MAX_BYTES_def)
  note v = verify_new [OF hex_bcrypt_ok stored enc(1)]
  define a where "a = lab_admin\<lparr>au_password_hash := stored\<rparr>"
  have a: "au_id a = 7" "au_password_hash a = stored" "au_enabled a" "au_role a = SUPERUSER" by (simp_all add: a_def lab_admin_def)
  obtain p :: Principal where p: "pr_kind p = Session_Kind" "pr_admin_id p = Some 7" using lab_gate [OF a(1,3,4)] by blast
  have row: "row_get au_id (admin_users (ap_db (lab_api a))) 7 = Some a" using lab_row [of a] a by simp
  have own: "own_admin (ap_db (lab_api a)) p = Inr a" by (simp add: own_admin_def p row)
  have env: "ev_bcrypt careful_env = hex_bcrypt" "ev_meanwhile careful_env k st = st" for k st by (simp_all add: careful_env_def lab_api_env_def)
  obtain st' where c: "change_password careful_env (u ''pass'') (u ''new-password'') 0 p (lab_api a) = (Inr (), st')"
    using v enc by (simp add: change_password_def own env Let_def a validate_admin_password_def validate_length_def MAX_BYTES_def h refresh_admin_def row)
  have "bcrypt_ok (ev_bcrypt careful_env)" by (simp add: env hex_bcrypt_ok)
  from change_password_effect [OF this c enc(2)] p(2) c show ?thesis unfolding a_def env by (auto simp: enc)
qed


end
