(* ===== verification/UsersApi.thy ===== *)
theory UsersApi
  imports AdminAuth TacacsAuthz "HOL-Library.Sublist"
begin

text \<open>
  Network users and their groups: \<open>naco/api/routes/users.py\<close>.  A request body is a record with its declared
  fields; the bounds on their lengths and the validators are \<open>..._ok\<close> and \<open>..._field\<close> functions, whose failure
  is the answer 422 (the texts of pydantic are left out).  In an update, a field is \<open>None\<close> when it was not
  sent, and \<open>Some None\<close> when \<open>null\<close> was sent.  Searching uses SQL's \<open>LIKE\<close>, which folds the case of ASCII letters.
\<close>

section \<open>Searching\<close>

text \<open>\<open>LIKE ... ESCAPE '\'\<close>: \<open>%\<close> is any text, \<open>_\<close> one character, the character after a backslash itself.\<close>

fun sql_like :: "pystr \<Rightarrow> pystr \<Rightarrow> bool" where
  "sql_like [] t \<longleftrightarrow> t = []"
| "sql_like (p # ps) t \<longleftrightarrow>
     (if p = 37 then sql_like ps t \<or> (case t of [] \<Rightarrow> False | _ # cs \<Rightarrow> sql_like (p # ps) cs)
      else if p = 92 then (case ps of [] \<Rightarrow> False | q # qs \<Rightarrow> (case t of [] \<Rightarrow> False | c # cs \<Rightarrow> c = q \<and> sql_like qs cs))
      else (case t of [] \<Rightarrow> False | c # cs \<Rightarrow> (p = 95 \<or> c = p) \<and> sql_like ps cs))"

definition sql_lower :: "pystr \<Rightarrow> pystr" where
  "sql_lower s = map (\<lambda>c. if 65 \<le> c \<and> c \<le> 90 then c + 32 else c) s"

definition ilike :: "pystr \<Rightarrow> pystr \<Rightarrow> bool" where
  "ilike t pattern \<longleftrightarrow> sql_like (sql_lower pattern) (sql_lower t)"

section \<open>Users\<close>

record UserOut =
  uo_id :: nat
  uo_username :: pystr
  uo_source :: UserSource
  uo_email :: pystr
  uo_full_name :: pystr
  uo_group_id :: "nat option"
  uo_group_name :: "pystr option"
  uo_enabled :: bool
  uo_created_at :: int
  uo_last_login_at :: "int option"

record UserCreate =
  uc_username :: pystr
  uc_password :: pystr
  uc_email :: pystr
  uc_full_name :: pystr
  uc_group_id :: "nat option"
  uc_enabled :: bool

record UserUpdate =
  uu_email :: "pystr option"
  uu_full_name :: "pystr option"
  uu_group_id :: "nat option option"
  uu_enabled :: "bool option"
  uu_password :: "pystr option"

definition invalid_body :: api_exc where
  "invalid_body = api_error 422 (u ''invalid request'')"

definition username_field :: "pystr \<Rightarrow> pystr option" where
  "username_field v =
     (let name = canonical_username (Some v) in if name = [] \<or> list_ex is_space name then None else Some name)"

definition max_opt :: "nat \<Rightarrow> pystr option \<Rightarrow> bool" where
  "max_opt n s = (case s of None \<Rightarrow> True | Some t \<Rightarrow> length t \<le> n)"

definition UserCreate_body :: "UserCreate \<Rightarrow> UserCreate option" where
  "UserCreate_body b =
     (if 1 \<le> length (uc_username b) \<and> length (uc_username b) \<le> 64 \<and> length (uc_password b) \<le> 72 \<and>
         length (uc_email b) \<le> 128 \<and> length (uc_full_name b) \<le> 128
      then map_option (\<lambda>name. b\<lparr>uc_username := name\<rparr>) (username_field (uc_username b)) else None)"

definition UserUpdate_ok :: "UserUpdate \<Rightarrow> bool" where
  "UserUpdate_ok b \<longleftrightarrow> max_opt 128 (uu_email b) \<and> max_opt 128 (uu_full_name b) \<and> max_opt 72 (uu_password b)"

definition user_out :: "User \<Rightarrow> Group option \<Rightarrow> UserOut" where
  "user_out x g =
     \<lparr>uo_id = usr_id x, uo_username = usr_username x, uo_source = usr_source x, uo_email = usr_email x, uo_full_name = usr_full_name x,
      uo_group_id = usr_group_id x, uo_group_name = map_option grp_name g, uo_enabled = usr_enabled x,
      uo_created_at = usr_created_at x, uo_last_login_at = usr_last_login_at x\<rparr>"

definition find_group :: "db \<Rightarrow> nat option \<Rightarrow> api_exc + Group option" where
  "find_group d group_id =
     (case group_id of
        None \<Rightarrow> Inr None
      | Some i \<Rightarrow> (case row_get grp_id (groups d) i of None \<Rightarrow> Inl (api_error 422 (u ''group does not exist'')) | Some g \<Rightarrow> Inr (Some g)))"

definition guard_device_admin :: "Principal \<Rightarrow> Group option list \<Rightarrow> api_exc + unit" where
  "guard_device_admin p gs =
     (if allows (pr_role p) SUPERUSER then Inr ()
      else if list_ex (\<lambda>g. case g of None \<Rightarrow> False | Some x \<Rightarrow> grp_device_admin_privilege x \<noteq> None) gs
      then Inl (api_error 403 (u ''users of device-admin groups are managed by a SUPERUSER''))
      else Inr ())"

text \<open>\<open>_password\<close>, then the hash.\<close>

definition password_digest :: "api_env \<Rightarrow> pystr \<Rightarrow> api_exc + pystr" where
  "password_digest env value =
     (case validate_user_password value of
        Inl (ValueError message) \<Rightarrow> Inl (api_error 422 message)
      | Inl _ \<Rightarrow> Inl (api_error 422 (u ''surrogates not allowed''))
      | Inr _ \<Rightarrow> (case hash_password (ev_bcrypt env) value of Inl e \<Rightarrow> Inl (PyRaised e) | Inr h \<Rightarrow> Inr h))"

definition opt_json :: "('a \<Rightarrow> json) \<Rightarrow> 'a option \<Rightarrow> json" where
  "opt_json f x = (case x of None \<Rightarrow> JNull | Some y \<Rightarrow> f y)"

definition user_snapshot :: "User \<Rightarrow> (pystr \<times> json) list" where
  "user_snapshot x =
     [(u ''username'', JStr (usr_username x)), (u ''email'', JStr (usr_email x)), (u ''full_name'', JStr (usr_full_name x)),
      (u ''group_id'', opt_json (JInt \<circ> int) (usr_group_id x)), (u ''enabled'', JBool (usr_enabled x))]"

definition list_users :: "pystr \<Rightarrow> nat option \<Rightarrow> bool option \<Rightarrow> nat \<Rightarrow> nat \<Rightarrow> db \<Rightarrow> UserOut list \<times> nat" where
  "list_users q group_id enabled page per_page d =
     (let rows = sort_key usr_username (filter (\<lambda>x.
            (q = [] \<or> ilike (usr_username x) (like q) \<or> ilike (usr_full_name x) (like q) \<or> ilike (usr_email x) (like q)) \<and>
            (group_id = None \<or> usr_group_id x = group_id) \<and> (case enabled of None \<Rightarrow> True | Some e \<Rightarrow> usr_enabled x = e)) (users d));
          (items, total) = fetch_page page per_page rows
      in (map (\<lambda>x. user_out x (group_by_id d (usr_group_id x))) items, total))"

definition get_user :: "nat \<Rightarrow> db \<Rightarrow> api_exc + UserOut" where
  "get_user i d = rbind (get_or_404 usr_id (users d) i (u ''user'')) (\<lambda>x. rbind (find_group d (usr_group_id x)) (\<lambda>g. Inr (user_out x g)))"

definition create_user :: "api_env \<Rightarrow> UserCreate \<Rightarrow> int \<Rightarrow> Principal \<Rightarrow> api_state \<Rightarrow> UserOut route" where
  "create_user env body now p st =
     (case password_digest env (uc_password body) of
        Inl e \<Rightarrow> (Inl e, st)
      | Inr dig \<Rightarrow>
          (let st = ev_meanwhile env 0 st; d = ap_db st in
           case rbind (find_group d (uc_group_id body)) (\<lambda>g. rbind (guard_device_admin p [g]) (\<lambda>_. Inr g)) of
             Inl e \<Rightarrow> (Inl e, st)
           | Inr g \<Rightarrow>
               if uc_username body \<in> set (map usr_username (users d)) then
                 (Inl (api_error 409 (u ''user '' @ uc_username body @ u '' already exists'')), st)
               else
                 (let x = \<lparr>usr_id = next_id usr_id (users d), usr_username = uc_username body, usr_source = LOCAL,
                           usr_password_hash = Some dig, usr_email = uc_email body, usr_full_name = uc_full_name body,
                           usr_group_id = uc_group_id body, usr_enabled = uc_enabled body, usr_created_at = now, usr_updated_at = now,
                           usr_last_login_at = None\<rparr>;
                      d = d\<lparr>users := users d @ [x]\<rparr>
                  in (Inr (user_out x g),
                      commit_with (trail_row p d (u ''user.create'') (u ''user'') (dec (usr_id x)) (usr_username x) (user_snapshot x) now) d st))))"

text \<open>The attributes that \<open>update_user\<close> sets; \<open>updated_at\<close> follows when a column changes.\<close>

definition user_changed :: "UserUpdate \<Rightarrow> pystr option \<Rightarrow> User \<Rightarrow> User" where
  "user_changed b dig x =
     x\<lparr>usr_email := (case uu_email b of None \<Rightarrow> usr_email x | Some v \<Rightarrow> v),
       usr_full_name := (case uu_full_name b of None \<Rightarrow> usr_full_name x | Some v \<Rightarrow> v),
       usr_enabled := (case uu_enabled b of None \<Rightarrow> usr_enabled x | Some v \<Rightarrow> v),
       usr_group_id := (case uu_group_id b of None \<Rightarrow> usr_group_id x | Some v \<Rightarrow> v),
       usr_password_hash := (case dig of None \<Rightarrow> usr_password_hash x | Some h \<Rightarrow> Some h)\<rparr>"

definition touched :: "int \<Rightarrow> User \<Rightarrow> User \<Rightarrow> User" where
  "touched now old new = (if new = old then old else new\<lparr>usr_updated_at := now\<rparr>)"

definition save_user :: "UserUpdate \<Rightarrow> pystr option \<Rightarrow> User \<Rightarrow> Group option \<Rightarrow> int \<Rightarrow> Principal \<Rightarrow> api_state \<Rightarrow> UserOut route" where
  "save_user body dig x target now p st =
     (let new = touched now x (user_changed body dig x);
          delta = diff (user_snapshot x) (user_snapshot new) [] @ (if dig \<noteq> None then [(u ''password'', JArr [MASK, MASK])] else []);
          d = (ap_db st)\<lparr>users := row_update usr_id (usr_id x) (\<lambda>_. new) (users (ap_db st))\<rparr>;
          st = commit_with (trail_row p d (u ''user.update'') (u ''user'') (dec (usr_id x)) (usr_username x) delta now) d st
      in (Inr (user_out new target),
          if u ''enabled'' \<in> set (map fst delta) \<or> u ''group_id'' \<in> set (map fst delta)
          then reevaluate_later (u ''user '' @ usr_username x @ u '' changed'') st else st))"

definition patch_user :: "api_env \<Rightarrow> nat \<Rightarrow> UserUpdate \<Rightarrow> int \<Rightarrow> Principal \<Rightarrow> api_state \<Rightarrow> UserOut route" where
  "patch_user env i body now p st =
     (case (case uu_password body of None \<Rightarrow> Inr None | Some v \<Rightarrow> rbind (password_digest env v) (\<lambda>h. Inr (Some h))) of
        Inl e \<Rightarrow> (Inl e, st)
      | Inr dig \<Rightarrow>
          (let st = (if dig = None then st else ev_meanwhile env 0 st); d = ap_db st in
           case rbind (get_or_404 usr_id (users d) i (u ''user'')) (\<lambda>x.
                rbind (find_group d (usr_group_id x)) (\<lambda>current.
                rbind (case uu_group_id body of None \<Rightarrow> Inr current | Some g \<Rightarrow> find_group d g) (\<lambda>target.
                rbind (guard_device_admin p [current, target]) (\<lambda>_.
                  if dig \<noteq> None \<and> usr_source x \<noteq> LOCAL then Inl (api_error 422 (u ''LDAP users sign in with their directory password''))
                  else Inr (x, target))))) of
             Inl e \<Rightarrow> (Inl e, st)
           | Inr (x, target) \<Rightarrow> save_user body dig x target now p st))"

definition delete_user :: "nat \<Rightarrow> int \<Rightarrow> Principal \<Rightarrow> api_state \<Rightarrow> unit route" where
  "delete_user i now p st =
     (let d = ap_db st in
      case rbind (get_or_404 usr_id (users d) i (u ''user'')) (\<lambda>x.
           rbind (find_group d (usr_group_id x)) (\<lambda>g. rbind (guard_device_admin p [g]) (\<lambda>_. Inr x))) of
        Inl e \<Rightarrow> (Inl e, st)
      | Inr x \<Rightarrow>
          (let d = d\<lparr>users := row_delete usr_id i (users d)\<rparr>
           in (Inr (), reevaluate_later (u ''user '' @ usr_username x @ u '' deleted'')
                (commit_with (trail_row p d (u ''user.delete'') (u ''user'') (dec i) (usr_username x) [] now) d st))))"

section \<open>Groups\<close>

record GroupIn =
  gi_name :: pystr
  gi_description :: pystr
  gi_device_admin_privilege :: "int option"
  gi_command_set_id :: "nat option"
  gi_device_admin_attributes :: "pystr list"

record GroupUpdate =
  gu_name :: "pystr option option"
  gu_description :: "pystr option option"
  gu_device_admin_privilege :: "int option option"
  gu_command_set_id :: "nat option option"
  gu_device_admin_attributes :: "pystr list option option"

record GroupOut =
  go_id :: nat
  go_name :: pystr
  go_description :: pystr
  go_device_admin_privilege :: "int option"
  go_command_set_id :: "nat option"
  go_device_admin_attributes :: "pystr list"
  go_members :: nat

text \<open>\<open>_service_attributes\<close> on a list.\<close>

fun service_lines :: "pystr list \<Rightarrow> service_error + pystr list" where
  "service_lines [] = Inr []"
| "service_lines (line # ls) =
     (if strip line = [] then service_lines ls
      else rbind (parse_service_attribute line) (\<lambda>(service, pair).
             rbind (service_lines ls) (\<lambda>out. Inr ((service @ u '': '' @ pair) # out))))"

definition group_name_ok :: "pystr \<Rightarrow> bool" where
  "group_name_ok s \<longleftrightarrow> 1 \<le> length s \<and> length s \<le> 64 \<and>
     (let alnum = (\<lambda>c. (48 \<le> c \<and> c \<le> 57) \<or> (65 \<le> c \<and> c \<le> 90) \<or> (97 \<le> c \<and> c \<le> 122))
      in case s of [] \<Rightarrow> False | c # cs \<Rightarrow> alnum c \<and> list_all (\<lambda>c. alnum c \<or> c \<in> {32, 46, 95, 45}) cs)"

definition privilege_ok :: "int option \<Rightarrow> bool" where
  "privilege_ok v = (case v of None \<Rightarrow> True | Some n \<Rightarrow> 1 \<le> n \<and> n \<le> 15)"

definition GroupIn_body :: "GroupIn \<Rightarrow> GroupIn option" where
  "GroupIn_body b =
     (if group_name_ok (gi_name b) \<and> length (gi_description b) \<le> 255 \<and> privilege_ok (gi_device_admin_privilege b) \<and>
         length (gi_device_admin_attributes b) \<le> 50
      then (case service_lines (gi_device_admin_attributes b) of Inl _ \<Rightarrow> None | Inr ls \<Rightarrow> Some (b\<lparr>gi_device_admin_attributes := ls\<rparr>))
      else None)"

definition GroupUpdate_body :: "GroupUpdate \<Rightarrow> GroupUpdate option" where
  "GroupUpdate_body b =
     (if (case gu_name b of Some (Some s) \<Rightarrow> group_name_ok s | _ \<Rightarrow> True) \<and> (case gu_description b of Some s \<Rightarrow> max_opt 255 s | None \<Rightarrow> True) \<and>
         (case gu_device_admin_privilege b of Some v \<Rightarrow> privilege_ok v | None \<Rightarrow> True)
      then (case gu_device_admin_attributes b of
              Some (Some ls) \<Rightarrow>
                if length ls > 50 then None
                else (case service_lines ls of Inl _ \<Rightarrow> None | Inr ls' \<Rightarrow> Some (b\<lparr>gu_device_admin_attributes := Some (Some ls')\<rparr>))
            | _ \<Rightarrow> Some b)
      else None)"

definition members :: "db \<Rightarrow> nat \<Rightarrow> nat" where
  "members d i = length (filter (\<lambda>x. usr_group_id x = Some i) (users d))"

definition group_out :: "db \<Rightarrow> Group \<Rightarrow> GroupOut" where
  "group_out d g =
     \<lparr>go_id = grp_id g, go_name = grp_name g, go_description = grp_description g, go_device_admin_privilege = grp_device_admin_privilege g,
      go_command_set_id = grp_command_set_id g, go_device_admin_attributes = grp_device_admin_attributes g,
      go_members = members d (grp_id g)\<rparr>"

text \<open>Stored conditions are the output of \<open>dump_conditions\<close>: objects, with a list of texts for a group.\<close>

fun names_group :: "pystr \<Rightarrow> json \<Rightarrow> bool" where
  "names_group name (JObj cond) \<longleftrightarrow>
     dict_get cond (u ''type'') = JStr (u ''group'') \<and>
     (case dict_get cond (u ''value'') of
        JArr vs \<Rightarrow> list_ex (\<lambda>v. case v of JStr s \<Rightarrow> casefold s = casefold name | _ \<Rightarrow> False) vs
      | _ \<Rightarrow> False)"
| "names_group name _ \<longleftrightarrow> False"

definition referencing_policies :: "db \<Rightarrow> pystr \<Rightarrow> pystr list" where
  "referencing_policies d name =
     map pol_name (filter (\<lambda>pol. case pol_conditions pol of JArr cs \<Rightarrow> list_ex (names_group name) cs | _ \<Rightarrow> False) (policies d))"

definition check_command_set :: "db \<Rightarrow> nat option \<Rightarrow> api_exc + unit" where
  "check_command_set d i =
     (case i of
        None \<Rightarrow> Inr ()
      | Some k \<Rightarrow> if row_get cs_id (command_sets d) k = None then Inl (api_error 422 (u ''command set does not exist'')) else Inr ())"

definition group_snapshot :: "Group \<Rightarrow> (pystr \<times> json) list" where
  "group_snapshot g =
     [(u ''name'', JStr (grp_name g)), (u ''description'', JStr (grp_description g)),
      (u ''device_admin_privilege'', opt_json JInt (grp_device_admin_privilege g)),
      (u ''command_set_id'', opt_json (JInt \<circ> int) (grp_command_set_id g)),
      (u ''device_admin_attributes'', JArr (map JStr (grp_device_admin_attributes g)))]"

definition list_groups :: "db \<Rightarrow> GroupOut list" where
  "list_groups d = map (group_out d) (sort_key grp_name (groups d))"

definition create_group :: "GroupIn \<Rightarrow> int \<Rightarrow> Principal \<Rightarrow> api_state \<Rightarrow> GroupOut route" where
  "create_group body now p st =
     (let d = ap_db st in
      case check_command_set d (gi_command_set_id body) of
        Inl e \<Rightarrow> (Inl e, st)
      | Inr _ \<Rightarrow>
          if gi_name body \<in> set (map grp_name (groups d)) then (Inl (api_error 409 (u ''group '' @ gi_name body @ u '' already exists'')), st)
          else
            (let g = \<lparr>grp_id = next_id grp_id (groups d), grp_name = gi_name body, grp_description = gi_description body,
                      grp_device_admin_privilege = gi_device_admin_privilege body, grp_command_set_id = gi_command_set_id body,
                      grp_device_admin_attributes = gi_device_admin_attributes body, grp_created_at = now, grp_updated_at = now\<rparr>;
                 d = d\<lparr>groups := groups d @ [g]\<rparr>
             in (Inr ((group_out d g)\<lparr>go_members := 0\<rparr>),
                 commit_with (trail_row p d (u ''group.create'') (u ''group'') (dec (grp_id g)) (grp_name g) (group_snapshot g) now) d st)))"

definition group_in_use :: "pystr list \<Rightarrow> api_exc" where
  "group_in_use refs = api_error 409 (u ''group is used by policies: '' @ join (u '', '') refs @ em_dash @ u ''update them first'')"

definition group_changed :: "GroupUpdate \<Rightarrow> Group \<Rightarrow> Group" where
  "group_changed b g =
     g\<lparr>grp_name := (case gu_name b of Some (Some v) \<Rightarrow> v | _ \<Rightarrow> grp_name g),
       grp_description := (case gu_description b of Some (Some v) \<Rightarrow> v | _ \<Rightarrow> grp_description g),
       grp_device_admin_privilege := (case gu_device_admin_privilege b of Some v \<Rightarrow> v | None \<Rightarrow> grp_device_admin_privilege g),
       grp_command_set_id := (case gu_command_set_id b of Some v \<Rightarrow> v | None \<Rightarrow> grp_command_set_id g),
       grp_device_admin_attributes := (case gu_device_admin_attributes b of Some (Some v) \<Rightarrow> v | _ \<Rightarrow> grp_device_admin_attributes g)\<rparr>"

text \<open>The commit fails on a name that is taken and on a description of \<open>null\<close>, with the same message.\<close>

definition patch_group :: "nat \<Rightarrow> GroupUpdate \<Rightarrow> int \<Rightarrow> Principal \<Rightarrow> api_state \<Rightarrow> GroupOut route" where
  "patch_group i body now p st =
     (let d = ap_db st in
      case rbind (get_or_404 grp_id (groups d) i (u ''group'')) (\<lambda>g.
           let refs = referencing_policies d (grp_name g) in
           if gu_name body \<noteq> None \<and> gu_name body \<noteq> Some (Some (grp_name g)) \<and> refs \<noteq> [] then Inl (group_in_use refs)
           else rbind (case gu_command_set_id body of None \<Rightarrow> Inr () | Some k \<Rightarrow> check_command_set d k) (\<lambda>_. Inr g)) of
        Inl e \<Rightarrow> (Inl e, st)
      | Inr g \<Rightarrow>
          (let g' = group_changed body g; new = (if g' = g then g else g'\<lparr>grp_updated_at := now\<rparr>) in
           if gu_description body = Some None \<or> grp_name new \<in> set (map grp_name (filter (\<lambda>h. grp_id h \<noteq> i) (groups d)))
           then (Inl (api_error 409 (u ''a group with that name already exists'')), st)
           else
             (let d = d\<lparr>groups := row_update grp_id i (\<lambda>_. new) (groups d)\<rparr>
              in (Inr (group_out d new),
                  commit_with (trail_row p d (u ''group.update'') (u ''group'') (dec i) (grp_name new)
                    (diff (group_snapshot g) (group_snapshot new) []) now) d st))))"

text \<open>Deleting a group leaves its users without one (\<open>ON DELETE SET NULL\<close>).\<close>

definition delete_group :: "nat \<Rightarrow> int \<Rightarrow> Principal \<Rightarrow> api_state \<Rightarrow> unit route" where
  "delete_group i now p st =
     (let d = ap_db st in
      case rbind (get_or_404 grp_id (groups d) i (u ''group'')) (\<lambda>g.
           let refs = referencing_policies d (grp_name g) in if refs \<noteq> [] then Inl (group_in_use refs) else Inr g) of
        Inl e \<Rightarrow> (Inl e, st)
      | Inr g \<Rightarrow>
          (let d = d\<lparr>groups := row_delete grp_id i (groups d),
                     users := map (\<lambda>x. if usr_group_id x = Some i then x\<lparr>usr_group_id := None\<rparr> else x) (users d)\<rparr>
           in (Inr (), reevaluate_later (u ''group '' @ grp_name g @ u '' deleted'')
                (commit_with (trail_row p d (u ''group.delete'') (u ''group'') (dec i) (grp_name g) [] now) d st))))"


section \<open>Searching is substring search\<close>

definition escaped :: "pystr \<Rightarrow> pystr" where
  "escaped s = concat (map (\<lambda>c. if c \<in> {92, 37, 95} then [92, c] else [c]) s)"

lemma escaped_simps [simp]: "escaped [] = []" "escaped (c # s) = (if c \<in> {92, 37, 95} then [92, c] else [c]) @ escaped s"
  by (simp_all add: escaped_def)

lemma like_any: "sql_like [37] t"
  by (induction t) auto

lemma like_percent: "sql_like (37 # ps) t \<longleftrightarrow> (\<exists>a b. t = a @ b \<and> sql_like ps b)"
proof (induction t)
  case (Cons c cs)
  have "sql_like (37 # ps) (c # cs) \<longleftrightarrow> sql_like ps (c # cs) \<or> sql_like (37 # ps) cs" by simp
  with Cons show ?case by (metis append_Cons append_Nil list.inject neq_Nil_conv)
qed simp

lemma like_literal: "sql_like (escaped q @ [37]) t \<longleftrightarrow> prefix q t"
proof (induction q arbitrary: t)
  case Nil
  show ?case by (simp add: like_any del: sql_like.simps)
next
  case (Cons c q)
  then show ?case by (cases t) auto
qed

lemma sql_lower_like: "sql_lower (like q) = 37 # escaped (sql_lower q) @ [37]"
proof -
  have "sql_lower (escaped q) = escaped (sql_lower q)"
    by (induction q) (auto simp: sql_lower_def)
  moreover have "like q = [37] @ escaped q @ [37]" by (simp only: like_def escaped_def)
  ultimately show ?thesis by (simp add: sql_lower_def)
qed

text \<open>A search finds exactly the texts that contain the term, whatever its characters, up to the case of
  ASCII letters.\<close>

theorem ilike_like_sublist: "ilike t (like q) \<longleftrightarrow> sublist (sql_lower q) (sql_lower t)"
  unfolding ilike_def sql_lower_like like_percent like_literal by (auto simp: sublist_def prefix_def)

section \<open>Device administrators\<close>

text \<open>The users a switch would let in: members of a group with a device-admin privilege.\<close>

definition is_device_admin :: "db \<Rightarrow> User \<Rightarrow> bool" where
  "is_device_admin d x \<longleftrightarrow>
     (case usr_group_id x of
        None \<Rightarrow> False
      | Some i \<Rightarrow> (case row_get grp_id (groups d) i of None \<Rightarrow> False | Some g \<Rightarrow> grp_device_admin_privilege g \<noteq> None))"

definition device_admins :: "db \<Rightarrow> User list" where
  "device_admins d = filter (is_device_admin d) (users d)"

datatype user_request = Create_User UserCreate | Patch_User nat UserUpdate | Delete_User nat

text \<open>The state after a request to one of the routes that change users, for a caller that passed
  \<open>require(OPERATOR)\<close>; a body that is not valid is refused before.\<close>

fun serve_user :: "api_env \<Rightarrow> int \<Rightarrow> Principal \<Rightarrow> user_request \<Rightarrow> api_state \<Rightarrow> api_state" where
  "serve_user env now p (Create_User b) st = (case UserCreate_body b of None \<Rightarrow> st | Some b' \<Rightarrow> snd (create_user env b' now p st))"
| "serve_user env now p (Patch_User i b) st = (if UserUpdate_ok b then snd (patch_user env i b now p st) else st)"
| "serve_user env now p (Delete_User i) st = snd (delete_user i now p st)"

lemma guard_ok:
  assumes "guard_device_admin p gs = Inr x" "\<not> allows (pr_role p) SUPERUSER" "Some g \<in> set gs"
  shows "grp_device_admin_privilege g = None"
  using assms by (auto simp: guard_device_admin_def list_ex_iff split: if_splits option.splits)

lemma find_group_guarded:
  assumes "find_group d i = Inr g" "guard_device_admin p gs = Inr x" "g \<in> set gs" "\<not> allows (pr_role p) SUPERUSER" "usr_group_id y = i"
  shows "\<not> is_device_admin d y"
  using assms(1,3,5) guard_ok [OF assms(2,4)]
  by (auto simp: find_group_def is_device_admin_def split: option.splits)

lemma is_device_admin_groups: "groups d' = groups d \<Longrightarrow> is_device_admin d' = is_device_admin d"
  by (rule ext) (simp add: is_device_admin_def split: option.split)

lemma device_admins_commit [simp]:
  "device_admins (ap_db (commit_with row d st)) = device_admins d" "ap_db (reevaluate_later r st) = ap_db st"
  by (simp_all add: device_admins_def commit_with_def audit_add_def reevaluate_later_def is_device_admin_groups [of "d\<lparr>audit_logs := _\<rparr>" d])

lemma device_admins_users:
  "device_admins (d\<lparr>users := xs\<rparr>) = filter (is_device_admin d) xs"
  using is_device_admin_groups [of "d\<lparr>users := xs\<rparr>" d] by (simp add: device_admins_def)

lemma filter_row_update:
  "distinct (map key rows) \<Longrightarrow> x \<in> set rows \<Longrightarrow> \<not> P x \<Longrightarrow> \<not> P y \<Longrightarrow> filter P (row_update key (key x) (\<lambda>_. y) rows) = filter P rows"
proof -
  assume a: "distinct (map key rows)" "x \<in> set rows" "\<not> P x" "\<not> P y"
  then have "z = x" if "z \<in> set rows" "key z = key x" for z using that by (auto simp: distinct_map dest: inj_onD)
  with a(3,4) have "\<forall>z\<in>set rows. key z = key x \<longrightarrow> \<not> P z" by blast
  with a(4) show ?thesis unfolding row_update_def by (induction rows) auto
qed

lemma filter_row_delete: "(\<And>z. z \<in> set rows \<Longrightarrow> key z = i \<Longrightarrow> \<not> P z) \<Longrightarrow> filter P (row_delete key i rows) = filter P rows"
  unfolding row_delete_def by (induction rows) auto

lemma get_or_404_ok: "get_or_404 key rows i what = Inr x \<longleftrightarrow> row_get key rows i = Some x"
  by (auto simp: get_or_404_def split: option.splits)

lemma create_user_device_admins:
  assumes "\<not> allows (pr_role p) SUPERUSER"
  shows "device_admins (ap_db (snd (create_user env b now p st))) \<in> {device_admins (ap_db st), device_admins (ap_db (ev_meanwhile env 0 st))}"
proof (cases "create_user env b now p st")
  case (Pair r st')
  show ?thesis
  proof (cases r)
    case (Inl e)
    with Pair show ?thesis by (auto simp: create_user_def Let_def split: sum.splits if_splits)
  next
    case (Inr x)
    let ?d = "ap_db (ev_meanwhile env 0 st)"
    from Pair Inr obtain g y row where g: "find_group ?d (uc_group_id b) = Inr g" "guard_device_admin p [g] = Inr ()"
      and st': "st' = commit_with row (?d\<lparr>users := users ?d @ [y]\<rparr>) (ev_meanwhile env 0 st)" "usr_group_id y = uc_group_id b"
      by (auto simp: create_user_def Let_def rbind_eq_Inr rbind_eq_Inl split: sum.splits if_splits)
    have "\<not> is_device_admin ?d y" by (rule find_group_guarded [OF g(1,2) _ assms st'(2)]) simp
    then show ?thesis by (simp add: Pair st'(1) device_admins_users) (simp add: device_admins_def)
  qed
qed


lemma touched_group: "usr_group_id (touched now x y) = usr_group_id y"
  by (simp add: touched_def)

lemma patch_user_device_admins:
  assumes "\<not> allows (pr_role p) SUPERUSER" "distinct (map usr_id (users (ap_db st)))" "distinct (map usr_id (users (ap_db (ev_meanwhile env 0 st))))"
  shows "device_admins (ap_db (snd (patch_user env i b now p st))) \<in> {device_admins (ap_db st), device_admins (ap_db (ev_meanwhile env 0 st))}"
proof (cases "patch_user env i b now p st")
  case (Pair r st')
  show ?thesis
  proof (cases r)
    case (Inl e)
    with Pair show ?thesis by (auto simp: patch_user_def save_user_def Let_def split: sum.splits if_splits)
  next
    case (Inr out)
    from Pair Inr obtain dig s d x current target where s: "s \<in> {st, ev_meanwhile env 0 st}" "d = ap_db s"
      and x: "row_get usr_id (users d) i = Some x" and cur: "find_group d (usr_group_id x) = Inr current"
      and tgt: "(case uu_group_id b of None \<Rightarrow> Inr current | Some g \<Rightarrow> find_group d g) = Inr target"
      and ok: "guard_device_admin p [current, target] = Inr ()" and save: "save_user b dig x target now p s = (Inr out, st')"
      by (auto simp: patch_user_def Let_def rbind_eq_Inr get_or_404_ok split: sum.splits if_splits) blast+
    define y where "y = touched now x (user_changed b dig x)"
    have grp: "usr_group_id y = (case uu_group_id b of None \<Rightarrow> usr_group_id x | Some g \<Rightarrow> g)"
      by (simp add: y_def touched_group user_changed_def)
    have "find_group d (usr_group_id y) = Inr target" using tgt cur by (auto simp: grp split: option.splits)
    then have "\<not> is_device_admin d y" by (rule find_group_guarded [OF _ ok _ assms(1)]) simp_all
    moreover have "\<not> is_device_admin d x" by (rule find_group_guarded [OF cur ok _ assms(1)]) simp_all
    moreover have "x \<in> set (users d)" "usr_id x = i" using row_get_Some [OF x] by auto
    moreover have "distinct (map usr_id (users d))" using s assms(2,3) by auto
    ultimately have "filter (is_device_admin d) (row_update usr_id (usr_id x) (\<lambda>_. y) (users d)) = filter (is_device_admin d) (users d)"
      using filter_row_update [of usr_id "users d" x "is_device_admin d" y] by simp
    then have "device_admins (ap_db st') = device_admins d"
      using save by (auto simp: save_user_def Let_def y_def [symmetric] s(2) [symmetric] device_admins_users) (auto simp: device_admins_def)
    with s Pair show ?thesis by auto
  qed
qed

lemma delete_user_device_admins:
  assumes "\<not> allows (pr_role p) SUPERUSER" "distinct (map usr_id (users (ap_db st)))"
  shows "device_admins (ap_db (snd (delete_user i now p st))) = device_admins (ap_db st)"
proof (cases "delete_user i now p st")
  case (Pair r st')
  show ?thesis
  proof (cases r)
    case (Inl e)
    with Pair show ?thesis by (auto simp: delete_user_def Let_def split: sum.splits)
  next
    case (Inr out)
    let ?d = "ap_db st"
    from Pair Inr obtain x g row where x: "row_get usr_id (users ?d) i = Some x" and g: "find_group ?d (usr_group_id x) = Inr g"
      and ok: "guard_device_admin p [g] = Inr ()"
      and st': "ap_db st' = ap_db (commit_with row (?d\<lparr>users := row_delete usr_id i (users ?d)\<rparr>) st)"
      by (auto simp: delete_user_def Let_def rbind_eq_Inr get_or_404_ok split: sum.splits)
    have "\<not> is_device_admin ?d x" by (rule find_group_guarded [OF g ok _ assms(1)]) simp_all
    moreover have "z = x" if "z \<in> set (users ?d)" "usr_id z = i" for z
      using that row_get_Some [OF x] assms(2) by (auto simp: distinct_map dest: inj_onD)
    ultimately have "filter (is_device_admin ?d) (row_delete usr_id i (users ?d)) = filter (is_device_admin ?d) (users ?d)"
      by (intro filter_row_delete) blast
    then show ?thesis by (simp add: Pair st' device_admins_users) (simp add: device_admins_def)
  qed
qed

text \<open>C9. Whatever request to create, change or delete a network user an administrator below SUPERUSER sends,
  the users in groups with a device-admin privilege, their passwords included, stay as they were (as
  they were when the request came, or after what other requests committed while a password was hashed).\<close>

theorem operators_leave_device_admins:
  assumes "\<not> allows (pr_role p) SUPERUSER" "distinct (map usr_id (users (ap_db st)))"
    "distinct (map usr_id (users (ap_db (ev_meanwhile env 0 st))))"
  shows "device_admins (ap_db (serve_user env now p r st)) \<in> {device_admins (ap_db st), device_admins (ap_db (ev_meanwhile env 0 st))}"
proof (cases r)
  case (Create_User b)
  then show ?thesis using create_user_device_admins [OF assms(1)] by (simp split: option.split)
next
  case (Patch_User i b)
  then show ?thesis using patch_user_device_admins [OF assms] by simp
next
  case (Delete_User i)
  then show ?thesis using delete_user_device_admins [OF assms(1,2)] by simp
qed

definition netops_group :: Group where
  "netops_group = \<lparr>grp_id = 3, grp_name = u ''netops'', grp_description = [], grp_device_admin_privilege = Some 15, grp_command_set_id = None,
     grp_device_admin_attributes = [], grp_created_at = 0, grp_updated_at = 0\<rparr>"

definition lab_users_state :: api_state where
  "lab_users_state = \<lparr>ap_db = empty_db\<lparr>groups := [netops_group], users := [(local_alice [])\<lparr>usr_group_id := Some 3\<rparr>]\<rparr>,
     ap_guesses = GuessGuard_default 3, ap_per_ip = None, ap_reeval = Reevaluator_init, ap_announced = []\<rparr>"

definition lab_operator :: Principal where
  "lab_operator = \<lparr>pr_kind = Session_Kind, pr_username = u ''op'', pr_role = OPERATOR, pr_admin_id = Some 1, pr_session_id = Some 1,
     pr_token_id = None, pr_csrf_token = [], pr_restricted = None, pr_ip = []\<rparr>"

definition quiet_env :: api_env where
  "quiet_env = \<lparr>ev_bcrypt = hex_bcrypt, ev_otp = (\<lambda>_ _. []), ev_tokens = ([], []), ev_totp_secret = [], ev_choice = id,
     ev_meanwhile = (\<lambda>k st. st)\<rparr>"

theorem operators_leave_device_admins_witness:
  "device_admins (ap_db (serve_user quiet_env 0 lab_operator (Delete_User 1) lab_users_state)) = [(local_alice [])\<lparr>usr_group_id := Some 3\<rparr>]"
proof -
  have "\<not> allows (pr_role lab_operator) SUPERUSER" by (simp add: lab_operator_def allows_def)
  moreover have "distinct (map usr_id (users (ap_db lab_users_state)))" "ev_meanwhile quiet_env 0 lab_users_state = lab_users_state"
    by (simp_all add: lab_users_state_def quiet_env_def)
  moreover have "device_admins (ap_db lab_users_state) = [(local_alice [])\<lparr>usr_group_id := Some 3\<rparr>]"
    by (simp add: device_admins_def lab_users_state_def is_device_admin_def row_get_def netops_group_def)
  ultimately show ?thesis using operators_leave_device_admins [of lab_operator lab_users_state quiet_env 0 "Delete_User 1"] by auto
qed


end
