(* ===== verification/NetworkApi.thy ===== *)
theory NetworkApi
  imports UsersApi Coa
begin

text \<open>
  RADIUS clients, TACACS+ clients and command sets: \<open>naco/api/routes/network.py\<close>.  The configured minimum length of
  a shared secret is an argument.  In an update a field is \<open>None\<close> when it was not sent or sent as \<open>null\<close>: the
  routes treat both alike.
\<close>

section \<open>Validators\<close>

definition secret_field :: "nat \<Rightarrow> pystr \<Rightarrow> bool" where
  "secret_field minimum value \<longleftrightarrow> length value \<le> 128 \<and> minimum \<le> length value \<and> list_all (\<lambda>c. 0x21 \<le> c \<and> c \<le> 0x7E) value"

definition client_address_field :: "pystr \<Rightarrow> pystr option" where
  "client_address_field v = (case parse_client_address (Some v) of Inl _ \<Rightarrow> None | Inr a \<Rightarrow> Some a)"

text \<open>An optional field: left out, or checked.\<close>

definition optional :: "('a \<Rightarrow> 'b option) \<Rightarrow> 'a option \<Rightarrow> 'b option option" where
  "optional f x = (case x of None \<Rightarrow> Some None | Some v \<Rightarrow> map_option Some (f v))"

definition holds_opt :: "('a \<Rightarrow> bool) \<Rightarrow> 'a option \<Rightarrow> bool" where
  "holds_opt ok x = (case x of None \<Rightarrow> True | Some v \<Rightarrow> ok v)"

definition if_sent :: "'a option \<Rightarrow> 'a \<Rightarrow> 'a" where
  "if_sent x old = (case x of None \<Rightarrow> old | Some v \<Rightarrow> v)"

definition port_ok :: "nat \<Rightarrow> bool" where
  "port_ok n \<longleftrightarrow> 1 \<le> n \<and> n \<le> 65535"

section \<open>RADIUS clients\<close>

record NasOut =
  no_id :: nat
  no_name :: pystr
  no_ip_address :: pystr
  no_vendor :: pystr
  no_coa_port :: nat
  no_require_message_authenticator :: bool
  no_description :: pystr
  no_enabled :: bool
  no_created_at :: int

record NasIn =
  ni_name :: pystr
  ni_ip_address :: pystr
  ni_secret :: pystr
  ni_vendor :: pystr
  ni_coa_port :: "nat option"
  ni_require_message_authenticator :: bool
  ni_description :: pystr
  ni_enabled :: bool

record NasUpdate =
  nu_name :: "pystr option"
  nu_ip_address :: "pystr option"
  nu_secret :: "pystr option"
  nu_vendor :: "pystr option"
  nu_coa_port :: "nat option"
  nu_require_message_authenticator :: "bool option"
  nu_description :: "pystr option"
  nu_enabled :: "bool option"

definition known_vendor :: "pystr \<Rightarrow> bool" where
  "known_vendor v \<longleftrightarrow> v \<in> set (map fst VENDORS)"

definition NasIn_body :: "nat \<Rightarrow> NasIn \<Rightarrow> NasIn option" where
  "NasIn_body minimum b =
     (if group_name_ok (ni_name b) \<and> secret_field minimum (ni_secret b) \<and> known_vendor (ni_vendor b) \<and>
         holds_opt port_ok (ni_coa_port b) \<and> length (ni_description b) \<le> 255
      then map_option (\<lambda>a. b\<lparr>ni_ip_address := a\<rparr>) (client_address_field (ni_ip_address b)) else None)"

definition NasUpdate_body :: "nat \<Rightarrow> NasUpdate \<Rightarrow> NasUpdate option" where
  "NasUpdate_body minimum b =
     (if holds_opt group_name_ok (nu_name b) \<and> holds_opt (secret_field minimum) (nu_secret b) \<and> holds_opt known_vendor (nu_vendor b) \<and>
         holds_opt port_ok (nu_coa_port b) \<and> max_opt 255 (nu_description b)
      then map_option (\<lambda>a. b\<lparr>nu_ip_address := a\<rparr>) (optional client_address_field (nu_ip_address b)) else None)"

definition nas_snapshot :: "NasClient \<Rightarrow> (pystr \<times> json) list" where
  "nas_snapshot n =
     [(u ''name'', JStr (nas_name n)), (u ''ip_address'', JStr (nas_ip_address n)), (u ''vendor'', JStr (nas_vendor n)),
      (u ''coa_port'', JInt (int (nas_coa_port n))),
      (u ''require_message_authenticator'', JBool (nas_require_message_authenticator n)),
      (u ''description'', JStr (nas_description n)), (u ''enabled'', JBool (nas_enabled n))]"

definition nas_out :: "NasClient \<Rightarrow> NasOut" where
  "nas_out n =
     \<lparr>no_id = nas_id n, no_name = nas_name n, no_ip_address = nas_ip_address n, no_vendor = nas_vendor n, no_coa_port = nas_coa_port n,
      no_require_message_authenticator = nas_require_message_authenticator n, no_description = nas_description n,
      no_enabled = nas_enabled n, no_created_at = nas_created_at n\<rparr>"

definition list_vendors :: "(pystr \<times> pystr \<times> nat) list" where
  "list_vendors = map (\<lambda>(k, v). (k, vn_label v, vn_coa_port v)) VENDORS"

definition list_nas :: "db \<Rightarrow> NasOut list" where
  "list_nas d = map nas_out (sort_key nas_name (nas_clients d))"

definition nas_conflict :: api_exc where
  "nas_conflict = api_error 409 (u ''a NAS with that name or address already exists'')"

text \<open>The unique columns: no other row has this name or this address.\<close>

definition nas_taken :: "NasClient \<Rightarrow> NasClient list \<Rightarrow> bool" where
  "nas_taken n rows \<longleftrightarrow> list_ex (\<lambda>m. nas_id m \<noteq> nas_id n \<and> (nas_name m = nas_name n \<or> nas_ip_address m = nas_ip_address n)) rows"

definition new_nas :: "nat \<Rightarrow> NasIn \<Rightarrow> int \<Rightarrow> NasClient" where
  "new_nas i b now =
     \<lparr>nas_id = i, nas_name = ni_name b, nas_ip_address = ni_ip_address b, nas_secret = ni_secret b,
      nas_coa_port = (case ni_coa_port b of Some port \<Rightarrow> port | None \<Rightarrow> vn_coa_port (vendor (Some (ni_vendor b)))),
      nas_vendor = ni_vendor b, nas_require_message_authenticator = ni_require_message_authenticator b,
      nas_description = ni_description b, nas_enabled = ni_enabled b, nas_created_at = now, nas_updated_at = now\<rparr>"

definition create_nas :: "NasIn \<Rightarrow> int \<Rightarrow> Principal \<Rightarrow> api_state \<Rightarrow> NasOut route" where
  "create_nas b now p st =
     (let d = ap_db st;
          n = new_nas (next_id nas_id (nas_clients d)) b now
      in if nas_taken n (nas_clients d) then (Inl nas_conflict, st)
         else
           (let d = d\<lparr>nas_clients := nas_clients d @ [n]\<rparr>
            in (Inr (nas_out n),
                commit_with (trail_row p d (u ''nas.create'') (u ''nas'') (dec (nas_id n)) (nas_name n)
                  (nas_snapshot n @ [(u ''secret'', MASK)]) now) d st)))"

text \<open>The attributes that \<open>update_nas\<close> sets.\<close>

definition nas_changed :: "NasUpdate \<Rightarrow> NasClient \<Rightarrow> NasClient" where
  "nas_changed b n =
     n\<lparr>nas_name := if_sent (nu_name b) (nas_name n), nas_ip_address := if_sent (nu_ip_address b) (nas_ip_address n),
       nas_secret := if_sent (nu_secret b) (nas_secret n), nas_vendor := if_sent (nu_vendor b) (nas_vendor n),
       nas_coa_port := if_sent (nu_coa_port b) (nas_coa_port n),
       nas_require_message_authenticator := if_sent (nu_require_message_authenticator b) (nas_require_message_authenticator n),
       nas_description := if_sent (nu_description b) (nas_description n), nas_enabled := if_sent (nu_enabled b) (nas_enabled n)\<rparr>"

definition update_nas :: "nat \<Rightarrow> NasUpdate \<Rightarrow> int \<Rightarrow> Principal \<Rightarrow> api_state \<Rightarrow> NasOut route" where
  "update_nas i b now p st =
     (let d = ap_db st in
      case get_or_404 nas_id (nas_clients d) i (u ''NAS'') of
        Inl e \<Rightarrow> (Inl e, st)
      | Inr n \<Rightarrow>
          (let n' = nas_changed b n; new = (if n' = n then n else n'\<lparr>nas_updated_at := now\<rparr>);
               delta = diff (nas_snapshot n) (nas_snapshot new) [] @ (if nu_secret b \<noteq> None then [(u ''secret'', JArr [MASK, MASK])] else []) in
           if nas_taken new (nas_clients d) then (Inl nas_conflict, st)
           else
             (let d = d\<lparr>nas_clients := row_update nas_id i (\<lambda>_. new) (nas_clients d)\<rparr>
              in (Inr (nas_out new), commit_with (trail_row p d (u ''nas.update'') (u ''nas'') (dec i) (nas_name new) delta now) d st))))"

definition reveal_nas_secret :: "nat \<Rightarrow> int \<Rightarrow> Principal \<Rightarrow> api_state \<Rightarrow> pystr route" where
  "reveal_nas_secret i now p st =
     (let d = ap_db st in
      case get_or_404 nas_id (nas_clients d) i (u ''NAS'') of
        Inl e \<Rightarrow> (Inl e, st)
      | Inr n \<Rightarrow> (Inr (nas_secret n), commit_with (trail_row p d (u ''nas.secret_viewed'') (u ''nas'') (dec i) (nas_name n) [] now) d st))"

definition delete_nas :: "nat \<Rightarrow> int \<Rightarrow> Principal \<Rightarrow> api_state \<Rightarrow> unit route" where
  "delete_nas i now p st =
     (let d = ap_db st in
      case get_or_404 nas_id (nas_clients d) i (u ''NAS'') of
        Inl e \<Rightarrow> (Inl e, st)
      | Inr n \<Rightarrow>
          (let d = d\<lparr>nas_clients := row_delete nas_id i (nas_clients d)\<rparr>
           in (Inr (), commit_with (trail_row p d (u ''nas.delete'') (u ''nas'') (dec i) (nas_name n) [] now) d st)))"

section \<open>TACACS+ clients\<close>

record TacacsOut =
  to_id :: nat
  to_name :: pystr
  to_ip_address :: pystr
  to_description :: pystr
  to_enabled :: bool
  to_created_at :: int

record TacacsIn =
  ti_name :: pystr
  ti_ip_address :: pystr
  ti_key :: pystr
  ti_description :: pystr
  ti_enabled :: bool

record TacacsUpdate =
  tu_name :: "pystr option"
  tu_ip_address :: "pystr option"
  tu_key :: "pystr option"
  tu_description :: "pystr option"
  tu_enabled :: "bool option"

definition TacacsIn_body :: "nat \<Rightarrow> TacacsIn \<Rightarrow> TacacsIn option" where
  "TacacsIn_body minimum b =
     (if group_name_ok (ti_name b) \<and> secret_field minimum (ti_key b) \<and> length (ti_description b) \<le> 255
      then map_option (\<lambda>a. b\<lparr>ti_ip_address := a\<rparr>) (parse_ip (Some (ti_ip_address b))) else None)"

definition TacacsUpdate_body :: "nat \<Rightarrow> TacacsUpdate \<Rightarrow> TacacsUpdate option" where
  "TacacsUpdate_body minimum b =
     (if holds_opt group_name_ok (tu_name b) \<and> holds_opt (secret_field minimum) (tu_key b) \<and> max_opt 255 (tu_description b)
      then map_option (\<lambda>a. b\<lparr>tu_ip_address := a\<rparr>) (optional (\<lambda>v. parse_ip (Some v)) (tu_ip_address b)) else None)"

definition tac_snapshot :: "TacacsClient \<Rightarrow> (pystr \<times> json) list" where
  "tac_snapshot t =
     [(u ''name'', JStr (tc_name t)), (u ''ip_address'', JStr (tc_ip_address t)), (u ''description'', JStr (tc_description t)),
      (u ''enabled'', JBool (tc_enabled t))]"

definition tac_out :: "TacacsClient \<Rightarrow> TacacsOut" where
  "tac_out t =
     \<lparr>to_id = tc_id t, to_name = tc_name t, to_ip_address = tc_ip_address t, to_description = tc_description t,
      to_enabled = tc_enabled t, to_created_at = tc_created_at t\<rparr>"

definition list_tacacs :: "db \<Rightarrow> TacacsOut list" where
  "list_tacacs d = map tac_out (sort_key tc_name (tacacs_clients d))"

definition tac_conflict :: api_exc where
  "tac_conflict = api_error 409 (u ''a TACACS+ client with that name or address already exists'')"

definition tac_taken :: "TacacsClient \<Rightarrow> TacacsClient list \<Rightarrow> bool" where
  "tac_taken t rows \<longleftrightarrow> list_ex (\<lambda>m. tc_id m \<noteq> tc_id t \<and> (tc_name m = tc_name t \<or> tc_ip_address m = tc_ip_address t)) rows"

definition new_tacacs :: "nat \<Rightarrow> TacacsIn \<Rightarrow> int \<Rightarrow> TacacsClient" where
  "new_tacacs i b now =
     \<lparr>tc_id = i, tc_name = ti_name b, tc_ip_address = ti_ip_address b, tc_key = ti_key b,
      tc_description = ti_description b, tc_enabled = ti_enabled b, tc_created_at = now, tc_updated_at = now\<rparr>"

definition create_tacacs :: "TacacsIn \<Rightarrow> int \<Rightarrow> Principal \<Rightarrow> api_state \<Rightarrow> TacacsOut route" where
  "create_tacacs b now p st =
     (let d = ap_db st;
          t = new_tacacs (next_id tc_id (tacacs_clients d)) b now
      in if tac_taken t (tacacs_clients d) then (Inl tac_conflict, st)
         else
           (let d = d\<lparr>tacacs_clients := tacacs_clients d @ [t]\<rparr>
            in (Inr (tac_out t),
                commit_with (trail_row p d (u ''tacacs_client.create'') (u ''tacacs_client'') (dec (tc_id t)) (tc_name t)
                  (tac_snapshot t @ [(u ''key'', MASK)]) now) d st)))"

definition tac_changed :: "TacacsUpdate \<Rightarrow> TacacsClient \<Rightarrow> TacacsClient" where
  "tac_changed b t =
     t\<lparr>tc_name := if_sent (tu_name b) (tc_name t), tc_ip_address := if_sent (tu_ip_address b) (tc_ip_address t),
       tc_key := if_sent (tu_key b) (tc_key t), tc_description := if_sent (tu_description b) (tc_description t),
       tc_enabled := if_sent (tu_enabled b) (tc_enabled t)\<rparr>"

definition update_tacacs :: "nat \<Rightarrow> TacacsUpdate \<Rightarrow> int \<Rightarrow> Principal \<Rightarrow> api_state \<Rightarrow> TacacsOut route" where
  "update_tacacs i b now p st =
     (let d = ap_db st in
      case get_or_404 tc_id (tacacs_clients d) i (u ''TACACS+ client'') of
        Inl e \<Rightarrow> (Inl e, st)
      | Inr t \<Rightarrow>
          (let t' = tac_changed b t; new = (if t' = t then t else t'\<lparr>tc_updated_at := now\<rparr>);
               delta = diff (tac_snapshot t) (tac_snapshot new) [] @ (if tu_key b \<noteq> None then [(u ''key'', JArr [MASK, MASK])] else []) in
           if tac_taken new (tacacs_clients d) then (Inl tac_conflict, st)
           else
             (let d = d\<lparr>tacacs_clients := row_update tc_id i (\<lambda>_. new) (tacacs_clients d)\<rparr>
              in (Inr (tac_out new),
                  commit_with (trail_row p d (u ''tacacs_client.update'') (u ''tacacs_client'') (dec i) (tc_name new) delta now) d st))))"

definition reveal_tacacs_key :: "nat \<Rightarrow> int \<Rightarrow> Principal \<Rightarrow> api_state \<Rightarrow> pystr route" where
  "reveal_tacacs_key i now p st =
     (let d = ap_db st in
      case get_or_404 tc_id (tacacs_clients d) i (u ''TACACS+ client'') of
        Inl e \<Rightarrow> (Inl e, st)
      | Inr t \<Rightarrow>
          (Inr (tc_key t),
           commit_with (trail_row p d (u ''tacacs_client.key_viewed'') (u ''tacacs_client'') (dec i) (tc_name t) [] now) d st))"

definition delete_tacacs :: "nat \<Rightarrow> int \<Rightarrow> Principal \<Rightarrow> api_state \<Rightarrow> unit route" where
  "delete_tacacs i now p st =
     (let d = ap_db st in
      case get_or_404 tc_id (tacacs_clients d) i (u ''TACACS+ client'') of
        Inl e \<Rightarrow> (Inl e, st)
      | Inr t \<Rightarrow>
          (let d = d\<lparr>tacacs_clients := row_delete tc_id i (tacacs_clients d)\<rparr>
           in (Inr (), commit_with (trail_row p d (u ''tacacs_client.delete'') (u ''tacacs_client'') (dec i) (tc_name t) [] now) d st)))"


section \<open>Command sets\<close>

type_synonym RuleIO = "CommandAction \<times> pystr"

text \<open>\<open>RuleIO\<close> with its validator \<open>_printable\<close>.\<close>

definition RuleIO_field :: "RuleIO \<Rightarrow> RuleIO option" where
  "RuleIO_field r =
     (if 1 \<le> length (snd r) \<and> length (snd r) \<le> 256 then
        (let v = join [32] (words (snd r))
         in if v = [] \<or> list_ex (\<lambda>c. c < 0x20) v then None else Some (fst r, v))
      else None)"

record CommandSetOut =
  co_id :: nat
  co_name :: pystr
  co_description :: pystr
  co_default_action :: CommandAction
  co_rules :: "RuleIO list"
  co_groups :: nat

record CommandSetIn =
  ci_name :: pystr
  ci_description :: pystr
  ci_default_action :: CommandAction
  ci_rules :: "RuleIO list"

record CommandSetUpdate =
  cu_name :: "pystr option"
  cu_description :: "pystr option"
  cu_default_action :: "CommandAction option"
  cu_rules :: "RuleIO list option"

fun rule_fields :: "RuleIO list \<Rightarrow> RuleIO list option" where
  "rule_fields [] = Some []"
| "rule_fields (r # rs) = (case RuleIO_field r of None \<Rightarrow> None | Some r' \<Rightarrow> map_option ((#) r') (rule_fields rs))"

definition CommandSetIn_body :: "CommandSetIn \<Rightarrow> CommandSetIn option" where
  "CommandSetIn_body b =
     (if group_name_ok (ci_name b) \<and> length (ci_description b) \<le> 255 \<and> length (ci_rules b) \<le> 500
      then map_option (\<lambda>rs. b\<lparr>ci_rules := rs\<rparr>) (rule_fields (ci_rules b)) else None)"

definition CommandSetUpdate_body :: "CommandSetUpdate \<Rightarrow> CommandSetUpdate option" where
  "CommandSetUpdate_body b =
     (if holds_opt group_name_ok (cu_name b) \<and> max_opt 255 (cu_description b) \<and> holds_opt (\<lambda>rs. length rs \<le> 500) (cu_rules b)
      then map_option (\<lambda>rs. b\<lparr>cu_rules := rs\<rparr>) (optional rule_fields (cu_rules b)) else None)"

text \<open>The rules of a set, as the relationship loads them.\<close>

definition set_rules :: "db \<Rightarrow> nat \<Rightarrow> RuleIO list" where
  "set_rules d i = map (\<lambda>r. (cr_action r, cr_pattern r)) (stored_rules d i)"

definition cs_out :: "db \<Rightarrow> CommandSet \<Rightarrow> CommandSetOut" where
  "cs_out d cs =
     \<lparr>co_id = cs_id cs, co_name = cs_name cs, co_description = cs_description cs, co_default_action = cs_default_action cs,
      co_rules = set_rules d (cs_id cs), co_groups = length (filter (\<lambda>g. grp_command_set_id g = Some (cs_id cs)) (groups d))\<rparr>"

fun CommandAction_value :: "CommandAction \<Rightarrow> pystr" where
  "CommandAction_value CMD_PERMIT = u ''PERMIT''"
| "CommandAction_value CMD_DENY = u ''DENY''"

definition rules_snapshot :: "RuleIO list \<Rightarrow> json" where
  "rules_snapshot rules = JArr (map (\<lambda>(action, pattern). JStr (CommandAction_value action @ [32] @ pattern)) rules)"

definition cs_snapshot :: "CommandSet \<Rightarrow> RuleIO list \<Rightarrow> (pystr \<times> json) list" where
  "cs_snapshot cs rules =
     [(u ''name'', JStr (cs_name cs)), (u ''description'', JStr (cs_description cs)),
      (u ''default_action'', JStr (CommandAction_value (cs_default_action cs))), (u ''rules'', rules_snapshot rules)]"

definition list_command_sets :: "db \<Rightarrow> CommandSetOut list" where
  "list_command_sets d = map (cs_out d) (sort_key cs_name (command_sets d))"

text \<open>\<open>CommandRule(position=i, ...) for i, r in enumerate(rules)\<close>, with the keys the insert gives them.\<close>

definition new_rules :: "nat \<Rightarrow> nat \<Rightarrow> RuleIO list \<Rightarrow> CommandRule list" where
  "new_rules first set_id rules =
     map (\<lambda>(i, action, pattern). \<lparr>cr_id = first + i, cr_command_set_id = set_id, cr_position = int i, cr_action = action, cr_pattern = pattern\<rparr>)
       (enumerate 0 rules)"

definition create_command_set :: "CommandSetIn \<Rightarrow> int \<Rightarrow> Principal \<Rightarrow> api_state \<Rightarrow> CommandSetOut route" where
  "create_command_set b now p st =
     (let d = ap_db st in
      if ci_name b \<in> set (map cs_name (command_sets d)) then (Inl (api_error 409 (u ''command set '' @ ci_name b @ u '' already exists'')), st)
      else
        (let cs = \<lparr>cs_id = next_id cs_id (command_sets d), cs_name = ci_name b, cs_description = ci_description b,
                   cs_default_action = ci_default_action b, cs_created_at = now, cs_updated_at = now\<rparr>;
             d = d\<lparr>command_sets := command_sets d @ [cs],
                   command_rules := command_rules d @ new_rules (next_id cr_id (command_rules d)) (cs_id cs) (ci_rules b)\<rparr>
         in (Inr (cs_out d cs),
             commit_with (trail_row p d (u ''command_set.create'') (u ''command_set'') (dec (cs_id cs)) (cs_name cs)
               [(u ''default_action'', JStr (CommandAction_value (cs_default_action cs))), (u ''rules'', rules_snapshot (ci_rules b))] now) d st)))"

definition cs_changed :: "CommandSetUpdate \<Rightarrow> CommandSet \<Rightarrow> CommandSet" where
  "cs_changed b cs =
     cs\<lparr>cs_name := if_sent (cu_name b) (cs_name cs), cs_description := if_sent (cu_description b) (cs_description cs),
        cs_default_action := if_sent (cu_default_action b) (cs_default_action cs)\<rparr>"

text \<open>Assigning \<open>cs.rules\<close>: the new rows are inserted, then the orphans deleted.\<close>

definition replace_rules :: "nat \<Rightarrow> RuleIO list option \<Rightarrow> CommandRule list \<Rightarrow> CommandRule list" where
  "replace_rules i rules rows =
     (case rules of
        None \<Rightarrow> rows
      | Some rs \<Rightarrow> filter (\<lambda>r. cr_command_set_id r \<noteq> i) rows @ new_rules (next_id cr_id rows) i rs)"

definition update_command_set :: "nat \<Rightarrow> CommandSetUpdate \<Rightarrow> int \<Rightarrow> Principal \<Rightarrow> api_state \<Rightarrow> CommandSetOut route" where
  "update_command_set i b now p st =
     (let d = ap_db st in
      case get_or_404 cs_id (command_sets d) i (u ''command set'') of
        Inl e \<Rightarrow> (Inl e, st)
      | Inr cs \<Rightarrow>
          (let cs' = cs_changed b cs; new = (if cs' = cs then cs else cs'\<lparr>cs_updated_at := now\<rparr>);
               delta = diff (cs_snapshot cs (set_rules d i)) (cs_snapshot new (if_sent (cu_rules b) (set_rules d i))) [] in
           if cs_name new \<in> set (map cs_name (filter (\<lambda>c. cs_id c \<noteq> i) (command_sets d)))
           then (Inl (api_error 409 (u ''a command set with that name already exists'')), st)
           else
             (let d = d\<lparr>command_sets := row_update cs_id i (\<lambda>_. new) (command_sets d),
                        command_rules := replace_rules i (cu_rules b) (command_rules d)\<rparr>
              in (Inr (cs_out d new),
                  commit_with (trail_row p d (u ''command_set.update'') (u ''command_set'') (dec i) (cs_name new) delta now) d st))))"

text \<open>The rules go with their set: the foreign key says \<open>ON DELETE CASCADE\<close>.\<close>

definition delete_command_set :: "nat \<Rightarrow> int \<Rightarrow> Principal \<Rightarrow> api_state \<Rightarrow> unit route" where
  "delete_command_set i now p st =
     (let d = ap_db st in
      case get_or_404 cs_id (command_sets d) i (u ''command set'') of
        Inl e \<Rightarrow> (Inl e, st)
      | Inr cs \<Rightarrow>
          (let used = map grp_name (filter (\<lambda>g. grp_command_set_id g = Some i) (groups d)) in
           if used \<noteq> [] then (Inl (api_error 409 (u ''command set is used by groups: '' @ join (u '', '') used)), st)
           else
             (let d = d\<lparr>command_sets := row_delete cs_id i (command_sets d),
                        command_rules := filter (\<lambda>r. cr_command_set_id r \<noteq> i) (command_rules d)\<rparr>
              in (Inr (), commit_with (trail_row p d (u ''command_set.delete'') (u ''command_set'') (dec i) (cs_name cs) [] now) d st))))"


section \<open>Command sets as devices see them\<close>

text \<open>
  The sets as a map from their keys to what the TACACS+ server loads, and the effect of a request on it.  Rules
  belong to a set that exists, and so does every set a group names: \<open>load_command_set\<close> gives \<open>None\<close> for a missing
  set, which allows every command.
\<close>

definition loaded_sets :: "db \<Rightarrow> nat \<Rightarrow> CompiledCommandSet option" where
  "loaded_sets d i = load_command_set d (Some i)"

definition sets_ok :: "db \<Rightarrow> bool" where
  "sets_ok d \<longleftrightarrow> cr_command_set_id ` set (command_rules d) \<subseteq> cs_id ` set (command_sets d) \<and>
     (\<forall>g\<in>set (groups d). \<forall>k. grp_command_set_id g = Some k \<longrightarrow> k \<in> cs_id ` set (command_sets d))"

datatype set_request = Create_Set CommandSetIn | Update_Set nat CommandSetUpdate | Delete_Set nat
  | Create_Group GroupIn | Update_Group nat GroupUpdate | Delete_Group nat

fun serve_set :: "int \<Rightarrow> Principal \<Rightarrow> set_request \<Rightarrow> api_state \<Rightarrow> unit route" where
  "serve_set now p (Create_Set b) st = apfst (map_sum id (\<lambda>_. ())) (create_command_set b now p st)"
| "serve_set now p (Update_Set i b) st = apfst (map_sum id (\<lambda>_. ())) (update_command_set i b now p st)"
| "serve_set now p (Delete_Set i) st = delete_command_set i now p st"
| "serve_set now p (Create_Group b) st = apfst (map_sum id (\<lambda>_. ())) (create_group b now p st)"
| "serve_set now p (Update_Group i b) st = apfst (map_sum id (\<lambda>_. ())) (patch_group i b now p st)"
| "serve_set now p (Delete_Group i) st = delete_group i now p st"

fun set_effect :: "nat \<Rightarrow> set_request \<Rightarrow> (nat \<Rightarrow> CompiledCommandSet option) \<Rightarrow> nat \<Rightarrow> CompiledCommandSet option" where
  "set_effect new (Create_Set b) m = m(new \<mapsto> \<lparr>ccs_name = ci_name b, ccs_default = ci_default_action b, ccs_rules = ci_rules b\<rparr>)"
| "set_effect new (Update_Set i b) m =
     m(i := map_option (\<lambda>c. \<lparr>ccs_name = if_sent (cu_name b) (ccs_name c), ccs_default = if_sent (cu_default_action b) (ccs_default c),
        ccs_rules = if_sent (cu_rules b) (ccs_rules c)\<rparr>) (m i))"
| "set_effect new (Delete_Set i) m = m(i := None)"
| "set_effect new _ m = m"

lemma ap_db_simps [simp]: "ap_db (commit_with row d st) = audit_add row d" "ap_db (reevaluate_later why st) = ap_db st"
  by (simp_all add: commit_with_def reevaluate_later_def)

lemma audit_add_simps [simp]:
  "command_sets (audit_add row d) = command_sets d" "command_rules (audit_add row d) = command_rules d"
  "groups (audit_add row d) = groups d" "nas_clients (audit_add row d) = nas_clients d"
  "tacacs_clients (audit_add row d) = tacacs_clients d" "audit_logs (audit_add row d) = audit_logs d @ [row]"
  by (simp_all add: audit_add_def)

lemma loaded_sets_eq:
  "loaded_sets d i =
     map_option (\<lambda>cs. \<lparr>ccs_name = cs_name cs, ccs_default = cs_default_action cs, ccs_rules = set_rules d i\<rparr>) (row_get cs_id (command_sets d) i)"
proof (cases "row_get cs_id (command_sets d) i")
  case (Some cs)
  with row_get_Some [OF Some] show ?thesis
    by (simp add: loaded_sets_def load_command_set_def set_rules_def stored_rules_def row_get_def)
qed (simp add: loaded_sets_def load_command_set_def row_get_def)

lemma sorted_new_rules: "sorted (map cr_position (new_rules first i rules))"
  by (auto simp: new_rules_def sorted_iff_nth_mono nth_enumerate_eq split: prod.splits)

lemma new_rules_set [simp]: "r \<in> set (new_rules first i rules) \<Longrightarrow> cr_command_set_id r = i"
  by (auto simp: new_rules_def)

lemma new_rules_contents [simp]: "map (\<lambda>r. (cr_action r, cr_pattern r)) (new_rules first i rules) = rules"
  by (simp add: new_rules_def comp_def case_prod_unfold)

lemma set_rules_cong: "filter (\<lambda>r. cr_command_set_id r = i) (command_rules d) = filter (\<lambda>r. cr_command_set_id r = i) (command_rules d') \<Longrightarrow>
    set_rules d i = set_rules d' i"
  by (simp add: set_rules_def stored_rules_def)

lemma set_rules_new:
  assumes "command_rules d' = rows @ new_rules first i rules" "\<forall>r\<in>set rows. cr_command_set_id r \<noteq> i"
    "\<And>j. j \<noteq> i \<Longrightarrow> filter (\<lambda>r. cr_command_set_id r = j) (command_rules d) = filter (\<lambda>r. cr_command_set_id r = j) rows"
  shows "set_rules d' j = (if j = i then rules else set_rules d j)"
proof (cases "j = i")
  case True
  have "filter (\<lambda>r. cr_command_set_id r = i) (command_rules d') = new_rules first i rules"
    using assms by (simp add: filter_id_conv filter_empty_conv)
  with True sorted_new_rules [of first i rules] show ?thesis
    by (simp add: set_rules_def stored_rules_def sort_key_id_if_sorted)
next
  case False
  then have "filter (\<lambda>r. cr_command_set_id r = j) (new_rules first i rules) = []" by (auto simp: filter_empty_conv)
  with False assms show ?thesis by (simp add: set_rules_cong [of j d' d])
qed

declare row_get_delete [simp]

lemma row_get_mem: "x \<in> set rows \<Longrightarrow> row_get key rows (key x) \<noteq> None"
  by (auto simp: row_get_def find_None_iff)

lemma ids_put: "key new = i \<Longrightarrow> key ` set (row_update key i (\<lambda>_. new) rows) = key ` set rows"
proof -
  assume "key new = i"
  then have "map key (row_update key i (\<lambda>_. new) rows) = map key rows" by (simp add: row_update_def)
  then show ?thesis by (metis set_map)
qed

lemma create_set_loaded:
  assumes "sets_ok (ap_db st)" "create_command_set b now p st = (Inr out, st')"
  shows "sets_ok (ap_db st') \<and> loaded_sets (ap_db st') = set_effect (next_id cs_id (command_sets (ap_db st))) (Create_Set b) (loaded_sets (ap_db st))"
proof -
  let ?d = "ap_db st" and ?d' = "ap_db st'" and ?i = "next_id cs_id (command_sets (ap_db st))"
  from assms(2) obtain cs where cs: "cs_id cs = ?i" "cs_name cs = ci_name b" "cs_default_action cs = ci_default_action b"
    and d: "command_sets ?d' = command_sets ?d @ [cs]" "groups ?d' = groups ?d"
      "command_rules ?d' = command_rules ?d @ new_rules (next_id cr_id (command_rules ?d)) ?i (ci_rules b)"
    by (cases "ci_name b \<in> set (map cs_name (command_sets ?d))") (auto simp: create_command_set_def Let_def intro!: that)
  have fresh: "\<forall>r\<in>set (command_rules ?d). cr_command_set_id r \<noteq> ?i"
    using assms(1) next_id_fresh [of _ "command_sets ?d" cs_id] by (fastforce simp: sets_ok_def)
  have "sets_ok ?d'" using assms(1) cs d by (fastforce simp: sets_ok_def)
  moreover have "loaded_sets ?d' j = set_effect ?i (Create_Set b) (loaded_sets ?d) j" for j
    using set_rules_new [OF d(3) fresh, of ?d j] row_get_append_fresh [of cs_id cs "command_sets ?d" j] cs d(1)
    by (simp add: loaded_sets_eq)
  ultimately show ?thesis by blast
qed

lemma update_set_loaded:
  assumes "sets_ok (ap_db st)" "update_command_set i b now p st = (Inr out, st')"
  shows "sets_ok (ap_db st') \<and> loaded_sets (ap_db st') = set_effect k (Update_Set i b) (loaded_sets (ap_db st))"
proof -
  let ?d = "ap_db st" and ?d' = "ap_db st'"
  obtain cs where cs: "row_get cs_id (command_sets ?d) i = Some cs" "cs_id cs = i"
    using assms(2) row_get_Some [of cs_id "command_sets ?d" i]
    by (cases "row_get cs_id (command_sets ?d) i") (auto simp: update_command_set_def get_or_404_def)
  define new where "new = (if cs_changed b cs = cs then cs else (cs_changed b cs)\<lparr>cs_updated_at := now\<rparr>)"
  have new: "cs_id new = i" "cs_name new = if_sent (cu_name b) (cs_name cs)"
      "cs_default_action new = if_sent (cu_default_action b) (cs_default_action cs)"
  proof -
    have "cs_id (cs_changed b cs) = i" "cs_name (cs_changed b cs) = if_sent (cu_name b) (cs_name cs)"
      "cs_default_action (cs_changed b cs) = if_sent (cu_default_action b) (cs_default_action cs)"
      using cs(2) by (simp_all add: cs_changed_def)
    then show "cs_id new = i" "cs_name new = if_sent (cu_name b) (cs_name cs)"
      "cs_default_action new = if_sent (cu_default_action b) (cs_default_action cs)" by (auto simp: new_def)
  qed
  have d: "command_sets ?d' = row_update cs_id i (\<lambda>_. new) (command_sets ?d)" "groups ?d' = groups ?d"
      "command_rules ?d' = replace_rules i (cu_rules b) (command_rules ?d)"
    using assms(2) cs(1) by (auto simp: update_command_set_def get_or_404_def Let_def split: if_splits simp flip: new_def)
  have rules: "set_rules ?d' j = (if j = i then if_sent (cu_rules b) (set_rules ?d i) else set_rules ?d j)" for j
  proof (cases "cu_rules b")
    case None
    then show ?thesis using d(3) by (simp add: replace_rules_def if_sent_def set_rules_def stored_rules_def)
  next
    case (Some rs)
    have "set_rules ?d' j = (if j = i then rs else set_rules ?d j)"
      by (rule set_rules_new [of _ "filter (\<lambda>r. cr_command_set_id r \<noteq> i) (command_rules ?d)" "next_id cr_id (command_rules ?d)"])
        (use d(3) Some in \<open>auto simp: replace_rules_def intro: filter_cong\<close>)
    with Some show ?thesis by (simp add: if_sent_def)
  qed
  have "i \<in> cs_id ` set (command_sets ?d)" using row_get_Some [OF cs(1)] by blast
  then have "sets_ok ?d'" using assms(1) d ids_put [of cs_id new i "command_sets ?d", OF new(1)]
    by (auto simp: sets_ok_def replace_rules_def split: option.splits)
  moreover have "loaded_sets ?d' j = set_effect k (Update_Set i b) (loaded_sets ?d) j" for j
    using rules [of j] row_get_put [of cs_id new i "command_sets ?d" cs j] cs new d(1) by (simp add: loaded_sets_eq)
  ultimately show ?thesis by blast
qed

lemma delete_set_loaded:
  assumes "sets_ok (ap_db st)" "delete_command_set i now p st = (Inr out, st')"
  shows "sets_ok (ap_db st') \<and> loaded_sets (ap_db st') = set_effect k (Delete_Set i) (loaded_sets (ap_db st))"
proof -
  let ?d = "ap_db st" and ?d' = "ap_db st'"
  from assms(2) have d: "command_sets ?d' = row_delete cs_id i (command_sets ?d)" "groups ?d' = groups ?d"
      "command_rules ?d' = filter (\<lambda>r. cr_command_set_id r \<noteq> i) (command_rules ?d)"
      and unused: "filter (\<lambda>g. grp_command_set_id g = Some i) (groups ?d) = []"
    by (auto simp: delete_command_set_def Let_def split: sum.splits if_splits)
  have "set_rules ?d' j = set_rules ?d j" if "j \<noteq> i" for j
    by (rule set_rules_cong) (use that d(3) in \<open>auto intro: filter_cong\<close>)
  then have "loaded_sets ?d' = set_effect k (Delete_Set i) (loaded_sets ?d)" using d(1) by (auto simp: loaded_sets_eq fun_eq_iff)
  moreover have "sets_ok ?d'"
    unfolding sets_ok_def d
  proof (intro conjI ballI allI impI subsetI)
    fix k assume "k \<in> cr_command_set_id ` set (filter (\<lambda>r. cr_command_set_id r \<noteq> i) (command_rules ?d))"
    then show "k \<in> cs_id ` set (row_delete cs_id i (command_sets ?d))" using assms(1) by (force simp: sets_ok_def)
  next
    fix g k assume "g \<in> set (groups ?d)" "grp_command_set_id g = Some k"
    then show "k \<in> cs_id ` set (row_delete cs_id i (command_sets ?d))"
      using assms(1) unused by (force simp: sets_ok_def filter_empty_conv)
  qed
  ultimately show ?thesis by blast
qed


lemma check_command_set_ok: "check_command_set d k = Inr () \<Longrightarrow> k = Some i \<Longrightarrow> i \<in> cs_id ` set (command_sets d)"
  by (cases "row_get cs_id (command_sets d) i") (auto simp: check_command_set_def dest: row_get_Some)

lemma loaded_sets_cong: "command_sets d' = command_sets d \<Longrightarrow> command_rules d' = command_rules d \<Longrightarrow> loaded_sets d' = loaded_sets d"
  by (auto simp: loaded_sets_def load_command_set_def fun_eq_iff split: option.split)

lemma sets_ok_groups:
  assumes "sets_ok d" "command_sets d' = command_sets d" "command_rules d' = command_rules d"
    "\<And>g k. g \<in> set (groups d') \<Longrightarrow> grp_command_set_id g = Some k \<Longrightarrow> g \<in> set (groups d) \<or> k \<in> cs_id ` set (command_sets d)"
  shows "sets_ok d'"
  using assms by (fastforce simp: sets_ok_def)

lemma create_group_sets:
  assumes "sets_ok (ap_db st)" "create_group b now p st = (Inr out, st')"
  shows "sets_ok (ap_db st') \<and> loaded_sets (ap_db st') = loaded_sets (ap_db st)"
proof -
  have c: "check_command_set (ap_db st) (gi_command_set_id b) = Inr ()"
    using assms(2) by (auto simp: create_group_def Let_def split: sum.splits)
  have k: "\<And>k. gi_command_set_id b = Some k \<Longrightarrow> k \<in> cs_id ` set (command_sets (ap_db st))" by (rule check_command_set_ok [OF c])
  show ?thesis using assms c
    by (auto simp: create_group_def Let_def split: if_splits intro!: loaded_sets_cong sets_ok_groups [OF assms(1)] dest!: k)
qed

lemma patch_group_sets:
  assumes "sets_ok (ap_db st)" "patch_group i b now p st = (Inr out, st')"
  shows "sets_ok (ap_db st') \<and> loaded_sets (ap_db st') = loaded_sets (ap_db st)"
proof -
  let ?d = "ap_db st" and ?d' = "ap_db st'"
  obtain g where g: "row_get grp_id (groups ?d) i = Some g"
    using assms(2) by (cases "row_get grp_id (groups ?d) i") (auto simp: patch_group_def get_or_404_def)
  define new where "new = (if group_changed b g = g then g else (group_changed b g)\<lparr>grp_updated_at := now\<rparr>)"
  have k: "\<And>k. gu_command_set_id b = Some k \<Longrightarrow> check_command_set ?d k = Inr ()"
    and d: "command_sets ?d' = command_sets ?d" "command_rules ?d' = command_rules ?d" "groups ?d' = row_update grp_id i (\<lambda>_. new) (groups ?d)"
    using assms(2) g
    by (auto simp: patch_group_def get_or_404_def Let_def rbind_eq_Inr split: if_splits sum.splits option.splits simp flip: new_def)
  have new: "grp_command_set_id new = (case gu_command_set_id b of Some v \<Rightarrow> v | None \<Rightarrow> grp_command_set_id g)"
  proof -
    have "grp_command_set_id (group_changed b g) = (case gu_command_set_id b of Some v \<Rightarrow> v | None \<Rightarrow> grp_command_set_id g)"
      by (simp add: group_changed_def)
    then show ?thesis by (auto simp: new_def)
  qed
  have "sets_ok ?d'"
  proof (rule sets_ok_groups [OF assms(1) d(1,2)])
    fix h k assume h: "h \<in> set (groups ?d')" "grp_command_set_id h = Some k"
    then consider "h \<in> set (groups ?d)" | "h = new" using d(3) by (auto simp: row_update_def)
    then show "h \<in> set (groups ?d) \<or> k \<in> cs_id ` set (command_sets ?d)"
    proof cases
      case 2
      then show ?thesis using h(2) new k check_command_set_ok [of ?d _ k] row_get_Some [OF g] assms(1)
        by (cases "gu_command_set_id b") (auto simp: sets_ok_def)
    qed simp
  qed
  with loaded_sets_cong [OF d(1,2)] show ?thesis by simp
qed

lemma delete_group_sets:
  assumes "sets_ok (ap_db st)" "delete_group i now p st = (Inr out, st')"
  shows "sets_ok (ap_db st') \<and> loaded_sets (ap_db st') = loaded_sets (ap_db st)"
  using assms
  by (auto simp: delete_group_def Let_def split: sum.splits if_splits intro!: loaded_sets_cong sets_ok_groups [OF assms(1)])

lemma served_Inr: "apfst (map_sum id (\<lambda>_. ())) r = (Inr x, st') \<Longrightarrow> \<exists>out. r = (Inr out, st')"
  by (cases r; cases "fst r") auto

lemma refused_unchanged: "serve_set now p r st = (Inl e, st') \<Longrightarrow> st' = st"
  by (cases r) (auto simp: create_command_set_def update_command_set_def delete_command_set_def create_group_def patch_group_def delete_group_def
      Let_def apfst_def map_prod_def split: sum.splits if_splits prod.splits)

lemma served_set:
  assumes "sets_ok (ap_db st)" "serve_set now p r st = (Inr x, st')"
  shows "sets_ok (ap_db st') \<and> loaded_sets (ap_db st') = set_effect (next_id cs_id (command_sets (ap_db st))) r (loaded_sets (ap_db st))"
proof (cases r)
  case (Create_Set b)
  with assms create_set_loaded [OF assms(1)] show ?thesis by (auto dest!: served_Inr)
next
  case (Update_Set i b)
  with assms update_set_loaded [OF assms(1)] show ?thesis by (auto dest!: served_Inr)
next
  case (Delete_Set i)
  with assms delete_set_loaded [OF assms(1)] show ?thesis by auto
next
  case (Create_Group b)
  with assms create_group_sets [OF assms(1)] show ?thesis by (auto dest!: served_Inr)
next
  case (Update_Group i b)
  with assms patch_group_sets [OF assms(1)] show ?thesis by (auto dest!: served_Inr)
next
  case (Delete_Group i)
  with assms delete_group_sets [OF assms(1)] show ?thesis by auto
qed

text \<open>C13. Requests on command sets and groups refine their specification: whatever is answered, the sets that the TACACS+
  server loads afterwards are those before with exactly the requested change (a new set or new rules in the order
  they were sent, a deleted set), or the same ones when the request is refused; and no request leaves a group
  with a command set that does not exist, which would lift its restrictions.\<close>

theorem command_sets_refine:
  assumes "sets_ok (ap_db st)" "serve_set now p r st = (res, st')"
  shows "sets_ok (ap_db st') \<and>
    loaded_sets (ap_db st') =
      (case res of Inl _ \<Rightarrow> loaded_sets (ap_db st)
       | Inr _ \<Rightarrow> set_effect (next_id cs_id (command_sets (ap_db st))) r (loaded_sets (ap_db st))) \<and>
    (\<forall>g\<in>set (groups (ap_db st')). \<forall>k. grp_command_set_id g = Some k \<longrightarrow> load_command_set (ap_db st') (Some k) \<noteq> None)"
proof -
  have ok: "sets_ok (ap_db st') \<and> loaded_sets (ap_db st') =
      (case res of Inl _ \<Rightarrow> loaded_sets (ap_db st)
       | Inr _ \<Rightarrow> set_effect (next_id cs_id (command_sets (ap_db st))) r (loaded_sets (ap_db st)))"
    using assms refused_unchanged [of now p r st _ st'] served_set [OF assms(1), of now p r _ st'] by (cases res) auto
  then have "load_command_set (ap_db st') (Some k) \<noteq> None" if "g \<in> set (groups (ap_db st'))" "grp_command_set_id g = Some k" for g k
  proof -
    from that ok have "k \<in> cs_id ` set (command_sets (ap_db st'))" by (auto simp: sets_ok_def)
    then show ?thesis using row_get_mem [of _ "command_sets (ap_db st')" cs_id] loaded_sets_eq [of "ap_db st'" k] by (auto simp: loaded_sets_def)
  qed
  with ok show ?thesis by blast
qed


definition lab_sets :: api_state where
  "lab_sets = lab_users_state\<lparr>ap_db := lab_set_db\<rparr>"

definition lab_new_rules :: set_request where
  "lab_new_rules = Update_Set 1 \<lparr>cu_name = None, cu_description = None, cu_default_action = None,
     cu_rules = Some [(CMD_DENY, u ''reload''), (CMD_PERMIT, u ''show *'')]\<rparr>"

theorem command_sets_refine_witness:
  "loaded_sets (ap_db (snd (serve_set 0 lab_operator lab_new_rules lab_sets))) 1 =
     Some \<lparr>ccs_name = u ''ops'', ccs_default = CMD_DENY, ccs_rules = [(CMD_DENY, u ''reload''), (CMD_PERMIT, u ''show *'')]\<rparr>"
proof -
  obtain res st' where r: "serve_set 0 lab_operator lab_new_rules lab_sets = (res, st')" by fastforce
  then have x: "\<exists>x. res = Inr x"
    by (auto simp: lab_new_rules_def lab_sets_def lab_set_db_def update_command_set_def get_or_404_def row_get_def Let_def cs_changed_def if_sent_def)
  have "sets_ok (ap_db lab_sets)" by (simp add: sets_ok_def lab_sets_def lab_set_db_def empty_db_def)
  moreover have "loaded_sets (ap_db lab_sets) 1 = Some \<lparr>ccs_name = u ''ops'', ccs_default = CMD_DENY, ccs_rules = [(CMD_PERMIT, u ''show *'')]\<rparr>"
    by (simp add: loaded_sets_def load_command_set_def lab_sets_def lab_set_db_def)
  ultimately show ?thesis using command_sets_refine [OF _ r] x
    unfolding r by (auto simp: lab_new_rules_def if_sent_def)
qed

section \<open>Shared secrets stay secret\<close>

text \<open>What is left of the state without the secrets.  The time of the last change, which no route shows, is left out too: it
  tells whether a secret that was sent is the stored one.\<close>

definition mask_nas :: "NasClient \<Rightarrow> NasClient" where
  "mask_nas n = n\<lparr>nas_secret := [], nas_updated_at := 0\<rparr>"

definition mask_tac :: "TacacsClient \<Rightarrow> TacacsClient" where
  "mask_tac t = t\<lparr>tc_key := [], tc_updated_at := 0\<rparr>"

definition mask_state :: "api_state \<Rightarrow> api_state" where
  "mask_state st = st\<lparr>ap_db := (ap_db st)\<lparr>nas_clients := map mask_nas (nas_clients (ap_db st)),
     tacacs_clients := map mask_tac (tacacs_clients (ap_db st))\<rparr>\<rparr>"

datatype net_request = List_Nas | Create_Nas NasIn | Update_Nas nat NasUpdate | Reveal_Nas nat | Delete_Nas nat
  | List_Tacacs | Create_Tacacs TacacsIn | Update_Tacacs nat TacacsUpdate | Reveal_Tacacs nat | Delete_Tacacs nat

datatype net_answer = Nas_Rows "NasOut list" | Nas_Row NasOut | Tacacs_Rows "TacacsOut list" | Tacacs_Row TacacsOut | Secret_Shown pystr | No_Content

definition answer_as :: "('a \<Rightarrow> net_answer) \<Rightarrow> 'a route \<Rightarrow> net_answer route" where
  "answer_as f = apfst (map_sum id f)"

fun serve_net :: "int \<Rightarrow> Principal \<Rightarrow> net_request \<Rightarrow> api_state \<Rightarrow> net_answer route" where
  "serve_net now p List_Nas st = (Inr (Nas_Rows (list_nas (ap_db st))), st)"
| "serve_net now p (Create_Nas b) st = answer_as Nas_Row (create_nas b now p st)"
| "serve_net now p (Update_Nas i b) st = answer_as Nas_Row (update_nas i b now p st)"
| "serve_net now p (Reveal_Nas i) st = answer_as Secret_Shown (reveal_nas_secret i now p st)"
| "serve_net now p (Delete_Nas i) st = answer_as (\<lambda>_. No_Content) (delete_nas i now p st)"
| "serve_net now p List_Tacacs st = (Inr (Tacacs_Rows (list_tacacs (ap_db st))), st)"
| "serve_net now p (Create_Tacacs b) st = answer_as Tacacs_Row (create_tacacs b now p st)"
| "serve_net now p (Update_Tacacs i b) st = answer_as Tacacs_Row (update_tacacs i b now p st)"
| "serve_net now p (Reveal_Tacacs i) st = answer_as Secret_Shown (reveal_tacacs_key i now p st)"
| "serve_net now p (Delete_Tacacs i) st = answer_as (\<lambda>_. No_Content) (delete_tacacs i now p st)"

fun mask_request :: "net_request \<Rightarrow> net_request" where
  "mask_request (Create_Nas b) = Create_Nas (b\<lparr>ni_secret := []\<rparr>)"
| "mask_request (Update_Nas i b) = Update_Nas i (b\<lparr>nu_secret := map_option (\<lambda>_. []) (nu_secret b)\<rparr>)"
| "mask_request (Create_Tacacs b) = Create_Tacacs (b\<lparr>ti_key := []\<rparr>)"
| "mask_request (Update_Tacacs i b) = Update_Tacacs i (b\<lparr>tu_key := map_option (\<lambda>_. []) (tu_key b)\<rparr>)"
| "mask_request r = r"

fun reveals :: "net_request \<Rightarrow> bool" where
  "reveals (Reveal_Nas i) = True"
| "reveals (Reveal_Tacacs i) = True"
| "reveals r = False"

lemma mask_nas_simps [simp]: "nas_id (mask_nas n) = nas_id n" "nas_name (mask_nas n) = nas_name n" "nas_ip_address (mask_nas n) = nas_ip_address n"
  "nas_out (mask_nas n) = nas_out n" "nas_snapshot (mask_nas n) = nas_snapshot n" "mask_nas (mask_nas n) = mask_nas n"
  "nas_out (n\<lparr>nas_updated_at := t\<rparr>) = nas_out n" "nas_snapshot (n\<lparr>nas_updated_at := t\<rparr>) = nas_snapshot n"
  "mask_nas (n\<lparr>nas_updated_at := t\<rparr>) = mask_nas n"
  by (simp_all add: mask_nas_def nas_out_def nas_snapshot_def)

lemma mask_tac_simps [simp]: "tc_id (mask_tac n) = tc_id n" "tc_name (mask_tac n) = tc_name n" "tc_ip_address (mask_tac n) = tc_ip_address n"
  "tac_out (mask_tac n) = tac_out n" "tac_snapshot (mask_tac n) = tac_snapshot n" "mask_tac (mask_tac n) = mask_tac n"
  "tac_out (n\<lparr>tc_updated_at := t\<rparr>) = tac_out n" "tac_snapshot (n\<lparr>tc_updated_at := t\<rparr>) = tac_snapshot n"
  "mask_tac (n\<lparr>tc_updated_at := t\<rparr>) = mask_tac n"
  by (simp_all add: mask_tac_def tac_out_def tac_snapshot_def)

lemma mask_state_simps [simp]:
  "nas_clients (ap_db (mask_state st)) = map mask_nas (nas_clients (ap_db st))"
  "tacacs_clients (ap_db (mask_state st)) = map mask_tac (tacacs_clients (ap_db st))"
  "audit_logs (ap_db (mask_state st)) = audit_logs (ap_db st)"
  by (simp_all add: mask_state_def)

lemma next_id_mask: "(\<And>x. key (f x) = key x) \<Longrightarrow> next_id key (map f rows) = next_id key rows"
  by (simp add: next_id_def foldr_map comp_def)

lemma row_get_mask: "(\<And>x. key (f x) = key x) \<Longrightarrow> row_get key (map f rows) i = map_option f (row_get key rows i)"
  by (induction rows) (auto simp: row_get_def)

lemma sort_key_mask: "(\<And>x. key (f x) = key x) \<Longrightarrow> sort_key key (map f rows) = map f (sort_key key rows)"
  by (subst sort_key_map) (simp add: comp_def)

text \<open>A commit whose audit row does not depend on the secrets, seen without them.\<close>

lemma mask_commit_nas:
  "mask_state (commit_with (trail_row p (d\<lparr>nas_clients := rows\<rparr>) a t i nm ch now) (d\<lparr>nas_clients := rows\<rparr>) st) =
   mask_state (commit_with (trail_row p d' a t i nm ch now) d' (mask_state st))"
  if "d' = (ap_db (mask_state st))\<lparr>nas_clients := rows'\<rparr>" "d = ap_db st" "map mask_nas rows = map mask_nas rows'"
  using that by (simp add: mask_state_def commit_with_def audit_add_def trail_row_def audit_row_def comp_def)

lemma mask_commit_tac:
  "mask_state (commit_with (trail_row p (d\<lparr>tacacs_clients := rows\<rparr>) a t i nm ch now) (d\<lparr>tacacs_clients := rows\<rparr>) st) =
   mask_state (commit_with (trail_row p d' a t i nm ch now) d' (mask_state st))"
  if "d' = (ap_db (mask_state st))\<lparr>tacacs_clients := rows'\<rparr>" "d = ap_db st" "map mask_tac rows = map mask_tac rows'"
  using that by (simp add: mask_state_def commit_with_def audit_add_def trail_row_def audit_row_def comp_def)

lemma mask_rows [simp]: "map mask_nas (map mask_nas rows) = map mask_nas rows" "map mask_tac (map mask_tac rows2) = map mask_tac rows2"
  by (simp_all add: comp_def)

lemma mask_row_update:
  assumes "\<And>x. key (f x) = key x" "\<And>x. f (f x) = f x" "f a = f b"
  shows "map f (row_update key i (\<lambda>_. a) rows) = map f (row_update key i (\<lambda>_. b) (map f rows))"
  using assms by (simp add: row_update_def)

lemma mask_row_delete:
  assumes "\<And>x. key (f x) = key x" "\<And>x. f (f x) = f x"
  shows "map f (row_delete key i rows) = map f (row_delete key i (map f rows))"
  using assms by (simp add: row_delete_def filter_map comp_def)

text \<open>Rows that differ in the secret only look alike.\<close>

lemma same_nas:
  assumes "mask_nas n' = mask_nas n"
  shows "nas_taken n' (map mask_nas rows) = nas_taken n rows" "nas_out n' = nas_out n" "nas_snapshot n' = nas_snapshot n"
    "nas_name n' = nas_name n" "nas_id n' = nas_id n"
  using mask_nas_simps(1-5) [of n] mask_nas_simps(1-5) [of n'] by (simp_all add: assms nas_taken_def list_ex_iff)

lemma same_tac:
  assumes "mask_tac n' = mask_tac n"
  shows "tac_taken n' (map mask_tac rows) = tac_taken n rows" "tac_out n' = tac_out n" "tac_snapshot n' = tac_snapshot n"
    "tc_name n' = tc_name n" "tc_id n' = tc_id n"
  using mask_tac_simps(1-5) [of n] mask_tac_simps(1-5) [of n'] by (simp_all add: assms tac_taken_def list_ex_iff)

lemma mask_create_nas: "apsnd mask_state (create_nas b now p st) = apsnd mask_state (create_nas (b\<lparr>ni_secret := []\<rparr>) now p (mask_state st))"
proof -
  define n where "n = new_nas (next_id nas_id (nas_clients (ap_db st))) b now"
  define n' where "n' = new_nas (next_id nas_id (nas_clients (ap_db st))) (b\<lparr>ni_secret := []\<rparr>) now"
  have same: "mask_nas n' = mask_nas n" by (simp add: n_def n'_def new_nas_def mask_nas_def cong: option.case_cong)
  have rows: "map mask_nas (nas_clients (ap_db st) @ [n]) = map mask_nas (map mask_nas (nas_clients (ap_db st)) @ [n'])" by (simp add: same)
  show ?thesis using mask_commit_nas [OF refl refl rows]
    by (simp add: create_nas_def Let_def next_id_mask same_nas [OF same] flip: n_def n'_def) (simp add: mask_state_def comp_def)
qed

lemma mask_nas_changed: "mask_nas (nas_changed b n) = mask_nas (nas_changed (b\<lparr>nu_secret := map_option (\<lambda>_. []) (nu_secret b)\<rparr>) (mask_nas n))"
  by (simp add: nas_changed_def mask_nas_def)

lemma mask_update_nas:
  "apsnd mask_state (update_nas i b now p st) =
   apsnd mask_state (update_nas i (b\<lparr>nu_secret := map_option (\<lambda>_. []) (nu_secret b)\<rparr>) now p (mask_state st))"
proof (cases "row_get nas_id (nas_clients (ap_db st)) i")
  case None
  then show ?thesis by (simp add: update_nas_def get_or_404_def row_get_mask mask_state_def comp_def)
next
  case (Some n)
  let ?b = "b\<lparr>nu_secret := map_option (\<lambda>_. []) (nu_secret b)\<rparr>" and ?rows = "nas_clients (ap_db st)"
  define new where "new = (if nas_changed b n = n then n else (nas_changed b n)\<lparr>nas_updated_at := now\<rparr>)"
  define new' where "new' = (if nas_changed ?b (mask_nas n) = mask_nas n then mask_nas n else (nas_changed ?b (mask_nas n))\<lparr>nas_updated_at := now\<rparr>)"
  have m: "mask_nas new = mask_nas (nas_changed b n)" "mask_nas new' = mask_nas (nas_changed ?b (mask_nas n))" by (auto simp: new_def new'_def)
  then have same: "mask_nas new' = mask_nas new" by (simp flip: mask_nas_changed)
  have rows: "map mask_nas (row_update nas_id i (\<lambda>_. new) ?rows) = map mask_nas (row_update nas_id i (\<lambda>_. new') (map mask_nas ?rows))"
    by (rule mask_row_update) (simp_all add: same)
  show ?thesis
    using mask_commit_nas [OF refl refl rows]
    by (simp add: update_nas_def get_or_404_def row_get_mask Some Let_def same_nas [OF same] flip: new_def new'_def) (simp add: mask_state_def comp_def)
qed

lemma mask_delete_nas: "apsnd mask_state (delete_nas i now p st) = apsnd mask_state (delete_nas i now p (mask_state st))"
proof (cases "row_get nas_id (nas_clients (ap_db st)) i")
  case (Some n)
  have "map mask_nas (row_delete nas_id i (nas_clients (ap_db st))) = map mask_nas (row_delete nas_id i (map mask_nas (nas_clients (ap_db st))))"
    by (rule mask_row_delete) simp_all
  from mask_commit_nas [OF refl refl this] Some show ?thesis
    by (simp add: delete_nas_def get_or_404_def row_get_mask Let_def)
qed (simp add: delete_nas_def get_or_404_def row_get_mask mask_state_def comp_def)

lemma mask_create_tacacs: "apsnd mask_state (create_tacacs b now p st) = apsnd mask_state (create_tacacs (b\<lparr>ti_key := []\<rparr>) now p (mask_state st))"
proof -
  define n where "n = new_tacacs (next_id tc_id (tacacs_clients (ap_db st))) b now"
  define n' where "n' = new_tacacs (next_id tc_id (tacacs_clients (ap_db st))) (b\<lparr>ti_key := []\<rparr>) now"
  have same: "mask_tac n' = mask_tac n" by (simp add: n_def n'_def new_tacacs_def mask_tac_def cong: option.case_cong)
  have rows: "map mask_tac (tacacs_clients (ap_db st) @ [n]) = map mask_tac (map mask_tac (tacacs_clients (ap_db st)) @ [n'])" by (simp add: same)
  show ?thesis using mask_commit_tac [OF refl refl rows]
    by (simp add: create_tacacs_def Let_def next_id_mask same_tac [OF same] flip: n_def n'_def) (simp add: mask_state_def comp_def)
qed

lemma mask_tac_changed: "mask_tac (tac_changed b n) = mask_tac (tac_changed (b\<lparr>tu_key := map_option (\<lambda>_. []) (tu_key b)\<rparr>) (mask_tac n))"
  by (simp add: tac_changed_def mask_tac_def)

lemma mask_update_tacacs:
  "apsnd mask_state (update_tacacs i b now p st) =
   apsnd mask_state (update_tacacs i (b\<lparr>tu_key := map_option (\<lambda>_. []) (tu_key b)\<rparr>) now p (mask_state st))"
proof (cases "row_get tc_id (tacacs_clients (ap_db st)) i")
  case None
  then show ?thesis by (simp add: update_tacacs_def get_or_404_def row_get_mask mask_state_def comp_def)
next
  case (Some n)
  let ?b = "b\<lparr>tu_key := map_option (\<lambda>_. []) (tu_key b)\<rparr>" and ?rows = "tacacs_clients (ap_db st)"
  define new where "new = (if tac_changed b n = n then n else (tac_changed b n)\<lparr>tc_updated_at := now\<rparr>)"
  define new' where "new' = (if tac_changed ?b (mask_tac n) = mask_tac n then mask_tac n else (tac_changed ?b (mask_tac n))\<lparr>tc_updated_at := now\<rparr>)"
  have m: "mask_tac new = mask_tac (tac_changed b n)" "mask_tac new' = mask_tac (tac_changed ?b (mask_tac n))" by (auto simp: new_def new'_def)
  then have same: "mask_tac new' = mask_tac new" by (simp flip: mask_tac_changed)
  have rows: "map mask_tac (row_update tc_id i (\<lambda>_. new) ?rows) = map mask_tac (row_update tc_id i (\<lambda>_. new') (map mask_tac ?rows))"
    by (rule mask_row_update) (simp_all add: same)
  show ?thesis
    using mask_commit_tac [OF refl refl rows]
    by (simp add: update_tacacs_def get_or_404_def row_get_mask Some Let_def same_tac [OF same] flip: new_def new'_def) (simp add: mask_state_def comp_def)
qed

lemma mask_delete_tacacs: "apsnd mask_state (delete_tacacs i now p st) = apsnd mask_state (delete_tacacs i now p (mask_state st))"
proof (cases "row_get tc_id (tacacs_clients (ap_db st)) i")
  case (Some n)
  have "map mask_tac (row_delete tc_id i (tacacs_clients (ap_db st))) = map mask_tac (row_delete tc_id i (map mask_tac (tacacs_clients (ap_db st))))"
    by (rule mask_row_delete) simp_all
  from mask_commit_tac [OF refl refl this] Some show ?thesis
    by (simp add: delete_tacacs_def get_or_404_def row_get_mask Let_def)
qed (simp add: delete_tacacs_def get_or_404_def row_get_mask mask_state_def comp_def)

lemma answer_as_Inr: "fst (answer_as f r) = Inr a \<Longrightarrow> \<exists>x. a = f x"
  by (cases r; cases "fst r") (auto simp: answer_as_def)

lemma answer_as_mask: "apsnd mask_state r = apsnd mask_state r' \<Longrightarrow> apsnd mask_state (answer_as f r) = apsnd mask_state (answer_as f r')"
  by (cases r; cases r') (simp add: answer_as_def)

lemma mask_state_idem [simp]: "mask_state (mask_state st) = mask_state st"
  by (simp add: mask_state_def comp_def)

lemma mask_viewed: "mask_state (commit_with (trail_row p (ap_db st) a t i nm ch now) (ap_db st) st) =
    mask_state (commit_with (trail_row p (ap_db (mask_state st)) a t i nm ch now) (ap_db (mask_state st)) (mask_state st))"
  by (simp add: mask_state_def commit_with_def audit_add_def trail_row_def audit_row_def comp_def)

lemma mask_reveal:
  "mask_state (snd (reveal_nas_secret i now p st)) = mask_state (snd (reveal_nas_secret i now p (mask_state st)))"
  "mask_state (snd (reveal_tacacs_key i now p st)) = mask_state (snd (reveal_tacacs_key i now p (mask_state st)))"
  using mask_viewed [of p st]
  by (auto simp: reveal_nas_secret_def reveal_tacacs_key_def get_or_404_def row_get_mask Let_def split: option.split)

lemma masked_serve:
  "\<not> reveals r \<Longrightarrow> apsnd mask_state (serve_net now p r st) = apsnd mask_state (serve_net now p (mask_request r) (mask_state st))"
  by (cases r)
    (auto simp: list_nas_def list_tacacs_def sort_key_mask intro!: answer_as_mask mask_create_nas mask_update_nas mask_delete_nas
      mask_create_tacacs mask_update_tacacs mask_delete_tacacs)

lemma revealed_logged:
  assumes "fst (serve_net now p r st) = Inr (Secret_Shown secret)"
  shows "\<exists>row. audit_logs (ap_db (snd (serve_net now p r st))) = audit_logs (ap_db st) @ [row] \<and> aud_actor row = take 64 (pr_username p) \<and>
    aud_action row \<in> {u ''nas.secret_viewed'', u ''tacacs_client.key_viewed''}"
proof (cases r)
  case (Reveal_Nas i)
  with assms show ?thesis
    by (cases "row_get nas_id (nas_clients (ap_db st)) i")
      (simp_all add: answer_as_def reveal_nas_secret_def get_or_404_def Let_def trail_row_def audit_row_def)
next
  case (Reveal_Tacacs i)
  with assms show ?thesis
    by (cases "row_get tc_id (tacacs_clients (ap_db st)) i")
      (simp_all add: answer_as_def reveal_tacacs_key_def get_or_404_def Let_def trail_row_def audit_row_def)
qed (use assms in \<open>auto dest: answer_as_Inr\<close>)

text \<open>C12. The shared secrets of RADIUS and TACACS+ clients never leave the database except by a reveal: for all other
  requests the answer, the audit trail and everything else but the secrets themselves are the same for any other
  secrets, stored or sent.  A secret that is revealed leaves a row in the audit trail that names who asked.\<close>

theorem secrets_stay_secret:
  assumes "mask_state st1 = mask_state st2" "mask_request r1 = mask_request r2"
  shows "mask_state (snd (serve_net now p r1 st1)) = mask_state (snd (serve_net now p r2 st2)) \<and>
    (\<not> reveals r1 \<longrightarrow> fst (serve_net now p r1 st1) = fst (serve_net now p r2 st2)) \<and>
    (\<forall>secret. fst (serve_net now p r1 st1) = Inr (Secret_Shown secret) \<longrightarrow>
      (\<exists>row. audit_logs (ap_db (snd (serve_net now p r1 st1))) = audit_logs (ap_db st1) @ [row] \<and> aud_actor row = take 64 (pr_username p) \<and>
         aud_action row \<in> {u ''nas.secret_viewed'', u ''tacacs_client.key_viewed''}))"
proof (cases "reveals r1")
  case False
  moreover from this assms(2) have "\<not> reveals r2" by (cases r1; cases r2) auto
  ultimately have "apsnd mask_state (serve_net now p r1 st1) = apsnd mask_state (serve_net now p r2 st2)"
    using assms by (simp add: masked_serve)
  then have "mask_state (snd (serve_net now p r1 st1)) = mask_state (snd (serve_net now p r2 st2))"
    "fst (serve_net now p r1 st1) = fst (serve_net now p r2 st2)"
    by (metis snd_apsnd, metis fst_apsnd)
  moreover have "fst (serve_net now p r1 st1) \<noteq> Inr (Secret_Shown secret)" for secret
    using False by (cases r1) (auto dest: answer_as_Inr)
  ultimately show ?thesis by simp
next
  case True
  then have r2: "r2 = r1" using assms(2) by (cases r1; cases r2) auto
  have "mask_state (snd (serve_net now p r1 st1)) = mask_state (snd (serve_net now p r1 st2))"
    using True mask_reveal [of _ now p st1] mask_reveal [of _ now p st2] by (cases r1) (simp_all add: answer_as_def assms(1))
  then show ?thesis using True revealed_logged [of now p r1 st1] by (simp add: r2)
qed

text \<open>One client, its secret shown.\<close>

definition lab_nas_row :: "pystr \<Rightarrow> NasClient" where
  "lab_nas_row secret = new_nas 4 \<lparr>ni_name = u ''sw'', ni_ip_address = u ''192.0.2.7'', ni_secret = secret, ni_vendor = u ''cisco'', ni_coa_port = None,
     ni_require_message_authenticator = True, ni_description = [], ni_enabled = True\<rparr> 0"

definition lab_net_state :: "pystr \<Rightarrow> api_state" where
  "lab_net_state secret = lab_users_state\<lparr>ap_db := empty_db\<lparr>nas_clients := [lab_nas_row secret]\<rparr>\<rparr>"

definition lab_rekey :: "pystr \<Rightarrow> net_request" where
  "lab_rekey secret = Update_Nas 4 \<lparr>nu_name = None, nu_ip_address = None, nu_secret = Some secret, nu_vendor = None, nu_coa_port = None,
     nu_require_message_authenticator = None, nu_description = None, nu_enabled = None\<rparr>"

theorem secrets_stay_secret_witness:
  "fst (serve_net 5 lab_operator (lab_rekey (u ''a-long-secret-17'')) (lab_net_state (u ''x''))) =
   fst (serve_net 5 lab_operator (lab_rekey (u ''another-secret-18'')) (lab_net_state (u ''another-secret-18'')))"
proof -
  have "mask_state (lab_net_state a) = mask_state (lab_net_state b)" for a b
    by (simp add: lab_net_state_def mask_state_def lab_nas_row_def new_nas_def mask_nas_def cong: option.case_cong)
  moreover have "mask_request (lab_rekey a) = mask_request (lab_rekey b)" for a b by (simp add: lab_rekey_def)
  ultimately show ?thesis
    using secrets_stay_secret [of "lab_net_state (u ''x'')" "lab_net_state (u ''another-secret-18'')" "lab_rekey (u ''a-long-secret-17'')"
        "lab_rekey (u ''another-secret-18'')"] by (simp add: lab_rekey_def)
qed


end
