(* ===== verification/DevicesApi.thy ===== *)
theory DevicesApi
  imports UsersApi Reevaluate
begin

text \<open>
  The device inventory, live sessions and guests: \<open>naco/api/routes/devices.py\<close> and \<open>naco/api/routes/sessions.py\<close>.
  The IEEE table and the network are parameters.  In an update a field is \<open>None\<close> when it was not sent or sent as
  \<open>null\<close>: the route treats both alike.
\<close>

section \<open>Devices\<close>

record DeviceOut =
  do_id :: nat
  do_mac_address :: pystr
  do_status :: DeviceStatus
  do_device_type :: pystr
  do_vendor :: pystr
  do_randomized :: bool
  do_description :: pystr
  do_notes :: pystr
  do_first_seen :: int
  do_last_seen :: int
  do_last_nas_ip :: pystr
  do_last_username :: pystr

record DeviceCreate =
  dc_mac_address :: pystr
  dc_status :: DeviceStatus
  dc_device_type :: pystr
  dc_description :: pystr
  dc_notes :: pystr

record DeviceUpdate =
  du_status :: "DeviceStatus option"
  du_device_type :: "pystr option"
  du_description :: "pystr option"
  du_notes :: "pystr option"

record BulkStatus =
  bs_ids :: "nat list"
  bs_status :: DeviceStatus

definition DeviceCreate_body :: "DeviceCreate \<Rightarrow> DeviceCreate option" where
  "DeviceCreate_body b =
     (if length (dc_device_type b) \<le> 64 \<and> length (dc_description b) \<le> 255 \<and> length (dc_notes b) \<le> 4000
      then map_option (\<lambda>mac. b\<lparr>dc_mac_address := mac\<rparr>) (normalize_mac (Some (dc_mac_address b))) else None)"

definition DeviceUpdate_ok :: "DeviceUpdate \<Rightarrow> bool" where
  "DeviceUpdate_ok b \<longleftrightarrow> max_opt 64 (du_device_type b) \<and> max_opt 255 (du_description b) \<and> max_opt 4000 (du_notes b)"

definition BulkStatus_ok :: "BulkStatus \<Rightarrow> bool" where
  "BulkStatus_ok b \<longleftrightarrow> 1 \<le> length (bs_ids b) \<and> length (bs_ids b) \<le> 1000"

fun DeviceStatus_value :: "DeviceStatus \<Rightarrow> pystr" where
  "DeviceStatus_value PENDING = u ''PENDING''"
| "DeviceStatus_value APPROVED = u ''APPROVED''"
| "DeviceStatus_value BLOCKED = u ''BLOCKED''"

definition device_out :: "Device \<Rightarrow> DeviceOut" where
  "device_out v =
     \<lparr>do_id = dev_id v, do_mac_address = dev_mac_address v, do_status = dev_status v, do_device_type = dev_device_type v,
      do_vendor = dev_vendor v, do_randomized = is_randomized_mac (dev_mac_address v), do_description = dev_description v,
      do_notes = dev_notes v, do_first_seen = dev_first_seen v, do_last_seen = dev_last_seen v, do_last_nas_ip = dev_last_nas_ip v,
      do_last_username = dev_last_username v\<rparr>"

definition device_snapshot :: "Device \<Rightarrow> (pystr \<times> json) list" where
  "device_snapshot v =
     [(u ''status'', JStr (DeviceStatus_value (dev_status v))), (u ''device_type'', JStr (dev_device_type v)),
      (u ''description'', JStr (dev_description v)), (u ''notes'', JStr (dev_notes v))]"

definition list_devices :: "DeviceStatus option \<Rightarrow> pystr \<Rightarrow> nat \<Rightarrow> nat \<Rightarrow> db \<Rightarrow> DeviceOut list \<times> nat" where
  "list_devices status q page per_page d =
     (let pattern = like (case normalize_mac (Some q) of Some mac \<Rightarrow> mac | None \<Rightarrow> lower q);
          rows = sort_key (\<lambda>v. - dev_last_seen v) (filter (\<lambda>v. (case status of None \<Rightarrow> True | Some s \<Rightarrow> dev_status v = s) \<and>
            (q = [] \<or> ilike (dev_mac_address v) pattern \<or> ilike (dev_vendor v) (like q) \<or> ilike (dev_description v) (like q) \<or>
             ilike (dev_device_type v) (like q) \<or> ilike (dev_last_username v) (like q))) (devices d));
          (items, total) = fetch_page page per_page rows
      in (map device_out items, total))"

definition get_device :: "nat \<Rightarrow> db \<Rightarrow> api_exc + DeviceOut" where
  "get_device i d = rbind (get_or_404 dev_id (devices d) i (u ''device'')) (\<lambda>v. Inr (device_out v))"

text \<open>A new row, with the defaults of the columns.\<close>

definition fresh_device :: "db \<Rightarrow> pystr \<Rightarrow> pystr \<Rightarrow> int \<Rightarrow> Device" where
  "fresh_device d mac vend now =
     \<lparr>dev_id = next_id dev_id (devices d), dev_mac_address = mac, dev_status = PENDING, dev_device_type = [], dev_vendor = vend,
      dev_description = [], dev_notes = [], dev_first_seen = now, dev_last_seen = now, dev_last_nas_ip = [], dev_last_username = []\<rparr>"

definition create_device :: "(pystr \<rightharpoonup> pystr) \<Rightarrow> DeviceCreate \<Rightarrow> int \<Rightarrow> Principal \<Rightarrow> api_state \<Rightarrow> DeviceOut route" where
  "create_device table b now p st =
     (let d = ap_db st;
          v = (fresh_device d (dc_mac_address b) (vendor_for table (dc_mac_address b)) now)\<lparr>dev_status := dc_status b,
                dev_device_type := dc_device_type b, dev_description := dc_description b, dev_notes := dc_notes b\<rparr> in
      if dev_mac_address v \<in> set (map dev_mac_address (devices d))
      then (Inl (api_error 409 (u ''device '' @ dc_mac_address b @ u '' already exists'')), st)
      else
        (let d = d\<lparr>devices := devices d @ [v]\<rparr>
         in (Inr (device_out v), reevaluate_later (u ''device '' @ dev_mac_address v @ u '' added'')
              (commit_with (trail_row p d (u ''device.create'') (u ''device'') (dec (dev_id v)) (dev_mac_address v) (device_snapshot v) now) d st))))"

definition device_changed :: "DeviceUpdate \<Rightarrow> Device \<Rightarrow> Device" where
  "device_changed b v =
     v\<lparr>dev_status := (case du_status b of None \<Rightarrow> dev_status v | Some x \<Rightarrow> x),
       dev_device_type := (case du_device_type b of None \<Rightarrow> dev_device_type v | Some x \<Rightarrow> x),
       dev_description := (case du_description b of None \<Rightarrow> dev_description v | Some x \<Rightarrow> x),
       dev_notes := (case du_notes b of None \<Rightarrow> dev_notes v | Some x \<Rightarrow> x)\<rparr>"

definition update_device :: "nat \<Rightarrow> DeviceUpdate \<Rightarrow> int \<Rightarrow> Principal \<Rightarrow> api_state \<Rightarrow> DeviceOut route" where
  "update_device i b now p st =
     (case get_or_404 dev_id (devices (ap_db st)) i (u ''device'') of
        Inl e \<Rightarrow> (Inl e, st)
      | Inr v \<Rightarrow>
          (let new = device_changed b v; delta = diff (device_snapshot v) (device_snapshot new) [];
               d = (ap_db st)\<lparr>devices := row_update dev_id i (\<lambda>_. new) (devices (ap_db st))\<rparr>;
               st = commit_with (trail_row p d (u ''device.update'') (u ''device'') (dec i) (dev_mac_address new) delta now) d st
           in (Inr (device_out new),
               if u ''status'' \<in> set (map fst delta) \<or> u ''device_type'' \<in> set (map fst delta)
               then reevaluate_later (u ''device '' @ dev_mac_address new @ u '' changed'') st else st)))"

text \<open>The rows of one transaction, announced in order.\<close>

fun audit_all :: "Principal \<Rightarrow> (pystr \<times> pystr \<times> pystr \<times> pystr \<times> (pystr \<times> json) list) list \<Rightarrow> int \<Rightarrow> db \<Rightarrow> AuditLog list \<times> db" where
  "audit_all p [] now d = ([], d)"
| "audit_all p ((action, target, i, name, changes) # es) now d =
     (let row = trail_row p d action target i name changes now; (rows, d') = audit_all p es now (audit_add row d) in (row # rows, d'))"

definition bulk_status :: "BulkStatus \<Rightarrow> int \<Rightarrow> Principal \<Rightarrow> api_state \<Rightarrow> DeviceOut list route" where
  "bulk_status b now p st =
     (let d = ap_db st; chosen = filter (\<lambda>v. dev_id v \<in> set (bs_ids b)) (devices d) in
      if length chosen \<noteq> length (remdups (bs_ids b)) then (Inl (api_error 404 (u ''some devices do not exist'')), st)
      else
        (let entries = map (\<lambda>v. (u ''device.update'', u ''device'', dec (dev_id v), dev_mac_address v,
                 [(u ''status'', JArr [JStr (DeviceStatus_value (dev_status v)), JStr (DeviceStatus_value (bs_status b))])]))
               (filter (\<lambda>v. dev_status v \<noteq> bs_status b) chosen);
             set_to = (\<lambda>v. if dev_id v \<in> set (bs_ids b) then v\<lparr>dev_status := bs_status b\<rparr> else v);
             (rows, d') = audit_all p entries now (d\<lparr>devices := map set_to (devices d)\<rparr>)
         in (Inr (map (device_out \<circ> set_to) chosen),
             reevaluate_later (dec (length chosen) @ u '' devices set to '' @ DeviceStatus_value (bs_status b))
               (st\<lparr>ap_db := d', ap_announced := ap_announced st @ rows\<rparr>))))"

definition delete_device :: "nat \<Rightarrow> int \<Rightarrow> Principal \<Rightarrow> api_state \<Rightarrow> unit route" where
  "delete_device i now p st =
     (case get_or_404 dev_id (devices (ap_db st)) i (u ''device'') of
        Inl e \<Rightarrow> (Inl e, st)
      | Inr v \<Rightarrow>
          (let d = (ap_db st)\<lparr>devices := row_delete dev_id i (devices (ap_db st))\<rparr>
           in (Inr (), reevaluate_later (u ''device '' @ dev_mac_address v @ u '' deleted'')
                (commit_with (trail_row p d (u ''device.delete'') (u ''device'') (dec i) (dev_mac_address v) [] now) d st))))"

section \<open>Sessions\<close>

record RadiusSessionOut =
  so_session :: RadiusSession
  so_nas_name :: pystr

record DisconnectResult =
  dr_requested :: nat
  dr_acked :: nat
  dr_failed :: nat
  dr_skipped :: nat

record BulkDisconnect =
  bd_username :: "pystr option"
  bd_mac :: "pystr option"
  bd_nas_ip :: "pystr option"
  bd_all :: bool

definition BulkDisconnect_ok :: "BulkDisconnect \<Rightarrow> bool" where
  "BulkDisconnect_ok b \<longleftrightarrow> max_opt 64 (bd_username b) \<and> (bd_all b \<or> truthy (bd_username b) \<or> truthy (bd_mac b) \<or> truthy (bd_nas_ip b))"

definition list_sessions :: "pystr \<Rightarrow> pystr option \<Rightarrow> nat \<Rightarrow> nat \<Rightarrow> db \<Rightarrow> api_exc + RadiusSessionOut list \<times> nat" where
  "list_sessions q nas_ip page per_page d =
     (case nas_directory d of
        Inl e \<Rightarrow> Inl (PyRaised e)
      | Inr dir \<Rightarrow>
          (let t = like (case normalize_mac (Some q) of Some mac \<Rightarrow> mac | None \<Rightarrow> lower q);
               rows = sort_key (\<lambda>s. - rs_updated_at s) (filter (\<lambda>s. (truthy nas_ip \<longrightarrow> Some (rs_nas_ip s) = nas_ip) \<and>
                 (q = [] \<or> ilike (rs_username s) t \<or> ilike (rs_mac_address s) t \<or> ilike (rs_framed_ip s) t)) (radius_sessions d));
               (items, total) = fetch_page page per_page rows
           in Inr (map (\<lambda>s. \<lparr>so_session = s, so_nas_name = (case nd_find dir (rs_nas_ip s) of Some n \<Rightarrow> nas_name n | None \<Rightarrow> [])\<rparr>) items, total)))"

text \<open>Sessions whose client is known, and how many are not.\<close>

definition disconnect_targets :: "NasDirectory \<Rightarrow> RadiusSession list \<Rightarrow> (RadiusSession \<times> NasClient) list" where
  "disconnect_targets dir sessions = List.map_filter (\<lambda>s. map_option (Pair s) (nd_find dir (rs_nas_ip s))) sessions"

definition disconnect_all :: "reeval_env \<Rightarrow> db \<Rightarrow> RadiusSession list \<Rightarrow> int \<Rightarrow> py_exc + DisconnectResult" where
  "disconnect_all env d sessions now =
     rbind (nas_directory d) (\<lambda>dir.
       let targets = disconnect_targets dir sessions in
       rbind (rmap (\<lambda>(s, nas). send_disconnect env now s nas) targets) (\<lambda>outcomes.
         let acked = length (filter (\<lambda>r. case r of CoaResult oc _ \<Rightarrow> oc = ACK) outcomes)
         in Inr \<lparr>dr_requested = length sessions, dr_acked = acked, dr_failed = length outcomes - acked,
                 dr_skipped = length sessions - length targets\<rparr>))"

definition result_json :: "DisconnectResult \<Rightarrow> (pystr \<times> json) list" where
  "result_json r =
     [(u ''requested'', JInt (int (dr_requested r))), (u ''acked'', JInt (int (dr_acked r))), (u ''failed'', JInt (int (dr_failed r))),
      (u ''skipped'', JInt (int (dr_skipped r)))]"

text \<open>The transaction ends before the clients are asked, and the row is written in a new one: what other requests
  commit in between is the argument \<open>meanwhile\<close>.\<close>

definition disconnect_audited :: "reeval_env \<Rightarrow> (api_state \<Rightarrow> api_state) \<Rightarrow> RadiusSession list \<Rightarrow> pystr \<Rightarrow> pystr \<Rightarrow> pystr \<Rightarrow> (pystr \<times> json) list \<Rightarrow>
    int \<Rightarrow> Principal \<Rightarrow> api_state \<Rightarrow> DisconnectResult route" where
  "disconnect_audited env meanwhile sessions action target name changes now p st =
     (case disconnect_all env (ap_db st) sessions now of
        Inl e \<Rightarrow> (Inl (PyRaised e), meanwhile st)
      | Inr result \<Rightarrow>
          (let st = meanwhile st; d = ap_db st
           in (Inr result, commit_with (trail_row p d action (u ''session'') target name (changes @ result_json result) now) d st)))"

definition disconnect_one :: "reeval_env \<Rightarrow> (api_state \<Rightarrow> api_state) \<Rightarrow> nat \<Rightarrow> int \<Rightarrow> Principal \<Rightarrow> api_state \<Rightarrow> DisconnectResult route" where
  "disconnect_one env meanwhile i now p st =
     (case get_or_404 rs_id (radius_sessions (ap_db st)) i (u ''session'') of
        Inl e \<Rightarrow> (Inl e, st)
      | Inr s \<Rightarrow> disconnect_audited env meanwhile [s] (u ''session.disconnect'') (rs_acct_session_id s)
                  (if rs_username s \<noteq> [] then rs_username s else rs_mac_address s) [] now p st)"

definition bulk_sessions :: "BulkDisconnect \<Rightarrow> db \<Rightarrow> api_exc + RadiusSession list" where
  "bulk_sessions b d =
     rbind (if truthy (bd_mac b)
            then (case normalize_mac (bd_mac b) of None \<Rightarrow> Inl (api_error 422 (u ''not a MAC address'')) | Some mac \<Rightarrow> Inr (Some mac))
            else Inr None) (\<lambda>mac.
       Inr (filter (\<lambda>s. (truthy (bd_username b) \<longrightarrow> Some (rs_username s) = map_option lower (bd_username b)) \<and>
              (mac \<noteq> None \<longrightarrow> Some (rs_mac_address s) = mac) \<and>
              (truthy (bd_nas_ip b) \<longrightarrow> Some (rs_nas_ip s) = (case parse_ip (bd_nas_ip b) of Some ip \<Rightarrow> Some ip | None \<Rightarrow> bd_nas_ip b)))
            (radius_sessions d)))"

definition filter_json :: "BulkDisconnect \<Rightarrow> json" where
  "filter_json b =
     JObj (List.map_filter (\<lambda>(k, x). map_option (\<lambda>t. (k, JStr t)) x)
            [(u ''username'', bd_username b), (u ''mac'', bd_mac b), (u ''nas_ip'', bd_nas_ip b)] @ [(u ''all'', JBool (bd_all b))])"

definition disconnect_many :: "reeval_env \<Rightarrow> (api_state \<Rightarrow> api_state) \<Rightarrow> BulkDisconnect \<Rightarrow> int \<Rightarrow> Principal \<Rightarrow> api_state \<Rightarrow> DisconnectResult route" where
  "disconnect_many env meanwhile b now p st =
     (case bulk_sessions b (ap_db st) of
        Inl e \<Rightarrow> (Inl e, st)
      | Inr sessions \<Rightarrow>
          disconnect_audited env meanwhile sessions (u ''session.bulk_disconnect'') [] [] [(u ''filter'', filter_json b)] now p st)"

section \<open>Guests\<close>

record GuestIn =
  gn_mac_address :: pystr
  gn_hours :: int
  gn_full_name :: pystr
  gn_email :: pystr

record GuestOut =
  gt_registration :: GuestRegistration
  gt_active :: bool

definition GuestIn_body :: "GuestIn \<Rightarrow> GuestIn option" where
  "GuestIn_body b =
     (if 1 \<le> gn_hours b \<and> gn_hours b \<le> 24 * 30 \<and> length (gn_full_name b) \<le> 128 \<and> length (gn_email b) \<le> 128
      then map_option (\<lambda>mac. b\<lparr>gn_mac_address := mac\<rparr>) (normalize_mac (Some (gn_mac_address b))) else None)"

definition guest_out :: "int \<Rightarrow> GuestRegistration \<Rightarrow> GuestOut" where
  "guest_out now g = \<lparr>gt_registration = g, gt_active = (gr_revoked_at g = None \<and> gr_expires_at g > now)\<rparr>"

definition list_guests :: "bool option \<Rightarrow> nat \<Rightarrow> nat \<Rightarrow> int \<Rightarrow> db \<Rightarrow> GuestOut list \<times> nat" where
  "list_guests active page per_page now d =
     (let rows = sort_key (\<lambda>g. - gr_created_at g) (filter (\<lambda>g. case active of
              None \<Rightarrow> True
            | Some a \<Rightarrow> if a then gr_revoked_at g = None \<and> gr_expires_at g > now else gr_revoked_at g \<noteq> None \<or> gr_expires_at g \<le> now)
            (guest_registrations d));
          (items, total) = fetch_page page per_page rows
      in (map (guest_out now) items, total))"

definition hour :: int where
  "hour = 3600 * second"

definition add_guest :: "GuestIn \<Rightarrow> int \<Rightarrow> Principal \<Rightarrow> api_state \<Rightarrow> GuestOut route" where
  "add_guest b now p st =
     (let d = ap_db st;
          g = \<lparr>gr_id = next_id gr_id (guest_registrations d), gr_mac_address = gn_mac_address b, gr_full_name = gn_full_name b, gr_email = gn_email b,
               gr_nas_ip = [], gr_client_ip = [], gr_created_by = take 64 (pr_username p), gr_created_at = now,
               gr_expires_at = now + gn_hours b * hour, gr_revoked_at = None\<rparr>;
          d = d\<lparr>guest_registrations := guest_registrations d @ [g]\<rparr>
      in (Inr (guest_out now g), reevaluate_later (u ''guest '' @ gr_mac_address g @ u '' registered'')
           (commit_with (trail_row p d (u ''guest.create'') (u ''guest'') (dec (gr_id g)) (gr_mac_address g) [(u ''hours'', JInt (gn_hours b))] now) d st)))"

definition revoke_guest :: "nat \<Rightarrow> int \<Rightarrow> Principal \<Rightarrow> api_state \<Rightarrow> unit route" where
  "revoke_guest i now p st =
     (case get_or_404 gr_id (guest_registrations (ap_db st)) i (u ''guest registration'') of
        Inl e \<Rightarrow> (Inl e, st)
      | Inr g \<Rightarrow>
          if gr_revoked_at g \<noteq> None then (Inr (), st)
          else
            (let d = (ap_db st)\<lparr>guest_registrations := row_update gr_id i (\<lambda>_. g\<lparr>gr_revoked_at := Some now\<rparr>) (guest_registrations (ap_db st))\<rparr>
             in (Inr (), reevaluate_later (u ''guest '' @ gr_mac_address g @ u '' revoked'')
                  (commit_with (trail_row p d (u ''guest.revoke'') (u ''guest'') (dec i) (gr_mac_address g) [] now) d st))))"


section \<open>Changes of access are re-evaluated and recorded\<close>

datatype device_request = Create_Device DeviceCreate | Update_Device nat DeviceUpdate | Bulk_Status BulkStatus | Delete_Device nat
  | Add_Guest GuestIn | Revoke_Guest nat

fun serve_device :: "(pystr \<rightharpoonup> pystr) \<Rightarrow> int \<Rightarrow> Principal \<Rightarrow> device_request \<Rightarrow> api_state \<Rightarrow> api_state" where
  "serve_device table now p (Create_Device b) st = snd (create_device table b now p st)"
| "serve_device table now p (Update_Device i b) st = snd (update_device i b now p st)"
| "serve_device table now p (Bulk_Status b) st = snd (bulk_status b now p st)"
| "serve_device table now p (Delete_Device i) st = snd (delete_device i now p st)"
| "serve_device table now p (Add_Guest b) st = snd (add_guest b now p st)"
| "serve_device table now p (Revoke_Guest i) st = snd (revoke_guest i now p st)"

text \<open>Databases that \<open>authorize\<close> cannot tell apart.\<close>

definition same_for_authorize :: "db \<Rightarrow> db \<Rightarrow> bool" where
  "same_for_authorize d d' \<longleftrightarrow>
     users d' = users d \<and> groups d' = groups d \<and> policies d' = policies d \<and> guest_registrations d' = guest_registrations d \<and>
     nas_clients d' = nas_clients d \<and>
     (\<forall>m. map_option device_view (find (\<lambda>v. dev_mac_address v = m) (devices d')) =
          map_option device_view (find (\<lambda>v. dev_mac_address v = m) (devices d)))"

lemma same_for_authorize_refl [simp]: "same_for_authorize d d"
  by (simp add: same_for_authorize_def)

lemma station_view_realized: "\<exists>dev. map_option device_view dev = station_view cfg d mac"
proof (cases "station_view cfg d mac")
  case (Some x)
  obtain status kind vend where "x = (status, kind, vend)" by (rule prod_cases3)
  with Some have "map_option device_view (Some ((fresh_device d [] vend 0)\<lparr>dev_status := status, dev_device_type := kind\<rparr>)) = station_view cfg d mac"
    by (simp add: device_view_def fresh_device_def)
  then show ?thesis ..
qed simp

lemma decision_about_same:
  assumes "same_for_authorize d d'"
  shows "decision_about cfg (s\<lparr>aaa_db := d'\<rparr>) req method n username dev t clock = decision_about cfg (s\<lparr>aaa_db := d\<rparr>) req method n username dev t clock"
proof -
  have e: "evaluate d' tz ctx = evaluate d tz ctx" for tz ctx using assms by (intro evaluate_policies) (simp add: same_for_authorize_def)
  have l: "load_user d' n = load_user d n" for n
    using assms by (simp add: load_user_def group_by_id_def same_for_authorize_def cong: option.case_cong)
  have g: "guest_active d' m t = guest_active d m t" for m using assms by (simp add: guest_active_def same_for_authorize_def)
  have sel: "aaa_db (s\<lparr>aaa_db := x\<rparr>) = x" "aaa_verified (s\<lparr>aaa_db := x\<rparr>) = aaa_verified s" for x by simp_all
  show ?thesis unfolding decision_about_def sel e l g ..
qed

lemma authorize_same:
  assumes same: "same_for_authorize d d'"
  shows "snd (authorize cfg (s\<lparr>aaa_db := d'\<rparr>) a t clock) = snd (authorize cfg (s\<lparr>aaa_db := d\<rparr>) a t clock)"
proof -
  let ?req = "request_info a"
  have clients: "nas_clients d' = nas_clients d" using same by (simp add: same_for_authorize_def)
  have nas: "find_nas d' ip = find_nas d ip" for ip unfolding find_nas_def clients ..
  show ?thesis
  proof (cases "find_nas d (ri_nas_ip ?req)")
    case (Inl e)
    then show ?thesis by (simp add: authorize_def nas Let_def)
  next
    case (Inr n)
    show ?thesis
    proof (cases "ri_method ?req")
      case None
      then show ?thesis using Inr by (simp add: authorize_def decide_request_def nas Let_def)
    next
      case (Some m)
      let ?name = "if m = u ''MAB'' then [] else identity_of a m"
      let ?bad = "m = u ''MAB'' \<and> (ri_mac ?req = None \<or> normalize_mac (attrs_get a (u ''User-Name'')) \<noteq> ri_mac ?req)"
      have ans: "snd (authorize cfg (s\<lparr>aaa_db := x\<rparr>) a t clock) = snd (snd (decide_request cfg (s\<lparr>aaa_db := x\<rparr>) a ?req n ?name t clock))"
        if "x = d \<or> x = d'" for x
        using that Inr by (intro authorize_answer [OF Some]) (auto simp: nas)
      have "snd (snd (decide_request cfg (s\<lparr>aaa_db := d'\<rparr>) a ?req n ?name t clock)) = snd (snd (decide_request cfg (s\<lparr>aaa_db := d\<rparr>) a ?req n ?name t clock))"
      proof (cases "\<exists>c. n = Some c \<and> nas_enabled c \<and> \<not> ?bad")
        case False
        then show ?thesis using Some by (cases n) (auto simp: decide_request_def Let_def)
      next
        case True
        then obtain c where c: "n = Some c" "nas_enabled c" "\<not> ?bad" by blast
        have view: "station_view cfg d' (ri_mac ?req) = station_view cfg d (ri_mac ?req)"
          using same by (simp add: station_view_def same_for_authorize_def)
        obtain dev where dev: "map_option device_view dev = station_view cfg d (ri_mac ?req)" using station_view_realized by blast
        have "snd (snd (decide_request cfg (s\<lparr>aaa_db := x\<rparr>) a ?req (Some c) ?name t clock)) =
            decision_about cfg (s\<lparr>aaa_db := x\<rparr>) ?req m c ?name dev t clock" if "x = d \<or> x = d'" for x
          using dev view that by (intro decide_request_answer [OF Some c(2,3)]) auto
        with decision_about_same [OF same] c(1) show ?thesis by simp
      qed
      with ans show ?thesis by simp
    qed
  qed
qed

lemma DeviceStatus_value_inject [simp]: "DeviceStatus_value a = DeviceStatus_value b \<longleftrightarrow> a = b"
  by (cases a; cases b) simp_all

lemma diff_same: "key \<notin> set (map fst (diff a b [])) \<Longrightarrow> dict_get a key = dict_get b key"
proof (rule ccontr)
  assume "key \<notin> set (map fst (diff a b []))" "dict_get a key \<noteq> dict_get b key"
  moreover from this have "map_of a key \<noteq> None \<or> map_of b key \<noteq> None" by (auto simp: dict_get_def)
  then have "key \<in> fst ` set a \<or> key \<in> fst ` set b" by (simp add: map_of_eq_None_iff)
  ultimately show False by (auto simp: diff_def comp_def)
qed

lemma snapshot_unchanged:
  assumes "u ''status'' \<notin> set (map fst (diff (device_snapshot v) (device_snapshot w) []))"
    "u ''device_type'' \<notin> set (map fst (diff (device_snapshot v) (device_snapshot w) []))"
  shows "dev_status v = dev_status w \<and> dev_device_type v = dev_device_type w"
  using diff_same [OF assms(1)] diff_same [OF assms(2)] by (simp add: device_snapshot_def dict_get_def)

lemma find_view_update:
  assumes "distinct (map dev_id rows)" "row_get dev_id rows i = Some v" "dev_mac_address w = dev_mac_address v" "device_view w = device_view v"
    "dev_id w = dev_id v"
  shows "map_option device_view (find (\<lambda>x. dev_mac_address x = m) (row_update dev_id i (\<lambda>_. w) rows)) =
    map_option device_view (find (\<lambda>x. dev_mac_address x = m) rows)"
proof -
  have v: "v \<in> set rows" "dev_id v = i" using row_get_Some [OF assms(2)] by auto
  have same: "x = v" if "x \<in> set rows" "dev_id x = i" for x using that v assms(1) by (metis distinct_map inj_onD)
  have "\<forall>x\<in>set xs. dev_id x = i \<longrightarrow> x = v \<Longrightarrow> map_option device_view (find (\<lambda>x. dev_mac_address x = m) (row_update dev_id i (\<lambda>_. w) xs)) =
    map_option device_view (find (\<lambda>x. dev_mac_address x = m) xs)" for xs
    by (induction xs) (use assms(3,4) in \<open>auto simp: row_update_def\<close>)
  with same show ?thesis by blast
qed

lemma audit_all_keeps:
  "audit_all p es now d = (rows, d') \<Longrightarrow> devices d' = devices d \<and> guest_registrations d' = guest_registrations d \<and>
     audit_logs d' = audit_logs d @ rows \<and> length rows = length es"
  by (induction p es now d arbitrary: rows d' rule: audit_all.induct) (auto simp: Let_def audit_add_def split: prod.splits)

lemma update_device_cases:
  assumes "distinct (map dev_id (devices (ap_db st)))" "update_device i b now p st = (res, st')"
  shows "(\<exists>reason. ap_reeval st' = schedule (ap_reeval st) reason) \<or> same_for_authorize (ap_db st) (ap_db st')"
proof (cases "row_get dev_id (devices (ap_db st)) i")
  case None
  with assms(2) show ?thesis by (simp add: update_device_def get_or_404_def)
next
  case (Some v)
  let ?new = "device_changed b v"
  let ?delta = "diff (device_snapshot v) (device_snapshot ?new) []"
  show ?thesis
  proof (cases "u ''status'' \<in> set (map fst ?delta) \<or> u ''device_type'' \<in> set (map fst ?delta)")
    case True
    then have "ap_reeval st' = schedule (ap_reeval st) (u ''device '' @ dev_mac_address ?new @ u '' changed'')"
      using assms(2) Some by (auto simp: update_device_def get_or_404_def Let_def reevaluate_later_def commit_with_def)
    then show ?thesis by blast
  next
    case False
    then have "device_view ?new = device_view v" using snapshot_unchanged [of v ?new] by (simp add: device_view_def device_changed_def)
    then have "map_option device_view (find (\<lambda>x. dev_mac_address x = m) (row_update dev_id i (\<lambda>_. ?new) (devices (ap_db st)))) =
        map_option device_view (find (\<lambda>x. dev_mac_address x = m) (devices (ap_db st)))" for m
      by (intro find_view_update [OF assms(1) Some]) (simp_all add: device_changed_def)
    with False assms(2) Some have "same_for_authorize (ap_db st) (ap_db st')"
      by (auto simp: same_for_authorize_def update_device_def get_or_404_def Let_def commit_with_def audit_add_def)
    then show ?thesis by blast
  qed
qed

section \<open>What the audit trail says of a change\<close>

text \<open>Who, from where and when.\<close>

definition made_by :: "Principal \<Rightarrow> int \<Rightarrow> AuditLog \<Rightarrow> bool" where
  "made_by p now row \<longleftrightarrow> aud_actor row = take 64 (pr_username p) \<and> aud_actor_type row = (if pr_kind p = Token_Kind then TOKEN else ADMIN) \<and>
     aud_ip row = take 45 (pr_ip p) \<and> aud_timestamp row = now"

text \<open>The row for a device that appeared, went or changed: its id and address, and every column an administrator
  can set - the values of a new device, the old and the new value of a changed column.\<close>

definition names_row :: "AuditLog \<Rightarrow> pystr \<Rightarrow> pystr \<Rightarrow> nat \<Rightarrow> pystr \<Rightarrow> bool" where
  "names_row row action target i mac \<longleftrightarrow>
     aud_action row = action \<and> aud_target_type row = target \<and> aud_target_id row = take 64 (dec i) \<and> aud_target_name row = take 128 mac"

definition says :: "AuditLog \<Rightarrow> pystr \<Rightarrow> json \<Rightarrow> bool" where
  "says row key v \<longleftrightarrow> (\<exists>cs. aud_changes row = JObj cs \<and> (key, v) \<in> set cs)"

fun device_recorded :: "AuditLog \<Rightarrow> nat \<Rightarrow> Device option \<Rightarrow> Device option \<Rightarrow> bool" where
  "device_recorded row i None (Some w) \<longleftrightarrow> names_row row (u ''device.create'') (u ''device'') i (dev_mac_address w) \<and>
     says row (u ''status'') (JStr (DeviceStatus_value (dev_status w))) \<and> says row (u ''device_type'') (JStr (dev_device_type w)) \<and>
     says row (u ''description'') (JStr (dev_description w)) \<and> says row (u ''notes'') (JStr (dev_notes w))"
| "device_recorded row i (Some v) None \<longleftrightarrow> names_row row (u ''device.delete'') (u ''device'') i (dev_mac_address v)"
| "device_recorded row i (Some v) (Some w) \<longleftrightarrow> names_row row (u ''device.update'') (u ''device'') i (dev_mac_address v) \<and>
     (dev_status v \<noteq> dev_status w \<longrightarrow>
        says row (u ''status'') (JArr [JStr (DeviceStatus_value (dev_status v)), JStr (DeviceStatus_value (dev_status w))])) \<and>
     (dev_device_type v \<noteq> dev_device_type w \<longrightarrow> says row (u ''device_type'') (JArr [JStr (dev_device_type v), JStr (dev_device_type w)])) \<and>
     (dev_description v \<noteq> dev_description w \<longrightarrow> says row (u ''description'') (JArr [JStr (dev_description v), JStr (dev_description w)])) \<and>
     (dev_notes v \<noteq> dev_notes w \<longrightarrow> says row (u ''notes'') (JArr [JStr (dev_notes v), JStr (dev_notes w)]))"
| "device_recorded row i None None \<longleftrightarrow> False"

fun guest_recorded :: "AuditLog \<Rightarrow> nat \<Rightarrow> GuestRegistration option \<Rightarrow> GuestRegistration option \<Rightarrow> bool" where
  "guest_recorded row i None (Some g) \<longleftrightarrow> names_row row (u ''guest.create'') (u ''guest'') i (gr_mac_address g)"
| "guest_recorded row i (Some g) (Some h) \<longleftrightarrow> names_row row (u ''guest.revoke'') (u ''guest'') i (gr_mac_address g) \<and>
     (\<exists>t. h = g\<lparr>gr_revoked_at := Some t\<rparr>)"
| "guest_recorded row i _ None \<longleftrightarrow> False"

definition trail_complete :: "Principal \<Rightarrow> int \<Rightarrow> api_state \<Rightarrow> api_state \<Rightarrow> bool" where
  "trail_complete p now st st' \<longleftrightarrow>
     (\<exists>rows. audit_logs (ap_db st') = audit_logs (ap_db st) @ rows \<and> ap_announced st' = ap_announced st @ rows \<and>
        (\<forall>row\<in>set rows. made_by p now row) \<and>
        (\<forall>i. row_get dev_id (devices (ap_db st')) i \<noteq> row_get dev_id (devices (ap_db st)) i \<longrightarrow>
           (\<exists>row\<in>set rows. device_recorded row i (row_get dev_id (devices (ap_db st)) i) (row_get dev_id (devices (ap_db st')) i))) \<and>
        (\<forall>i. row_get gr_id (guest_registrations (ap_db st')) i \<noteq> row_get gr_id (guest_registrations (ap_db st)) i \<longrightarrow>
           (\<exists>row\<in>set rows. guest_recorded row i (row_get gr_id (guest_registrations (ap_db st)) i) (row_get gr_id (guest_registrations (ap_db st')) i))))"

lemma trail_complete_refl [simp]: "trail_complete p now st st"
  by (simp add: trail_complete_def)

lemma made_by_trail_row [simp]: "made_by p now (trail_row p d action target i name changes now)"
  by (simp add: made_by_def trail_row_def audit_row_def)

lemma names_trail_row:
  "length action \<le> 64 \<Longrightarrow> length target \<le> 32 \<Longrightarrow> names_row (trail_row p d action target (dec i) name changes now) action target i name"
  by (simp add: names_row_def trail_row_def audit_row_def)

lemma says_trail_row [simp]: "says (trail_row p d action target i name changes now) key v \<longleftrightarrow> (key, v) \<in> set changes"
  by (simp add: says_def trail_row_def audit_row_def)

text \<open>One row committed with the change.\<close>

lemma trail_complete_commit:
  assumes "ap_db st' = audit_add row d" "audit_logs d = audit_logs (ap_db st)" "ap_announced st' = ap_announced st @ [row]" "made_by p now row"
    "\<forall>i. row_get dev_id (devices d) i \<noteq> row_get dev_id (devices (ap_db st)) i \<longrightarrow>
       device_recorded row i (row_get dev_id (devices (ap_db st)) i) (row_get dev_id (devices d) i)"
    "\<forall>i. row_get gr_id (guest_registrations d) i \<noteq> row_get gr_id (guest_registrations (ap_db st)) i \<longrightarrow>
       guest_recorded row i (row_get gr_id (guest_registrations (ap_db st)) i) (row_get gr_id (guest_registrations d) i)"
  shows "trail_complete p now st st'"
  unfolding trail_complete_def by (rule exI [of _ "[row]"]) (use assms in \<open>simp add: audit_add_def\<close>)

lemma diff_says: "dict_get a k \<noteq> dict_get b k \<Longrightarrow> (k, JArr [dict_get a k, dict_get b k]) \<in> set (diff a b [])"
proof -
  assume ne: "dict_get a k \<noteq> dict_get b k"
  have "\<not> (map_of a k = None \<and> map_of b k = None)" using ne unfolding dict_get_def by (cases "map_of a k"; cases "map_of b k") simp_all
  then have "k \<in> fst ` set a \<union> fst ` set b" by (simp add: map_of_eq_None_iff)
  with ne show ?thesis by (auto simp: diff_def image_iff)
qed

lemma update_recorded:
  assumes "dev_mac_address w = dev_mac_address v"
  shows "device_recorded (trail_row p d (u ''device.update'') (u ''device'') (dec i) (dev_mac_address w)
    (diff (device_snapshot v) (device_snapshot w) []) now) i (Some v) (Some w)"
proof -
  have "dict_get (device_snapshot x) (u ''status'') = JStr (DeviceStatus_value (dev_status x))"
    "dict_get (device_snapshot x) (u ''device_type'') = JStr (dev_device_type x)"
    "dict_get (device_snapshot x) (u ''description'') = JStr (dev_description x)"
    "dict_get (device_snapshot x) (u ''notes'') = JStr (dev_notes x)" for x
    by (simp_all add: device_snapshot_def dict_get_def)
  note columns = this
  have "names_row (trail_row p d (u ''device.update'') (u ''device'') (dec i) (dev_mac_address w)
    (diff (device_snapshot v) (device_snapshot w) []) now) (u ''device.update'') (u ''device'') i (dev_mac_address w)"
    by (rule names_trail_row) (simp_all add: u_def)
  with assms show ?thesis
    using diff_says [of "device_snapshot v" "u ''status''" "device_snapshot w"] diff_says [of "device_snapshot v" "u ''device_type''" "device_snapshot w"]
      diff_says [of "device_snapshot v" "u ''description''" "device_snapshot w"] diff_says [of "device_snapshot v" "u ''notes''" "device_snapshot w"]
    by (simp add: columns)
qed

lemma audit_all_rows:
  "audit_all p es now d = (rows, d') \<Longrightarrow> (\<forall>row\<in>set rows. made_by p now row) \<and>
     (\<forall>(action, target, i, name, changes)\<in>set es. \<exists>d0. trail_row p d0 action target i name changes now \<in> set rows)"
  by (induction p es now d arbitrary: rows d' rule: audit_all.induct) (fastforce simp: Let_def split: prod.splits)+

lemma bulk_recorded:
  "device_recorded (trail_row p d (u ''device.update'') (u ''device'') (dec i) (dev_mac_address v)
     [(u ''status'', JArr [JStr (DeviceStatus_value (dev_status v)), JStr (DeviceStatus_value s)])] now) i (Some v) (Some (v\<lparr>dev_status := s\<rparr>))"
proof -
  have "length (u ''device.update'') \<le> 64" "length (u ''device'') \<le> 32" by (simp_all add: u_def)
  from names_trail_row [OF this] show ?thesis by simp
qed

lemma recorded_bulk:
  assumes "bulk_status b now p st = (res, st')"
  shows "trail_complete p now st st' \<and> (st' = st \<or> (\<exists>reason. ap_reeval st' = schedule (ap_reeval st) reason))"
proof (cases "length (filter (\<lambda>v. dev_id v \<in> set (bs_ids b)) (devices (ap_db st))) = length (remdups (bs_ids b))")
  case False
  with assms show ?thesis by (simp add: bulk_status_def Let_def)
next
  case True
  let ?changed = "filter (\<lambda>v. dev_status v \<noteq> bs_status b) (filter (\<lambda>v. dev_id v \<in> set (bs_ids b)) (devices (ap_db st)))"
  let ?set = "\<lambda>v. if dev_id v \<in> set (bs_ids b) then v\<lparr>dev_status := bs_status b\<rparr> else v"
  let ?es = "map (\<lambda>v. (u ''device.update'', u ''device'', dec (dev_id v), dev_mac_address v,
      [(u ''status'', JArr [JStr (DeviceStatus_value (dev_status v)), JStr (DeviceStatus_value (bs_status b))])])) ?changed"
  obtain rows d' where a: "audit_all p ?es now ((ap_db st)\<lparr>devices := map ?set (devices (ap_db st))\<rparr>) = (rows, d')" by fastforce
  note keeps = audit_all_keeps [OF a] and said = audit_all_rows [OF a]
  have st': "ap_db st' = d'" "ap_announced st' = ap_announced st @ rows"
    "ap_reeval st' = schedule (ap_reeval st) (dec (length (remdups (bs_ids b))) @ u '' devices set to '' @ DeviceStatus_value (bs_status b))"
    using assms True a by (auto simp: bulk_status_def Let_def reevaluate_later_def simp del: filter_filter)
  have get: "row_get dev_id (map ?set xs) i = map_option ?set (row_get dev_id xs i)" for xs i
    by (induction xs) (auto simp: row_get_def)
  have "\<exists>row\<in>set rows. device_recorded row i (row_get dev_id (devices (ap_db st)) i) (row_get dev_id (devices (ap_db st')) i)"
    if ne: "row_get dev_id (devices (ap_db st')) i \<noteq> row_get dev_id (devices (ap_db st)) i" for i
  proof -
    from ne obtain v where v: "row_get dev_id (devices (ap_db st)) i = Some v" "?set v \<noteq> v"
      using keeps by (cases "row_get dev_id (devices (ap_db st)) i") (auto simp: st'(1) get)
    from v(2) have "dev_id v \<in> set (bs_ids b)" by (rule contrapos_np) simp
    moreover from v(2) this have "dev_status v \<noteq> bs_status b" by (cases v) auto
    ultimately have in_changed: "v \<in> set ?changed" "dev_id v = i" using row_get_Some [OF v(1)] by simp_all
    then obtain d0 where d0: "trail_row p d0 (u ''device.update'') (u ''device'') (dec i) (dev_mac_address v)
        [(u ''status'', JArr [JStr (DeviceStatus_value (dev_status v)), JStr (DeviceStatus_value (bs_status b))])] now \<in> set rows"
      using said by fastforce
    moreover have "row_get dev_id (devices (ap_db st')) i = Some (v\<lparr>dev_status := bs_status b\<rparr>)"
      using keeps v(1) in_changed by (auto simp: st'(1) get)
    ultimately show ?thesis using v(1) bulk_recorded by metis
  qed
  with keeps said st' show ?thesis by (auto simp: trail_complete_def intro!: exI [of _ rows])
qed

lemma recorded_update:
  assumes "update_device i b now p st = (res, st')"
  shows "trail_complete p now st st'"
proof (cases "row_get dev_id (devices (ap_db st)) i")
  case None
  with assms show ?thesis by (simp add: update_device_def get_or_404_def)
next
  case (Some v)
  let ?new = "device_changed b v"
  let ?d = "(ap_db st)\<lparr>devices := row_update dev_id i (\<lambda>_. ?new) (devices (ap_db st))\<rparr>"
  let ?row = "trail_row p ?d (u ''device.update'') (u ''device'') (dec i) (dev_mac_address ?new) (diff (device_snapshot v) (device_snapshot ?new) []) now"
  have keeps: "dev_id ?new = i" "dev_mac_address ?new = dev_mac_address v" using row_get_Some [OF Some] by (simp_all add: device_changed_def)
  have "ap_db st' = audit_add ?row ?d" "ap_announced st' = ap_announced st @ [?row]"
    using assms Some by (auto simp: update_device_def get_or_404_def Let_def commit_with_def reevaluate_later_def)
  then show ?thesis
    using Some row_get_put [OF keeps(1) Some] update_recorded [OF keeps(2)]
    by (intro trail_complete_commit [of st' ?row ?d]) simp_all
qed

lemma row_get_next_id: "row_get key rows (next_id key rows) = None"
  using next_id_fresh [of _ rows key] by (fastforce simp: row_get_def find_None_iff)

lemma recorded_create:
  assumes "create_device table b now p st = (res, st')"
  shows "trail_complete p now st st' \<and> (st' = st \<or> (\<exists>reason. ap_reeval st' = schedule (ap_reeval st) reason))"
proof -
  let ?old = "ap_db st"
  let ?v = "(fresh_device ?old (dc_mac_address b) (vendor_for table (dc_mac_address b)) now)\<lparr>dev_status := dc_status b,
     dev_device_type := dc_device_type b, dev_description := dc_description b, dev_notes := dc_notes b\<rparr>"
  let ?d = "?old\<lparr>devices := devices ?old @ [?v]\<rparr>"
  let ?row = "trail_row p ?d (u ''device.create'') (u ''device'') (dec (dev_id ?v)) (dev_mac_address ?v) (device_snapshot ?v) now"
  have fresh: "dev_id ?v = next_id dev_id (devices ?old)" by (simp add: fresh_device_def)
  have gone: "row_get dev_id (devices ?old) (dev_id ?v) = None"
    unfolding fresh by (rule row_get_next_id)
  have "names_row ?row (u ''device.create'') (u ''device'') (dev_id ?v) (dev_mac_address ?v)"
    by (rule names_trail_row) (simp_all add: u_def)
  then have rec: "device_recorded ?row (dev_id ?v) None (Some ?v)" by (simp add: device_snapshot_def)
  show ?thesis
  proof (cases "dev_mac_address ?v \<in> set (map dev_mac_address (devices ?old))")
    case True
    with assms show ?thesis by (simp add: create_device_def Let_def)
  next
    case False
    have "ap_db st' = audit_add ?row ?d" "ap_announced st' = ap_announced st @ [?row]" "\<exists>reason. ap_reeval st' = schedule (ap_reeval st) reason"
      using assms [unfolded create_device_def Let_def if_not_P [OF False]] by (auto simp: commit_with_def reevaluate_later_def)
    then show ?thesis
      using rec gone row_get_append_fresh [of dev_id ?v, OF fresh]
      by (intro conjI disjI2 trail_complete_commit [of st' ?row ?d]) simp_all
  qed
qed

lemma recorded_delete:
  assumes "delete_device i now p st = (res, st')"
  shows "trail_complete p now st st' \<and> (st' = st \<or> (\<exists>reason. ap_reeval st' = schedule (ap_reeval st) reason))"
proof (cases "row_get dev_id (devices (ap_db st)) i")
  case None
  with assms show ?thesis by (simp add: delete_device_def get_or_404_def)
next
  case (Some v)
  let ?d = "(ap_db st)\<lparr>devices := row_delete dev_id i (devices (ap_db st))\<rparr>"
  let ?row = "trail_row p ?d (u ''device.delete'') (u ''device'') (dec i) (dev_mac_address v) [] now"
  have "ap_db st' = audit_add ?row ?d" "ap_announced st' = ap_announced st @ [?row]" "\<exists>reason. ap_reeval st' = schedule (ap_reeval st) reason"
    using assms Some by (auto simp: delete_device_def get_or_404_def Let_def commit_with_def reevaluate_later_def)
  moreover have "names_row ?row (u ''device.delete'') (u ''device'') i (dev_mac_address v)"
    by (rule names_trail_row) (simp_all add: u_def)
  ultimately show ?thesis
    using Some by (intro conjI disjI2 trail_complete_commit [of st' ?row ?d]) (simp_all add: row_get_delete)
qed

lemma recorded_guest:
  assumes "add_guest b now p st = (res, st')"
  shows "trail_complete p now st st' \<and> (\<exists>reason. ap_reeval st' = schedule (ap_reeval st) reason)"
proof -
  let ?old = "ap_db st"
  let ?g = "\<lparr>gr_id = next_id gr_id (guest_registrations ?old), gr_mac_address = gn_mac_address b, gr_full_name = gn_full_name b, gr_email = gn_email b,
     gr_nas_ip = [], gr_client_ip = [], gr_created_by = take 64 (pr_username p), gr_created_at = now,
     gr_expires_at = now + gn_hours b * hour, gr_revoked_at = None\<rparr>"
  let ?d = "?old\<lparr>guest_registrations := guest_registrations ?old @ [?g]\<rparr>"
  let ?row = "trail_row p ?d (u ''guest.create'') (u ''guest'') (dec (gr_id ?g)) (gr_mac_address ?g) [(u ''hours'', JInt (gn_hours b))] now"
  have gone: "row_get gr_id (guest_registrations ?old) (gr_id ?g) = None"
    by (simp add: row_get_next_id)
  have "names_row ?row (u ''guest.create'') (u ''guest'') (gr_id ?g) (gr_mac_address ?g)"
    by (rule names_trail_row) (simp_all add: u_def)
  moreover have "ap_db st' = audit_add ?row ?d" "ap_announced st' = ap_announced st @ [?row]" "\<exists>reason. ap_reeval st' = schedule (ap_reeval st) reason"
    using assms by (auto simp: add_guest_def Let_def commit_with_def reevaluate_later_def)
  ultimately show ?thesis
    using gone row_get_append_fresh [of gr_id ?g "guest_registrations ?old"]
    by (intro conjI trail_complete_commit [of st' ?row ?d]) simp_all
qed

lemma recorded_revoke:
  assumes "revoke_guest i now p st = (res, st')"
  shows "trail_complete p now st st' \<and> (st' = st \<or> (\<exists>reason. ap_reeval st' = schedule (ap_reeval st) reason))"
proof (cases "\<exists>g. row_get gr_id (guest_registrations (ap_db st)) i = Some g \<and> gr_revoked_at g = None")
  case False
  with assms show ?thesis by (auto simp: revoke_guest_def get_or_404_def split: option.splits)
next
  case True
  then obtain g where g: "row_get gr_id (guest_registrations (ap_db st)) i = Some g" "gr_revoked_at g = None" by blast
  let ?new = "g\<lparr>gr_revoked_at := Some now\<rparr>"
  let ?d = "(ap_db st)\<lparr>guest_registrations := row_update gr_id i (\<lambda>_. ?new) (guest_registrations (ap_db st))\<rparr>"
  let ?row = "trail_row p ?d (u ''guest.revoke'') (u ''guest'') (dec i) (gr_mac_address g) [] now"
  have "ap_db st' = audit_add ?row ?d" "ap_announced st' = ap_announced st @ [?row]" "\<exists>reason. ap_reeval st' = schedule (ap_reeval st) reason"
    using assms g by (auto simp: revoke_guest_def get_or_404_def Let_def commit_with_def reevaluate_later_def)
  moreover have "names_row ?row (u ''guest.revoke'') (u ''guest'') i (gr_mac_address g)"
    by (rule names_trail_row) (simp_all add: u_def)
  moreover have "gr_id ?new = i" using row_get_Some [OF g(1)] by simp
  ultimately show ?thesis
    using g row_get_put [of gr_id ?new i, OF _ g(1)] by (intro conjI disjI2 trail_complete_commit [of st' ?row ?d]) auto
qed


definition lab_block :: device_request where
  "lab_block = Update_Device 4 \<lparr>du_status = Some BLOCKED, du_device_type = None, du_description = None, du_notes = None\<rparr>"

definition lab_inventory :: api_state where
  "lab_inventory = lab_users_state\<lparr>ap_db := empty_db\<lparr>devices := [(fresh_device empty_db (u ''aa:bb:cc:dd:ee:01'') [] 0)\<lparr>dev_id := 4\<rparr>]\<rparr>\<rparr>"


end
