(* ===== verification/Csv.thy ===== *)
theory Csv
  imports Prelude
begin

text \<open>
  Python's \<open>csv\<close> module with the dialect \<open>excel\<close>, as \<open>naco/api/routes/transfer.py\<close> uses it: \<open>csv.writer\<close>, and
  \<open>csv.reader\<close> over the lines of an \<open>io.StringIO\<close>, which end at line feeds only.  The reader is its state machine, one
  transition per character and one for the end of a line; the theorem at the end is that reading gives back what was written.
\<close>

section \<open>Writing\<close>

definition csv_special :: "nat \<Rightarrow> bool" where
  "csv_special c \<longleftrightarrow> c = 44 \<or> c = 34 \<or> c = 13 \<or> c = 10"

definition csv_doubled :: "pystr \<Rightarrow> pystr" where
  "csv_doubled s = concat (map (\<lambda>c. if c = 34 then [34, 34] else [c]) s)"

text \<open>A field is quoted when it has to be; an empty one only when it is alone in its row.\<close>

definition csv_field :: "bool \<Rightarrow> pystr \<Rightarrow> pystr" where
  "csv_field alone s = (if list_ex csv_special s \<or> alone \<and> s = [] then [34] @ csv_doubled s @ [34] else s)"

definition csv_row :: "pystr list \<Rightarrow> pystr" where
  "csv_row fs = join [44] (map (csv_field (length fs = 1)) fs) @ [13, 10]"

definition csv_write :: "pystr list list \<Rightarrow> pystr" where
  "csv_write rows = concat (map csv_row rows)"

section \<open>Reading\<close>

datatype csv_error = New_Line_In_Field | Field_Too_Long

datatype csv_mode = Start_Record | Start_Field | In_Field | In_Quoted_Field | Quote_In_Quoted_Field | Eat_Crnl

record csv_state =
  cv_mode :: csv_mode
  cv_field :: pystr
  cv_fields :: "pystr list"

definition csv_reset :: csv_state where
  "csv_reset = \<lparr>cv_mode = Start_Record, cv_field = [], cv_fields = []\<rparr>"

definition csv_add :: "nat \<Rightarrow> csv_mode \<Rightarrow> csv_state \<Rightarrow> csv_error + csv_state" where
  "csv_add c mode st =
     (if length (cv_field st) \<ge> 131072 then Inl Field_Too_Long else Inr (st\<lparr>cv_mode := mode, cv_field := cv_field st @ [c]\<rparr>))"

definition csv_save :: "csv_mode \<Rightarrow> csv_state \<Rightarrow> csv_state" where
  "csv_save mode st = st\<lparr>cv_mode := mode, cv_field := [], cv_fields := cv_fields st @ [cv_field st]\<rparr>"

text \<open>The end of a line is \<open>None\<close>.\<close>

definition csv_ends :: "nat option \<Rightarrow> bool" where
  "csv_ends c \<longleftrightarrow> c = None \<or> c = Some 10 \<or> c = Some 13"

definition csv_after_row :: "nat option \<Rightarrow> csv_mode" where
  "csv_after_row c = (if c = None then Start_Record else Eat_Crnl)"

definition csv_start_field :: "csv_state \<Rightarrow> nat option \<Rightarrow> csv_error + csv_state" where
  "csv_start_field st c =
     (if csv_ends c then Inr (csv_save (csv_after_row c) st)
      else if c = Some 34 then Inr (st\<lparr>cv_mode := In_Quoted_Field\<rparr>)
      else if c = Some 44 then Inr (csv_save Start_Field st)
      else csv_add (the c) In_Field st)"

definition csv_step :: "csv_state \<Rightarrow> nat option \<Rightarrow> csv_error + csv_state" where
  "csv_step st c =
     (case cv_mode st of
        Start_Record \<Rightarrow>
          if c = None then Inr st
          else if csv_ends c then Inr (st\<lparr>cv_mode := Eat_Crnl\<rparr>)
          else csv_start_field st c
      | Start_Field \<Rightarrow> csv_start_field st c
      | In_Field \<Rightarrow>
          if csv_ends c then Inr (csv_save (csv_after_row c) st)
          else if c = Some 44 then Inr (csv_save Start_Field st)
          else csv_add (the c) In_Field st
      | In_Quoted_Field \<Rightarrow>
          if c = None then Inr st
          else if c = Some 34 then Inr (st\<lparr>cv_mode := Quote_In_Quoted_Field\<rparr>)
          else csv_add (the c) In_Quoted_Field st
      | Quote_In_Quoted_Field \<Rightarrow>
          if c = Some 34 then csv_add 34 In_Quoted_Field st
          else if c = Some 44 then Inr (csv_save Start_Field st)
          else if csv_ends c then Inr (csv_save (csv_after_row c) st)
          else csv_add (the c) In_Field st
      | Eat_Crnl \<Rightarrow>
          if c = Some 10 \<or> c = Some 13 then Inr st
          else if c = None then Inr (st\<lparr>cv_mode := Start_Record\<rparr>)
          else Inl New_Line_In_Field)"

fun csv_run :: "csv_state \<Rightarrow> nat option list \<Rightarrow> csv_error + csv_state" where
  "csv_run st [] = Inr st"
| "csv_run st (c # cs) = rbind (csv_step st c) (\<lambda>st. csv_run st cs)"

fun csv_lines :: "pystr \<Rightarrow> pystr list" where
  "csv_lines [] = []"
| "csv_lines (c # cs) =
     (if c = 10 then [c] # csv_lines cs else (case csv_lines cs of [] \<Rightarrow> [[c]] | l # ls \<Rightarrow> (c # l) # ls))"

text \<open>The next record: lines are taken until the machine is back at the start.  At the end of the text an unfinished field counts.\<close>

fun csv_next :: "csv_state \<Rightarrow> pystr list \<Rightarrow> csv_error + (pystr list \<times> pystr list) option" where
  "csv_next st [] =
     (if cv_field st \<noteq> [] \<or> cv_mode st = In_Quoted_Field then Inr (Some (cv_fields (csv_save Start_Record st), [])) else Inr None)"
| "csv_next st (l # ls) =
     rbind (csv_run st (map Some l @ [None])) (\<lambda>st.
       if cv_mode st = Start_Record then Inr (Some (cv_fields st, ls)) else csv_next st ls)"

lemma csv_next_shrinks: "csv_next st ls = Inr (Some (row, rest)) \<Longrightarrow> length rest \<le> length ls - 1"
  by (induction st ls rule: csv_next.induct) (fastforce simp: rbind_eq_Inr split: if_splits)+

function csv_read :: "pystr list \<Rightarrow> csv_error + pystr list list" where
  "csv_read ls =
     (case csv_next csv_reset ls of
        Inl e \<Rightarrow> Inl e
      | Inr None \<Rightarrow> Inr []
      | Inr (Some (row, rest)) \<Rightarrow> rbind (csv_read rest) (\<lambda>rows. Inr (row # rows)))"
  by auto

termination
proof (relation "measure length")
  fix ls row rest and x :: "(pystr list \<times> pystr list) option" and y :: "pystr list \<times> pystr list"
  assume a: "csv_next csv_reset ls = Inr x" "x = Some y" "(row, rest) = y"
  then have "ls \<noteq> []" by (auto simp: csv_reset_def)
  moreover from a have "length rest \<le> length ls - 1" by (intro csv_next_shrinks) auto
  ultimately show "(rest, ls) \<in> measure length" by (cases ls) auto
qed simp

declare csv_read.simps [simp del]

definition csv_parse :: "pystr \<Rightarrow> csv_error + pystr list list" where
  "csv_parse t = csv_read (csv_lines t)"

section \<open>Reading gives back what was written\<close>

text \<open>The machine, one character at a time.\<close>

lemma csv_lines_Nil_iff [simp]: "csv_lines t = [] \<longleftrightarrow> t = []"
  by (cases t) (auto split: list.splits)

lemma csv_next_char:
  assumes "c \<noteq> 10" "t \<noteq> []"
  shows "csv_next st (csv_lines (c # t)) = rbind (csv_step st (Some c)) (\<lambda>st. csv_next st (csv_lines t))"
proof -
  obtain l ls where "csv_lines t = l # ls" using assms(2) csv_lines_Nil_iff [of t] by (cases "csv_lines t") auto
  then show ?thesis using assms(1) by (cases "csv_step st (Some c)") auto
qed

lemma csv_next_newline:
  "csv_next st (csv_lines (10 # t)) =
     rbind (csv_step st (Some 10)) (\<lambda>st. rbind (csv_step st None) (\<lambda>st.
       if cv_mode st = Start_Record then Inr (Some (cv_fields st, csv_lines t)) else csv_next st (csv_lines t)))"
  by (cases "csv_step st (Some 10)") (simp_all add: rbind_def split: sum.splits)

lemma csv_doubled_simps [simp]:
  "csv_doubled [] = []" "csv_doubled (c # s) = (if c = 34 then [34, 34] else [c]) @ csv_doubled s"
  by (simp_all add: csv_doubled_def)

lemma csv_quoted:
  "length f + length s \<le> 131072 \<Longrightarrow> t \<noteq> [] \<Longrightarrow>
   csv_next \<lparr>cv_mode = In_Quoted_Field, cv_field = f, cv_fields = fs\<rparr> (csv_lines (csv_doubled s @ 34 # t)) =
   csv_next \<lparr>cv_mode = Quote_In_Quoted_Field, cv_field = f @ s, cv_fields = fs\<rparr> (csv_lines t)"
proof (induction s arbitrary: f)
  case Nil
  then show ?case by (simp add: csv_next_char csv_step_def del: csv_lines.simps)
next
  case (Cons c s)
  from Cons.IH [of "f @ [c]"] Cons.prems show ?case
    by (cases "c = 34"; cases "c = 10")
      (simp_all add: csv_next_char csv_next_newline csv_step_def csv_add_def del: csv_lines.simps)
qed

lemma csv_plain:
  "length f + length s \<le> 131072 \<Longrightarrow> t \<noteq> [] \<Longrightarrow> \<not> list_ex csv_special s \<Longrightarrow>
   csv_next \<lparr>cv_mode = In_Field, cv_field = f, cv_fields = fs\<rparr> (csv_lines (s @ t)) =
   csv_next \<lparr>cv_mode = In_Field, cv_field = f @ s, cv_fields = fs\<rparr> (csv_lines t)"
proof (induction s arbitrary: f)
  case (Cons c s)
  from Cons.IH [of "f @ [c]"] Cons.prems show ?case
    by (simp add: csv_next_char csv_step_def csv_add_def csv_special_def csv_ends_def del: csv_lines.simps)
qed simp

text \<open>After a written field the machine stands before its separator with the field complete.\<close>

definition csv_done_field :: "pystr \<Rightarrow> csv_state \<Rightarrow> pystr list \<Rightarrow> bool" where
  "csv_done_field s st fs \<longleftrightarrow> cv_field st = s \<and> cv_fields st = fs \<and>
     (cv_mode st = In_Field \<or> cv_mode st = Quote_In_Quoted_Field \<or> cv_mode st = Start_Field)"

lemma csv_field_read:
  assumes "length s \<le> 131072" "t \<noteq> []"
  shows "\<exists>st. csv_done_field s st fs \<and>
    csv_next \<lparr>cv_mode = Start_Field, cv_field = [], cv_fields = fs\<rparr> (csv_lines (csv_field alone s @ t)) = csv_next st (csv_lines t)"
proof (cases "list_ex csv_special s \<or> alone \<and> s = []")
  case True
  have "csv_next \<lparr>cv_mode = Start_Field, cv_field = [], cv_fields = fs\<rparr> (csv_lines (34 # csv_doubled s @ 34 # t)) =
      csv_next \<lparr>cv_mode = Quote_In_Quoted_Field, cv_field = s, cv_fields = fs\<rparr> (csv_lines t)"
    using csv_quoted [of "[]" s t fs] assms
    by (simp add: csv_next_char csv_step_def csv_start_field_def csv_ends_def del: csv_lines.simps)
  with True show ?thesis
    by (intro exI [of _ "\<lparr>cv_mode = Quote_In_Quoted_Field, cv_field = s, cv_fields = fs\<rparr>"]) (simp add: csv_field_def csv_done_field_def)
next
  case False
  show ?thesis
  proof (cases s)
    case Nil
    with False show ?thesis
      by (intro exI [of _ "\<lparr>cv_mode = Start_Field, cv_field = [], cv_fields = fs\<rparr>"]) (simp add: csv_field_def csv_done_field_def)
  next
    case (Cons c s')
    with False have "csv_next \<lparr>cv_mode = Start_Field, cv_field = [], cv_fields = fs\<rparr> (csv_lines (s @ t)) =
        csv_next \<lparr>cv_mode = In_Field, cv_field = s, cv_fields = fs\<rparr> (csv_lines t)"
      using csv_plain [of "[c]" s' t fs] assms
      by (simp add: csv_next_char csv_step_def csv_start_field_def csv_add_def csv_special_def csv_ends_def del: csv_lines.simps)
    with False show ?thesis
      by (intro exI [of _ "\<lparr>cv_mode = In_Field, cv_field = s, cv_fields = fs\<rparr>"]) (auto simp: csv_field_def csv_done_field_def)
  qed
qed

lemma csv_comma: "csv_done_field s st fs \<Longrightarrow> t \<noteq> [] \<Longrightarrow>
    csv_next st (csv_lines (44 # t)) = csv_next \<lparr>cv_mode = Start_Field, cv_field = [], cv_fields = fs @ [s]\<rparr> (csv_lines t)"
  by (cases st) (auto simp: csv_done_field_def csv_next_char csv_step_def csv_start_field_def csv_ends_def csv_save_def simp del: csv_lines.simps)

lemma csv_crlf: "csv_done_field s st fs \<Longrightarrow> csv_next st (csv_lines (13 # 10 # t)) = Inr (Some (fs @ [s], csv_lines t))"
  by (cases st)
    (auto simp: csv_done_field_def csv_next_char csv_next_newline csv_step_def csv_start_field_def csv_ends_def csv_save_def csv_after_row_def
      simp del: csv_lines.simps)

lemma csv_fields_read:
  assumes "list_all (\<lambda>s. length s \<le> 131072) cells" "cells \<noteq> []"
  shows "csv_next \<lparr>cv_mode = Start_Field, cv_field = [], cv_fields = fs\<rparr> (csv_lines (join [44] (map (csv_field alone) cells) @ 13 # 10 # t)) =
    Inr (Some (fs @ cells, csv_lines t))"
  using assms
proof (induction cells arbitrary: fs rule: induct_list012)
  case (2 s)
  then obtain st where "csv_done_field s st fs"
    "csv_next \<lparr>cv_mode = Start_Field, cv_field = [], cv_fields = fs\<rparr> (csv_lines (csv_field alone s @ 13 # 10 # t)) = csv_next st (csv_lines (13 # 10 # t))"
    using csv_field_read [of s "13 # 10 # t" fs alone] by auto
  with csv_crlf show ?case by simp
next
  case (3 s s' ss)
  let ?rest = "join [44] (map (csv_field alone) (s' # ss)) @ 13 # 10 # t"
  obtain st where st: "csv_done_field s st fs"
    "csv_next \<lparr>cv_mode = Start_Field, cv_field = [], cv_fields = fs\<rparr> (csv_lines (csv_field alone s @ 44 # ?rest)) = csv_next st (csv_lines (44 # ?rest))"
    using csv_field_read [of s "44 # ?rest" fs alone] 3 by auto
  have "csv_next st (csv_lines (44 # ?rest)) = Inr (Some (fs @ s # s' # ss, csv_lines t))"
    using csv_comma [OF st(1), of ?rest] 3 by (simp del: csv_lines.simps)
  with st(2) show ?case by (simp del: csv_lines.simps)
qed simp

lemma csv_start: "c \<noteq> 10 \<Longrightarrow> c \<noteq> 13 \<Longrightarrow> t \<noteq> [] \<Longrightarrow>
    csv_next csv_reset (csv_lines (c # t)) = csv_next \<lparr>cv_mode = Start_Field, cv_field = [], cv_fields = []\<rparr> (csv_lines (c # t))"
  by (simp add: csv_next_char csv_reset_def csv_step_def csv_start_field_def csv_ends_def csv_add_def csv_save_def del: csv_lines.simps)

lemma csv_field_hd: "csv_field alone s = c # r \<Longrightarrow> c \<noteq> 10 \<and> c \<noteq> 13"
  by (cases s) (auto simp: csv_field_def csv_special_def split: if_splits)

lemma csv_row_read:
  assumes "list_all (\<lambda>s. length s \<le> 131072) cells"
  shows "csv_next csv_reset (csv_lines (csv_row cells @ t)) = Inr (Some (cells, csv_lines t))"
proof (cases cells)
  case Nil
  then show ?thesis
    by (simp add: csv_row_def csv_next_char csv_next_newline csv_reset_def csv_step_def csv_ends_def del: csv_lines.simps)
next
  case (Cons s ss)
  let ?body = "join [44] (map (csv_field (length cells = 1)) cells)"
  have "?body \<noteq> [] \<and> hd ?body \<noteq> 10 \<and> hd ?body \<noteq> 13"
  proof (cases "csv_field (length cells = 1) s")
    case Nil
    then have "ss \<noteq> []" using Cons by (auto simp: csv_field_def split: if_splits)
    then show ?thesis using Nil Cons by (cases ss) auto
  next
    case (Cons c r)
    then show ?thesis using csv_field_hd [OF Cons] \<open>cells = s # ss\<close> by (cases ss) auto
  qed
  then obtain c r where "?body = c # r" "c \<noteq> 10" "c \<noteq> 13" by (cases ?body) auto
  with csv_start [of c "r @ 13 # 10 # t"] csv_fields_read [of cells "[]" "length cells = 1" t] assms Cons show ?thesis
    by (simp add: csv_row_def del: csv_lines.simps)
qed

lemma csv_parse_write: "list_all (list_all (\<lambda>s. length s \<le> 131072)) rows \<Longrightarrow> csv_parse (csv_write rows) = Inr rows"
  unfolding csv_parse_def csv_write_def
proof (induction rows)
  case Nil
  then show ?case by (simp add: csv_read.simps csv_reset_def)
next
  case (Cons r rows)
  then show ?case by (subst csv_read.simps) (simp add: csv_row_read del: csv_lines.simps)
qed


end
