(* ===== verification/CsvTransfer.thy ===== *)
theory CsvTransfer
  imports NetworkApi DevicesApi Csv
begin

text \<open>
  CSV export and import: \<open>naco/api/routes/transfer.py\<close>.  The name of the exported file is left out.  How pydantic reads the
  text of a port is the argument \<open>to_int\<close>; the texts of its messages are left out.
\<close>

section \<open>Export\<close>

definition FORMULA :: "nat list" where
  "FORMULA = [61, 43, 45, 64, 9, 13]"

definition safe_cell :: "pystr \<Rightarrow> pystr" where
  "safe_cell t = (case t of [] \<Rightarrow> t | c # _ \<Rightarrow> if c \<in> set FORMULA then 39 # t else t)"

definition csv_document :: "pystr list \<Rightarrow> pystr list list \<Rightarrow> pystr" where
  "csv_document headers rows = csv_write (headers # map (map safe_cell) rows)"

text \<open>\<open>str\<close> of the values that are not text.\<close>

definition bool_text :: "bool \<Rightarrow> pystr" where
  "bool_text b = (if b then u ''True'' else u ''False'')"

fun source_text :: "UserSource \<Rightarrow> pystr" where
  "source_text LOCAL = u ''LOCAL''"
| "source_text LDAP = u ''LDAP''"

text \<open>\<open>datetime.isoformat()\<close> in UTC, with the civil date of a day number.\<close>

definition civil_date :: "int \<Rightarrow> int \<times> int \<times> int" where
  "civil_date day =
     (let z = day + 719468; era = z div 146097; doe = z mod 146097;
          yoe = (doe - doe div 1460 + doe div 36524 - doe div 146096) div 365;
          doy = doe - (365 * yoe + yoe div 4 - yoe div 100);
          mp = (5 * doy + 2) div 153;
          m = (if mp < 10 then mp + 3 else mp - 9)
      in (yoe + era * 400 + (if m \<le> 2 then 1 else 0), m, doy - (153 * mp + 2) div 5 + 1))"

definition padded :: "nat \<Rightarrow> int \<Rightarrow> pystr" where
  "padded w n = (let s = dec (nat n) in replicate (w - length s) 48 @ s)"

definition isoformat :: "int \<Rightarrow> pystr" where
  "isoformat t =
     (let us = t mod second; secs = t div second; (y, m, d) = civil_date (secs div 86400); s = secs mod 86400
      in padded 4 y @ u ''-'' @ padded 2 m @ u ''-'' @ padded 2 d @ u ''T'' @ padded 2 (s div 3600) @ u '':'' @ padded 2 (s div 60 mod 60) @ u '':'' @
         padded 2 (s mod 60) @ (if us = 0 then [] else u ''.'' @ padded 6 us) @ u ''+00:00'')"

datatype transfer_kind = Users_File | Devices_File | Nas_File

fun export_headers :: "transfer_kind \<Rightarrow> pystr list" where
  "export_headers Users_File = [u ''username'', u ''source'', u ''email'', u ''full_name'', u ''group'', u ''enabled'']"
| "export_headers Devices_File =
     [u ''mac_address'', u ''status'', u ''device_type'', u ''vendor'', u ''description'', u ''notes'', u ''last_seen'']"
| "export_headers Nas_File =
     [u ''name'', u ''ip_address'', u ''vendor'', u ''coa_port'', u ''require_message_authenticator'', u ''description'', u ''enabled'']"

fun export_rows :: "transfer_kind \<Rightarrow> db \<Rightarrow> pystr list list" where
  "export_rows Users_File d =
     map (\<lambda>x. [usr_username x, source_text (usr_source x), usr_email x, usr_full_name x,
               (case group_by_id d (usr_group_id x) of None \<Rightarrow> [] | Some g \<Rightarrow> grp_name g), bool_text (usr_enabled x)])
       (sort_key usr_username (users d))"
| "export_rows Devices_File d =
     map (\<lambda>v. [dev_mac_address v, DeviceStatus_value (dev_status v), dev_device_type v, dev_vendor v, dev_description v, dev_notes v,
               isoformat (dev_last_seen v)])
       (sort_key dev_mac_address (devices d))"
| "export_rows Nas_File d =
     map (\<lambda>n. [nas_name n, nas_ip_address n, nas_vendor n, dec (nas_coa_port n), bool_text (nas_require_message_authenticator n),
               nas_description n, bool_text (nas_enabled n)])
       (sort_key nas_name (nas_clients d))"

definition export_csv :: "transfer_kind \<Rightarrow> db \<Rightarrow> pystr" where
  "export_csv kind d = csv_document (export_headers kind) (export_rows kind d)"

section \<open>Reading a file\<close>

text \<open>\<open>csv.Error\<close> is not caught: the answer is 500.\<close>

datatype import_exc = Api_Exc api_exc | Csv_Exc csv_error

fun import_status :: "import_exc \<Rightarrow> nat" where
  "import_status (Api_Exc e) = http_status e"
| "import_status (Csv_Exc e) = 500"

fun row_limit :: "transfer_kind \<Rightarrow> nat" where
  "row_limit Users_File = 2000"
| "row_limit Devices_File = 10000"
| "row_limit Nas_File = 1000"

fun kind_word :: "transfer_kind \<Rightarrow> pystr" where
  "kind_word Users_File = u ''users''"
| "kind_word Devices_File = u ''devices''"
| "kind_word Nas_File = u ''nas''"

text \<open>\<open>data.decode("utf-8-sig")\<close>: bytes that are no UTF-8 would become surrogates; a byte order mark is dropped.\<close>

definition decode_sig :: "bytes \<Rightarrow> pystr option" where
  "decode_sig data =
     (let s = decode_escape data in
      if list_ex is_surrogate s then None else Some (case s of [] \<Rightarrow> [] | c # cs \<Rightarrow> if c = 0xFEFF then cs else s))"

text \<open>A row of \<open>csv.DictReader\<close>: later columns of the same name win, columns beyond the header go, missing ones are \<open>None\<close>.\<close>

fun dict_row :: "pystr list \<Rightarrow> pystr list \<Rightarrow> (pystr, pystr option) odict \<Rightarrow> (pystr, pystr option) odict" where
  "dict_row [] vs acc = acc"
| "dict_row (k # ks) [] acc = dict_row ks [] (od_set acc k None)"
| "dict_row (k # ks) (v # vs) acc = dict_row ks vs (od_set acc k (Some v))"

definition clean_row :: "(pystr, pystr option) odict \<Rightarrow> (pystr, pystr) odict" where
  "clean_row row =
     foldl (\<lambda>acc (k, v). if k = [] then acc else od_set acc (strip k) (strip (case v of None \<Rightarrow> [] | Some t \<Rightarrow> t))) [] row"

definition MAX_FILE :: nat where
  "MAX_FILE = 5 * 1024 * 1024"

definition file_rows :: "bytes \<Rightarrow> transfer_kind \<Rightarrow> pystr list \<Rightarrow> import_exc + (nat \<times> (pystr, pystr) odict) list" where
  "file_rows data kind required =
     (if length data > MAX_FILE then Inl (Api_Exc (api_error 413 (u ''CSV files are limited to 5 MB'')))
      else
        (case decode_sig data of
           None \<Rightarrow> Inl (Api_Exc (api_error 422 (u ''the file is not UTF-8 text'')))
         | Some t \<Rightarrow>
             (case csv_next csv_reset (csv_lines t) of
                Inl e \<Rightarrow> Inl (Csv_Exc e)
              | Inr first \<Rightarrow>
                  (let (headers, rest) = (case first of None \<Rightarrow> ([], []) | Some hr \<Rightarrow> hr);
                       missing = filter (\<lambda>r. r \<notin> set (map strip headers)) (sort required) in
                   if missing \<noteq> [] then Inl (Api_Exc (api_error 422 (u ''missing columns: '' @ join (u '', '') missing)))
                   else
                     (case csv_read rest of
                        Inl e \<Rightarrow> Inl (Csv_Exc e)
                      | Inr rows \<Rightarrow>
                          (let rows = filter (\<lambda>r. r \<noteq> []) rows in
                           if length rows > row_limit kind
                           then Inl (Api_Exc (api_error 413 (u ''at most '' @ dec (row_limit kind) @ u '' rows per '' @ kind_word kind @ u '' import'')))
                           else Inr (map (\<lambda>(i, r). (i + 2, clean_row (dict_row headers r []))) (enumerate 0 rows))))))))"

definition cell :: "(pystr, pystr) odict \<Rightarrow> string \<Rightarrow> pystr" where
  "cell row name = (case od_get row (u name) of None \<Rightarrow> [] | Some v \<Rightarrow> v)"

definition read_bool :: "pystr \<Rightarrow> bool" where
  "read_bool v = (if v = [] then True else lower v \<in> {u ''1'', u ''true'', u ''yes'', u ''y''})"

datatype import_error = Invalid_Row | Row_Message pystr

text \<open>The loop \<open>_import\<close>: the items to create, how many were there already, and the errors with their lines.\<close>

fun import_loop :: "('r \<Rightarrow> import_error + 'a) \<Rightarrow> ('a \<Rightarrow> pystr) \<Rightarrow> pystr list \<Rightarrow> (nat \<times> 'r) list \<Rightarrow> 'a list \<times> nat \<times> (nat \<times> import_error) list" where
  "import_loop build key exists [] = ([], 0, [])"
| "import_loop build key exists ((line, row) # rows) =
     (case build row of
        Inl e \<Rightarrow> (let (created, skipped, errs) = import_loop build key exists rows in (created, skipped, (line, e) # errs))
      | Inr item \<Rightarrow>
          if key item \<in> set exists then (let (created, skipped, errs) = import_loop build key exists rows in (created, Suc skipped, errs))
          else (let (created, skipped, errs) = import_loop build key (key item # exists) rows in (item # created, skipped, errs)))"

record ImportResult =
  im_created :: nat
  im_skipped :: nat
  im_errors :: "(nat \<times> import_error) list"

definition MAX_ERRORS :: nat where
  "MAX_ERRORS = 100"

definition import_counts :: "nat \<Rightarrow> nat \<Rightarrow> (nat \<times> import_error) list \<Rightarrow> (pystr \<times> json) list" where
  "import_counts created skipped errs =
     [(u ''created'', JInt (int created)), (u ''skipped'', JInt (int skipped)), (u ''errors'', JInt (int (length errs)))]"

type_synonym 'a import_route = "(import_exc + 'a) \<times> api_state"

section \<open>Import\<close>

definition find_named_group :: "db \<Rightarrow> pystr \<Rightarrow> Group option" where
  "find_named_group d name = find (\<lambda>g. casefold (grp_name g) = casefold name) (rev (groups d))"

definition build_user :: "db \<Rightarrow> Principal \<Rightarrow> (pystr, pystr) odict \<Rightarrow> import_error + UserCreate" where
  "build_user d p row =
     (let name = cell row ''group'';
          group = (if name = [] then None else find_named_group d name) in
      if name \<noteq> [] \<and> group = None then Inl (Row_Message (u ''group does not exist''))
      else if (case group of None \<Rightarrow> False | Some g \<Rightarrow> grp_device_admin_privilege g \<noteq> None) \<and> \<not> allows (pr_role p) SUPERUSER
      then Inl (Row_Message (u ''only a SUPERUSER may add users to device-admin group''))
      else
        (case validate_user_password (cell row ''password'') of
           Inl (ValueError m) \<Rightarrow> Inl (Row_Message m)
         | Inl _ \<Rightarrow> Inl (Row_Message (u ''surrogates not allowed''))
         | Inr _ \<Rightarrow>
             (case UserCreate_body \<lparr>uc_username = cell row ''username'', uc_password = cell row ''password'', uc_email = cell row ''email'',
                uc_full_name = cell row ''full_name'', uc_group_id = map_option grp_id group, uc_enabled = read_bool (cell row ''enabled'')\<rparr> of
                None \<Rightarrow> Inl Invalid_Row
              | Some b \<Rightarrow> Inr b)))"

text \<open>Rows with the keys that the inserts give them.\<close>

definition imported_user :: "nat \<Rightarrow> UserCreate \<Rightarrow> pystr \<Rightarrow> int \<Rightarrow> User" where
  "imported_user i b dig now =
     \<lparr>usr_id = i, usr_username = uc_username b, usr_source = LOCAL, usr_password_hash = Some dig, usr_email = uc_email b,
      usr_full_name = uc_full_name b, usr_group_id = uc_group_id b, usr_enabled = uc_enabled b, usr_created_at = now, usr_updated_at = now,
      usr_last_login_at = None\<rparr>"

text \<open>The groups and names are read, then the passwords are hashed outside a transaction; the commit fails when a name was taken or a
  group deleted meanwhile.\<close>

definition import_users :: "api_env \<Rightarrow> bytes \<Rightarrow> int \<Rightarrow> Principal \<Rightarrow> api_state \<Rightarrow> ImportResult import_route" where
  "import_users env data now p st =
     (case file_rows data Users_File [u ''username'', u ''password''] of
        Inl e \<Rightarrow> (Inl e, st)
      | Inr rows \<Rightarrow>
          (let d = ap_db st;
               (created, skipped, errs) = import_loop (build_user d p) uc_username (map usr_username (users d)) rows;
               errs = take MAX_ERRORS errs;
               st = ev_meanwhile env 0 st
           in case rmap (\<lambda>b. hash_password (ev_bcrypt env) (uc_password b)) created of
                Inl e \<Rightarrow> (Inl (Api_Exc (PyRaised e)), st)
              | Inr hashes \<Rightarrow>
                  (let d = ap_db st;
                       new = map (\<lambda>(i, b, dig). imported_user (next_id usr_id (users d) + i) b dig now) (enumerate 0 (zip created hashes)) in
                   if list_ex (\<lambda>x. usr_username x \<in> set (map usr_username (users d)) \<or>
                        (case usr_group_id x of None \<Rightarrow> False | Some g \<Rightarrow> row_get grp_id (groups d) g = None)) new
                   then (Inl (Api_Exc (api_error 409 (u ''users changed while importing'' @ em_dash @ u ''run the import again''))), st)
                   else
                     (let d = d\<lparr>users := users d @ new\<rparr>
                      in (Inr \<lparr>im_created = length created, im_skipped = skipped, im_errors = errs\<rparr>,
                          commit_with (trail_row p d (u ''import.users'') (u ''user'') [] [] (import_counts (length created) skipped errs) now) d st)))))"

definition build_device :: "(pystr, pystr) odict \<Rightarrow> import_error + DeviceCreate" where
  "build_device row =
     (case (if cell row ''status'' = [] then Some APPROVED
            else map_of [(u ''PENDING'', PENDING), (u ''APPROVED'', APPROVED), (u ''BLOCKED'', BLOCKED)] (upper (cell row ''status''))) of
        None \<Rightarrow> Inl Invalid_Row
      | Some status \<Rightarrow>
          (case DeviceCreate_body \<lparr>dc_mac_address = cell row ''mac_address'', dc_status = status, dc_device_type = cell row ''device_type'',
             dc_description = cell row ''description'', dc_notes = cell row ''notes''\<rparr> of
             None \<Rightarrow> Inl Invalid_Row
           | Some b \<Rightarrow> Inr b))"

definition imported_device :: "(pystr \<rightharpoonup> pystr) \<Rightarrow> nat \<Rightarrow> DeviceCreate \<Rightarrow> int \<Rightarrow> Device" where
  "imported_device table i b now =
     \<lparr>dev_id = i, dev_mac_address = dc_mac_address b, dev_status = dc_status b, dev_device_type = dc_device_type b,
      dev_vendor = vendor_for table (dc_mac_address b), dev_description = dc_description b, dev_notes = dc_notes b, dev_first_seen = now,
      dev_last_seen = now, dev_last_nas_ip = [], dev_last_username = []\<rparr>"

definition import_devices :: "(pystr \<rightharpoonup> pystr) \<Rightarrow> bytes \<Rightarrow> int \<Rightarrow> Principal \<Rightarrow> api_state \<Rightarrow> ImportResult import_route" where
  "import_devices table data now p st =
     (case file_rows data Devices_File [u ''mac_address''] of
        Inl e \<Rightarrow> (Inl e, st)
      | Inr rows \<Rightarrow>
          (let d = ap_db st;
               (created, skipped, errs) = import_loop build_device dc_mac_address (map dev_mac_address (devices d)) rows;
               errs = take MAX_ERRORS errs;
               new = map (\<lambda>(i, b). imported_device table (next_id dev_id (devices d) + i) b now) (enumerate 0 created) in
           if \<not> distinct (map dev_mac_address (devices d @ new))
           then (Inl (Api_Exc (api_error 409 (u ''devices changed while importing'' @ em_dash @ u ''run the import again''))), st)
           else
             (let d = d\<lparr>devices := devices d @ new\<rparr>;
                  st = commit_with (trail_row p d (u ''import.devices'') (u ''device'') [] [] (import_counts (length created) skipped errs) now) d st
              in (Inr \<lparr>im_created = length created, im_skipped = skipped, im_errors = errs\<rparr>,
                  if created \<noteq> [] then reevaluate_later (u ''devices imported'') st else st))))"

definition or_default :: "pystr \<Rightarrow> pystr \<Rightarrow> pystr" where
  "or_default v x = (if v = [] then x else v)"

definition build_nas :: "(pystr \<Rightarrow> int option) \<Rightarrow> nat \<Rightarrow> pystr list \<Rightarrow> (pystr, pystr) odict \<Rightarrow> import_error + NasIn" where
  "build_nas to_int minimum names row =
     (case (if cell row ''coa_port'' = [] then Some None
            else (case to_int (cell row ''coa_port'') of None \<Rightarrow> None | Some n \<Rightarrow> if 1 \<le> n \<and> n \<le> 65535 then Some (Some (nat n)) else None)) of
        None \<Rightarrow> Inl Invalid_Row
      | Some port \<Rightarrow>
          if cell row ''secret'' = [] then Inl Invalid_Row
          else
            (case NasIn_body minimum \<lparr>ni_name = cell row ''name'', ni_ip_address = cell row ''ip_address'', ni_secret = cell row ''secret'',
               ni_vendor = or_default (cell row ''vendor'') (u ''standard''), ni_coa_port = port,
               ni_require_message_authenticator = read_bool (cell row ''require_message_authenticator''),
               ni_description = cell row ''description'', ni_enabled = read_bool (cell row ''enabled'')\<rparr> of
               None \<Rightarrow> Inl Invalid_Row
             | Some b \<Rightarrow> if ni_name b \<in> set names then Inl (Row_Message (u ''a NAS named '' @ ni_name b @ u '' already exists'')) else Inr b))"

definition import_nas :: "(pystr \<Rightarrow> int option) \<Rightarrow> nat \<Rightarrow> bytes \<Rightarrow> int \<Rightarrow> Principal \<Rightarrow> api_state \<Rightarrow> ImportResult import_route" where
  "import_nas to_int minimum data now p st =
     (case file_rows data Nas_File [u ''name'', u ''ip_address'', u ''secret''] of
        Inl e \<Rightarrow> (Inl e, st)
      | Inr rows \<Rightarrow>
          (let d = ap_db st;
               (created, skipped, errs) =
                 import_loop (build_nas to_int minimum (map nas_name (nas_clients d))) ni_ip_address (map nas_ip_address (nas_clients d)) rows;
               errs = take MAX_ERRORS errs;
               new = map (\<lambda>(i, b). new_nas (next_id nas_id (nas_clients d) + i) b now) (enumerate 0 created) in
           if \<not> distinct (map nas_name (nas_clients d @ new)) \<or> \<not> distinct (map nas_ip_address (nas_clients d @ new))
           then (Inl (Api_Exc (api_error 409 (u ''NAS clients changed while importing'' @ em_dash @ u ''run the import again''))), st)
           else
             (let d = d\<lparr>nas_clients := nas_clients d @ new\<rparr>
              in (Inr \<lparr>im_created = length created, im_skipped = skipped, im_errors = errs\<rparr>,
                  commit_with (trail_row p d (u ''import.nas'') (u ''nas'') [] [] (import_counts (length created) skipped errs) now) d st))))"


section \<open>An export is safe to open and holds no secrets\<close>

definition without_secrets :: "db \<Rightarrow> db" where
  "without_secrets d = d\<lparr>users := map (\<lambda>x. x\<lparr>usr_password_hash := None\<rparr>) (users d), nas_clients := map (\<lambda>n. n\<lparr>nas_secret := []\<rparr>) (nas_clients d)\<rparr>"

lemma safe_cell_hd: "safe_cell t = c # cs \<Longrightarrow> c \<notin> set FORMULA"
  by (cases t) (auto simp: safe_cell_def FORMULA_def split: if_splits)

lemma length_safe_cell: "length (safe_cell t) \<le> Suc (length t)"
  by (cases t) (auto simp: safe_cell_def)

lemma export_rows_without_secrets: "export_rows kind (without_secrets d) = export_rows kind d"
  by (cases kind) (simp_all add: without_secrets_def sort_key_mask group_by_id_def cong: option.case_cong)

text \<open>C17. Reading an exported file gives the header and the cells of the export, every cell as it is but for a quote in front of
  what a spreadsheet would take for a formula; no cell starts with such a character; and the file is the same
  whatever the passwords of the users and the secrets of the clients are.\<close>

theorem export_is_safe:
  assumes "\<forall>row\<in>set (export_rows kind d). \<forall>t\<in>set row. length t < 131072"
  shows "csv_parse (export_csv kind d) = Inr (export_headers kind # map (map safe_cell) (export_rows kind d)) \<and>
    (\<forall>row\<in>set (map (map safe_cell) (export_rows kind d)). \<forall>t\<in>set row. t = [] \<or> hd t \<notin> set FORMULA) \<and>
    export_csv kind d = export_csv kind (without_secrets d)"
proof (intro conjI)
  have "list_all (list_all (\<lambda>s. length s \<le> 131072)) (export_headers kind # map (map safe_cell) (export_rows kind d))"
    using assms length_safe_cell by (cases kind) (fastforce simp: list_all_iff intro: order.trans)+
  then show "csv_parse (export_csv kind d) = Inr (export_headers kind # map (map safe_cell) (export_rows kind d))"
    by (simp add: export_csv_def csv_document_def csv_parse_write)
  show "\<forall>row\<in>set (map (map safe_cell) (export_rows kind d)). \<forall>t\<in>set row. t = [] \<or> hd t \<notin> set FORMULA"
    using safe_cell_hd by (auto simp: neq_Nil_conv)
  show "export_csv kind d = export_csv kind (without_secrets d)"
    by (simp add: export_csv_def export_rows_without_secrets)
qed

definition lab_export_db :: db where
  "lab_export_db = empty_db\<lparr>users := [(local_alice (u ''secret''))\<lparr>usr_full_name := u ''=1+1, hi''\<rparr>]\<rparr>"

theorem export_is_safe_witness:
  "export_csv Users_File lab_export_db = export_csv Users_File (without_secrets lab_export_db)"
proof -
  have "\<forall>row\<in>set (export_rows Users_File lab_export_db). \<forall>t\<in>set row. length t < 131072"
    by (simp add: lab_export_db_def local_alice_def group_by_id_def bool_text_def empty_db_def)
  from export_is_safe [OF this] show ?thesis by blast
qed


section \<open>An import only adds\<close>

lemma import_loop_sound:
  assumes "import_loop build key exists rows = (created, skipped, errs)"
  shows "distinct (map key created) \<and> set (map key created) \<inter> set exists = {} \<and>
    (\<forall>item\<in>set created. \<exists>row. build row = Inr item) \<and> length created + skipped + length errs = length rows"
  using assms
proof (induction build key exists rows arbitrary: created skipped errs rule: import_loop.induct)
  case (2 build key exists line row rows)
  show ?case
  proof (cases "build row")
    case (Inl e)
    with 2 show ?thesis by (auto split: prod.splits)
  next
    case (Inr item)
    show ?thesis
    proof (cases "key item \<in> set exists")
      case True
      with 2 Inr show ?thesis by (auto split: prod.splits)
    next
      case False
      obtain c s e where rest: "import_loop build key (key item # exists) rows = (c, s, e)" by (cases "import_loop build key (key item # exists) rows") auto
      with 2(3) [OF Inr False rest] 2(4) Inr False show ?thesis by fastforce
    qed
  qed
qed simp

datatype import_request = Import_Users bytes | Import_Devices bytes | Import_Nas bytes

record import_env =
  ie_api :: api_env
  ie_table :: "pystr \<rightharpoonup> pystr"
  ie_to_int :: "pystr \<Rightarrow> int option"
  ie_minimum :: nat

fun serve_import :: "import_env \<Rightarrow> int \<Rightarrow> Principal \<Rightarrow> import_request \<Rightarrow> api_state \<Rightarrow> ImportResult import_route" where
  "serve_import env now p (Import_Users data) st = import_users (ie_api env) data now p st"
| "serve_import env now p (Import_Devices data) st = import_devices (ie_table env) data now p st"
| "serve_import env now p (Import_Nas data) st = import_nas (ie_to_int env) (ie_minimum env) data now p st"

text \<open>What an import may change: rows are added to three tables and the audit trail.\<close>

definition adds_only :: "db \<Rightarrow> User list \<Rightarrow> Device list \<Rightarrow> NasClient list \<Rightarrow> db \<Rightarrow> bool" where
  "adds_only d us vs ns d' \<longleftrightarrow>
     (\<exists>row. d' = audit_add row (d\<lparr>users := users d @ us, devices := devices d @ vs, nas_clients := nas_clients d @ ns\<rparr>))"

lemma map_enumerate_key: "(\<And>i x. key (f i x) = g x) \<Longrightarrow> map key (map (\<lambda>(i, x). f i x) (enumerate n xs)) = map g xs"
  by (induction xs arbitrary: n) auto

lemma build_user_guard:
  assumes "build_user d p row = Inr b" "\<not> allows (pr_role p) SUPERUSER" "uc_group_id b = Some g"
  shows "\<exists>h\<in>set (groups d). grp_id h = g \<and> grp_device_admin_privilege h = None"
proof -
  obtain h where h: "find_named_group d (cell row ''group'') = Some h" "grp_id h = g" "grp_device_admin_privilege h = None"
    using assms
    by (auto simp: build_user_def Let_def UserCreate_body_def split: if_splits sum.splits option.splits py_exc.splits)
  then have "h \<in> set (groups d)" by (auto simp: find_named_group_def find_Some_iff rev_nth)
  with h show ?thesis by blast
qed


text \<open>No group became a device-admin group from one database to the other.\<close>

definition none_promoted :: "db \<Rightarrow> db \<Rightarrow> bool" where
  "none_promoted d d' \<longleftrightarrow>
     (\<forall>h\<in>set (groups d). \<forall>h'\<in>set (groups d').
        grp_id h' = grp_id h \<and> grp_device_admin_privilege h = None \<longrightarrow> grp_device_admin_privilege h' = None)"

lemma none_promotedD:
  "none_promoted d d' \<Longrightarrow> \<exists>h\<in>set (groups d). grp_id h = grp_id h' \<and> grp_device_admin_privilege h = None \<Longrightarrow> h' \<in> set (groups d') \<Longrightarrow>
   grp_device_admin_privilege h' = None"
  unfolding none_promoted_def by fastforce

lemma map_over_enumerate: "map (\<lambda>x. g (snd x)) (enumerate n xs) = map g xs"
  by (induction xs arbitrary: n) auto

lemma import_users_adds:
  assumes "import_users env data now p st = (Inr res, st')"
  shows "\<exists>us. adds_only (ap_db (ev_meanwhile env 0 st)) us [] [] (ap_db st') \<and> length us = im_created res \<and>
    distinct (map usr_username us) \<and> set (map usr_username us) \<inter> set (map usr_username (users (ap_db (ev_meanwhile env 0 st)))) = {} \<and>
    (\<forall>x\<in>set us. \<not> allows (pr_role p) SUPERUSER \<longrightarrow> (\<forall>g. usr_group_id x = Some g \<longrightarrow>
      (\<exists>h\<in>set (groups (ap_db st)). grp_id h = g \<and> grp_device_admin_privilege h = None)))"
proof -
  let ?d = "ap_db (ev_meanwhile env 0 st)"
  obtain rows where rows: "file_rows data Users_File [u ''username'', u ''password''] = Inr rows"
    using assms by (auto simp: import_users_def split: sum.splits)
  obtain created skipped errs where loop:
    "import_loop (build_user (ap_db st) p) uc_username (map usr_username (users (ap_db st))) rows = (created, skipped, errs)" by (metis prod_cases3)
  note sound = import_loop_sound [OF loop]
  obtain hashes where hashes: "rmap (\<lambda>b. hash_password (ev_bcrypt env) (uc_password b)) created = Inr hashes"
    using assms rows loop by (auto simp: import_users_def Let_def split: sum.splits)
  define us where "us = map (\<lambda>(i, b, dig). imported_user (next_id usr_id (users ?d) + i) b dig now) (enumerate 0 (zip created hashes))"
  have res: "im_created res = length created" "adds_only ?d us [] [] (ap_db st')"
      and free: "\<not> list_ex (\<lambda>x. usr_username x \<in> set (map usr_username (users ?d)) \<or>
        (case usr_group_id x of None \<Rightarrow> False | Some g \<Rightarrow> row_get grp_id (groups ?d) g = None)) us"
    using assms [unfolded import_users_def rows Let_def loop sum.case prod.case hashes, folded us_def]
    by (auto simp: commit_with_def adds_only_def split: if_splits)
  have len: "length hashes = length created" using rmap_Inr_length [OF hashes] .
  have names: "map usr_username us = map uc_username created"
  proof -
    have "map usr_username us = map (\<lambda>x. uc_username (fst x)) (zip created hashes)"
      using map_over_enumerate [of "\<lambda>x. uc_username (fst x)" 0 "zip created hashes"]
      by (simp add: us_def imported_user_def comp_def case_prod_unfold)
    also have "\<dots> = map uc_username (map fst (zip created hashes))" by (simp add: comp_def case_prod_unfold)
    finally show ?thesis using len by simp
  qed
  have from_file: "\<exists>b\<in>set created. usr_group_id x = uc_group_id b" if "x \<in> set us" for x
  proof -
    from that obtain n b dig where "x = imported_user (next_id usr_id (users ?d) + n) b dig now" "(n, b, dig) \<in> set (enumerate 0 (zip created hashes))"
      by (auto simp: us_def)
    moreover from this(2) have "snd (n, b, dig) \<in> set (map snd (enumerate 0 (zip created hashes)))" unfolding set_map by (rule imageI)
    then have "(b, dig) \<in> set (zip created hashes)" by simp
    ultimately show ?thesis by (auto simp: imported_user_def dest: set_zip_leftD)
  qed
  have "\<exists>h\<in>set (groups (ap_db st)). grp_id h = g \<and> grp_device_admin_privilege h = None"
    if x: "x \<in> set us" "\<not> allows (pr_role p) SUPERUSER" "usr_group_id x = Some g" for x g
  proof -
    obtain b where b: "b \<in> set created" "uc_group_id b = Some g" using x(3) from_file [OF x(1)] by auto
    then obtain row where "build_user (ap_db st) p row = Inr b" using sound by blast
    from build_user_guard [OF this x(2) b(2)] show ?thesis .
  qed
  moreover have "set (map usr_username us) \<inter> set (map usr_username (users ?d)) = {}" using free by (auto simp: list_ex_iff)
  moreover have "length us = length created" using len by (simp add: us_def)
  ultimately show ?thesis using res sound names by (intro exI [of _ us]) auto
qed

lemma import_devices_adds:
  assumes "import_devices table data now p st = (Inr res, st')"
  shows "\<exists>vs. adds_only (ap_db st) [] vs [] (ap_db st') \<and> length vs = im_created res \<and>
    distinct (map dev_mac_address vs) \<and> set (map dev_mac_address vs) \<inter> set (map dev_mac_address (devices (ap_db st))) = {} \<and>
    (vs \<noteq> [] \<longrightarrow> (\<exists>reason. ap_reeval st' = schedule (ap_reeval st) reason))"
proof -
  let ?d = "ap_db st"
  obtain rows where rows: "file_rows data Devices_File [u ''mac_address''] = Inr rows"
    using assms by (auto simp: import_devices_def split: sum.splits)
  obtain created skipped errs where loop:
    "import_loop build_device dc_mac_address (map dev_mac_address (devices ?d)) rows = (created, skipped, errs)" by (metis prod_cases3)
  define vs where "vs = map (\<lambda>(i, b). imported_device table (next_id dev_id (devices ?d) + i) b now) (enumerate 0 created)"
  have names: "map dev_mac_address vs = map dc_mac_address created"
    unfolding vs_def by (rule map_enumerate_key) (simp add: imported_device_def)
  have res: "im_created res = length created" "adds_only ?d [] vs [] (ap_db st')"
      "created \<noteq> [] \<Longrightarrow> ap_reeval st' = schedule (ap_reeval st) (u ''devices imported'')"
    using assms [unfolded import_devices_def rows Let_def loop sum.case prod.case, folded vs_def]
    by (auto simp: commit_with_def reevaluate_later_def adds_only_def split: if_splits)
  have "length vs = length created" by (simp add: vs_def)
  moreover from this have "vs \<noteq> [] \<longleftrightarrow> created \<noteq> []" by auto
  ultimately show ?thesis using res import_loop_sound [OF loop] names by (intro exI [of _ vs]) auto
qed

lemma import_nas_adds:
  assumes "import_nas to_int minimum data now p st = (Inr res, st')"
  shows "\<exists>ns. adds_only (ap_db st) [] [] ns (ap_db st') \<and> length ns = im_created res \<and>
    distinct (map nas_name (nas_clients (ap_db st) @ ns)) \<and> distinct (map nas_ip_address (nas_clients (ap_db st) @ ns))"
proof -
  let ?d = "ap_db st"
  obtain rows where rows: "file_rows data Nas_File [u ''name'', u ''ip_address'', u ''secret''] = Inr rows"
    using assms by (auto simp: import_nas_def split: sum.splits)
  obtain created skipped errs where loop:
    "import_loop (build_nas to_int minimum (map nas_name (nas_clients ?d))) ni_ip_address (map nas_ip_address (nas_clients ?d)) rows = (created, skipped, errs)"
    by (metis prod_cases3)
  define ns where "ns = map (\<lambda>(i, b). new_nas (next_id nas_id (nas_clients ?d) + i) b now) (enumerate 0 created)"
  have "im_created res = length created" "adds_only ?d [] [] ns (ap_db st')"
      "distinct (map nas_name (nas_clients ?d @ ns))" "distinct (map nas_ip_address (nas_clients ?d @ ns))"
    using assms [unfolded import_nas_def rows Let_def loop sum.case prod.case, folded ns_def]
    by (auto simp: commit_with_def adds_only_def simp del: map_append distinct_append split: if_splits)
  moreover have "length ns = length created" by (simp add: ns_def)
  ultimately show ?thesis by (intro exI [of _ ns]) auto
qed

text \<open>C16. An import that succeeds only adds: all rows there were (for users: when the passwords are hashed) stay as they are, with
  their order; the new keys are new and differ from each other; as many rows are added as the answer says; and new devices
  are re-evaluated.  Only a SUPERUSER adds users to a group that is a device-admin group when the file is checked; the check is
  not repeated after the passwords are hashed, so for the database after the commit the same holds provided that no other
  request turned a group into a device-admin group in between.\<close>

theorem import_only_adds:
  assumes "serve_import env now p r st = (Inr res, st')"
  shows "\<exists>us vs ns. adds_only (ap_db (case r of Import_Users _ \<Rightarrow> ev_meanwhile (ie_api env) 0 st | _ \<Rightarrow> st)) us vs ns (ap_db st') \<and>
    length us + length vs + length ns = im_created res \<and>
    distinct (map usr_username us) \<and> set (map usr_username us) \<inter> set (map usr_username (users (ap_db (ev_meanwhile (ie_api env) 0 st)))) = {} \<and>
    distinct (map dev_mac_address vs) \<and> set (map dev_mac_address vs) \<inter> set (map dev_mac_address (devices (ap_db st))) = {} \<and>
    (vs \<noteq> [] \<longrightarrow> (\<exists>reason. ap_reeval st' = schedule (ap_reeval st) reason)) \<and>
    (ns \<noteq> [] \<longrightarrow> distinct (map nas_name (nas_clients (ap_db st) @ ns)) \<and> distinct (map nas_ip_address (nas_clients (ap_db st) @ ns))) \<and>
    (\<forall>x\<in>set us. \<not> allows (pr_role p) SUPERUSER \<longrightarrow> (\<forall>g. usr_group_id x = Some g \<longrightarrow>
      (\<exists>h\<in>set (groups (ap_db st)). grp_id h = g \<and> grp_device_admin_privilege h = None) \<and>
      (none_promoted (ap_db st) (ap_db (ev_meanwhile (ie_api env) 0 st)) \<longrightarrow>
        (\<forall>h\<in>set (groups (ap_db st')). grp_id h = g \<longrightarrow> grp_device_admin_privilege h = None))))"
proof (cases r)
  case (Import_Users data)
  with assms obtain us where "adds_only (ap_db (ev_meanwhile (ie_api env) 0 st)) us [] [] (ap_db st') \<and> length us = im_created res \<and>
    distinct (map usr_username us) \<and> set (map usr_username us) \<inter> set (map usr_username (users (ap_db (ev_meanwhile (ie_api env) 0 st)))) = {} \<and>
    (\<forall>x\<in>set us. \<not> allows (pr_role p) SUPERUSER \<longrightarrow> (\<forall>g. usr_group_id x = Some g \<longrightarrow>
      (\<exists>h\<in>set (groups (ap_db st)). grp_id h = g \<and> grp_device_admin_privilege h = None)))"
    using import_users_adds [of "ie_api env" data now p st res st'] by auto
  moreover from this have "groups (ap_db st') = groups (ap_db (ev_meanwhile (ie_api env) 0 st))" by (auto simp: adds_only_def audit_add_def)
  ultimately show ?thesis using Import_Users by (intro exI [of _ us] exI [of _ "[]"]) (auto intro: none_promotedD)
next
  case (Import_Devices data)
  with assms obtain vs where "adds_only (ap_db st) [] vs [] (ap_db st') \<and> length vs = im_created res \<and>
    distinct (map dev_mac_address vs) \<and> set (map dev_mac_address vs) \<inter> set (map dev_mac_address (devices (ap_db st))) = {} \<and>
    (vs \<noteq> [] \<longrightarrow> (\<exists>reason. ap_reeval st' = schedule (ap_reeval st) reason))"
    using import_devices_adds [of "ie_table env" data now p st res st'] by auto
  with Import_Devices show ?thesis by (intro exI [of _ vs] exI [of _ "[]"]) simp
next
  case (Import_Nas data)
  with assms obtain ns where "adds_only (ap_db st) [] [] ns (ap_db st') \<and> length ns = im_created res \<and>
    distinct (map nas_name (nas_clients (ap_db st) @ ns)) \<and> distinct (map nas_ip_address (nas_clients (ap_db st) @ ns))"
    using import_nas_adds [of "ie_to_int env" "ie_minimum env" data now p st res st'] by auto
  with Import_Nas show ?thesis by (intro exI [of _ ns] exI [of _ "[]"]) (simp del: map_append distinct_append)
qed

text \<open>A file with one device.\<close>

definition lab_file :: pystr where
  "lab_file = csv_write [[u ''mac_address''], [u ''aa:bb:cc:dd:ee:02'']]"

lemma decode_sig_ascii: "ascii s \<Longrightarrow> decode_sig (map byte s) = Some s"
  unfolding decode_sig_def ascii_decode_escape
  by (cases s) (auto simp: ascii_decode_escape ascii_def is_surrogate_def list_all_iff list_ex_iff Let_def)

lemma lab_file_rows: "file_rows (map byte lab_file) Devices_File [u ''mac_address''] = Inr [(2, [(u ''mac_address'', u ''aa:bb:cc:dd:ee:02'')])]"
proof -
  have a: "ascii lab_file"
    by (simp add: ascii_def lab_file_def csv_write_def csv_row_def csv_field_def csv_special_def csv_doubled_def u_def)
  then have "decode_sig (map byte lab_file) = Some lab_file" by (rule decode_sig_ascii)
  moreover have "csv_next csv_reset (csv_lines lab_file) = Inr (Some ([u ''mac_address''], csv_lines (csv_row [u ''aa:bb:cc:dd:ee:02''])))"
    using csv_row_read [of "[u ''mac_address'']" "csv_row [u ''aa:bb:cc:dd:ee:02'']"] by (simp add: lab_file_def csv_write_def)
  moreover have "csv_read (csv_lines (csv_row [u ''aa:bb:cc:dd:ee:02''])) = Inr [[u ''aa:bb:cc:dd:ee:02'']]"
    using csv_parse_write [of "[[u ''aa:bb:cc:dd:ee:02'']]"] by (simp add: csv_parse_def csv_write_def)
  moreover have "length lab_file \<le> MAX_FILE"
    by (simp add: MAX_FILE_def lab_file_def csv_write_def csv_row_def csv_field_def csv_special_def u_def)
  moreover have "strip (u ''mac_address'') = u ''mac_address''" "strip (u ''aa:bb:cc:dd:ee:02'') = u ''aa:bb:cc:dd:ee:02''"
    by (simp_all add: strip_def lstrip_def rstrip_def is_space_def u_def)
  ultimately show ?thesis by (simp add: file_rows_def clean_row_def)
qed

lemma lab_file_device: "build_device [(u ''mac_address'', u ''aa:bb:cc:dd:ee:02'')] =
    Inr \<lparr>dc_mac_address = u ''aa:bb:cc:dd:ee:02'', dc_status = APPROVED, dc_device_type = [], dc_description = [], dc_notes = []\<rparr>"
proof -
  have "normalize_mac (Some (u ''aa:bb:cc:dd:ee:02'')) = Some (u ''aa:bb:cc:dd:ee:02'')"
    using normalize_canonical [of "u ''aabbccddee02''"] by (simp add: canonical_mac_def u_def is_hex_def hex_val_def lower_def lower_char_def)
  then show ?thesis by (simp add: build_device_def cell_def od_get_def DeviceCreate_body_def)
qed

definition lab_import_env :: import_env where
  "lab_import_env = \<lparr>ie_api = quiet_env, ie_table = (\<lambda>_. None), ie_to_int = (\<lambda>_. None), ie_minimum = 16\<rparr>"

theorem import_only_adds_witness:
  "\<exists>us vs ns st'. serve_import lab_import_env 9 lab_operator (Import_Devices (map byte lab_file)) lab_inventory =
      (Inr \<lparr>im_created = 1, im_skipped = 0, im_errors = []\<rparr>, st') \<and> adds_only (ap_db lab_inventory) us vs ns (ap_db st') \<and>
    length us + length vs + length ns = 1"
proof -
  obtain st' where r: "serve_import lab_import_env 9 lab_operator (Import_Devices (map byte lab_file)) lab_inventory =
      (Inr \<lparr>im_created = 1, im_skipped = 0, im_errors = []\<rparr>, st')"
    by (simp add: import_devices_def lab_file_rows lab_file_device lab_inventory_def fresh_device_def imported_device_def Let_def)
  from import_only_adds [OF r] r show ?thesis by fastforce
qed

text \<open>A carriage return that no line feed follows ends the import with an unhandled exception, in any file of that form.\<close>

theorem import_bare_return:
  assumes "decode_sig data = Some (u ''mac_address'' @ 13 # u ''aa'')" "length data \<le> MAX_FILE"
  shows "\<exists>e. import_devices table data now p st = (Inl e, st) \<and> import_status e = 500"
proof -
  have "csv_next csv_reset (csv_lines (u ''mac_address'' @ 13 # u ''aa'')) = Inl New_Line_In_Field"
    by (simp add: u_def csv_reset_def csv_step_def csv_start_field_def csv_ends_def csv_add_def csv_save_def csv_after_row_def)
  with assms show ?thesis by (simp add: import_devices_def file_rows_def)
qed


end
