(* ===== verification/Vault.thy ===== *)
theory Vault
  imports CsvTransfer Hashes
begin

text \<open>
  Secrets at rest and from the environment: \<open>naco/core/secrets.py\<close>, the column types of \<open>naco/db/types.py\<close> and
  \<open>load_secrets\<close> of \<open>naco/config.py\<close>.  Base64 is modelled as the state machine of \<open>binascii.a2b_base64\<close> (strict mode
  included), AES-256-GCM is a parameter.  Secret files are a parameter too: the text of a file, or nothing when it cannot
  be read.
\<close>

section \<open>Base64\<close>

definition b64_char :: "nat \<Rightarrow> nat" where
  "b64_char v = (if v < 26 then 65 + v else if v < 52 then 71 + v else if v < 62 then v - 4 else if v = 62 then 43 else 47)"

definition b64_value :: "nat \<Rightarrow> nat option" where
  "b64_value c =
     (if 65 \<le> c \<and> c \<le> 90 then Some (c - 65) else if 97 \<le> c \<and> c \<le> 122 then Some (c - 71)
      else if 48 \<le> c \<and> c \<le> 57 then Some (c + 4) else if c = 43 then Some 62 else if c = 47 then Some 63 else None)"

fun b64encode :: "bytes \<Rightarrow> pystr" where
  "b64encode [] = []"
| "b64encode [a] = [b64_char (unat a div 4), b64_char (unat a mod 4 * 16), 61, 61]"
| "b64encode [a, b] = [b64_char (unat a div 4), b64_char (unat a mod 4 * 16 + unat b div 16), b64_char (unat b mod 16 * 4), 61]"
| "b64encode (a # b # c # bs) =
     [b64_char (unat a div 4), b64_char (unat a mod 4 * 16 + unat b div 16), b64_char (unat b mod 16 * 4 + unat c div 64), b64_char (unat c mod 64)] @
     b64encode bs"

record b64_state =
  bq_pos :: nat
  bq_left :: nat
  bq_pads :: nat
  bq_padding :: bool

text \<open>\<open>None\<close> is \<open>binascii.Error\<close>.\<close>

fun b64_run :: "bool \<Rightarrow> b64_state \<Rightarrow> pystr \<Rightarrow> bytes option" where
  "b64_run strict st [] = (if bq_pos st = 0 then Some [] else None)"
| "b64_run strict st (c # cs) =
     (if c = 61 then
        (let st = st\<lparr>bq_padding := True, bq_pads := (if bq_pos st \<ge> 2 then Suc (bq_pads st) else bq_pads st)\<rparr> in
         if bq_pos st \<ge> 2 \<and> bq_pos st + bq_pads st \<ge> 4 then (if strict \<and> cs \<noteq> [] then None else Some [])
         else b64_run strict st cs)
      else
        (case b64_value c of
           None \<Rightarrow> if strict then None else b64_run strict st cs
         | Some v \<Rightarrow>
             if strict \<and> bq_padding st then None
             else
               (let st = st\<lparr>bq_pads := 0\<rparr>; l = bq_left st in
                if bq_pos st = 0 then b64_run strict (st\<lparr>bq_pos := 1, bq_left := v\<rparr>) cs
                else if bq_pos st = 1 then map_option ((#) (byte (l * 4 + v div 16))) (b64_run strict (st\<lparr>bq_pos := 2, bq_left := v mod 16\<rparr>) cs)
                else if bq_pos st = 2 then map_option ((#) (byte (l * 16 + v div 4))) (b64_run strict (st\<lparr>bq_pos := 3, bq_left := v mod 4\<rparr>) cs)
                else map_option ((#) (byte (l * 64 + v))) (b64_run strict (st\<lparr>bq_pos := 0, bq_left := 0\<rparr>) cs))))"

definition b64_start :: b64_state where
  "b64_start = \<lparr>bq_pos = 0, bq_left = 0, bq_pads = 0, bq_padding = False\<rparr>"

text \<open>\<open>base64.b64decode(s, validate=strict)\<close>: text that is not ASCII raises \<open>ValueError\<close>.\<close>

definition b64decode :: "bool \<Rightarrow> pystr \<Rightarrow> bytes option" where
  "b64decode strict s =
     (if list_ex (\<lambda>c. c \<ge> 128) s \<or> strict \<and> take 1 s = [61] then None else b64_run strict b64_start s)"

definition urlsafe_b64decode :: "pystr \<Rightarrow> bytes option" where
  "urlsafe_b64decode s = b64decode False (map (\<lambda>c. if c = 45 then 43 else if c = 95 then 47 else c) s)"

text \<open>\<open>bytes.fromhex\<close>: pairs of digits, white space between them.\<close>

fun fromhex :: "pystr \<Rightarrow> bytes option" where
  "fromhex [] = Some []"
| "fromhex (c # cs) =
     (if c \<in> {9, 10, 11, 12, 13, 32} then fromhex cs
      else (case cs of
              [] \<Rightarrow> None
            | e # es \<Rightarrow>
                (case (hex_val c, hex_val e) of
                   (Some x, Some y) \<Rightarrow> map_option ((#) (byte (x * 16 + y))) (fromhex es)
                 | _ \<Rightarrow> None)))"

section \<open>Encrypted columns\<close>

record aead =
  ae_encrypt :: "bytes \<Rightarrow> bytes \<Rightarrow> bytes \<Rightarrow> bytes \<Rightarrow> bytes"
  ae_decrypt :: "bytes \<Rightarrow> bytes \<Rightarrow> bytes \<Rightarrow> bytes \<Rightarrow> bytes option"

datatype secret_error = Not_Encrypted | Not_Base64 | Truncated | Cannot_Decrypt pystr | Raised_In_Codec

definition PREFIX :: pystr where
  "PREFIX = u ''enc:v2:''"

definition encrypt :: "aead \<Rightarrow> bytes \<Rightarrow> bytes \<Rightarrow> pystr \<Rightarrow> pystr \<Rightarrow> secret_error + pystr" where
  "encrypt lib key nonce plaintext aad =
     (case (utf8_encode plaintext, utf8_encode aad) of
        (Some p, Some a) \<Rightarrow> Inr (PREFIX @ b64encode (nonce @ ae_encrypt lib key nonce p a))
      | _ \<Rightarrow> Inl Raised_In_Codec)"

definition decrypt :: "aead \<Rightarrow> bytes \<Rightarrow> pystr \<Rightarrow> pystr \<Rightarrow> secret_error + pystr" where
  "decrypt lib key token aad =
     (if \<not> startswith token PREFIX then Inl Not_Encrypted
      else
        (case b64decode True (drop (length PREFIX) token) of
           None \<Rightarrow> Inl Not_Base64
         | Some raw \<Rightarrow>
             if length raw < 12 + 16 then Inl Truncated
             else
               (case utf8_encode aad of
                  None \<Rightarrow> Inl Raised_In_Codec
                | Some a \<Rightarrow>
                    (case ae_decrypt lib key (take 12 raw) (drop 12 raw) a of
                       None \<Rightarrow> Inl (Cannot_Decrypt aad)
                     | Some plain \<Rightarrow>
                         (let s = decode_escape plain in if list_ex is_surrogate s then Inl Raised_In_Codec else Inr s)))))"

definition encrypted_bind :: "aead \<Rightarrow> bytes \<Rightarrow> bytes \<Rightarrow> pystr \<Rightarrow> pystr option \<Rightarrow> secret_error + pystr option" where
  "encrypted_bind lib key nonce aad value =
     (case value of None \<Rightarrow> Inr None | Some v \<Rightarrow> rbind (encrypt lib key nonce v aad) (\<lambda>t. Inr (Some t)))"

definition encrypted_result :: "aead \<Rightarrow> bytes \<Rightarrow> pystr \<Rightarrow> pystr option \<Rightarrow> secret_error + pystr option" where
  "encrypted_result lib key aad value =
     (case value of None \<Rightarrow> Inr None | Some v \<Rightarrow> rbind (decrypt lib key v aad) (\<lambda>t. Inr (Some t)))"

section \<open>Times in columns\<close>

text \<open>A \<open>datetime\<close>: its wall clock and the offset from UTC, if it is aware.\<close>

record pydatetime =
  dt_wall :: int
  dt_offset :: "int option"

definition utc_bind :: "pydatetime option \<Rightarrow> py_exc + pydatetime option" where
  "utc_bind value =
     (case value of
        None \<Rightarrow> Inr None
      | Some t \<Rightarrow>
          (case dt_offset t of
             None \<Rightarrow> Inl (ValueError (u ''naive datetime bound to a UTCDateTime column''))
           | Some o' \<Rightarrow> Inr (Some \<lparr>dt_wall = dt_wall t - o', dt_offset = None\<rparr>)))"

definition utc_result :: "pydatetime option \<Rightarrow> pydatetime option" where
  "utc_result value = map_option (\<lambda>t. t\<lparr>dt_offset := Some 0\<rparr>) value"

section \<open>Encoding and decoding\<close>

lemma b64_value_char [simp]: "v < 64 \<Longrightarrow> b64_value (b64_char v) = Some v"
  by (auto simp: b64_char_def b64_value_def)

lemma b64_char_plain [simp]: "v < 64 \<Longrightarrow> b64_char v \<noteq> 61 \<and> b64_char v < 128"
  by (auto simp: b64_char_def)

definition b64_quad_ok :: "8 word \<Rightarrow> 8 word \<Rightarrow> 8 word \<Rightarrow> bool" where
  "b64_quad_ok a b c \<longleftrightarrow>
     byte (unat a div 4 * 4 + (unat a mod 4 * 16 + unat b div 16) div 16) = a \<and>
     byte ((unat a mod 4 * 16 + unat b div 16) mod 16 * 16 + (unat b mod 16 * 4 + unat c div 64) div 4) = b \<and>
     byte ((unat b mod 16 * 4 + unat c div 64) mod 4 * 64 + unat c mod 64) = c \<and>
     unat a div 4 < 64 \<and> unat a mod 4 * 16 + unat b div 16 < 64 \<and> unat b mod 16 * 4 + unat c div 64 < 64 \<and> unat c mod 64 < 64"

lemma b64_quad: "b64_quad_ok a b c"
proof -
  have bounds: "unat b div 16 < 16" "unat c div 64 < 4" "unat a div 4 < 64" "unat a mod 4 \<le> 3" "unat b mod 16 \<le> 15"
    using byte_bound [of a] byte_bound [of b] byte_bound [of c] by auto
  then have "unat a div 4 * 4 + (unat a mod 4 * 16 + unat b div 16) div 16 = unat a"
    "(unat a mod 4 * 16 + unat b div 16) mod 16 * 16 + (unat b mod 16 * 4 + unat c div 64) div 4 = unat b"
    "(unat b mod 16 * 4 + unat c div 64) mod 4 * 64 + unat c mod 64 = unat c" by simp_all
  with bounds show ?thesis by (simp add: b64_quad_ok_def byte_unat)
qed

lemma b64_run_encode: "b64_run strict b64_start (b64encode bs) = Some bs"
proof (induction bs rule: b64encode.induct)
  case (2 a)
  then show ?case using b64_quad [of a 0 0] by (simp add: b64_quad_ok_def b64_start_def Let_def)
next
  case (3 a b)
  then show ?case using b64_quad [of a b 0] by (simp add: b64_quad_ok_def b64_start_def Let_def)
next
  case (4 a b c bs)
  then show ?case using b64_quad [of a b c] by (simp add: b64_quad_ok_def b64_start_def Let_def)
qed (simp add: b64_start_def)

lemma b64encode_chars: "c \<in> set (b64encode bs) \<Longrightarrow> c < 128"
proof (induction bs rule: b64encode.induct)
  case (2 a)
  then show ?case using b64_quad [of a 0 0] by (auto simp: b64_quad_ok_def)
next
  case (3 a b)
  then show ?case using b64_quad [of a b 0] by (auto simp: b64_quad_ok_def)
next
  case (4 a b c' bs)
  then show ?case using b64_quad [of a b c'] by (auto simp: b64_quad_ok_def)
qed simp

lemma b64encode_first: "take 1 (b64encode bs) \<noteq> [61]"
  using b64_quad by (cases bs rule: b64encode.cases) (simp_all add: b64_quad_ok_def)

lemma b64decode_encode: "b64decode strict (b64encode bs) = Some bs"
  using b64encode_chars b64encode_first by (fastforce simp: b64decode_def list_ex_iff b64_run_encode not_le)


section \<open>Secrets from the environment\<close>

record Secrets =
  se_master_key :: bytes
  se_internal_token :: pystr
  se_ldap_bind_password :: pystr
  se_admin_password :: "pystr option"

text \<open>The environment and the files it names; a file that cannot be read gives \<open>None\<close>.\<close>

type_synonym environ = "pystr \<Rightarrow> pystr option"

definition read_secret :: "environ \<Rightarrow> environ \<Rightarrow> string \<Rightarrow> pystr + pystr option" where
  "read_secret env files name =
     (case env (u name @ u ''_FILE'') of
        Some path \<Rightarrow>
          if path \<noteq> [] then
            (case files path of None \<Rightarrow> Inl (u name @ u ''_FILE: cannot read '' @ path) | Some t \<Rightarrow> Inr (Some (strip t)))
          else Inr (case env (u name) of Some v \<Rightarrow> if v \<noteq> [] then Some (strip v) else None | None \<Rightarrow> None)
      | None \<Rightarrow> Inr (case env (u name) of Some v \<Rightarrow> if v \<noteq> [] then Some (strip v) else None | None \<Rightarrow> None))"

definition is_placeholder :: "pystr \<Rightarrow> bool" where
  "is_placeholder v \<longleftrightarrow> startswith (lower v) (u ''replace_me'') \<or> startswith (lower v) (u ''change_me'')"

definition reject_placeholder :: "string \<Rightarrow> pystr \<Rightarrow> pystr + unit" where
  "reject_placeholder name v =
     (if is_placeholder v then Inl (u name @ u '' is still a placeholder'' @ em_dash @ u ''run ./quickstart.sh or set a real value'') else Inr ())"

definition parse_master_key :: "pystr \<Rightarrow> pystr + bytes" where
  "parse_master_key material =
     (let m = strip material;
          candidates = List.map_filter id [b64decode False m, urlsafe_b64decode m, fromhex m]
      in case find (\<lambda>k. length k = 32) candidates of
           Some k \<Rightarrow> Inr k
         | None \<Rightarrow> Inl (u ''NACO_MASTER_KEY must be 32 bytes, base64 or hex encoded (openssl rand -base64 32)''))"

definition DEV_MASTER_KEY :: bytes where
  "DEV_MASTER_KEY = sha256 (map byte (u ''naco-development-master-key''))"

definition DEV_INTERNAL_TOKEN :: pystr where
  "DEV_INTERNAL_TOKEN = u ''naco-development-internal-token-not-for-production''"

definition load_master_key :: "environ \<Rightarrow> environ \<Rightarrow> bool \<Rightarrow> pystr + bytes" where
  "load_master_key env files dev =
     rbind (read_secret env files ''NACO_MASTER_KEY'') (\<lambda>raw.
       if truthy raw then rbind (reject_placeholder ''NACO_MASTER_KEY'' (the raw)) (\<lambda>_. parse_master_key (the raw))
       else if dev then Inr DEV_MASTER_KEY
       else Inl (u ''NACO_MASTER_KEY is not set''))"

definition load_internal_token :: "environ \<Rightarrow> environ \<Rightarrow> bool \<Rightarrow> pystr + pystr" where
  "load_internal_token env files dev =
     rbind (read_secret env files ''NACO_INTERNAL_TOKEN'') (\<lambda>raw.
       if truthy raw then
         rbind (reject_placeholder ''NACO_INTERNAL_TOKEN'' (the raw)) (\<lambda>_.
           if length (the raw) < 32 then Inl (u ''NACO_INTERNAL_TOKEN must be at least 32 characters'') else Inr (the raw))
       else if dev then Inr DEV_INTERNAL_TOKEN
       else Inl (u ''NACO_INTERNAL_TOKEN is not set''))"

text \<open>A password that may be missing.\<close>

definition load_optional :: "environ \<Rightarrow> environ \<Rightarrow> string \<Rightarrow> pystr + pystr option" where
  "load_optional env files name =
     rbind (read_secret env files name) (\<lambda>raw.
       if truthy raw then rbind (reject_placeholder name (the raw)) (\<lambda>_. Inr raw) else Inr None)"

definition dev_mode :: "environ \<Rightarrow> bool \<Rightarrow> bool" where
  "dev_mode env dev \<longleftrightarrow> dev \<or> (case env (u ''NACO_DEV'') of None \<Rightarrow> False | Some v \<Rightarrow> lower v \<in> {u ''1'', u ''true'', u ''yes'', u ''on''})"

definition load_secrets :: "environ \<Rightarrow> environ \<Rightarrow> bool option \<Rightarrow> pystr + Secrets" where
  "load_secrets env files dev =
     (let dev = (case dev of Some b \<Rightarrow> b | None \<Rightarrow> dev_mode env False) in
      rbind (load_master_key env files dev) (\<lambda>key.
      rbind (load_internal_token env files dev) (\<lambda>token.
      rbind (load_optional env files ''NACO_LDAP_BIND_PASSWORD'') (\<lambda>ldap.
      rbind (load_optional env files ''NACO_ADMIN_PASSWORD'') (\<lambda>admin.
        Inr \<lparr>se_master_key = key, se_internal_token = token, se_ldap_bind_password = (case ldap of None \<Rightarrow> [] | Some v \<Rightarrow> v),
             se_admin_password = admin\<rparr>)))))"

section \<open>What is encrypted comes back, in its own column only\<close>

text \<open>What \<open>cryptography\<close> documents of AES-GCM: decryption inverts encryption under the same key, nonce and associated data, fails
  under other associated data, and the tag is 16 bytes.\<close>

definition aead_ok :: "aead \<Rightarrow> bool" where
  "aead_ok lib \<longleftrightarrow> (\<forall>key nonce p a. ae_decrypt lib key nonce (ae_encrypt lib key nonce p a) a = Some p \<and>
     length (ae_encrypt lib key nonce p a) \<ge> 16 \<and>
     (\<forall>a'. a' \<noteq> a \<longrightarrow> ae_decrypt lib key nonce (ae_encrypt lib key nonce p a) a' = None))"

lemma utf8_inject:
  assumes "list_all is_scalar s" "list_all is_scalar t" "utf8_encode s = Some b" "utf8_encode t = Some b"
  shows "s = t"
  using utf8_round [OF assms(1,3)] utf8_round [OF assms(2,4)] by metis

lemma decode_scalar: "list_all is_scalar s \<Longrightarrow> utf8_encode s = Some b \<Longrightarrow> decode_escape b = s \<and> \<not> list_ex is_surrogate s"
  using utf8_round [of s b] by (auto simp: decode_escape_def list_all_iff list_ex_iff is_scalar_def)

lemma decrypt_stored:
  assumes "length nonce = 12" "length ct \<ge> 16" "utf8_encode aad = Some a"
  shows "decrypt lib key (PREFIX @ b64encode (nonce @ ct)) aad =
    (case ae_decrypt lib key nonce ct a of
       None \<Rightarrow> Inl (Cannot_Decrypt aad)
     | Some plain \<Rightarrow> (let s = decode_escape plain in if list_ex is_surrogate s then Inl Raised_In_Codec else Inr s))"
  using assms by (simp add: decrypt_def startswith_def b64decode_encode)

text \<open>C34. A text stored in an encrypted column is read back as it was; the same stored value in another column cannot be
  decrypted, and a value that is not of the encrypted form, such as plain text, is never read.\<close>

theorem encrypted_column_round_trip:
  assumes "aead_ok lib" "length nonce = 12" "list_all is_scalar v" "list_all is_scalar aad" "list_all is_scalar other" "other \<noteq> aad"
  shows "\<exists>stored. encrypted_bind lib key nonce aad (Some v) = Inr (Some stored) \<and>
    encrypted_result lib key aad (Some stored) = Inr (Some v) \<and>
    encrypted_result lib key other (Some stored) = Inl (Cannot_Decrypt other) \<and>
    (\<forall>t. \<not> startswith t PREFIX \<longrightarrow> encrypted_result lib key aad (Some t) = Inl Not_Encrypted)"
proof -
  obtain p a a' where e: "utf8_encode v = Some p" "utf8_encode aad = Some a" "utf8_encode other = Some a'"
    using assms(3-5) by (simp add: utf8_encode_scalar)
  have "a' \<noteq> a" using utf8_inject [OF assms(5,4) e(3)] e(2) assms(6) by auto
  let ?ct = "ae_encrypt lib key nonce p a"
  have ct: "ae_decrypt lib key nonce ?ct a = Some p" "16 \<le> length ?ct" "ae_decrypt lib key nonce ?ct a' = None"
    using assms(1) \<open>a' \<noteq> a\<close> by (simp_all add: aead_ok_def)
  have "decrypt lib key (PREFIX @ b64encode (nonce @ ?ct)) aad = Inr v"
    using decrypt_stored [OF assms(2) ct(2) e(2)] ct(1) decode_scalar [OF assms(3) e(1)] by simp
  moreover have "decrypt lib key (PREFIX @ b64encode (nonce @ ?ct)) other = Inl (Cannot_Decrypt other)"
    using decrypt_stored [OF assms(2) ct(2) e(3)] ct(3) by simp
  ultimately show ?thesis
    by (intro exI [of _ "PREFIX @ b64encode (nonce @ ?ct)"]) (simp add: encrypted_bind_def encrypted_result_def encrypt_def e decrypt_def)
qed


text \<open>A cipher that meets the documentation: the associated data in front, byte by byte, and a zero.\<close>

definition lab_frame :: "bytes \<Rightarrow> bytes" where
  "lab_frame a = concat (map (\<lambda>b. [1, b]) a) @ [0]"

definition lab_tag :: bytes where
  "lab_tag = replicate 16 0"

lemma length_lab_tag [simp]: "length lab_tag = 16"
  by (simp add: lab_tag_def)

lemma take_lab_tag: "take (16 + n) (lab_tag @ x) = lab_tag @ take n x"
  by simp

definition lab_aead :: aead where
  "lab_aead = \<lparr>ae_encrypt = (\<lambda>key nonce p a. lab_tag @ lab_frame a @ p),
     ae_decrypt = (\<lambda>key nonce ct a. let f = lab_tag @ lab_frame a in if take (length f) ct = f then Some (drop (length f) ct) else None)\<rparr>"

lemma lab_frame_simps [simp]: "lab_frame [] = [0]" "lab_frame (b # a) = 1 # b # lab_frame a"
  by (simp_all add: lab_frame_def)

lemma lab_frame_prefix: "take (length (lab_frame a')) (lab_frame a @ p) = lab_frame a' \<Longrightarrow> a' = a"
proof (induction a' arbitrary: a)
  case Nil
  then show ?case by (cases a) auto
next
  case (Cons b a')
  then show ?case by (cases a) auto
qed

lemma lab_aead_ok: "aead_ok lab_aead"
  unfolding aead_ok_def
proof (intro allI conjI impI)
  fix key nonce p a a' :: bytes
  show "ae_decrypt lab_aead key nonce (ae_encrypt lab_aead key nonce p a) a = Some p" by (simp add: lab_aead_def Let_def)
  show "16 \<le> length (ae_encrypt lab_aead key nonce p a)" by (simp add: lab_aead_def)
  assume "a' \<noteq> a"
  then have "take (length (lab_frame a')) (lab_frame a @ p) \<noteq> lab_frame a'" using lab_frame_prefix [of a' a p] by blast
  then show "ae_decrypt lab_aead key nonce (ae_encrypt lab_aead key nonce p a) a' = None" by (simp add: lab_aead_def Let_def take_lab_tag del: take_append)
qed

theorem encrypted_column_round_trip_witness:
  "\<exists>stored. encrypted_bind lab_aead [] (replicate 12 0) (u ''nas_clients.secret'') (Some (u ''s3cret'')) = Inr (Some stored) \<and>
     encrypted_result lab_aead [] (u ''nas_clients.secret'') (Some stored) = Inr (Some (u ''s3cret''))"
proof -
  have "length (replicate 12 0 :: bytes) = 12" "list_all is_scalar (u ''s3cret'')" "list_all is_scalar (u ''nas_clients.secret'')"
    "list_all is_scalar (u ''tacacs_clients.key'')" "u ''tacacs_clients.key'' \<noteq> u ''nas_clients.secret''"
    by (simp_all add: u_def is_scalar_def is_surrogate_def)
  from encrypted_column_round_trip [OF lab_aead_ok this, of "[]"] show ?thesis by blast
qed

section \<open>The process starts with real secrets only\<close>

lemma parse_master_key_length: "parse_master_key m = Inr k \<Longrightarrow> length k = 32"
  by (auto simp: parse_master_key_def Let_def find_Some_iff split: option.splits)

lemma strip_no_space: "list_all (\<lambda>c. \<not> is_space c) s \<Longrightarrow> strip s = s"
  by (rule strip_fixed) (auto simp: list_all_iff)

lemma b64encode_alphabet: "set (b64encode bs) \<subseteq> insert 61 (b64_char ` {..<64})"
proof (induction bs rule: b64encode.induct)
  case (2 a)
  then show ?case using b64_quad [of a 0 0] by (auto simp: b64_quad_ok_def)
next
  case (3 a b)
  then show ?case using b64_quad [of a b 0] by (auto simp: b64_quad_ok_def)
next
  case (4 a b c bs)
  then show ?case using b64_quad [of a b c] by (auto simp: b64_quad_ok_def)
qed simp

lemma b64encode_no_space: "strip (b64encode bs) = b64encode bs"
proof (rule strip_no_space)
  have "\<not> is_space (b64_char n)" if "n < 64" for n using that by (auto simp: b64_char_def is_space_def)
  moreover have "\<not> is_space 61" by (simp add: is_space_def)
  ultimately show "list_all (\<lambda>c. \<not> is_space c) (b64encode bs)" using b64encode_alphabet [of bs] by (auto simp: list_all_iff)
qed

text \<open>The master key as \<open>openssl rand -base64 32\<close> prints it is read as it was made.\<close>

theorem master_key_round_trip: "length key = 32 \<Longrightarrow> parse_master_key (b64encode key) = Inr key"
  by (simp add: parse_master_key_def b64encode_no_space b64decode_encode map_filter_simps)

definition supplied :: "environ \<Rightarrow> environ \<Rightarrow> string \<Rightarrow> pystr \<Rightarrow> bool" where
  "supplied env files name v \<longleftrightarrow> read_secret env files name = Inr (Some v) \<and> v \<noteq> [] \<and> \<not> is_placeholder v"

text \<open>C36. Outside development mode the secrets that are loaded come from the environment or the files it names: the key is the 32
  bytes that the supplied text encodes, the token has at least 32 characters, and no value is a placeholder; everything
  else is an error, never a default.\<close>

theorem load_secrets_sound:
  assumes "load_secrets env files dev = Inr s" "dev = Some False \<or> dev = None \<and> \<not> dev_mode env False"
  shows "(\<exists>m. supplied env files ''NACO_MASTER_KEY'' m \<and> parse_master_key m = Inr (se_master_key s)) \<and> length (se_master_key s) = 32 \<and>
    supplied env files ''NACO_INTERNAL_TOKEN'' (se_internal_token s) \<and> 32 \<le> length (se_internal_token s) \<and>
    (se_ldap_bind_password s \<noteq> [] \<longrightarrow> supplied env files ''NACO_LDAP_BIND_PASSWORD'' (se_ldap_bind_password s)) \<and>
    (\<forall>v. se_admin_password s = Some v \<longrightarrow> supplied env files ''NACO_ADMIN_PASSWORD'' v)"
proof -
  from assms obtain key token ldap admin where
    k: "load_master_key env files False = Inr key" and t: "load_internal_token env files False = Inr token"
    and l: "load_optional env files ''NACO_LDAP_BIND_PASSWORD'' = Inr ldap" and a: "load_optional env files ''NACO_ADMIN_PASSWORD'' = Inr admin"
    and s: "s = \<lparr>se_master_key = key, se_internal_token = token, se_ldap_bind_password = (case ldap of None \<Rightarrow> [] | Some v \<Rightarrow> v), se_admin_password = admin\<rparr>"
    by (auto simp: load_secrets_def Let_def rbind_eq_Inr)
  have opt: "supplied env files name v" if "load_optional env files name = Inr (Some v)" for name v
    using that by (auto simp: load_optional_def rbind_eq_Inr truthy_def reject_placeholder_def supplied_def split: if_splits)
  have "\<exists>m. supplied env files ''NACO_MASTER_KEY'' m \<and> parse_master_key m = Inr key"
    using k by (auto simp: load_master_key_def rbind_eq_Inr truthy_def reject_placeholder_def supplied_def split: if_splits)
  moreover have "supplied env files ''NACO_INTERNAL_TOKEN'' token \<and> 32 \<le> length token"
    using t by (auto simp: load_internal_token_def rbind_eq_Inr truthy_def reject_placeholder_def supplied_def split: if_splits)
  ultimately show ?thesis using opt a l by (auto simp: s dest: parse_master_key_length split: option.splits)
qed

definition lab_environ :: environ where
  "lab_environ = map_of [(u ''NACO_MASTER_KEY'', b64encode (replicate 32 7)), (u ''NACO_INTERNAL_TOKEN'', u ''0123456789abcdef0123456789abcdef'')]"

lemma lab_environ_key:
  "read_secret lab_environ files ''NACO_MASTER_KEY'' = Inr (Some (b64encode (replicate 32 7)))" "b64encode (replicate 32 7) \<noteq> []"
proof -
  have "replicate 32 (7 :: 8 word) = 7 # 7 # 7 # replicate 29 7" by (simp add: numeral_eq_Suc)
  then show ne: "b64encode (replicate 32 7) \<noteq> []" by simp
  have "u a @ u b = u (a @ b)" for a b by (simp add: u_append)
  with ne show "read_secret lab_environ files ''NACO_MASTER_KEY'' = Inr (Some (b64encode (replicate 32 7)))"
    by (simp add: read_secret_def lab_environ_def b64encode_no_space)
qed

lemma lab_environ_loads: "\<exists>s. load_secrets lab_environ (\<lambda>_. None) None = Inr s"
proof -
  have r: "replicate 32 (7 :: 8 word) = 7 # 7 # 7 # replicate 29 7" by (simp add: numeral_eq_Suc)
  have key: "\<not> is_placeholder (b64encode (replicate 32 7))"
    unfolding r by (simp add: b64_char_def is_placeholder_def startswith_def lower_def lower_char_def u_def)
  have token: "strip (u ''0123456789abcdef0123456789abcdef'') = u ''0123456789abcdef0123456789abcdef''"
    "\<not> is_placeholder (u ''0123456789abcdef0123456789abcdef'')"
    by (simp_all add: u_def strip_def lstrip_def rstrip_def is_space_def is_placeholder_def startswith_def lower_def lower_char_def)
  have u: "u a @ u b = u (a @ b)" for a b by (simp add: u_append)
  show ?thesis
    using key token lab_environ_key(2) master_key_round_trip [of "replicate 32 7"]
    by (auto simp: load_secrets_def dev_mode_def load_master_key_def load_internal_token_def load_optional_def read_secret_def lab_environ_def u
        truthy_def reject_placeholder_def b64encode_no_space simp del: b64encode.simps)
qed

theorem load_secrets_sound_witness:
  "\<exists>s. load_secrets lab_environ (\<lambda>_. None) None = Inr s \<and> length (se_master_key s) = 32"
proof -
  obtain s where s: "load_secrets lab_environ (\<lambda>_. None) None = Inr s" using lab_environ_loads by blast
  moreover have "\<not> dev_mode lab_environ False" by (simp add: dev_mode_def lab_environ_def)
  ultimately show ?thesis using load_secrets_sound [OF s] by blast
qed

end
