(* ===== verification/AdminsApi.thy ===== *)
theory AdminsApi
  imports UsersApi
begin

text \<open>
  Administrators, API tokens and the logs: \<open>naco/api/routes/admin.py\<close>.  The random password or token that
  a route draws is an argument of its definition.
\<close>

section \<open>Logs\<close>

definition in_range :: "int option \<Rightarrow> int option \<Rightarrow> int \<Rightarrow> bool" where
  "in_range since until t \<longleftrightarrow> (case since of None \<Rightarrow> True | Some s \<Rightarrow> s \<le> t) \<and> (case until of None \<Rightarrow> True | Some e \<Rightarrow> t < e)"

text \<open>Newest first, within the times, with the term in one of the cols.\<close>

definition log_rows :: "('a \<Rightarrow> nat) \<Rightarrow> ('a \<Rightarrow> int) \<Rightarrow> ('a \<Rightarrow> pystr) list \<Rightarrow> pystr \<Rightarrow> int option \<Rightarrow> int option \<Rightarrow> 'a list \<Rightarrow> 'a list" where
  "log_rows key time cols q since until rows =
     sort_key (\<lambda>r. - int (key r)) (filter (\<lambda>r. in_range since until (time r) \<and>
       (q = [] \<or> list_ex (\<lambda>f. ilike (f r) (like (lower q))) cols)) rows)"

definition show_auth_logs :: "pystr \<Rightarrow> AuthResult option \<Rightarrow> pystr option \<Rightarrow> int option \<Rightarrow> int option \<Rightarrow> nat \<Rightarrow> nat \<Rightarrow> db \<Rightarrow> AuthLog list \<times> nat" where
  "show_auth_logs q result auth_method since until page per_page d =
     fetch_page page per_page (filter (\<lambda>r. (case result of None \<Rightarrow> True | Some x \<Rightarrow> alog_result r = x) \<and>
         (truthy auth_method \<longrightarrow> Some (alog_auth_method r) = auth_method))
       (log_rows alog_id alog_timestamp [alog_username, alog_mac_address, alog_nas_name, alog_reason, alog_policy_name] q since until (auth_logs d)))"

definition show_tacacs_logs :: "pystr \<Rightarrow> int option \<Rightarrow> int option \<Rightarrow> nat \<Rightarrow> nat \<Rightarrow> db \<Rightarrow> TacacsLog list \<times> nat" where
  "show_tacacs_logs q since until page per_page d =
     fetch_page page per_page (log_rows tlog_id tlog_timestamp [tlog_username, tlog_command, tlog_client_ip] q since until (tacacs_logs d))"

definition show_audit_log :: "pystr \<Rightarrow> int option \<Rightarrow> int option \<Rightarrow> nat \<Rightarrow> nat \<Rightarrow> db \<Rightarrow> AuditLog list \<times> nat" where
  "show_audit_log q since until page per_page d =
     fetch_page page per_page (log_rows aud_id aud_timestamp [aud_actor, aud_action, aud_target_name] q since until (audit_logs d))"

section \<open>Administrators\<close>

record AdminOut =
  ao_id :: nat
  ao_username :: pystr
  ao_role :: AdminRole
  ao_enabled :: bool
  ao_totp_enabled :: bool
  ao_must_change_password :: bool
  ao_last_login_at :: "int option"
  ao_created_at :: int

record AdminCreate =
  ac_username :: pystr
  ac_role :: AdminRole

record AdminUpdate =
  au_new_role :: "AdminRole option"
  au_new_enabled :: "bool option"

definition AdminCreate_ok :: "AdminCreate \<Rightarrow> bool" where
  "AdminCreate_ok b \<longleftrightarrow>
     (let s = ac_username b; word = (\<lambda>c. (97 \<le> c \<and> c \<le> 122) \<or> (48 \<le> c \<and> c \<le> 57)) in
      length s \<le> 64 \<and> (case s of [] \<Rightarrow> False | c # cs \<Rightarrow> word c \<and> list_all (\<lambda>c. word c \<or> c \<in> {46, 95, 45}) cs))"

definition admin_out :: "AdminUser \<Rightarrow> AdminOut" where
  "admin_out a =
     \<lparr>ao_id = au_id a, ao_username = au_username a, ao_role = au_role a, ao_enabled = au_enabled a,
      ao_totp_enabled = truthy (au_totp_secret a), ao_must_change_password = au_must_change_password a,
      ao_last_login_at = au_last_login_at a, ao_created_at = au_created_at a\<rparr>"

definition admin_snapshot :: "AdminUser \<Rightarrow> (pystr \<times> json) list" where
  "admin_snapshot a =
     [(u ''username'', JStr (au_username a)), (u ''role'', JStr (role_value (au_role a))), (u ''enabled'', JBool (au_enabled a))]"

definition other_superusers :: "db \<Rightarrow> nat \<Rightarrow> nat" where
  "other_superusers d i = length (filter (\<lambda>a. au_role a = SUPERUSER \<and> au_enabled a \<and> au_id a \<noteq> i) (admin_users d))"

definition not_self :: "Principal \<Rightarrow> AdminUser \<Rightarrow> api_exc + AdminUser" where
  "not_self p a =
     (if pr_admin_id p = Some (au_id a) then Inl (api_error 409 (u ''ask another SUPERUSER to change your own account'')) else Inr a)"

definition last_superuser :: api_exc where
  "last_superuser = api_error 409 (u ''this is the last enabled SUPERUSER'')"

definition list_admins :: "db \<Rightarrow> AdminOut list" where
  "list_admins d = map admin_out (sort_key au_username (admin_users d))"

definition create_admin :: "api_env \<Rightarrow> pystr \<Rightarrow> AdminCreate \<Rightarrow> int \<Rightarrow> Principal \<Rightarrow> api_state \<Rightarrow> (AdminOut \<times> pystr) route" where
  "create_admin env password body now p st =
     (case hash_password (ev_bcrypt env) password of
        Inl e \<Rightarrow> (Inl (PyRaised e), st)
      | Inr h \<Rightarrow>
          (let st = ev_meanwhile env 0 st; d = ap_db st in
           if ac_username body \<in> set (map au_username (admin_users d)) then
             (Inl (api_error 409 (u ''administrator '' @ ac_username body @ u '' already exists'')), st)
           else
             (let a = \<lparr>au_id = next_id au_id (admin_users d), au_username = ac_username body, au_password_hash = h, au_role = ac_role body,
                       au_enabled = True, au_must_change_password = True, au_totp_secret = None, au_totp_pending_secret = None,
                       au_totp_last_step = None, au_recovery_codes = [], au_created_at = now, au_updated_at = now,
                       au_last_login_at = None, au_password_changed_at = None\<rparr>;
                  d = d\<lparr>admin_users := admin_users d @ [a]\<rparr>
              in (Inr (admin_out a, password),
                  commit_with (trail_row p d (u ''admin.create'') (u ''admin'') (dec (au_id a)) (au_username a) (admin_snapshot a) now) d st))))"

text \<open>An audited change of another administrator that ends all of that account's sessions.\<close>

definition change_admin :: "Principal \<Rightarrow> AdminUser \<Rightarrow> (AdminUser \<Rightarrow> AdminUser) \<Rightarrow> pystr \<Rightarrow> (pystr \<times> json) list \<Rightarrow> int \<Rightarrow> api_state \<Rightarrow> api_state" where
  "change_admin p a f action changes now st =
     (let d = revoke_all (au_id a) None (set_admin (au_id a) f now (ap_db st))
      in commit_with (trail_row p d action (u ''admin'') (dec (au_id a)) (au_username a) changes now) d st)"

definition admin_changed :: "AdminUpdate \<Rightarrow> AdminUser \<Rightarrow> AdminUser" where
  "admin_changed b a =
     a\<lparr>au_role := (case au_new_role b of None \<Rightarrow> au_role a | Some r \<Rightarrow> r),
       au_enabled := (case au_new_enabled b of None \<Rightarrow> au_enabled a | Some e \<Rightarrow> e)\<rparr>"

definition patch_admin :: "nat \<Rightarrow> AdminUpdate \<Rightarrow> int \<Rightarrow> Principal \<Rightarrow> api_state \<Rightarrow> AdminOut route" where
  "patch_admin i body now p st =
     (let d = ap_db st in
      case rbind (get_or_404 au_id (admin_users d) i (u ''administrator'')) (not_self p) of
        Inl e \<Rightarrow> (Inl e, st)
      | Inr a \<Rightarrow>
          (let new = admin_changed body a;
               loses_superuser = (au_role a = SUPERUSER \<and> (au_role new \<noteq> SUPERUSER \<or> \<not> au_enabled new));
               delta = diff (admin_snapshot a) (admin_snapshot new) []
           in if loses_superuser \<and> other_superusers d i = 0 then (Inl last_superuser, st)
              else if delta = [] then
                (Inr (admin_out a), commit_with (trail_row p d (u ''admin.update'') (u ''admin'') (dec i) (au_username a) [] now) d st)
              else (Inr (admin_out new), change_admin p a (admin_changed body) (u ''admin.update'') delta now st)))"

definition reset_admin_password :: "api_env \<Rightarrow> pystr \<Rightarrow> nat \<Rightarrow> int \<Rightarrow> Principal \<Rightarrow> api_state \<Rightarrow> (AdminOut \<times> pystr) route" where
  "reset_admin_password env password i now p st =
     (case hash_password (ev_bcrypt env) password of
        Inl e \<Rightarrow> (Inl (PyRaised e), st)
      | Inr h \<Rightarrow>
          (let st = ev_meanwhile env 0 st; f = (\<lambda>x. x\<lparr>au_password_hash := h, au_must_change_password := True\<rparr>) in
           case rbind (get_or_404 au_id (admin_users (ap_db st)) i (u ''administrator'')) (not_self p) of
             Inl e \<Rightarrow> (Inl e, st)
           | Inr a \<Rightarrow> (Inr (admin_out (f a), password), change_admin p a f (u ''admin.password_reset'') [] now st)))"

definition reset_admin_totp :: "nat \<Rightarrow> int \<Rightarrow> Principal \<Rightarrow> api_state \<Rightarrow> AdminOut route" where
  "reset_admin_totp i now p st =
     (let f = (\<lambda>x. x\<lparr>au_totp_secret := None, au_totp_pending_secret := None, au_totp_last_step := None, au_recovery_codes := []\<rparr>) in
      case rbind (get_or_404 au_id (admin_users (ap_db st)) i (u ''administrator'')) (not_self p) of
        Inl e \<Rightarrow> (Inl e, st)
      | Inr a \<Rightarrow> (Inr (admin_out (f a)), change_admin p a f (u ''admin.totp_reset'') [] now st))"

text \<open>Deleting an account deletes its sessions (\<open>ON DELETE CASCADE\<close>).\<close>

definition delete_admin :: "nat \<Rightarrow> int \<Rightarrow> Principal \<Rightarrow> api_state \<Rightarrow> unit route" where
  "delete_admin i now p st =
     (let d = ap_db st in
      case rbind (get_or_404 au_id (admin_users d) i (u ''administrator'')) (not_self p) of
        Inl e \<Rightarrow> (Inl e, st)
      | Inr a \<Rightarrow>
          if au_role a = SUPERUSER \<and> au_enabled a \<and> other_superusers d i = 0 then (Inl last_superuser, st)
          else
            (let d = revoke_all i None (d\<lparr>admin_users := row_delete au_id i (admin_users d)\<rparr>)
             in (Inr (), commit_with (trail_row p d (u ''admin.delete'') (u ''admin'') (dec i) (au_username a) [] now) d st)))"

section \<open>API tokens\<close>

record TokenCreate =
  tk_name :: pystr
  tk_role :: AdminRole
  tk_expires_days :: "nat option"

definition TokenCreate_ok :: "TokenCreate \<Rightarrow> bool" where
  "TokenCreate_ok b \<longleftrightarrow> group_name_ok (tk_name b) \<and> (case tk_expires_days b of None \<Rightarrow> True | Some n \<Rightarrow> 1 \<le> n \<and> n \<le> 3650)"

definition session_only :: "Principal \<Rightarrow> api_exc + unit" where
  "session_only p = (if pr_kind p \<noteq> Session_Kind then Inl (api_error 403 (u ''API tokens cannot manage API tokens'')) else Inr ())"

definition list_tokens :: "db \<Rightarrow> ApiToken list" where
  "list_tokens d = sort_key (\<lambda>t. - tok_created_at t) (api_tokens d)"

definition create_token :: "pystr \<Rightarrow> TokenCreate \<Rightarrow> int \<Rightarrow> Principal \<Rightarrow> api_state \<Rightarrow> (ApiToken \<times> pystr) route" where
  "create_token random body now p st =
     (let raw = TOKEN_PREFIX @ random; d = ap_db st in
      case rbind (session_only p) (\<lambda>_. case token_hash raw of Inl e \<Rightarrow> Inl (PyRaised e) | Inr h \<Rightarrow> Inr h) of
        Inl e \<Rightarrow> (Inl e, st)
      | Inr h \<Rightarrow>
          if tk_name body \<in> set (map tok_name (api_tokens d)) \<or> h \<in> set (map tok_token_hash (api_tokens d)) then
            (Inl (api_error 409 (u ''a token named '' @ tk_name body @ u '' already exists'')), st)
          else
            (let t = \<lparr>tok_id = next_id tok_id (api_tokens d), tok_name = tk_name body, tok_token_hash = h, tok_prefix = take 12 raw,
                      tok_role = tk_role body, tok_created_by = pr_username p, tok_created_at = now,
                      tok_expires_at = map_option (\<lambda>n. now + int n * 86400 * second) (tk_expires_days body),
                      tok_last_used_at = None, tok_revoked_at = None\<rparr>;
                 d = d\<lparr>api_tokens := api_tokens d @ [t]\<rparr>
             in (Inr (t, raw),
                 commit_with (trail_row p d (u ''token.create'') (u ''token'') (dec (tok_id t)) (tok_name t)
                   [(u ''role'', JStr (role_value (tk_role body))), (u ''expires_days'', opt_json (JInt \<circ> int) (tk_expires_days body))] now) d st)))"

definition revoke_token :: "nat \<Rightarrow> int \<Rightarrow> Principal \<Rightarrow> api_state \<Rightarrow> unit route" where
  "revoke_token i now p st =
     (let d = ap_db st in
      case rbind (session_only p) (\<lambda>_. get_or_404 tok_id (api_tokens d) i (u ''token'')) of
        Inl e \<Rightarrow> (Inl e, st)
      | Inr t \<Rightarrow>
          if tok_revoked_at t \<noteq> None then (Inr (), st)
          else
            (let d = d\<lparr>api_tokens := row_update tok_id i (\<lambda>x. x\<lparr>tok_revoked_at := Some now\<rparr>) (api_tokens d)\<rparr>
             in (Inr (), commit_with (trail_row p d (u ''token.revoke'') (u ''token'') (dec i) (tok_name t) [] now) d st)))"

section \<open>A superuser is always left\<close>

datatype admin_request = Create_Admin pystr AdminCreate | Patch_Admin nat AdminUpdate | Reset_Password pystr nat | Reset_Totp nat | Delete_Admin nat

text \<open>The state after a request to one of the routes that change administrators.\<close>

fun serve_admin :: "api_env \<Rightarrow> int \<Rightarrow> Principal \<Rightarrow> admin_request \<Rightarrow> api_state \<Rightarrow> api_state" where
  "serve_admin env now p (Create_Admin password b) st = (if AdminCreate_ok b then snd (create_admin env password b now p st) else st)"
| "serve_admin env now p (Patch_Admin i b) st = snd (patch_admin i b now p st)"
| "serve_admin env now p (Reset_Password password i) st = snd (reset_admin_password env password i now p st)"
| "serve_admin env now p (Reset_Totp i) st = snd (reset_admin_totp i now p st)"
| "serve_admin env now p (Delete_Admin i) st = snd (delete_admin i now p st)"

definition is_superuser :: "AdminUser \<Rightarrow> bool" where
  "is_superuser a \<longleftrightarrow> au_role a = SUPERUSER \<and> au_enabled a"

definition superuser_left :: "AdminUser list \<Rightarrow> bool" where
  "superuser_left rows \<longleftrightarrow> distinct (map au_id rows) \<and> (\<exists>a\<in>set rows. is_superuser a)"

lemma other_superusers_iff: "other_superusers d i = 0 \<longleftrightarrow> \<not> (\<exists>a\<in>set (admin_users d). is_superuser a \<and> au_id a \<noteq> i)"
  by (auto simp: other_superusers_def is_superuser_def filter_empty_conv)

lemma superuser_update:
  assumes "superuser_left rows" "\<And>a. au_id (f a) = au_id a"
    "(\<exists>a\<in>set rows. is_superuser a \<and> au_id a \<noteq> i) \<or> (\<forall>a\<in>set rows. au_id a = i \<longrightarrow> is_superuser a \<longrightarrow> is_superuser (f a))"
  shows "superuser_left (row_update au_id i f rows)"
proof -
  have "distinct (map au_id (row_update au_id i f rows))" using assms(1,2) by (simp add: superuser_left_def map_row_update)
  moreover have "\<exists>a\<in>set (row_update au_id i f rows). is_superuser a"
  proof -
    from assms(1,3) obtain a where "a \<in> set rows" "is_superuser (if au_id a = i then f a else a)"
      by (auto simp: superuser_left_def)
    then show ?thesis unfolding row_update_def set_map by blast
  qed
  ultimately show ?thesis by (simp add: superuser_left_def)
qed

lemma admin_users_simps [simp]:
  "admin_users (ap_db (commit_with row d st)) = admin_users d" "admin_users (revoke_all i k d) = admin_users d"
  by (simp_all add: commit_with_def audit_add_def revoke_all_def)

lemma admin_users_change [simp]:
  "admin_users (ap_db (change_admin p a f action changes now st)) =
     row_update au_id (au_id a) (\<lambda>x. (f x)\<lparr>au_updated_at := now\<rparr>) (admin_users (ap_db st))"
  by (simp add: change_admin_def Let_def set_admin_def)

lemma row_unique: "distinct (map key rows) \<Longrightarrow> row_get key rows i = Some a \<Longrightarrow> x \<in> set rows \<Longrightarrow> key x = i \<Longrightarrow> x = a"
  using row_get_Some [of key rows i a] by (auto simp: distinct_map dest: inj_onD)

lemma not_self_ok: "rbind (get_or_404 au_id rows i what) (not_self p) = Inr a \<Longrightarrow> row_get au_id rows i = Some a \<and> au_id a = i"
  by (auto simp: rbind_eq_Inr get_or_404_ok not_self_def dest: row_get_Some split: if_splits)

lemma superuser_neutral:
  assumes "superuser_left rows" "\<And>a. au_id (f a) = au_id a" "\<And>a. is_superuser (f a) = is_superuser a"
  shows "superuser_left (row_update au_id i f rows)"
  by (rule superuser_update) (use assms in auto)

lemma patch_admin_superuser:
  assumes "superuser_left (admin_users (ap_db st))"
  shows "superuser_left (admin_users (ap_db (snd (patch_admin i b now p st))))"
proof (cases "rbind (get_or_404 au_id (admin_users (ap_db st)) i (u ''administrator'')) (not_self p)")
  case (Inl e)
  with assms show ?thesis by (simp add: patch_admin_def)
next
  case (Inr a)
  let ?rows = "admin_users (ap_db st)" and ?new = "admin_changed b a"
  have a: "row_get au_id ?rows i = Some a" "au_id a = i" using not_self_ok [OF Inr] by auto
  define loses where "loses \<longleftrightarrow> au_role a = SUPERUSER \<and> (au_role ?new \<noteq> SUPERUSER \<or> \<not> au_enabled ?new)"
  have left: "superuser_left (row_update au_id i (\<lambda>x. (admin_changed b x)\<lparr>au_updated_at := now\<rparr>) ?rows)"
    if "\<not> (loses \<and> other_superusers (ap_db st) i = 0)"
  proof (rule superuser_update [OF assms])
    show "(\<exists>x\<in>set ?rows. is_superuser x \<and> au_id x \<noteq> i) \<or>
        (\<forall>x\<in>set ?rows. au_id x = i \<longrightarrow> is_superuser x \<longrightarrow> is_superuser ((admin_changed b x)\<lparr>au_updated_at := now\<rparr>))"
      using that row_unique [OF _ a(1)] assms
      by (auto simp: other_superusers_iff loses_def superuser_left_def is_superuser_def)
  qed (simp add: admin_changed_def)
  show ?thesis using left assms a(2)
    by (auto simp: patch_admin_def Inr Let_def loses_def)
qed

lemma delete_admin_superuser:
  assumes "superuser_left (admin_users (ap_db st))"
  shows "superuser_left (admin_users (ap_db (snd (delete_admin i now p st))))"
proof (cases "rbind (get_or_404 au_id (admin_users (ap_db st)) i (u ''administrator'')) (not_self p)")
  case (Inl e)
  with assms show ?thesis by (simp add: delete_admin_def)
next
  case (Inr a)
  let ?rows = "admin_users (ap_db st)"
  have a: "row_get au_id ?rows i = Some a" using not_self_ok [OF Inr] by auto
  have "superuser_left (row_delete au_id i ?rows)" if "\<not> (is_superuser a \<and> other_superusers (ap_db st) i = 0)"
  proof -
    have "\<exists>x\<in>set ?rows. is_superuser x \<and> au_id x \<noteq> i"
      using that assms row_unique [OF _ a] by (auto simp: other_superusers_iff superuser_left_def)
    then show ?thesis using assms by (auto simp: superuser_left_def row_delete_def distinct_map_filter)
  qed
  with assms show ?thesis by (auto simp: delete_admin_def Inr Let_def is_superuser_def)
qed

text \<open>C11. As long as there is an enabled SUPERUSER, there is one after any request to the routes that create,
  change, reset or delete administrators, whoever sends it.\<close>

theorem superuser_always_left:
  assumes "superuser_left (admin_users (ap_db st))"
    "\<And>st. superuser_left (admin_users (ap_db st)) \<Longrightarrow> superuser_left (admin_users (ap_db (ev_meanwhile env 0 st)))"
  shows "superuser_left (admin_users (ap_db (serve_admin env now p r st)))"
proof (cases r)
  case (Create_Admin password b)
  have "superuser_left (rows @ [a])" if "superuser_left rows" "au_id a = next_id au_id rows" for rows a
    using that next_id_fresh [of _ rows au_id] by (fastforce simp: superuser_left_def)
  with assms Create_Admin show ?thesis
    by (auto simp: create_admin_def Let_def split: sum.splits)
next
  case (Patch_Admin i b)
  with patch_admin_superuser [OF assms(1)] show ?thesis by simp
next
  case (Reset_Password password i)
  with assms show ?thesis
    by (auto simp: reset_admin_password_def Let_def is_superuser_def split: sum.splits intro!: superuser_neutral)
next
  case (Reset_Totp i)
  with assms show ?thesis
    by (auto simp: reset_admin_totp_def Let_def is_superuser_def split: sum.splits intro!: superuser_neutral)
next
  case (Delete_Admin i)
  with delete_admin_superuser [OF assms(1)] show ?thesis by simp
qed


theorem superuser_always_left_witness:
  "superuser_left (admin_users (ap_db (serve_admin quiet_env 0 lab_operator (Delete_Admin 7) (lab_users_state\<lparr>ap_db := lab_admin_db lab_admin\<rparr>))))"
  by (rule superuser_always_left)
    (simp_all add: superuser_left_def is_superuser_def lab_admin_db_def lab_admin_def quiet_env_def)

text \<open>After a change of an administrator's role or state, a reset or the deletion of the account, no session of
  that account is left.\<close>

theorem admin_change_ends_sessions:
  assumes "reset_admin_password env password i now p st = (Inr x, st') \<or> reset_admin_totp i now p st = (Inr y, st') \<or>
      delete_admin i now p st = (Inr z, st') \<or> (patch_admin i b now p st = (Inr w, st') \<and>
      (\<exists>a. row_get au_id (admin_users (ap_db st)) i = Some a \<and> diff (admin_snapshot a) (admin_snapshot (admin_changed b a)) [] \<noteq> []))"
    "s \<in> set (admin_sessions (ap_db st'))"
  shows "as_admin_id s \<noteq> i"
  using assms
  by (auto simp: reset_admin_password_def reset_admin_totp_def delete_admin_def patch_admin_def Let_def change_admin_def revoke_all_def
      commit_with_def audit_add_def split: sum.splits if_splits dest!: not_self_ok)

end
