(* ===== verification/NacoCtl.thy ===== *)
theory NacoCtl
  imports Vault AdminsApi
begin

text \<open>
  The shell commands of \<open>naco/cli.py\<close> that change the database: \<open>reset-password\<close>, \<open>reset-totp\<close> and
  \<open>rotate-master-key\<close>.  Rotation works on the stored texts of the encrypted columns, so the store is modelled as it
  is on disk: for each encrypted column the rows with their key and their stored text.  \<open>store_loads\<close> says that the ORM, with a
  given master key, reads the decrypted columns of \<open>db\<close> from it.  Nothing else writes meanwhile: the server is stopped
  for a rotation, and the resets are one transaction.
\<close>

section \<open>Commands on one administrator\<close>

text \<open>\<open>_audit\<close>, with the environment variable \<open>USER\<close>.\<close>

definition ctl_audit :: "pystr option \<Rightarrow> db \<Rightarrow> pystr \<Rightarrow> pystr \<Rightarrow> (pystr \<times> json) list \<Rightarrow> int \<Rightarrow> db" where
  "ctl_audit user d action target changes now =
     audit_add \<lparr>aud_id = next_id aud_id (audit_logs d), aud_timestamp = now,
       aud_actor = take 64 (case user of None \<Rightarrow> u ''nacoctl'' | Some v \<Rightarrow> v), aud_actor_type = CLI, aud_ip = [], aud_action = action,
       aud_target_type = (if target \<noteq> [] then u ''admin'' else []), aud_target_id = [], aud_target_name = take 128 target,
       aud_changes = JObj changes\<rparr> d"

datatype ctl_error = No_Administrator pystr | Same_Key | Bad_Key pystr | Secret_Error secret_error | Ctl_Raised py_exc

text \<open>The password that is drawn is an argument; the result is the one that is printed.\<close>

definition reset_password :: "bcrypt_lib \<Rightarrow> pystr option \<Rightarrow> pystr \<Rightarrow> pystr \<Rightarrow> int \<Rightarrow> db \<Rightarrow> (ctl_error + pystr) \<times> db" where
  "reset_password bc user password username now d =
     (case find (\<lambda>a. au_username a = lower username) (admin_users d) of
        None \<Rightarrow> (Inl (No_Administrator username), d)
      | Some admin \<Rightarrow>
          (case hash_password bc password of
             Inl e \<Rightarrow> (Inl (Ctl_Raised e), d)
           | Inr h \<Rightarrow>
               (let d = set_admin (au_id admin) (\<lambda>x. x\<lparr>au_password_hash := h, au_must_change_password := True, au_enabled := True\<rparr>) now d;
                    d = revoke_all (au_id admin) None d
                in (Inr password, ctl_audit user d (u ''admin.password_reset'') (au_username admin) [] now))))"

definition reset_totp :: "pystr option \<Rightarrow> pystr \<Rightarrow> int \<Rightarrow> db \<Rightarrow> (ctl_error + unit) \<times> db" where
  "reset_totp user username now d =
     (case find (\<lambda>a. au_username a = lower username) (admin_users d) of
        None \<Rightarrow> (Inl (No_Administrator username), d)
      | Some admin \<Rightarrow>
          (let f = (\<lambda>x. x\<lparr>au_totp_secret := None, au_totp_pending_secret := None, au_totp_last_step := None, au_recovery_codes := []\<rparr>);
               d = (if f admin = admin then d else set_admin (au_id admin) f now d);
               d = revoke_all (au_id admin) None d
           in (Inr (), ctl_audit user d (u ''admin.totp_reset'') (au_username admin) [] now)))"

section \<open>Rotation of the master key\<close>

type_synonym column = "pystr \<times> pystr"
type_synonym stored_rows = "(nat \<times> pystr option) list"

definition ENCRYPTED_COLUMNS :: "column list" where
  "ENCRYPTED_COLUMNS =
     [(u ''admin_users'', u ''totp_secret''), (u ''admin_users'', u ''totp_pending_secret''),
      (u ''nas_clients'', u ''secret''), (u ''tacacs_clients'', u ''key'')]"

definition column_aad :: "column \<Rightarrow> pystr" where
  "column_aad col = fst col @ u ''.'' @ snd col"

text \<open>\<open>UPDATE table SET column = v WHERE id = i\<close>, and the rows of the \<open>SELECT\<close>.\<close>

definition set_stored :: "nat \<Rightarrow> pystr \<Rightarrow> stored_rows \<Rightarrow> stored_rows" where
  "set_stored i v rows = map (\<lambda>(j, x). (j, if j = i then Some v else x)) rows"

definition not_null :: "stored_rows \<Rightarrow> (nat \<times> pystr) list" where
  "not_null rows = List.map_filter (\<lambda>(i, x). map_option (Pair i) x) rows"

text \<open>The random nonces are a sequence, one for each secret.\<close>

fun rotate_rows :: "aead \<Rightarrow> bytes \<Rightarrow> bytes \<Rightarrow> (nat \<Rightarrow> bytes) \<Rightarrow> pystr \<Rightarrow> (nat \<times> pystr) list \<Rightarrow> nat \<times> stored_rows \<Rightarrow> secret_error + nat \<times> stored_rows" where
  "rotate_rows lib old new nonces aad [] (changed, rows) = Inr (changed, rows)"
| "rotate_rows lib old new nonces aad ((ident, value) # todo) (changed, rows) =
     rbind (decrypt lib old value aad) (\<lambda>plain.
     rbind (encrypt lib new (nonces changed) plain aad) (\<lambda>v.
       rotate_rows lib old new nonces aad todo (Suc changed, set_stored ident v rows)))"

fun rotate_columns :: "aead \<Rightarrow> bytes \<Rightarrow> bytes \<Rightarrow> (nat \<Rightarrow> bytes) \<Rightarrow> column list \<Rightarrow> nat \<times> (column \<Rightarrow> stored_rows) \<Rightarrow> secret_error + nat \<times> (column \<Rightarrow> stored_rows)" where
  "rotate_columns lib old new nonces [] (changed, store) = Inr (changed, store)"
| "rotate_columns lib old new nonces (col # cols) (changed, store) =
     rbind (rotate_rows lib old new nonces (column_aad col) (not_null (store col)) (changed, store col)) (\<lambda>(changed, rows).
       rotate_columns lib old new nonces cols (changed, store(col := rows)))"

text \<open>The command: the store and the database with the audit row; without a commit nothing changes.\<close>

definition rotate_master_key ::
    "aead \<Rightarrow> pystr option \<Rightarrow> bytes \<Rightarrow> pystr \<Rightarrow> (nat \<Rightarrow> bytes) \<Rightarrow> int \<Rightarrow> (column \<Rightarrow> stored_rows) \<times> db \<Rightarrow>
      (ctl_error + nat) \<times> (column \<Rightarrow> stored_rows) \<times> db" where
  "rotate_master_key lib user old_key material nonces now = (\<lambda>(store, d).
     (case parse_master_key material of
        Inl e \<Rightarrow> (Inl (Bad_Key e), store, d)
      | Inr new_key \<Rightarrow>
          if new_key = old_key then (Inl Same_Key, store, d)
          else
            (case rotate_columns lib old_key new_key nonces ENCRYPTED_COLUMNS (0, store) of
               Inl e \<Rightarrow> (Inl (Secret_Error e), store, d)
             | Inr (changed, store') \<Rightarrow>
                 (Inr changed, store', ctl_audit user d (u ''system.master_key_rotated'') [] [(u ''secrets'', JInt (int changed))] now))))"

text \<open>What the ORM reads, written from the column declarations of \<open>naco/db/models.py\<close> and not from the list of the command: each
  column of type \<open>EncryptedString\<close> with its associated data, against the rows of \<open>db\<close>.\<close>

definition orm_column :: "aead \<Rightarrow> bytes \<Rightarrow> string \<Rightarrow> stored_rows \<Rightarrow> (nat \<times> (secret_error + pystr option)) list" where
  "orm_column lib key aad rows = map (\<lambda>(i, x). (i, encrypted_result lib key (u aad) x)) rows"

definition store_loads :: "aead \<Rightarrow> bytes \<Rightarrow> (column \<Rightarrow> stored_rows) \<Rightarrow> db \<Rightarrow> bool" where
  "store_loads lib key store d \<longleftrightarrow>
     orm_column lib key ''admin_users.totp_secret'' (store (u ''admin_users'', u ''totp_secret'')) =
       map (\<lambda>a. (au_id a, Inr (au_totp_secret a))) (admin_users d) \<and>
     orm_column lib key ''admin_users.totp_pending_secret'' (store (u ''admin_users'', u ''totp_pending_secret'')) =
       map (\<lambda>a. (au_id a, Inr (au_totp_pending_secret a))) (admin_users d) \<and>
     orm_column lib key ''nas_clients.secret'' (store (u ''nas_clients'', u ''secret'')) =
       map (\<lambda>n. (nas_id n, Inr (Some (nas_secret n)))) (nas_clients d) \<and>
     orm_column lib key ''tacacs_clients.key'' (store (u ''tacacs_clients'', u ''key'')) =
       map (\<lambda>c. (tc_id c, Inr (Some (tc_key c)))) (tacacs_clients d)"

section \<open>Every secret survives a rotation\<close>

lemma utf8_tail_bound: "utf8_tail k lo hi v n bs = Inr (c, rest) \<Longrightarrow> c < (v + 1) * 64 ^ k"
proof (induction k lo hi v n bs rule: utf8_tail.induct)
  case (3 k lo hi v n b bs)
  then have "c < (64 * v + unat b mod 64 + 1) * 64 ^ k" by (simp split: if_splits)
  also have "\<dots> \<le> (64 * (v + 1)) * 64 ^ k" by (intro mult_le_mono1) (simp add: Suc_le_eq)
  finally show ?case by (simp add: algebra_simps)
qed auto

lemma utf8_next_bound:
  assumes "utf8_next b bs = Inr (c, rest)"
  shows "c < 0x110000"
proof (cases "unat b < 0x80")
  case False
  with assms obtain k lo hi where lead: "utf8_lead (unat b) = Some (k, lo, hi)"
    and tail: "utf8_tail k lo hi (unat b mod 2 ^ (6 - k)) 1 bs = Inr (c, rest)"
    by (auto simp: utf8_next_def split: option.splits)
  show ?thesis
  proof (cases "unat b = 0xF4")
    case True
    with lead have k: "k = 3" "lo = 0x80" "hi = 0x8F" by (simp_all add: utf8_lead_def)
    have "unat b mod 2 ^ (6 - 3) = 4" using True by simp
    with tail obtain b' :: "8 word" and bs' where "utf8_tail 2 0x80 0xBF (256 + unat b' mod 64) (Suc 1) bs' = Inr (c, rest)" "0x80 \<le> unat b'" "unat b' \<le> 0x8F"
      unfolding k by (cases bs) (auto simp: utf8_tail.simps(2,3) [where k = 2, simplified] split: if_splits)
    moreover from this have "unat b' mod 64 \<le> 15" by presburger
    ultimately show ?thesis using utf8_tail_bound by fastforce
  next
    case False
    have "4 * (n mod 8) \<le> 13" if "241 \<le> n" "n \<le> 243" for n :: nat using that by presburger
    then have "(unat b mod 2 ^ (6 - k) + 1) * 64 ^ k \<le> 0x110000"
      using lead False by (auto simp: utf8_lead_def split: if_splits)
    then show ?thesis using utf8_tail_bound [OF tail] by linarith
  qed
qed (use assms in \<open>auto simp: utf8_next_def\<close>)

lemma utf8_decode_bound:
  assumes "\<And>xs x. x \<in> set (h xs) \<Longrightarrow> x < 0x110000" "c \<in> set (utf8_decode h bs)"
  shows "c < 0x110000"
  using assms
proof (induction h bs rule: utf8_decode.induct)
  case (2 handler b bs)
  show ?case
  proof (cases "utf8_next b bs")
    case (Inl n)
    then show ?thesis using 2(1) [OF Inl] 2(3,4) by auto
  next
    case (Inr r)
    then show ?thesis using 2(2) 2(3,4) utf8_next_bound by (cases r) auto
  qed
qed simp

lemma decrypt_scalar: "decrypt lib key v aad = Inr p \<Longrightarrow> list_all is_scalar p"
proof -
  have "x < 0x110000" if "x \<in> set (escape_handler xs)" for x xs
    using that by (auto simp: escape_handler_def intro: less_trans [OF add_strict_left_mono [OF byte_bound]])
  then have "c < 0x110000" if "c \<in> set (decode_escape bs)" for c bs
    using that utf8_decode_bound unfolding decode_escape_def by blast
  then show "decrypt lib key v aad = Inr p \<Longrightarrow> list_all is_scalar p"
    by (auto simp: decrypt_def Let_def list_all_iff list_ex_iff is_scalar_def split: if_splits option.splits)
qed

lemma encrypt_readable:
  assumes "aead_ok lib" "length nonce = 12" "list_all is_scalar p" "list_all is_scalar aad"
  shows "\<exists>v. encrypt lib key nonce p aad = Inr v \<and> decrypt lib key v aad = Inr p"
proof -
  obtain b a where e: "utf8_encode p = Some b" "utf8_encode aad = Some a" using assms(3,4) by (simp add: utf8_encode_scalar)
  have "ae_decrypt lib key nonce (ae_encrypt lib key nonce b a) a = Some b" "16 \<le> length (ae_encrypt lib key nonce b a)"
    using assms(1) by (simp_all add: aead_ok_def)
  then show ?thesis using decrypt_stored [OF assms(2) _ e(2)] decode_scalar [OF assms(3) e(1)] by (simp add: encrypt_def e)
qed

lemma column_aad_scalar: "col \<in> set ENCRYPTED_COLUMNS \<Longrightarrow> list_all is_scalar (column_aad col)"
  by (auto simp: ENCRYPTED_COLUMNS_def column_aad_def u_def is_scalar_def is_surrogate_def)

definition read_column :: "aead \<Rightarrow> bytes \<Rightarrow> (column \<Rightarrow> stored_rows) \<Rightarrow> column \<Rightarrow> (nat \<times> (secret_error + pystr option)) list" where
  "read_column lib key store col = map (\<lambda>(i, x). (i, encrypted_result lib key (column_aad col) x)) (store col)"

definition db_column :: "db \<Rightarrow> column \<Rightarrow> (nat \<times> pystr option) list" where
  "db_column d col =
     (if col = (u ''admin_users'', u ''totp_secret'') then map (\<lambda>a. (au_id a, au_totp_secret a)) (admin_users d)
      else if col = (u ''admin_users'', u ''totp_pending_secret'') then map (\<lambda>a. (au_id a, au_totp_pending_secret a)) (admin_users d)
      else if col = (u ''nas_clients'', u ''secret'') then map (\<lambda>n. (nas_id n, Some (nas_secret n))) (nas_clients d)
      else map (\<lambda>c. (tc_id c, Some (tc_key c))) (tacacs_clients d))"

text \<open>The list of the command names exactly the encrypted columns of the models, and builds their associated data.\<close>

lemma store_loads_columns:
  "store_loads lib key store d \<longleftrightarrow> (\<forall>col\<in>set ENCRYPTED_COLUMNS. read_column lib key store col = map (\<lambda>(i, x). (i, Inr x)) (db_column d col))"
  by (simp add: store_loads_def ENCRYPTED_COLUMNS_def read_column_def orm_column_def db_column_def column_aad_def comp_def flip: u_append)

definition readable :: "aead \<Rightarrow> bytes \<Rightarrow> pystr \<Rightarrow> pystr \<Rightarrow> bool" where
  "readable lib key aad v \<longleftrightarrow> (\<exists>p. decrypt lib key v aad = Inr p)"

lemma rotate_rows_ok:
  assumes "aead_ok lib" "\<forall>k. length (nonces k) = 12" "list_all is_scalar aad"
    "\<forall>(i, v)\<in>set todo. readable lib old aad v" "distinct (map fst todo)"
  shows "\<exists>rows'. rotate_rows lib old new nonces aad todo (n, rows) = Inr (n + length todo, rows') \<and>
    map (\<lambda>(i, x). (i, encrypted_result lib new aad x)) rows' =
      map (\<lambda>(i, x). (i, case map_of todo i of Some v \<Rightarrow> encrypted_result lib old aad (Some v) | None \<Rightarrow> encrypted_result lib new aad x)) rows"
  using assms(4,5)
proof (induction todo arbitrary: n rows)
  case (Cons iv todo)
  obtain i v where iv: "iv = (i, v)" by (cases iv)
  from Cons.prems iv obtain p where p: "decrypt lib old v aad = Inr p" by (auto simp: readable_def)
  obtain v' where v': "encrypt lib new (nonces n) p aad = Inr v'" "decrypt lib new v' aad = Inr p"
    using encrypt_readable [OF assms(1) assms(2) [rule_format] decrypt_scalar [OF p] assms(3)] by blast
  obtain rows' where r: "rotate_rows lib old new nonces aad todo (Suc n, set_stored i v' rows) = Inr (Suc n + length todo, rows')"
    and m: "map (\<lambda>(i, x). (i, encrypted_result lib new aad x)) rows' =
      map (\<lambda>(i, x). (i, case map_of todo i of Some v \<Rightarrow> encrypted_result lib old aad (Some v) | None \<Rightarrow> encrypted_result lib new aad x)) (set_stored i v' rows)"
    using Cons.IH [of "Suc n" "set_stored i v' rows"] Cons.prems by auto
  have "map_of todo i = None" using Cons.prems iv by (auto simp: map_of_eq_None_iff)
  with v'(2) p have "map (\<lambda>(i, x). (i, encrypted_result lib new aad x)) rows' =
      map (\<lambda>(j, x). (j, case map_of ((i, v) # todo) j of Some v \<Rightarrow> encrypted_result lib old aad (Some v) | None \<Rightarrow> encrypted_result lib new aad x)) rows"
    unfolding m set_stored_def by (auto simp: encrypted_result_def split: option.splits)
  with r show ?case by (simp add: iv p v'(1))
qed simp

lemma map_of_not_null:
  assumes "distinct (map fst rows)" "(i, x) \<in> set rows"
  shows "map_of (not_null rows) i = x"
  using assms
proof (induction rows)
  case (Cons r rows)
  have "map_of (not_null rows) j = None" if "j \<notin> fst ` set rows" for j
    using that by (force simp: not_null_def map_of_eq_None_iff map_filter_def)
  with Cons show ?case by (cases r) (force simp: not_null_def map_filter_simps split: option.splits)
qed simp

lemma not_null_distinct: "distinct (map fst rows) \<Longrightarrow> distinct (map fst (not_null rows))"
proof (induction rows)
  case (Cons r rows)
  have "fst ` set (not_null rows) \<subseteq> fst ` set rows" by (force simp: not_null_def map_filter_def)
  with Cons show ?case by (cases r) (auto simp: not_null_def map_filter_simps split: option.splits)
qed (simp add: not_null_def map_filter_simps)

lemma rotate_column_ok:
  assumes "aead_ok lib" "\<forall>k. length (nonces k) = 12" "list_all is_scalar aad" "distinct (map fst rows)"
    "\<forall>i v. (i, Some v) \<in> set rows \<longrightarrow> readable lib old aad v"
  shows "\<exists>rows'. rotate_rows lib old new nonces aad (not_null rows) (n, rows) = Inr (n + length (not_null rows), rows') \<and>
    map (\<lambda>(i, x). (i, encrypted_result lib new aad x)) rows' = map (\<lambda>(i, x). (i, encrypted_result lib old aad x)) rows"
proof -
  have "\<forall>(i, v)\<in>set (not_null rows). readable lib old aad v" using assms(5) by (auto simp: not_null_def map_filter_def)
  from rotate_rows_ok [OF assms(1,2,3) this not_null_distinct [OF assms(4)], of new n rows] obtain rows' where
    r: "rotate_rows lib old new nonces aad (not_null rows) (n, rows) = Inr (n + length (not_null rows), rows')"
    and m: "map (\<lambda>(i, x). (i, encrypted_result lib new aad x)) rows' = map (\<lambda>(i, x). (i, case map_of (not_null rows) i of
      Some v \<Rightarrow> encrypted_result lib old aad (Some v) | None \<Rightarrow> encrypted_result lib new aad x)) rows" by auto
  have "map (\<lambda>(i, x). (i, encrypted_result lib new aad x)) rows' = map (\<lambda>(i, x). (i, encrypted_result lib old aad x)) rows"
    unfolding m using map_of_not_null [OF assms(4)] by (auto simp: encrypted_result_def split: option.split)
  with r show ?thesis by blast
qed

definition store_ok :: "aead \<Rightarrow> bytes \<Rightarrow> (column \<Rightarrow> stored_rows) \<Rightarrow> column \<Rightarrow> bool" where
  "store_ok lib key store col \<longleftrightarrow> distinct (map fst (store col)) \<and> (\<forall>i v. (i, Some v) \<in> set (store col) \<longrightarrow> readable lib key (column_aad col) v)"

lemma rotate_columns_ok:
  assumes "aead_ok lib" "\<forall>k. length (nonces k) = 12" "set cols \<subseteq> set ENCRYPTED_COLUMNS" "distinct cols"
    "\<forall>col\<in>set cols. store_ok lib old store col"
  shows "\<exists>store'. rotate_columns lib old new nonces cols (n, store) = Inr (n + sum_list (map (\<lambda>col. length (not_null (store col))) cols), store') \<and>
    (\<forall>col\<in>set cols. read_column lib new store' col = read_column lib old store col) \<and> (\<forall>col. col \<notin> set cols \<longrightarrow> store' col = store col)"
  using assms(3-5)
proof (induction cols arbitrary: n store)
  case (Cons col cols)
  from Cons.prems have "list_all is_scalar (column_aad col)" "distinct (map fst (store col))"
    "\<forall>i v. (i, Some v) \<in> set (store col) \<longrightarrow> readable lib old (column_aad col) v"
    by (auto simp: store_ok_def column_aad_scalar)
  from rotate_column_ok [OF assms(1,2) this] obtain rows' where
    r: "rotate_rows lib old new nonces (column_aad col) (not_null (store col)) (n, store col) = Inr (n + length (not_null (store col)), rows')"
    and m: "map (\<lambda>(i, x). (i, encrypted_result lib new (column_aad col) x)) rows' = map (\<lambda>(i, x). (i, encrypted_result lib old (column_aad col) x)) (store col)"
    by blast
  have same: "(store(col := rows')) c = store c" if "c \<in> set cols" for c using that Cons.prems by auto
  then have "\<forall>c\<in>set cols. store_ok lib old (store(col := rows')) c" using Cons.prems by (auto simp: store_ok_def)
  moreover have "set cols \<subseteq> set ENCRYPTED_COLUMNS" "distinct cols" using Cons.prems by auto
  ultimately obtain store' where
    i: "rotate_columns lib old new nonces cols (n + length (not_null (store col)), store(col := rows')) =
      Inr (n + length (not_null (store col)) + sum_list (map (\<lambda>c. length (not_null ((store(col := rows')) c))) cols), store')"
    "\<forall>c\<in>set cols. read_column lib new store' c = read_column lib old (store(col := rows')) c" "\<forall>c. c \<notin> set cols \<longrightarrow> store' c = (store(col := rows')) c"
    using Cons.IH [of "store(col := rows')" "n + length (not_null (store col))"] by blast
  have "map (\<lambda>c. length (not_null ((store(col := rows')) c))) cols = map (\<lambda>c. length (not_null (store c))) cols" using same by simp
  note i(1) [unfolded this]
  moreover have "read_column lib new store' col = read_column lib old store col" using i(3) [rule_format, of col] Cons.prems m by (simp add: read_column_def)
  moreover have "\<forall>c\<in>set cols. read_column lib new store' c = read_column lib old store c" using i(2) same by (simp add: read_column_def)
  ultimately show ?case using i(3) r by (intro exI [of _ store']) simp
qed simp

lemma distinct_columns: "distinct ENCRYPTED_COLUMNS"
  by (simp add: ENCRYPTED_COLUMNS_def u_def)

lemma store_loads_readable:
  assumes "store_loads lib key store d" "col \<in> set ENCRYPTED_COLUMNS" "(i, Some v) \<in> set (store col)"
  shows "readable lib key (column_aad col) v"
proof -
  have "(i, encrypted_result lib key (column_aad col) (Some v)) \<in> set (read_column lib key store col)"
    using assms(3) by (force simp: read_column_def)
  also have "\<dots> = set (map (\<lambda>(i, x). (i, Inr x)) (db_column d col))" using assms(1,2) by (simp add: store_loads_columns)
  finally show ?thesis by (auto simp: encrypted_result_def readable_def rbind_eq_Inr)
qed

lemma store_loads_ids:
  assumes "store_loads lib key store d" "col \<in> set ENCRYPTED_COLUMNS"
  shows "map fst (store col) = map fst (db_column d col)"
proof -
  have "map fst (store col) = map fst (read_column lib key store col)" by (simp add: read_column_def case_prod_beta comp_def)
  also have "\<dots> = map fst (db_column d col)" using assms by (simp add: store_loads_columns case_prod_beta comp_def)
  finally show ?thesis .
qed

text \<open>When every stored secret can be read with the old key, a rotation goes through: it counts the secrets, records the
  rotation in the audit trail, and with the new key the ORM reads exactly the database it read with the old one.\<close>

theorem rotation_keeps_secrets:
  assumes "aead_ok lib" "\<forall>k. length (nonces k) = 12" "parse_master_key material = Inr new" "new \<noteq> old" "store_loads lib old store d"
    "distinct (map au_id (admin_users d))" "distinct (map nas_id (nas_clients d))" "distinct (map tc_id (tacacs_clients d))"
  shows "\<exists>store' d'. rotate_master_key lib user old material nonces now (store, d) =
      (Inr (sum_list (map (\<lambda>col. length (not_null (store col))) ENCRYPTED_COLUMNS)), store', d') \<and>
    store_loads lib new store' d' \<and> (\<exists>row. d' = audit_add row d \<and> aud_action row = u ''system.master_key_rotated'')"
proof -
  have "distinct (map fst (db_column d col))" for col using assms(6-8) by (simp add: db_column_def comp_def)
  then have "\<forall>col\<in>set ENCRYPTED_COLUMNS. store_ok lib old store col"
    using store_loads_readable [OF assms(5)] store_loads_ids [OF assms(5)] by (auto simp: store_ok_def)
  from rotate_columns_ok [OF assms(1,2) subset_refl distinct_columns this, of new 0] obtain store' where
    r: "rotate_columns lib old new nonces ENCRYPTED_COLUMNS (0, store) =
      Inr (sum_list (map (\<lambda>col. length (not_null (store col))) ENCRYPTED_COLUMNS), store')"
    and same: "\<forall>col\<in>set ENCRYPTED_COLUMNS. read_column lib new store' col = read_column lib old store col" by auto
  have "db_column (audit_add row d) = db_column d" for row by (rule ext) (simp add: db_column_def audit_add_def)
  then have "store_loads lib new store' (audit_add row d)" for row using same assms(5) by (simp add: store_loads_columns)
  with r assms(3,4) show ?thesis by (auto simp: rotate_master_key_def ctl_audit_def)
qed

text \<open>A secret that the old key does not open stops the rotation, and nothing is changed.\<close>

lemma rotate_rows_unreadable:
  "\<exists>(i, v)\<in>set todo. \<not> readable lib old aad v \<Longrightarrow> \<exists>e. rotate_rows lib old new nonces aad todo (n, rows) = Inl e"
proof (induction todo arbitrary: n rows)
  case (Cons iv todo)
  then show ?case
    by (cases iv; cases "decrypt lib old (snd iv) aad"; cases "encrypt lib new (nonces n) (projr (decrypt lib old (snd iv) aad)) aad")
      (auto simp: readable_def)
qed simp

lemma rotate_columns_unreadable:
  assumes "\<exists>col\<in>set cols. \<exists>i v. (i, Some v) \<in> set (store col) \<and> \<not> readable lib old (column_aad col) v" "distinct cols"
  shows "\<exists>e. rotate_columns lib old new nonces cols (n, store) = Inl e"
  using assms
proof (induction cols arbitrary: n store)
  case (Cons col cols)
  show ?case
  proof (cases "rotate_rows lib old new nonces (column_aad col) (not_null (store col)) (n, store col)")
    case (Inr r)
    have "\<not> (\<exists>i v. (i, Some v) \<in> set (store col) \<and> \<not> readable lib old (column_aad col) v)"
    proof
      assume "\<exists>i v. (i, Some v) \<in> set (store col) \<and> \<not> readable lib old (column_aad col) v"
      then have "\<exists>(i, v)\<in>set (not_null (store col)). \<not> readable lib old (column_aad col) v"
        by (force simp: not_null_def map_filter_def)
      from rotate_rows_unreadable [OF this, of new nonces n "store col"] Inr show False by auto
    qed
    with Cons.prems have "\<exists>c\<in>set cols. \<exists>i v. (i, Some v) \<in> set ((store(col := snd r)) c) \<and> \<not> readable lib old (column_aad c) v"
      by (metis fun_upd_other distinct.simps(2) set_ConsD)
    then have "\<exists>e. rotate_columns lib old new nonces cols (fst r, store(col := snd r)) = Inl e"
      using Cons.prems by (intro Cons.IH) simp_all
    with Inr show ?thesis by (simp add: case_prod_beta)
  qed simp
qed simp

theorem rotation_all_or_nothing:
  assumes "col \<in> set ENCRYPTED_COLUMNS" "(i, Some v) \<in> set (store col)" "\<not> readable lib old (column_aad col) v"
  shows "\<exists>e. rotate_master_key lib user old material nonces now (store, d) = (Inl e, store, d)"
proof -
  have "\<exists>e. rotate_columns lib old new nonces ENCRYPTED_COLUMNS (0, store) = Inl e" for new
    by (rule rotate_columns_unreadable [OF _ distinct_columns]) (use assms in blast)
  then show ?thesis unfolding rotate_master_key_def prod.case by (cases "parse_master_key material") (auto, metis sum.simps(5))
qed

text \<open>A store with one client, whose secret the old key opens.\<close>

definition lab_stored :: pystr where
  "lab_stored = PREFIX @ b64encode (replicate 12 0 @ ae_encrypt lab_aead [] (replicate 12 0) (map byte (u ''s'')) (map byte (u ''nas_clients.secret'')))"

definition lab_store :: "column \<Rightarrow> stored_rows" where
  "lab_store col = (if col = (u ''nas_clients'', u ''secret'') then [(2, Some lab_stored)] else [])"

definition lab_stored_db :: db where
  "lab_stored_db = empty_db\<lparr>nas_clients := [\<lparr>nas_id = 2, nas_name = u ''ap'', nas_ip_address = [], nas_secret = u ''s'', nas_coa_port = 3799,
     nas_vendor = [], nas_require_message_authenticator = True, nas_description = [], nas_enabled = True, nas_created_at = 0, nas_updated_at = 0\<rparr>]\<rparr>"

lemma lab_store_loads: "store_loads lab_aead [] lab_store lab_stored_db"
proof -
  have e: "encrypt lab_aead [] (replicate 12 0) (u ''s'') (u ''nas_clients.secret'') = Inr lab_stored"
    by (simp add: encrypt_def lab_stored_def u_def is_surrogate_def utf8_char_def)
  have "list_all is_scalar (u ''s'')" "list_all is_scalar (u ''nas_clients.secret'')" by (simp_all add: u_def is_scalar_def is_surrogate_def)
  from encrypt_readable [OF lab_aead_ok _ this, of "replicate 12 0" "[]"] e
  have "decrypt lab_aead [] lab_stored (u ''nas_clients.secret'') = Inr (u ''s'')" by simp
  moreover have "column_aad (u ''nas_clients'', u ''secret'') = u ''nas_clients.secret''" by (simp add: column_aad_def u_def)
  ultimately have "read_column lab_aead [] lab_store (u ''nas_clients'', u ''secret'') = [(2, Inr (Some (u ''s'')))]"
    by (simp add: read_column_def lab_store_def encrypted_result_def)
  then show ?thesis
    by (simp add: store_loads_columns ENCRYPTED_COLUMNS_def read_column_def lab_store_def db_column_def lab_stored_db_def empty_db_def u_def)
qed

theorem rotation_keeps_secrets_witness:
  "\<exists>store' d'. rotate_master_key lab_aead None [] (b64encode (replicate 32 7)) (\<lambda>_. replicate 12 0) 0 (lab_store, lab_stored_db) = (Inr 1, store', d') \<and>
     store_loads lab_aead (replicate 32 7) store' d'"
proof -
  have n: "sum_list (map (\<lambda>col. length (not_null (lab_store col))) ENCRYPTED_COLUMNS) = 1"
    by (simp add: ENCRYPTED_COLUMNS_def lab_store_def not_null_def u_def map_filter_simps)
  have "\<forall>k. length ((\<lambda>_. replicate 12 0 :: bytes) (k :: nat)) = 12" "parse_master_key (b64encode (replicate 32 7)) = Inr (replicate 32 7)"
    "replicate 32 (7 :: 8 word) \<noteq> []" "distinct (map au_id (admin_users lab_stored_db))" "distinct (map nas_id (nas_clients lab_stored_db))"
    "distinct (map tc_id (tacacs_clients lab_stored_db))"
    using master_key_round_trip [of "replicate 32 7"] by (simp_all add: lab_stored_db_def empty_db_def)
  from rotation_keeps_secrets [OF lab_aead_ok this(1,2,3) lab_store_loads this(4-6), of None 0] show ?thesis unfolding n by blast
qed

section \<open>A reset signs the account out and asks for a new password\<close>

lemma row_get_self: "distinct (map key rows) \<Longrightarrow> x \<in> set rows \<Longrightarrow> row_get key rows (key x) = Some x"
  by (cases "row_get key rows (key x)") (auto simp: row_get_def find_None_iff dest: row_unique [unfolded row_get_def])

lemma resolve_without_sessions:
  assumes "\<forall>s\<in>set (admin_sessions d). as_admin_id s \<noteq> i" "resolve cfg d raw now = Inr (Some (s, admin), d')"
  shows "au_id admin \<noteq> i"
  by (rule resolve_Some [OF assms(2)]) (use assms(1) in auto)

text \<open>After a reset from the shell, exactly the printed password verifies for the account, which is enabled and must choose
  a new one before anything else; no cookie signs in as it any more, and no other account is changed.\<close>

theorem reset_password_effect:
  assumes "bcrypt_ok bc" "reset_password bc user password username now d = (Inr printed, d')" "encode_or_raise q = Inr raw"
    "distinct (map au_id (admin_users d))"
  shows "printed = password \<and>
    (\<exists>admin admin'. admin \<in> set (admin_users d) \<and> au_username admin = lower username \<and>
      row_get au_id (admin_users d') (au_id admin) = Some admin' \<and> au_enabled admin' \<and> restriction cfg admin' = Some (u ''password'') \<and>
      verify_password bc q (Some (au_password_hash admin')) = Inr (encode_or_raise password = Inr raw) \<and>
      (\<forall>i. i \<noteq> au_id admin \<longrightarrow> row_get au_id (admin_users d') i = row_get au_id (admin_users d) i) \<and>
      (\<forall>cookie t s a d''. resolve cfg d' cookie t = Inr (Some (s, a), d'') \<longrightarrow> au_id a \<noteq> au_id admin))"
proof -
  from assms(2) obtain admin h where f: "find (\<lambda>a. au_username a = lower username) (admin_users d) = Some admin"
    and h: "hash_password bc password = Inr h" and printed: "printed = password"
    and d': "d' = ctl_audit user (revoke_all (au_id admin) None (set_admin (au_id admin)
      (\<lambda>x. x\<lparr>au_password_hash := h, au_must_change_password := True, au_enabled := True\<rparr>) now d)) (u ''admin.password_reset'') (au_username admin) [] now"
    by (auto simp: reset_password_def Let_def split: option.splits sum.splits)
  have a: "admin \<in> set (admin_users d)" "au_username admin = lower username" using f by (auto simp: find_Some_iff)
  then have row: "row_get au_id (admin_users d) (au_id admin) = Some admin" using assms(4) by (simp add: row_get_self)
  have get: "row_get au_id (admin_users d') i = (if i = au_id admin then map_option (\<lambda>x. x\<lparr>au_password_hash := h, au_must_change_password := True,
      au_enabled := True, au_updated_at := now\<rparr>) (row_get au_id (admin_users d) i) else row_get au_id (admin_users d) i)" for i
    by (simp add: d' ctl_audit_def audit_add_def revoke_all_def set_admin_def row_get_update)
  have "\<forall>s\<in>set (admin_sessions d'). as_admin_id s \<noteq> au_id admin" by (simp add: d' ctl_audit_def audit_add_def revoke_all_def)
  with resolve_without_sessions have "\<forall>cookie t s x d''. resolve cfg d' cookie t = Inr (Some (s, x), d'') \<longrightarrow> au_id x \<noteq> au_id admin" by blast
  with a get row verify_new [OF assms(1) h assms(3)] show ?thesis by (intro conjI printed exI [of _ admin] exI) (auto simp: restriction_def)
qed

theorem reset_password_effect_witness:
  "\<exists>d'. reset_password hex_bcrypt None (u ''fresh-password'') (u ''Alice'') 0 (lab_admin_db (lab_admin\<lparr>au_username := u ''alice''\<rparr>)) = (Inr (u ''fresh-password''), d') \<and>
     (\<exists>a. verify_password hex_bcrypt (u ''fresh-password'') (Some (au_password_hash a)) = Inr True \<and> row_get au_id (admin_users d') 7 = Some a)"
proof -
  let ?d = "lab_admin_db (lab_admin\<lparr>au_username := u ''alice''\<rparr>)"
  have enc: "encode_or_raise (u ''fresh-password'') = Inr (map byte (u ''fresh-password''))"
    by (simp add: encode_or_raise_def is_surrogate_def utf8_char_def u_def)
  have users: "admin_users ?d = [lab_admin\<lparr>au_username := u ''alice''\<rparr>]" "au_id lab_admin = 7" by (simp_all add: lab_admin_db_def lab_admin_def)
  obtain h where h: "hash_password hex_bcrypt (u ''fresh-password'') = Inr h" by (simp add: hash_password_def enc MAX_BYTES_def)
  have "lower (u ''Alice'') = u ''alice''" by (simp add: u_def lower_def lower_char_def)
  then obtain d' where r: "reset_password hex_bcrypt None (u ''fresh-password'') (u ''Alice'') 0 ?d = (Inr (u ''fresh-password''), d')"
    by (simp add: reset_password_def users h Let_def)
  have "distinct (map au_id (admin_users ?d))" by (simp add: users)
  from reset_password_effect [OF hex_bcrypt_ok r enc this, of lab_security] r show ?thesis by (auto simp: users enc)
qed

end
