(* ===== verification/PoliciesApi.thy ===== *)
theory PoliciesApi
  imports AdminAuth ServiceSafety "HOL-Library.Multiset"
begin

text \<open>
  Access policies, their order and the simulator: \<open>naco/api/routes/policies.py\<close>.  The RADIUS dictionary that
  knows the attribute names is a parameter, as in the theory of reply attributes.  Bodies that do not validate
  are answered 422, without the texts of pydantic.
\<close>

section \<open>Policies\<close>

record PolicyIn =
  pi_name :: pystr
  pi_description :: pystr
  pi_priority :: int
  pi_enabled :: bool
  pi_conditions :: json
  pi_action :: PolicyAction
  pi_vlan :: "int option"
  pi_reply_attributes :: json

text \<open>A field that was not sent and a field sent as \<open>null\<close> are the same here, except for the VLAN.\<close>

record PolicyUpdate =
  pu_name :: "pystr option"
  pu_description :: "pystr option"
  pu_priority :: "int option"
  pu_enabled :: "bool option"
  pu_conditions :: "json option"
  pu_action :: "PolicyAction option"
  pu_vlan :: "int option option"
  pu_reply_attributes :: "json option"

record PolicyOut =
  po_id :: nat
  po_name :: pystr
  po_description :: pystr
  po_priority :: int
  po_enabled :: bool
  po_conditions :: json
  po_action :: PolicyAction
  po_vlan :: "int option"
  po_reply_attributes :: json
  po_updated_at :: int

definition conditions_field :: "json \<Rightarrow> json option" where
  "conditions_field v = (case v of JArr _ \<Rightarrow> map_option dump_conditions (parse_conditions v) | _ \<Rightarrow> None)"

definition attributes_field :: "radius_dictionary \<Rightarrow> json \<Rightarrow> json option" where
  "attributes_field dict v =
     (case v of
        JObj _ \<Rightarrow> (case validate_reply_attributes (Some dict) v of Inl _ \<Rightarrow> None | Inr attrs \<Rightarrow> Some (JObj attrs))
      | _ \<Rightarrow> None)"

definition deny_with_reply :: "PolicyAction \<Rightarrow> int option \<Rightarrow> json \<Rightarrow> bool" where
  "deny_with_reply action vlan attrs \<longleftrightarrow> action = DENY \<and> (vlan \<noteq> None \<or> \<not> falsy attrs)"

definition within :: "int \<Rightarrow> int \<Rightarrow> int option \<Rightarrow> bool" where
  "within lo hi v = (case v of None \<Rightarrow> True | Some n \<Rightarrow> lo \<le> n \<and> n \<le> hi)"

definition PolicyIn_body :: "radius_dictionary \<Rightarrow> PolicyIn \<Rightarrow> PolicyIn option" where
  "PolicyIn_body dict b =
     (if \<not> (1 \<le> length (pi_name b) \<and> length (pi_name b) \<le> 128 \<and> length (pi_description b) \<le> 512 \<and>
            1 \<le> pi_priority b \<and> pi_priority b \<le> 9999 \<and> within 1 4094 (pi_vlan b)) then None
      else
        (case (conditions_field (pi_conditions b), attributes_field dict (pi_reply_attributes b)) of
           (Some cs, Some attrs) \<Rightarrow>
             if deny_with_reply (pi_action b) (pi_vlan b) attrs then None
             else Some (b\<lparr>pi_conditions := cs, pi_reply_attributes := attrs\<rparr>)
         | _ \<Rightarrow> None))"

text \<open>A validator on an optional field.\<close>

definition opt_field :: "('a \<Rightarrow> 'b option) \<Rightarrow> 'a option \<Rightarrow> 'b option option" where
  "opt_field f v = (case v of None \<Rightarrow> Some None | Some x \<Rightarrow> map_option Some (f x))"

definition PolicyUpdate_body :: "radius_dictionary \<Rightarrow> PolicyUpdate \<Rightarrow> PolicyUpdate option" where
  "PolicyUpdate_body dict b =
     (if \<not> ((case pu_name b of None \<Rightarrow> True | Some s \<Rightarrow> 1 \<le> length s \<and> length s \<le> 128) \<and>
            (case pu_description b of None \<Rightarrow> True | Some s \<Rightarrow> length s \<le> 512) \<and> within 1 9999 (pu_priority b) \<and>
            (case pu_vlan b of None \<Rightarrow> True | Some v \<Rightarrow> within 1 4094 v)) then None
      else
        (case (opt_field conditions_field (pu_conditions b), opt_field (attributes_field dict) (pu_reply_attributes b)) of
           (Some cs, Some attrs) \<Rightarrow> Some (b\<lparr>pu_conditions := cs, pu_reply_attributes := attrs\<rparr>)
         | _ \<Rightarrow> None))"

definition policy_out :: "Policy \<Rightarrow> PolicyOut" where
  "policy_out p =
     \<lparr>po_id = pol_id p, po_name = pol_name p, po_description = pol_description p, po_priority = pol_priority p,
      po_enabled = pol_enabled p, po_conditions = pol_conditions p, po_action = pol_action p, po_vlan = pol_vlan p,
      po_reply_attributes = (if falsy (pol_reply_attributes p) then JObj [] else pol_reply_attributes p), po_updated_at = pol_updated_at p\<rparr>"

definition policy_snapshot :: "Policy \<Rightarrow> (pystr \<times> json) list" where
  "policy_snapshot p =
     [(u ''name'', JStr (pol_name p)), (u ''description'', JStr (pol_description p)), (u ''priority'', JInt (pol_priority p)),
      (u ''enabled'', JBool (pol_enabled p)), (u ''conditions'', pol_conditions p), (u ''action'', JStr (PolicyAction_value (pol_action p))),
      (u ''vlan'', case pol_vlan p of None \<Rightarrow> JNull | Some v \<Rightarrow> JInt v), (u ''reply_attributes'', pol_reply_attributes p)]"

definition list_policies :: "db \<Rightarrow> PolicyOut list" where
  "list_policies d = map policy_out (sort_key policy_order (policies d))"

definition get_policy :: "nat \<Rightarrow> db \<Rightarrow> api_exc + PolicyOut" where
  "get_policy i d = rbind (get_or_404 pol_id (policies d) i (u ''policy'')) (\<lambda>p. Inr (policy_out p))"

definition create_policy :: "PolicyIn \<Rightarrow> int \<Rightarrow> Principal \<Rightarrow> api_state \<Rightarrow> PolicyOut route" where
  "create_policy body now p st =
     (let d = ap_db st in
      if pi_name body \<in> set (map pol_name (policies d)) then
        (Inl (api_error 409 (u ''a policy named '' @ pi_name body @ u '' already exists'')), st)
      else
        (let pol = \<lparr>pol_id = next_id pol_id (policies d), pol_name = pi_name body, pol_description = pi_description body,
                    pol_priority = pi_priority body, pol_enabled = pi_enabled body, pol_conditions = pi_conditions body,
                    pol_action = pi_action body, pol_vlan = pi_vlan body, pol_reply_attributes = pi_reply_attributes body,
                    pol_created_at = now, pol_updated_at = now\<rparr>;
             d = d\<lparr>policies := policies d @ [pol]\<rparr>
         in (Inr (policy_out pol),
             reevaluate_later (u ''policy '' @ pol_name pol @ u '' created'')
               (commit_with (trail_row p d (u ''policy.create'') (u ''policy'') (dec (pol_id pol)) (pol_name pol) (policy_snapshot pol) now) d st))))"

definition policy_changed :: "PolicyUpdate \<Rightarrow> Policy \<Rightarrow> Policy" where
  "policy_changed b p =
     p\<lparr>pol_name := (case pu_name b of None \<Rightarrow> pol_name p | Some v \<Rightarrow> v),
       pol_description := (case pu_description b of None \<Rightarrow> pol_description p | Some v \<Rightarrow> v),
       pol_priority := (case pu_priority b of None \<Rightarrow> pol_priority p | Some v \<Rightarrow> v),
       pol_enabled := (case pu_enabled b of None \<Rightarrow> pol_enabled p | Some v \<Rightarrow> v),
       pol_conditions := (case pu_conditions b of None \<Rightarrow> pol_conditions p | Some v \<Rightarrow> v),
       pol_action := (case pu_action b of None \<Rightarrow> pol_action p | Some v \<Rightarrow> v),
       pol_vlan := (case pu_vlan b of None \<Rightarrow> pol_vlan p | Some v \<Rightarrow> v),
       pol_reply_attributes := (case pu_reply_attributes b of None \<Rightarrow> pol_reply_attributes p | Some v \<Rightarrow> v)\<rparr>"

definition patch_policy :: "nat \<Rightarrow> PolicyUpdate \<Rightarrow> int \<Rightarrow> Principal \<Rightarrow> api_state \<Rightarrow> PolicyOut route" where
  "patch_policy i body now p st =
     (let d = ap_db st in
      case get_or_404 pol_id (policies d) i (u ''policy'') of
        Inl e \<Rightarrow> (Inl e, st)
      | Inr old \<Rightarrow>
          (let new = policy_changed body old; new = (if new = old then old else new\<lparr>pol_updated_at := now\<rparr>) in
           if deny_with_reply (pol_action new) (pol_vlan new) (pol_reply_attributes new) then
             (Inl (api_error 422 (u ''a DENY policy cannot assign a VLAN or attributes'')), st)
           else if pol_name new \<in> set (map pol_name (filter (\<lambda>q. pol_id q \<noteq> i) (policies d))) then
             (Inl (api_error 409 (u ''a policy with that name already exists'')), st)
           else
             (let d = d\<lparr>policies := row_update pol_id i (\<lambda>_. new) (policies d)\<rparr>
              in (Inr (policy_out new),
                  reevaluate_later (u ''policy '' @ pol_name new @ u '' changed'')
                    (commit_with (trail_row p d (u ''policy.update'') (u ''policy'') (dec i) (pol_name new)
                       (diff (policy_snapshot old) (policy_snapshot new) []) now) d st)))))"

definition delete_policy :: "nat \<Rightarrow> int \<Rightarrow> Principal \<Rightarrow> api_state \<Rightarrow> unit route" where
  "delete_policy i now p st =
     (let d = ap_db st in
      case get_or_404 pol_id (policies d) i (u ''policy'') of
        Inl e \<Rightarrow> (Inl e, st)
      | Inr pol \<Rightarrow>
          (let d = d\<lparr>policies := row_delete pol_id i (policies d)\<rparr>
           in (Inr (), reevaluate_later (u ''policy '' @ pol_name pol @ u '' deleted'')
                (commit_with (trail_row p d (u ''policy.delete'') (u ''policy'') (dec i) (pol_name pol) (policy_snapshot pol) now) d st))))"

section \<open>Order\<close>

definition set_priority :: "int \<Rightarrow> int \<Rightarrow> Policy \<Rightarrow> Policy" where
  "set_priority now v p = (if pol_priority p = v then p else p\<lparr>pol_priority := v, pol_updated_at := now\<rparr>)"

fun assign_priorities :: "int \<Rightarrow> nat \<Rightarrow> int list \<Rightarrow> Policy list \<Rightarrow> Policy list" where
  "assign_priorities now k [] rows = rows"
| "assign_priorities now k (ident # rest) rows =
     assign_priorities now (Suc k) rest
       (map (\<lambda>p. if int (pol_id p) = ident then set_priority now ((int k + 1) * 10) p else p) rows)"

definition by_ids :: "int list \<Rightarrow> Policy list \<Rightarrow> Policy list" where
  "by_ids ids rows = concat (map (\<lambda>i. filter (\<lambda>p. int (pol_id p) = i) rows) ids)"

definition reorder :: "int list \<Rightarrow> int \<Rightarrow> Principal \<Rightarrow> api_state \<Rightarrow> PolicyOut list route" where
  "reorder ids now p st =
     (let d = ap_db st in
      if sort ids \<noteq> sort (map (int \<circ> pol_id) (policies d)) \<or> \<not> distinct ids then
        (Inl (api_error 422 (u ''send every policy id exactly once, in the new order'')), st)
      else
        (let d = d\<lparr>policies := assign_priorities now 0 ids (policies d)\<rparr>;
             rows = by_ids ids (policies d)
         in (Inr (map policy_out rows),
             reevaluate_later (u ''policy order changed'')
               (commit_with (trail_row p d (u ''policy.reorder'') (u ''policy'') [] []
                  [(u ''order'', JArr (map (JStr \<circ> pol_name) rows))] now) d st))))"

section \<open>The simulator\<close>

record SimulateIn =
  si_auth_method :: pystr
  si_username :: pystr
  si_mac :: pystr
  si_nas :: pystr
  si_ssid :: pystr
  si_at :: "int option"

record SimulateOut =
  so_decision :: Decision
  so_context :: "AuthContext option"
  so_trace :: "PolicyTrace list"

definition simulated_subject :: "db \<Rightarrow> SimulateIn \<Rightarrow> pystr option \<Rightarrow> pystr \<Rightarrow> int \<Rightarrow> Decision + AuthContext" where
  "simulated_subject d body mac username now =
     (let found = (if username = [] then None else load_user d username);
          device = (case mac of None \<Rightarrow> None | Some m \<Rightarrow> find (\<lambda>v. dev_mac_address v = m) (devices d));
          nas = (if si_nas body = [] then None else find (\<lambda>n. nas_name n = si_nas body) (nas_clients d))
      in subject_context (si_auth_method body) username (map_option fst found) mac device
           (case mac of None \<Rightarrow> False | Some m \<Rightarrow> guest_active d m now)
           (case nas of Some n \<Rightarrow> nas_name n | None \<Rightarrow> si_nas body) (case nas of Some n \<Rightarrow> nas_ip_address n | None \<Rightarrow> [])
           (none_if_empty (si_ssid body)) now)"

definition simulated :: "zone \<Rightarrow> CompiledPolicy list \<Rightarrow> Decision + AuthContext \<Rightarrow> py_exc + SimulateOut" where
  "simulated tz ps subject =
     (case subject of
        Inl dcn \<Rightarrow> Inr \<lparr>so_decision = dcn, so_context = None, so_trace = []\<rparr>
      | Inr ctx \<Rightarrow>
          rbind (explain ps ctx tz) (\<lambda>traces.
          rbind (decide ps ctx tz) (\<lambda>dcn. Inr \<lparr>so_decision = dcn, so_context = Some ctx, so_trace = traces\<rparr>)))"

text \<open>A policy set that does not load is answered 409 with the name of the policy in the message; only the name
  is kept here.\<close>

definition simulate :: "zone \<Rightarrow> SimulateIn \<Rightarrow> int \<Rightarrow> db \<Rightarrow> api_exc + SimulateOut" where
  "simulate tz body clock d =
     (let now = (case si_at body of None \<Rightarrow> clock | Some t \<Rightarrow> t);
          mac = (if si_mac body = [] then None else normalize_mac (Some (si_mac body)));
          username = (if si_auth_method body \<noteq> u ''MAB'' then canonical_username (Some (si_username body)) else [])
      in if si_auth_method body \<notin> set AUTH_METHODS then Inl (api_error 422 (u ''invalid request''))
         else if si_mac body \<noteq> [] \<and> mac = None then Inl (api_error 422 (u ''not a MAC address''))
         else
           (case load_policies d of
              Inl message \<Rightarrow> Inl (api_error 409 message)
            | Inr ps \<Rightarrow>
                (case simulated tz ps (simulated_subject d body mac username now) of Inl e \<Rightarrow> Inl (PyRaised e) | Inr out \<Rightarrow> Inr out)))"

section \<open>Stored policies always load\<close>

datatype policy_request = Create_Policy PolicyIn | Patch_Policy nat PolicyUpdate | Delete_Policy nat | Reorder_Policies "int list"

text \<open>The state after a request to one of the routes that change policies.\<close>

fun serve_policy :: "radius_dictionary \<Rightarrow> int \<Rightarrow> Principal \<Rightarrow> policy_request \<Rightarrow> api_state \<Rightarrow> api_state" where
  "serve_policy dict now p (Create_Policy b) st =
     (case PolicyIn_body dict b of None \<Rightarrow> st | Some b' \<Rightarrow> snd (create_policy b' now p st))"
| "serve_policy dict now p (Patch_Policy i b) st =
     (case PolicyUpdate_body dict b of None \<Rightarrow> st | Some b' \<Rightarrow> snd (patch_policy i b' now p st))"
| "serve_policy dict now p (Delete_Policy i) st = snd (delete_policy i now p st)"
| "serve_policy dict now p (Reorder_Policies ids) st = snd (reorder ids now p st)"

definition loadable :: "Policy \<Rightarrow> bool" where
  "loadable p \<longleftrightarrow> parse_conditions (pol_conditions p) \<noteq> None \<and> (\<exists>attrs. validate_reply_attributes None (pol_reply_attributes p) = Inr attrs)"

lemma loadable_compiles: "loadable p \<longleftrightarrow> (\<exists>c. compile_policy p = Inr c)"
  by (auto simp: loadable_def compile_policy_def split: sum.splits option.splits)

lemma conditions_field_parses: "conditions_field v = Some cs \<Longrightarrow> parse_conditions cs \<noteq> None"
  by (auto simp: conditions_field_def parse_dump_good dest: parse_conditions_good split: json.splits)

lemma attributes_field_validates:
  "dictionary_ok (Some dict) \<Longrightarrow> attributes_field dict v = Some attrs \<Longrightarrow> \<exists>out. validate_reply_attributes None attrs = Inr out"
  by (auto simp: attributes_field_def dest!: validate_safe validate_fix split: json.splits sum.splits)

lemma PolicyIn_body_fields:
  assumes "PolicyIn_body dict b = Some b'" "dictionary_ok (Some dict)"
  shows "parse_conditions (pi_conditions b') \<noteq> None" "\<exists>out. validate_reply_attributes None (pi_reply_attributes b') = Inr out"
  using assms conditions_field_parses attributes_field_validates
  by (auto simp: PolicyIn_body_def split: if_splits option.splits)

lemma opt_field_Some: "opt_field f v = Some w \<Longrightarrow> w = Some y \<Longrightarrow> \<exists>x. f x = Some y"
  by (auto simp: opt_field_def split: option.splits)

lemma PolicyUpdate_body_fields:
  assumes "PolicyUpdate_body dict b = Some b'" "dictionary_ok (Some dict)"
  shows "pu_conditions b' = Some cs \<Longrightarrow> parse_conditions cs \<noteq> None"
    "pu_reply_attributes b' = Some attrs \<Longrightarrow> \<exists>out. validate_reply_attributes None attrs = Inr out"
proof -
  from assms obtain c a where ca: "opt_field conditions_field (pu_conditions b) = Some c" "opt_field (attributes_field dict) (pu_reply_attributes b) = Some a"
    "b' = b\<lparr>pu_conditions := c, pu_reply_attributes := a\<rparr>"
    by (auto simp: PolicyUpdate_body_def split: if_splits option.splits)
  show "pu_conditions b' = Some cs \<Longrightarrow> parse_conditions cs \<noteq> None"
    using ca opt_field_Some [OF ca(1)] conditions_field_parses by auto
  show "pu_reply_attributes b' = Some attrs \<Longrightarrow> \<exists>out. validate_reply_attributes None attrs = Inr out"
    using ca opt_field_Some [OF ca(2)] attributes_field_validates [OF assms(2)] by auto
qed

lemma loadable_changed:
  assumes "loadable p" "\<And>cs. pu_conditions b = Some cs \<Longrightarrow> parse_conditions cs \<noteq> None"
    "\<And>attrs. pu_reply_attributes b = Some attrs \<Longrightarrow> \<exists>out. validate_reply_attributes None attrs = Inr out"
  shows "loadable (policy_changed b p)"
  using assms by (auto simp: loadable_def policy_changed_def split: option.splits)

lemma loadable_irrelevant [simp]: "loadable (p\<lparr>pol_updated_at := t\<rparr>) = loadable p" "loadable (set_priority now v p) = loadable p"
  by (auto simp: loadable_def set_priority_def)

lemma loadable_assign: "\<forall>p\<in>set rows. loadable p \<Longrightarrow> \<forall>p\<in>set (assign_priorities now k ids rows). loadable p"
proof (induction ids arbitrary: k rows)
  case (Cons i ids)
  show ?case unfolding assign_priorities.simps by (rule Cons.IH) (use Cons.prems in auto)
qed simp

lemma policies_commit [simp]: "policies (ap_db (commit_with row d st)) = policies d" "ap_db (reevaluate_later r st) = ap_db st"
  by (simp_all add: commit_with_def audit_add_def reevaluate_later_def)

lemma patch_policy_policies:
  assumes "policies (ap_db (snd (patch_policy i b now p st))) \<noteq> policies (ap_db st)"
  obtains old new where "old \<in> set (policies (ap_db st))" "new = policy_changed b old \<or> new = (policy_changed b old)\<lparr>pol_updated_at := now\<rparr>"
    "policies (ap_db (snd (patch_policy i b now p st))) = row_update pol_id i (\<lambda>_. new) (policies (ap_db st))"
proof (cases "row_get pol_id (policies (ap_db st)) i")
  case None
  with assms show ?thesis by (simp add: patch_policy_def get_or_404_def)
next
  case (Some old)
  define new where "new = (if policy_changed b old = old then old else (policy_changed b old)\<lparr>pol_updated_at := now\<rparr>)"
  have "policies (ap_db (snd (patch_policy i b now p st))) = row_update pol_id i (\<lambda>_. new) (policies (ap_db st))"
    using assms by (auto simp: patch_policy_def get_or_404_def Some Let_def new_def split: if_splits)
  moreover have "new = policy_changed b old \<or> new = (policy_changed b old)\<lparr>pol_updated_at := now\<rparr>" by (auto simp: new_def)
  ultimately show ?thesis using that row_get_Some [OF Some] by blast
qed

text \<open>C10. Whatever is sent to the policy routes, the stored policies stay such that the engine can load all of
  them: one policy that did not load would deny every request.\<close>

theorem policy_routes_keep_loadable:
  assumes "dictionary_ok (Some dict)" "\<forall>pol\<in>set (policies (ap_db st)). \<exists>c. compile_policy pol = Inr c"
  shows "(\<forall>pol\<in>set (policies (ap_db (serve_policy dict now p r st))). \<exists>c. compile_policy pol = Inr c) \<and>
    (\<exists>ps. load_policies (ap_db (serve_policy dict now p r st)) = Inr ps)"
proof -
  have before: "\<forall>pol\<in>set (policies (ap_db st)). loadable pol" using assms(2) by (simp add: loadable_compiles)
  have after: "\<forall>pol\<in>set (policies (ap_db (serve_policy dict now p r st))). loadable pol"
  proof (cases r)
    case (Create_Policy b)
    with before PolicyIn_body_fields [OF _ assms(1), of b] show ?thesis
      by (auto simp: create_policy_def Let_def loadable_def split: option.splits)
  next
    case (Patch_Policy i b)
    show ?thesis
    proof (cases "policies (ap_db (serve_policy dict now p r st)) = policies (ap_db st)")
      case False
      with Patch_Policy obtain b' where b': "PolicyUpdate_body dict b = Some b'"
        "policies (ap_db (snd (patch_policy i b' now p st))) \<noteq> policies (ap_db st)" by (auto split: option.splits)
      from patch_policy_policies [OF b'(2)] obtain old new where o: "old \<in> set (policies (ap_db st))"
        "new = policy_changed b' old \<or> new = (policy_changed b' old)\<lparr>pol_updated_at := now\<rparr>"
        "policies (ap_db (snd (patch_policy i b' now p st))) = row_update pol_id i (\<lambda>_. new) (policies (ap_db st))" by blast
      have "loadable (policy_changed b' old)"
        using o(1) before PolicyUpdate_body_fields [OF b'(1) assms(1)] by (intro loadable_changed) auto
      with o(2) have "loadable new" by auto
      with o(3) before Patch_Policy b'(1) show ?thesis by (auto dest!: in_row_update)
    qed (use before in simp)
  next
    case (Delete_Policy i)
    with before show ?thesis by (auto simp: delete_policy_def Let_def split: sum.splits)
  next
    case (Reorder_Policies ids)
    with before loadable_assign [OF before] show ?thesis by (auto simp: reorder_def Let_def)
  qed
  have "\<exists>ps. rmap compile_policy rows = Inr ps" if "\<forall>pol\<in>set rows. loadable pol" for rows
    using that by (induction rows) (auto simp: loadable_compiles)
  with after show ?thesis by (simp add: loadable_compiles load_policies_def policy_rows_set)
qed


definition lab_superuser :: Principal where
  "lab_superuser = \<lparr>pr_kind = Token_Kind, pr_username = u ''token:ci'', pr_role = SUPERUSER, pr_admin_id = None, pr_session_id = None,
     pr_token_id = Some 1, pr_csrf_token = [], pr_restricted = None, pr_ip = []\<rparr>"

definition lab_policy :: "nat \<Rightarrow> int \<Rightarrow> Policy" where
  "lab_policy i prio = \<lparr>pol_id = i, pol_name = dec i, pol_description = [], pol_priority = prio, pol_enabled = True,
     pol_conditions = JArr [JObj [(u ''type'', JStr (u ''device_status'')), (u ''value'', JArr [JStr (u ''pending'')])]],
     pol_action = PERMIT, pol_vlan = Some 20, pol_reply_attributes = JObj [], pol_created_at = 0, pol_updated_at = 0\<rparr>"

definition lab_policies :: "Policy list \<Rightarrow> api_state" where
  "lab_policies ps = \<lparr>ap_db = empty_db\<lparr>policies := ps\<rparr>, ap_guesses = GuessGuard_default 3, ap_per_ip = None, ap_reeval = Reevaluator_init,
     ap_announced = []\<rparr>"

definition lab_policy_body :: PolicyIn where
  "lab_policy_body = \<lparr>pi_name = u ''all'', pi_description = [], pi_priority = 10, pi_enabled = True,
     pi_conditions = JArr [JObj [(u ''type'', JStr (u ''always''))]], pi_action = PERMIT, pi_vlan = Some 20, pi_reply_attributes = JObj []\<rparr>"

lemma lab_parse: "parse_conditions (pol_conditions (lab_policy i prio)) = Some [DeviceStatusCond [u ''pending'']]"
  by (simp add: lab_policy_def parse_conditions_def MAX_CONDITIONS_def od_get_def only_keys_def parse_literals_def op_default_def json_literals_def DEVICE_STATES_def)

lemma lab_compile: "\<exists>c. compile_policy (lab_policy i prio) = Inr c"
proof -
  have "validate_reply_attributes None (pol_reply_attributes (lab_policy i prio)) = Inr []"
    by (simp add: lab_policy_def validate_reply_attributes_def falsy_def)
  then show ?thesis by (simp add: compile_policy_def lab_parse)
qed

theorem policy_routes_keep_loadable_witness:
  "policies (ap_db (serve_policy Map.empty 0 lab_superuser (Create_Policy lab_policy_body) (lab_policies [lab_policy 1 10]))) \<noteq> [] \<and>
   (\<exists>ps. load_policies (ap_db (serve_policy Map.empty 0 lab_superuser (Create_Policy lab_policy_body) (lab_policies [lab_policy 1 10]))) = Inr ps)"
proof -
  have "\<forall>pol\<in>set (policies (ap_db (lab_policies [lab_policy 1 10]))). \<exists>c. compile_policy pol = Inr c"
    using lab_compile by (simp add: lab_policies_def)
  moreover have "dictionary_ok (Some Map.empty)" by (simp add: dictionary_ok_def)
  moreover have "policies (ap_db (serve_policy Map.empty 0 lab_superuser (Create_Policy lab_policy_body) (lab_policies [lab_policy 1 10]))) \<noteq> []"
    by (simp add: create_policy_def Let_def lab_policies_def split: option.split)
  ultimately show ?thesis using policy_routes_keep_loadable by blast
qed

section \<open>Reordering\<close>

lemma map_id_assign: "map pol_id (assign_priorities now k ids rows) = map pol_id rows"
proof (induction ids arbitrary: k rows)
  case (Cons i ids)
  then show ?case by (auto simp: set_priority_def comp_def)
qed simp

lemma assign_untouched:
  "int (pol_id q) \<notin> set ids \<Longrightarrow> q \<in> set (assign_priorities now k ids rows) \<Longrightarrow> q \<in> set rows"
proof (induction ids arbitrary: k rows)
  case (Cons i ids)
  have "q \<in> set (map (\<lambda>p. if int (pol_id p) = i then set_priority now ((int k + 1) * 10) p else p) rows)"
  proof (rule Cons.IH)
    show "int (pol_id q) \<notin> set ids" using Cons.prems(1) by simp
    show "q \<in> set (assign_priorities now (Suc k) ids (map (\<lambda>p. if int (pol_id p) = i then set_priority now ((int k + 1) * 10) p else p) rows))"
      using Cons.prems(2) by (simp only: assign_priorities.simps)
  qed
  then obtain p where "p \<in> set rows" "q = (if int (pol_id p) = i then set_priority now ((int k + 1) * 10) p else p)" by auto
  with Cons.prems(1) show ?case by (auto simp: set_priority_def split: if_splits)
qed simp

lemma assign_priority:
  "distinct ids \<Longrightarrow> j < length ids \<Longrightarrow> int (pol_id q) = ids ! j \<Longrightarrow> q \<in> set (assign_priorities now k ids rows) \<Longrightarrow>
     pol_priority q = (int k + int j + 1) * 10"
proof (induction ids arbitrary: k j rows)
  case (Cons i ids)
  define rs where "rs = map (\<lambda>p. if int (pol_id p) = i then set_priority now ((int k + 1) * 10) p else p) rows"
  have q: "q \<in> set (assign_priorities now (Suc k) ids rs)" using Cons.prems(4) by (simp only: assign_priorities.simps rs_def)
  show ?case
  proof (cases j)
    case 0
    then have "int (pol_id q) \<notin> set ids" "int (pol_id q) = i" using Cons.prems by auto
    with assign_untouched [OF _ q] obtain p where p: "p \<in> set rows" "q = (if int (pol_id p) = i then set_priority now ((int k + 1) * 10) p else p)"
      by (auto simp: rs_def)
    then have "q = set_priority now ((int k + 1) * 10) p" using \<open>int (pol_id q) = i\<close> by (auto split: if_splits)
    then show ?thesis using 0 by (simp add: set_priority_def)
  next
    case (Suc j')
    have "pol_priority q = (int (Suc k) + int j' + 1) * 10"
      by (rule Cons.IH [OF _ _ _ q]) (use Cons.prems Suc in auto)
    with Suc show ?thesis by simp
  qed
qed simp

lemma map_enabled_assign: "map (\<lambda>q. (pol_id q, pol_enabled q)) (assign_priorities now k ids rows) = map (\<lambda>q. (pol_id q, pol_enabled q)) rows"
proof (induction ids arbitrary: k rows)
  case (Cons i ids)
  then show ?case by (auto simp: set_priority_def comp_def)
qed simp

lemma sorted_priorities: "sorted (map policy_order xs) \<Longrightarrow> sorted (map pol_priority xs)"
  by (induction xs) (auto simp: policy_order_def less_eq_prod_def)

lemma assigned_order:
  assumes "distinct ids" "mset ids = mset (map (int \<circ> pol_id) rows)"
  shows "map (int \<circ> pol_id) (sort_key policy_order (assign_priorities now 0 ids rows)) = ids"
proof -
  define A where "A = sort_key policy_order (assign_priorities now 0 ids rows)"
  define pos where "pos q = nat (pol_priority q div 10 - 1)" for q :: Policy
  have ids: "mset (map (int \<circ> pol_id) A) = mset ids"
    using assms(2) arg_cong [OF map_id_assign [of now 0 ids rows], of mset] by (simp add: A_def flip: image_mset.compositionality)
  have pos: "pos q < length ids \<and> ids ! pos q = int (pol_id q)" if "q \<in> set A" for q
  proof -
    have "int (pol_id q) \<in> set ids" using that ids by (metis comp_apply image_eqI mset_eq_setD list.set_map)
    then obtain j where j: "j < length ids" "ids ! j = int (pol_id q)" by (auto simp: in_set_conv_nth)
    with assign_priority [OF assms(1) j(1), of q now 0 rows] that have "pos q = j" by (simp add: A_def pos_def)
    with j show ?thesis by simp
  qed
  have mono: "pos q \<le> pos r" if "pol_priority q \<le> pol_priority r" for q r :: Policy
    using zdiv_mono1 [OF that, of 10] by (simp add: pos_def)
  have "sorted (map pol_priority A)" by (rule sorted_priorities) (simp add: A_def)
  then have "sorted (map pos A)" using mono by (simp add: sorted_wrt_map sorted_wrt_mono_rel [of A "\<lambda>q r. pol_priority q \<le> pol_priority r"])
  moreover have eq: "map (int \<circ> pol_id) A = map ((!) ids) (map pos A)" using pos by simp
  moreover have "distinct (map pos A)"
  proof -
    have "distinct (map (int \<circ> pol_id) A)" using assms(1) ids by (metis mset_eq_imp_distinct_iff)
    then show ?thesis unfolding eq by (simp only: distinct_map)
  qed
  moreover have "set (map pos A) = {0..<length ids}"
  proof (rule card_subset_eq)
    have "length A = length ids" using ids by (metis length_map mset_eq_length)
    then show "card (set (map pos A)) = card {0..<length ids}" using \<open>distinct (map pos A)\<close> by (simp add: distinct_card del: set_map)
  qed (use pos in auto)
  ultimately have "map pos A = [0..<length ids]" by (intro sorted_distinct_set_unique) auto
  with eq have "map (int \<circ> pol_id) A = ids" by (simp only: map_nth)
  then show ?thesis by (simp only: A_def)
qed

text \<open>A successful reordering puts the policies in exactly the order sent, and the engine then tries the
  enabled ones in that order.\<close>

theorem reorder_sets_order:
  assumes "reorder ids now p st = (Inr out, st')"
  shows "map (int \<circ> po_id) (list_policies (ap_db st')) = ids \<and>
    map (int \<circ> pol_id) (policy_rows (ap_db st')) = filter (\<lambda>i. \<exists>q\<in>set (policies (ap_db st)). int (pol_id q) = i \<and> pol_enabled q) ids"
proof -
  define rows where "rows = policies (ap_db st)"
  from assms have ids: "distinct ids" "sort ids = sort (map (int \<circ> pol_id) rows)"
    and rows': "policies (ap_db st') = assign_priorities now 0 ids rows"
    by (auto simp: reorder_def Let_def rows_def split: if_splits)
  from arg_cong [OF ids(2), of mset] have ms: "mset ids = mset (map (int \<circ> pol_id) rows)" by simp
  define A where "A = sort_key policy_order (policies (ap_db st'))"
  have A: "map (int \<circ> pol_id) A = ids" using assigned_order [OF ids(1) ms] by (simp add: A_def rows')
  have pairs: "(\<lambda>q. (pol_id q, pol_enabled q)) ` set A = (\<lambda>q. (pol_id q, pol_enabled q)) ` set rows"
    using arg_cong [OF map_enabled_assign [of now 0 ids rows], of set] by (simp add: A_def rows')
  have inj: "q = r" if "q \<in> set A" "r \<in> set A" "pol_id q = pol_id r" for q r
    using that A ids(1) by (metis comp_apply distinct_map inj_onD)
  have "pol_enabled q \<longleftrightarrow> (\<exists>r\<in>set rows. int (pol_id r) = int (pol_id q) \<and> pol_enabled r)" if "q \<in> set A" for q
  proof
    assume "pol_enabled q"
    then have "(pol_id q, True) \<in> (\<lambda>q. (pol_id q, pol_enabled q)) ` set rows" unfolding pairs [symmetric] using that by (intro image_eqI [of _ _ q]) simp_all
    then show "\<exists>r\<in>set rows. int (pol_id r) = int (pol_id q) \<and> pol_enabled r" by auto
  next
    assume "\<exists>r\<in>set rows. int (pol_id r) = int (pol_id q) \<and> pol_enabled r"
    then obtain r where "r \<in> set rows" "pol_id r = pol_id q" "pol_enabled r" by auto
    then have "(pol_id q, True) \<in> (\<lambda>q. (pol_id q, pol_enabled q)) ` set A" unfolding pairs by (intro image_eqI [of _ _ r]) simp_all
    with inj that show "pol_enabled q" by auto
  qed
  then have "filter pol_enabled A = filter (\<lambda>q. \<exists>r\<in>set rows. int (pol_id r) = int (pol_id q) \<and> pol_enabled r) A"
    by (rule filter_cong [OF refl])
  then have "map (int \<circ> pol_id) (filter pol_enabled A) = filter (\<lambda>i. \<exists>q\<in>set rows. int (pol_id q) = i \<and> pol_enabled q) (map (int \<circ> pol_id) A)"
    by (simp add: filter_map comp_def)
  moreover have "policy_rows (ap_db st') = filter pol_enabled A" by (simp add: policy_rows_def A_def filter_sort)
  moreover have "map (int \<circ> po_id) (list_policies (ap_db st')) = map (int \<circ> pol_id) A"
    by (simp add: list_policies_def A_def comp_def policy_out_def)
  ultimately show ?thesis by (simp only: A rows_def)
qed

theorem reorder_sets_order_witness:
  "\<exists>out st'. reorder [2, 1] 5 lab_superuser (lab_policies [lab_policy 1 10, lab_policy 2 20]) = (Inr out, st') \<and>
     map (int \<circ> po_id) (list_policies (ap_db st')) = [2, 1]"
proof -
  obtain out st' where r: "reorder [2, 1] 5 lab_superuser (lab_policies [lab_policy 1 10, lab_policy 2 20]) = (Inr out, st')"
    by (simp add: reorder_def Let_def lab_policies_def lab_policy_def)
  from reorder_sets_order [OF r] r show ?thesis by (intro exI [of _ out] exI [of _ st'] conjI) simp_all
qed

section \<open>The simulator against live authorization\<close>

lemma condition_matches_nas_ip: "condition_matches c (ctx\<lparr>ctx_nas_ip := x\<rparr>) tz = condition_matches c ctx tz"
proof -
  have "kind_actual k (ctx\<lparr>ctx_nas_ip := x\<rparr>) = kind_actual k ctx" for k by (cases k) simp_all
  then show ?thesis by (simp add: condition_matches_def split: condition.split)
qed

lemma decide_nas_ip: "decide ps (ctx\<lparr>ctx_nas_ip := x\<rparr>) tz = decide ps ctx tz"
  by (induction ps) (simp_all add: policy_matches_def condition_matches_nas_ip cong: if_cong)

text \<open>The subject of a request, up to the address of the client, does not depend on when and where the device
  was seen.\<close>

lemma seen_again_fields [simp]:
  "dev_status (seen_again ip un now v) = dev_status v" "dev_device_type (seen_again ip un now v) = dev_device_type v"
  "dev_vendor (seen_again ip un now v) = dev_vendor v" "device_state (Some (seen_again ip un now v)) g = device_state (Some v) g"
  by (simp_all add: seen_again_def device_state_def)

lemma subject_seen_again:
  "subject_context m name user mac (map_option (seen_again nas_ip un now) device) guest nn ip ssid t = subject_context m name user mac device guest nn ip ssid t"
  by (cases device) (simp_all add: subject_context_def Let_def cong: if_cong)

lemma subject_nas_ip:
  "subject_context m name user mac device guest nn ip ssid t = Inr ctx \<Longrightarrow>
     subject_context m name user mac device guest nn ip' ssid t = Inr (ctx\<lparr>ctx_nas_ip := ip'\<rparr>)"
  "subject_context m name user mac device guest nn ip ssid t = Inl dcn \<Longrightarrow>
     subject_context m name user mac device guest nn ip' ssid t = Inl dcn"
  by (auto simp: subject_context_def Let_def split: if_splits)

text \<open>What the simulator decides with: the decision of a request of the same kind.\<close>

definition same_request :: "db \<Rightarrow> SimulateIn \<Rightarrow> RequestInfo \<Rightarrow> NasClient \<Rightarrow> pystr \<Rightarrow> bool" where
  "same_request d body req n username \<longleftrightarrow>
     si_auth_method body \<in> set AUTH_METHODS \<and> ri_method req = Some (si_auth_method body) \<and>
     ri_mac req = (if si_mac body = [] then None else normalize_mac (Some (si_mac body))) \<and> (si_mac body \<noteq> [] \<longrightarrow> ri_mac req \<noteq> None) \<and>
     ri_ssid req = none_if_empty (si_ssid body) \<and> si_nas body \<noteq> [] \<and> find (\<lambda>c. nas_name c = si_nas body) (nas_clients d) = Some n \<and>
     username = (if si_auth_method body \<noteq> u ''MAB'' then canonical_username (Some (si_username body)) else [])"

lemma see_device_known:
  assumes "find (\<lambda>v. dev_mac_address v = m) (devices d) = Some v" "see_device cfg d m ip un now = (d', v', evs)"
  shows "v' = seen_again ip un now v" "load_policies d' = load_policies d" "guest_active d' = guest_active d"
  using assms by (auto simp: see_device_def Let_def load_policies_def policy_rows_def guest_active_def fun_eq_iff)

text \<open>The subject of a request from a device that is known, or with no station at all.\<close>

definition known_subject :: "db \<Rightarrow> pystr \<Rightarrow> pystr \<Rightarrow> pystr option \<Rightarrow> pystr \<Rightarrow> pystr \<Rightarrow> pystr option \<Rightarrow> int \<Rightarrow> Decision + AuthContext" where
  "known_subject d m username mac nn ip ssid now =
     subject_context m username (if m \<noteq> u ''MAB'' \<and> username \<noteq> [] then map_option fst (load_user d username) else None) mac
       (case mac of None \<Rightarrow> None | Some a \<Rightarrow> find (\<lambda>v. dev_mac_address v = a) (devices d))
       (case mac of None \<Rightarrow> False | Some a \<Rightarrow> guest_active d a now) nn ip ssid now"

lemma decide_request_known:
  assumes "ri_method req = Some m" "nas_enabled n"
    "m = u ''MAB'' \<longrightarrow> ri_mac req \<noteq> None \<and> normalize_mac (attrs_get a (u ''User-Name'')) = ri_mac req"
    "\<forall>mac. ri_mac req = Some mac \<longrightarrow> find (\<lambda>v. dev_mac_address v = mac) (devices (aaa_db s)) \<noteq> None"
    "m \<in> set PASSWORD_METHODS \<longrightarrow> recently_verified (aaa_verified s) (verified_key_of username req) clock"
  obtains d' where "snd (snd (decide_request cfg s a req (Some n) username now clock)) =
      (case known_subject (aaa_db s) m username (ri_mac req) (nas_name n) (ri_nas_ip req) (ri_ssid req) now of
         Inl dcn \<Rightarrow> Inr dcn | Inr ctx \<Rightarrow> evaluate d' (cfg_tz cfg) ctx)"
    "load_policies d' = load_policies (aaa_db s)"
proof (cases "ri_mac req")
  case None
  show ?thesis
    by (rule that [of "aaa_db s"]) (use assms None in \<open>auto simp: decide_request_def Let_def known_subject_def split: sum.split\<close>)
next
  case (Some mac)
  obtain v where v: "find (\<lambda>v. dev_mac_address v = mac) (devices (aaa_db s)) = Some v" using assms(4) Some by auto
  obtain d' v' evs where see: "see_device cfg (aaa_db s) mac (ri_nas_ip req) username now = (d', v', evs)" by (metis prod_cases3)
  note seen = see_device_known [OF v see]
  show ?thesis
  proof (rule that [of d'])
    have "snd (snd (decide_request cfg s a req (Some n) username now clock)) =
        (case subject_context m username (if m \<noteq> u ''MAB'' \<and> username \<noteq> [] then map_option fst (load_user (aaa_db s) username) else None)
           (Some mac) (map_option (seen_again (ri_nas_ip req) username now) (Some v)) (guest_active (aaa_db s) mac now)
           (nas_name n) (ri_nas_ip req) (ri_ssid req) now of Inl dcn \<Rightarrow> Inr dcn | Inr ctx \<Rightarrow> evaluate d' (cfg_tz cfg) ctx)"
      using assms Some see seen by (auto simp: decide_request_def Let_def split: sum.split)
    then show "snd (snd (decide_request cfg s a req (Some n) username now clock)) =
        (case known_subject (aaa_db s) m username (ri_mac req) (nas_name n) (ri_nas_ip req) (ri_ssid req) now of
           Inl dcn \<Rightarrow> Inr dcn | Inr ctx \<Rightarrow> evaluate d' (cfg_tz cfg) ctx)"
      by (simp only: subject_seen_again) (simp add: known_subject_def Some v)
  qed (rule seen(2))
qed

lemma simulated_subject_known:
  assumes "same_request d body req n username"
  shows "simulated_subject d body (ri_mac req) username now =
    known_subject d (si_auth_method body) username (ri_mac req) (nas_name n) (nas_ip_address n) (ri_ssid req) now"
proof -
  note r = assms [unfolded same_request_def]
  have "map_option fst (if username = [] then None else load_user d username) =
      (if si_auth_method body \<noteq> u ''MAB'' \<and> username \<noteq> [] then map_option fst (load_user d username) else None)"
    using r by auto
  moreover have "ri_ssid req = none_if_empty (si_ssid body)" "si_nas body \<noteq> []"
    "find (\<lambda>c. nas_name c = si_nas body) (nas_clients d) = Some n" using r by auto
  ultimately show ?thesis by (simp add: simulated_subject_def known_subject_def Let_def)
qed

text \<open>C29. For a known device the simulator answers as live authorization does: the decision for the same method,
  name, station, client and network at the same time is the same one, for a client that is enabled, a MAB
  request whose name is its station, and a password that was just verified.\<close>

theorem simulate_agrees_with_live:
  assumes "same_request (aaa_db s) body req n username" "si_at body = None" "nas_enabled n"
    "si_auth_method body = u ''MAB'' \<longrightarrow> ri_mac req \<noteq> None \<and> normalize_mac (attrs_get a (u ''User-Name'')) = ri_mac req"
    "\<forall>mac. ri_mac req = Some mac \<longrightarrow> find (\<lambda>v. dev_mac_address v = mac) (devices (aaa_db s)) \<noteq> None"
    "si_auth_method body \<in> set PASSWORD_METHODS \<longrightarrow> recently_verified (aaa_verified s) (verified_key_of username req) clock"
    "simulate (cfg_tz cfg) body now (aaa_db s) = Inr out"
  shows "snd (snd (decide_request cfg s a req (Some n) username now clock)) = Inr (so_decision out)"
proof -
  note r = assms(1) [unfolded same_request_def]
  define subject where "subject ip = known_subject (aaa_db s) (si_auth_method body) username (ri_mac req) (nas_name n) ip (ri_ssid req) now" for ip
  from assms(2,7) r obtain ps where ps: "load_policies (aaa_db s) = Inr ps"
    and sim: "simulated (cfg_tz cfg) ps (subject (nas_ip_address n)) = Inr out"
    unfolding subject_def simulated_subject_known [OF assms(1), symmetric]
    by (auto simp: simulate_def Let_def split: sum.splits if_splits)
  have "ri_method req = Some (si_auth_method body)" using r by blast
  from decide_request_known [OF this assms(3-6)] obtain d' where
    live: "snd (snd (decide_request cfg s a req (Some n) username now clock)) =
      (case subject (ri_nas_ip req) of Inl dcn \<Rightarrow> Inr dcn | Inr ctx \<Rightarrow> evaluate d' (cfg_tz cfg) ctx)" "load_policies d' = Inr ps"
    unfolding subject_def using ps by metis
  show ?thesis
  proof (cases "subject (nas_ip_address n)")
    case (Inl dcn)
    then have "subject (ri_nas_ip req) = Inl dcn" unfolding subject_def known_subject_def by (rule subject_nas_ip)
    with Inl sim live show ?thesis by (auto simp: simulated_def)
  next
    case (Inr ctx)
    then have "subject (ri_nas_ip req) = Inr (ctx\<lparr>ctx_nas_ip := ri_nas_ip req\<rparr>)" unfolding subject_def known_subject_def by (rule subject_nas_ip)
    with Inr sim live show ?thesis by (auto simp: simulated_def evaluate_def decide_nas_ip rbind_eq_Inr)
  qed
qed

text \<open>A MAB request.\<close>

definition lab_mac :: pystr where
  "lab_mac = canonical_mac (u ''aabbccddeeff'')"

definition lab_mab :: SimulateIn where
  "lab_mab = \<lparr>si_auth_method = u ''MAB'', si_username = [], si_mac = lab_mac, si_nas = u ''ap'', si_ssid = [], si_at = None\<rparr>"

definition lab_mab_info :: RequestInfo where
  "lab_mab_info = \<lparr>ri_method = Some (u ''MAB''), ri_nas_ip = u ''10.0.0.7'', ri_mac = Some lab_mac, ri_ssid = None, ri_calling_station = lab_mac\<rparr>"

definition lab_mab_attrs :: attrs where
  "lab_mab_attrs = [(u ''user-name'', [lab_mac])]"

definition lab_mab_state :: "Device list \<Rightarrow> aaa_state" where
  "lab_mab_state vs = initial_aaa (empty_db\<lparr>nas_clients := [lab_ap], policies := [lab_policy 1 10], devices := vs\<rparr>)"

lemma lab_mac_normal: "normalize_mac (Some lab_mac) = Some lab_mac"
  unfolding lab_mac_def by (rule normalize_canonical) (simp_all add: u_def is_hex_def hex_val_def)

lemma lab_mac_nonempty: "lab_mac \<noteq> []"
  using normalize_length [OF lab_mac_normal] by auto

lemma lab_mab_name: "attrs_get lab_mab_attrs (u ''User-Name'') = Some lab_mac"
  by (simp add: attrs_get_def lab_mab_attrs_def lab_names od_get_def)

lemma lab_mab_same: "same_request (aaa_db (lab_mab_state vs)) lab_mab lab_mab_info lab_ap []"
  by (simp add: same_request_def lab_mab_def lab_mab_info_def AUTH_METHODS_def lab_mac_normal none_if_empty_def lab_mab_state_def initial_aaa_def lab_ap_def
      lab_mac_nonempty)

lemma lab_mab_load: "load_policies (aaa_db (lab_mab_state vs)) =
    Inr [\<lparr>cp_id = 1, cp_name = dec 1, cp_priority = 10, cp_action = PERMIT, cp_vlan = Some 20, cp_reply_attributes = [],
          cp_conditions = [DeviceStatusCond [u ''pending'']]\<rparr>]"
proof -
  have "policy_rows (aaa_db (lab_mab_state vs)) = [lab_policy 1 10]"
    by (simp add: policy_rows_def lab_mab_state_def initial_aaa_def lab_policy_def)
  moreover have "validate_reply_attributes None (pol_reply_attributes (lab_policy i prio)) = Inr []" for i prio
    by (simp add: lab_policy_def validate_reply_attributes_def falsy_def)
  ultimately show ?thesis by (simp add: load_policies_def compile_policy_def lab_parse) (simp add: lab_policy_def)
qed

lemma lab_mab_simulated:
  "simulate tz lab_mab 0 (aaa_db (lab_mab_state vs)) =
     (case simulated tz [\<lparr>cp_id = 1, cp_name = dec 1, cp_priority = 10, cp_action = PERMIT, cp_vlan = Some 20, cp_reply_attributes = [],
          cp_conditions = [DeviceStatusCond [u ''pending'']]\<rparr>]
        (known_subject (aaa_db (lab_mab_state vs)) (u ''MAB'') [] (Some lab_mac) (u ''ap'') (u ''10.0.0.7'') None 0) of
        Inl e \<Rightarrow> Inl (PyRaised e) | Inr out \<Rightarrow> Inr out)"
proof -
  have "simulated_subject (aaa_db (lab_mab_state vs)) lab_mab (Some lab_mac) [] 0 =
      known_subject (aaa_db (lab_mab_state vs)) (u ''MAB'') [] (Some lab_mac) (u ''ap'') (u ''10.0.0.7'') None 0"
    using simulated_subject_known [OF lab_mab_same [of vs], of 0] by (simp add: lab_mab_info_def lab_mab_def lab_ap_def)
  then show ?thesis
    by (simp add: simulate_def Let_def lab_mab_load) (simp add: lab_mab_def AUTH_METHODS_def lab_mac_normal lab_mac_nonempty)
qed


definition lab_pending :: Device where
  "lab_pending = new_device lab_cfg empty_db lab_mac [] [] 0"

lemma lab_pending_subject:
  "known_subject (aaa_db (lab_mab_state vs)) (u ''MAB'') [] (Some lab_mac) nn ip None 0 =
     Inr \<lparr>ctx_auth_method = u ''MAB'', ctx_username = [], ctx_group = None, ctx_mac = Some lab_mac,
          ctx_device_status = (if vs = [] then None else Some (u ''pending'')), ctx_device_type = [], ctx_vendor = (if vs = [] then [] else dev_vendor lab_pending),
          ctx_nas_name = nn, ctx_nas_ip = ip, ctx_ssid = None, ctx_now = 0\<rparr>" if "vs = [] \<or> vs = [lab_pending]"
  using that
  by (auto simp: known_subject_def subject_context_def lab_mab_state_def initial_aaa_def lab_pending_def new_device_def device_state_def guest_active_def empty_db_def Let_def)

theorem simulate_agrees_with_live_witness:
  "\<exists>out. simulate (cfg_tz lab_cfg) lab_mab 0 (aaa_db (lab_mab_state [lab_pending])) = Inr out \<and> accepted (so_decision out) \<and>
     snd (snd (decide_request lab_cfg (lab_mab_state [lab_pending]) lab_mab_attrs lab_mab_info (Some lab_ap) [] 0 0)) = Inr (so_decision out)"
proof -
  obtain out where sim: "simulate (cfg_tz lab_cfg) lab_mab 0 (aaa_db (lab_mab_state [lab_pending])) = Inr out" "accepted (so_decision out)"
    by (simp add: lab_mab_simulated lab_pending_subject simulated_def explain_def explain_policy_def policy_matches_def condition_matches_def
        policy_verdict_def accepted_def)
  have "find (\<lambda>v. dev_mac_address v = lab_mac) (devices (aaa_db (lab_mab_state [lab_pending]))) \<noteq> None"
    by (simp add: lab_mab_state_def initial_aaa_def lab_pending_def new_device_def)
  then have known: "\<forall>mac. ri_mac lab_mab_info = Some mac \<longrightarrow> find (\<lambda>v. dev_mac_address v = mac) (devices (aaa_db (lab_mab_state [lab_pending]))) \<noteq> None"
    by (simp add: lab_mab_info_def)
  have "snd (snd (decide_request lab_cfg (lab_mab_state [lab_pending]) lab_mab_attrs lab_mab_info (Some lab_ap) [] 0 0)) = Inr (so_decision out)"
    by (rule simulate_agrees_with_live [OF lab_mab_same _ _ _ known _ sim(1)])
      (simp_all add: lab_mab_def lab_mab_info_def lab_mab_name lab_mac_normal lab_ap_def lab_nas_def PASSWORD_METHODS_def)
  with sim show ?thesis by blast
qed

text \<open>A station the database does not know is not simulated: the live request makes it a pending device
  first, and a policy for pending devices lets it in, where the simulator finds no match.\<close>

theorem simulate_unknown_station_differs:
  "\<exists>out dcn. simulate (cfg_tz lab_cfg) lab_mab 0 (aaa_db (lab_mab_state [])) = Inr out \<and> \<not> accepted (so_decision out) \<and>
     snd (snd (decide_request lab_cfg (lab_mab_state []) lab_mab_attrs lab_mab_info (Some lab_ap) [] 0 0)) = Inr dcn \<and> accepted dcn"
proof -
  obtain out where "simulate (cfg_tz lab_cfg) lab_mab 0 (aaa_db (lab_mab_state [])) = Inr out" "\<not> accepted (so_decision out)"
    by (simp add: lab_mab_simulated lab_pending_subject simulated_def explain_def explain_policy_def policy_matches_def condition_matches_def)
  moreover have "see_device lab_cfg (aaa_db (lab_mab_state [])) lab_mac (u ''10.0.0.7'') [] 0 =
      (aaa_db (lab_mab_state [lab_pending\<lparr>dev_last_nas_ip := u ''10.0.0.7''\<rparr>]), lab_pending\<lparr>dev_last_nas_ip := u ''10.0.0.7''\<rparr>, [DeviceEvent lab_mac (dev_vendor lab_pending)])"
    by (simp add: see_device_def lab_mab_state_def initial_aaa_def lab_pending_def new_device_def empty_db_def Let_def)
  then have "\<exists>dcn. snd (snd (decide_request lab_cfg (lab_mab_state []) lab_mab_attrs lab_mab_info (Some lab_ap) [] 0 0)) = Inr dcn \<and> accepted dcn"
    by (simp add: decide_request_def Let_def lab_mab_info_def lab_mab_name lab_mac_normal PASSWORD_METHODS_def subject_context_def evaluate_def
        lab_mab_load device_state_def guest_active_def policy_matches_def condition_matches_def policy_verdict_def accepted_def)
      (simp add: lab_ap_def lab_nas_def lab_pending_def new_device_def lab_mab_state_def initial_aaa_def empty_db_def)
  ultimately show ?thesis by blast
qed

end
