(* ===== verification/Portal.thy ===== *)
theory Portal
  imports DevicesApi RateLimit
begin

text \<open>
  The guest portal: \<open>naco/portal/app.py\<close> and \<open>PortalConfig\<close> of \<open>naco/config.py\<close>.  The pages are values of a
  datatype (their templates are not modelled); the random token of a page is an argument.  Texts of a request carry no
  surrogates, so that comparing their UTF-8 encodings is comparing the texts.  The attempts are counted on their own
  clock.
\<close>

record PortalConfig =
  pc_enabled :: bool
  pc_access_code :: pystr
  pc_session_hours :: int
  pc_match_window_minutes :: int

definition PortalConfig_body :: "PortalConfig \<Rightarrow> PortalConfig option" where
  "PortalConfig_body c =
     (let v = strip (pc_access_code c) in
      if length (pc_access_code c) \<le> 64 \<and> 1 \<le> pc_session_hours c \<and> pc_session_hours c \<le> 24 * 30 \<and>
         1 \<le> pc_match_window_minutes c \<and> pc_match_window_minutes c \<le> 24 * 60 \<and> (v = [] \<or> length v \<ge> 6)
      then Some (c\<lparr>pc_access_code := v\<rparr>) else None)"

record portal_state =
  pt_db :: db
  pt_attempts :: SlidingWindow
  pt_reeval :: Reevaluator

definition portal_attempts :: SlidingWindow where
  "portal_attempts = SlidingWindow_init 10 (600 * second) 50000"

record portal_request =
  pq_client :: "pystr option"
  pq_cookie :: "pystr option"
  pq_origin :: "pystr option"
  pq_scheme :: pystr
  pq_host :: "pystr option"

record portal_form =
  pf_csrf :: pystr
  pf_accept :: pystr
  pf_code :: pystr
  pf_full_name :: pystr
  pf_email :: pystr

definition portal_form_ok :: "portal_form \<Rightarrow> bool" where
  "portal_form_ok form \<longleftrightarrow> length (pf_full_name form) \<le> 128 \<and> length (pf_email form) \<le> 128"

text \<open>The pages with their status; the form carries its token and message.\<close>

datatype portal_page = Not_Found | Waiting | Refused | Register_Form nat pystr pystr | Invalid_Form | Session_Expired | Too_Many | Registered int

record Guest =
  gu_mac :: pystr
  gu_nas_ip :: pystr
  gu_blocked :: bool

definition minute :: int where
  "minute = 60 * second"

definition identify :: "db \<Rightarrow> pystr \<Rightarrow> PortalConfig \<Rightarrow> int \<Rightarrow> Guest option" where
  "identify d ip cfg now =
     (if ip = [] then None
      else
        (let since = now - pc_match_window_minutes cfg * minute;
             rows = sort_key (\<lambda>s. - rs_updated_at s)
               (filter (\<lambda>s. rs_framed_ip s = ip \<and> rs_mac_address s \<noteq> [] \<and> rs_updated_at s \<ge> since) (radius_sessions d))
         in case rows of
              [] \<Rightarrow> None
            | s # _ \<Rightarrow>
                Some \<lparr>gu_mac = rs_mac_address s, gu_nas_ip = rs_nas_ip s,
                      gu_blocked = (case find (\<lambda>v. dev_mac_address v = rs_mac_address s) (devices d) of
                                      None \<Rightarrow> False | Some v \<Rightarrow> dev_status v = BLOCKED)\<rparr>))"

definition portal_client :: "portal_request \<Rightarrow> pystr" where
  "portal_client rq = (case pq_client rq of None \<Rightarrow> [] | Some ip \<Rightarrow> ip)"

definition portal_page_get :: "PortalConfig \<Rightarrow> pystr \<Rightarrow> portal_request \<Rightarrow> int \<Rightarrow> portal_state \<Rightarrow> portal_page" where
  "portal_page_get cfg token rq now st =
     (if \<not> pc_enabled cfg then Not_Found
      else
        (case identify (pt_db st) (portal_client rq) cfg now of
           None \<Rightarrow> Waiting
         | Some g \<Rightarrow> if gu_blocked g then Refused else Register_Form 200 token []))"

definition csrf_ok :: "portal_request \<Rightarrow> portal_form \<Rightarrow> bool" where
  "csrf_ok rq form \<longleftrightarrow>
     (let cookie = (case pq_cookie rq of None \<Rightarrow> [] | Some c \<Rightarrow> c) in
      cookie \<noteq> [] \<and> cookie = pf_csrf form \<and>
      (case pq_origin rq of
         None \<Rightarrow> True
       | Some origin \<Rightarrow> origin = pq_scheme rq @ u ''://'' @ (case pq_host rq of None \<Rightarrow> [] | Some h \<Rightarrow> h)))"

text \<open>The rows that a registration adds.\<close>

definition add_registration :: "(pystr \<rightharpoonup> pystr) \<Rightarrow> PortalConfig \<Rightarrow> Guest \<Rightarrow> pystr \<Rightarrow> portal_form \<Rightarrow> int \<Rightarrow> db \<Rightarrow> db" where
  "add_registration table cfg guest ip form now d =
     d\<lparr>devices := (if find (\<lambda>v. dev_mac_address v = gu_mac guest) (devices d) = None
                   then devices d @ [(fresh_device d (gu_mac guest) (vendor_for table (gu_mac guest)) now)\<lparr>dev_last_nas_ip := gu_nas_ip guest\<rparr>]
                   else devices d),
       guest_registrations := guest_registrations d @
         [\<lparr>gr_id = next_id gr_id (guest_registrations d), gr_mac_address = gu_mac guest, gr_full_name = strip (pf_full_name form),
           gr_email = strip (pf_email form), gr_nas_ip = gu_nas_ip guest, gr_client_ip = ip, gr_created_by = u ''portal'',
           gr_created_at = now, gr_expires_at = now + pc_session_hours cfg * hour, gr_revoked_at = None\<rparr>]\<rparr>"

definition register :: "(pystr \<rightharpoonup> pystr) \<Rightarrow> PortalConfig \<Rightarrow> portal_request \<Rightarrow> portal_form \<Rightarrow> int \<Rightarrow> int \<Rightarrow> portal_state \<Rightarrow> portal_page \<times> portal_state" where
  "register table cfg rq form now clock st =
     (let ip = portal_client rq in
      if \<not> pc_enabled cfg then (Not_Found, st)
      else if \<not> portal_form_ok form then (Invalid_Form, st)
      else if \<not> csrf_ok rq form then (Session_Expired, st)
      else
        (case sw_hit (pt_attempts st) ip clock of
           (w, ok) \<Rightarrow>
             (let st = st\<lparr>pt_attempts := w\<rparr> in
              if \<not> ok then (Too_Many, st)
              else
                (case identify (pt_db st) ip cfg now of
                   None \<Rightarrow> (Waiting, st)
                 | Some guest \<Rightarrow>
                     if gu_blocked guest then (Refused, st)
                     else if pf_accept form \<noteq> u ''yes'' then
                       (Register_Form 422 (pf_csrf form) (u ''Please accept the terms to continue.''), st)
                     else if pc_access_code cfg \<noteq> [] \<and> strip (pf_code form) \<noteq> pc_access_code cfg then
                       (Register_Form 422 (pf_csrf form) (u ''That access code is not right.''), st)
                     else
                       (Registered (now + pc_session_hours cfg * hour),
                        st\<lparr>pt_db := add_registration table cfg guest ip form now (pt_db st),
                           pt_reeval := schedule (pt_reeval st) (u ''portal registration '' @ gu_mac guest)\<rparr>)))))"

section \<open>The portal registers only the caller's own device\<close>

definition recent_session :: "PortalConfig \<Rightarrow> pystr \<Rightarrow> int \<Rightarrow> RadiusSession \<Rightarrow> bool" where
  "recent_session cfg ip now s \<longleftrightarrow>
     ip \<noteq> [] \<and> rs_framed_ip s = ip \<and> rs_mac_address s \<noteq> [] \<and> now - pc_match_window_minutes cfg * minute \<le> rs_updated_at s"

lemma identify_Some:
  assumes "identify d ip cfg now = Some guest"
  obtains s where "s \<in> set (radius_sessions d)" "recent_session cfg ip now s"
    "\<forall>t\<in>set (radius_sessions d). recent_session cfg ip now t \<longrightarrow> rs_updated_at t \<le> rs_updated_at s"
    "gu_mac guest = rs_mac_address s" "gu_nas_ip guest = rs_nas_ip s"
    "gu_blocked guest \<longleftrightarrow> (\<exists>v. find (\<lambda>v. dev_mac_address v = rs_mac_address s) (devices d) = Some v \<and> dev_status v = BLOCKED)"
proof -
  let ?rows = "filter (\<lambda>s. rs_framed_ip s = ip \<and> rs_mac_address s \<noteq> [] \<and> rs_updated_at s \<ge> now - pc_match_window_minutes cfg * minute) (radius_sessions d)"
  from assms obtain s ss where ip: "ip \<noteq> []" and rows: "sort_key (\<lambda>s. - rs_updated_at s) ?rows = s # ss"
    and g: "guest = \<lparr>gu_mac = rs_mac_address s, gu_nas_ip = rs_nas_ip s,
      gu_blocked = (case find (\<lambda>v. dev_mac_address v = rs_mac_address s) (devices d) of None \<Rightarrow> False | Some v \<Rightarrow> dev_status v = BLOCKED)\<rparr>"
    by (auto simp: identify_def Let_def split: if_splits list.splits)
  have mem: "set (s # ss) = set ?rows" by (simp only: set_sort flip: rows)
  have "sorted (map (\<lambda>s. - rs_updated_at s) (s # ss))" using sorted_sort_key [of "\<lambda>s. - rs_updated_at s" ?rows] rows by simp
  then have newest: "rs_updated_at t \<le> rs_updated_at s" if "t \<in> set ?rows" for t using that mem by auto
  show thesis
  proof (rule that [of s])
    show "s \<in> set (radius_sessions d)" "recent_session cfg ip now s" using mem ip by (auto simp: recent_session_def)
    show "\<forall>t\<in>set (radius_sessions d). recent_session cfg ip now t \<longrightarrow> rs_updated_at t \<le> rs_updated_at s"
      using newest by (simp add: recent_session_def)
  qed (auto simp: g split: option.split)
qed

text \<open>C14. A registration either changes nothing but the count of attempts, or the caller's token and origin are right, the
  terms accepted, the code (if there is one) given, the attempts not used up, and it adds one registration, for the MAC
  of the newest RADIUS session with the caller's address within the window, whose device is not blocked; devices
  known before stay as they are, a new one is PENDING; re-evaluation is scheduled; and the device is a guest
  exactly until the configured hours are over, while no other device becomes one.\<close>

theorem portal_registers_own_device:
  assumes "register table cfg rq form now clock st = (page, st')"
  shows "pt_db st' = pt_db st \<and> pt_reeval st' = pt_reeval st \<and> (\<forall>until. page \<noteq> Registered until) \<or>
    (\<exists>s\<in>set (radius_sessions (pt_db st)). recent_session cfg (portal_client rq) now s \<and>
       (\<forall>t\<in>set (radius_sessions (pt_db st)). recent_session cfg (portal_client rq) now t \<longrightarrow> rs_updated_at t \<le> rs_updated_at s) \<and>
       \<not> (\<exists>v. find (\<lambda>v. dev_mac_address v = rs_mac_address s) (devices (pt_db st)) = Some v \<and> dev_status v = BLOCKED) \<and>
       pc_enabled cfg \<and> csrf_ok rq form \<and> snd (sw_hit (pt_attempts st) (portal_client rq) clock) \<and> pf_accept form = u ''yes'' \<and>
       (pc_access_code cfg = [] \<or> strip (pf_code form) = pc_access_code cfg) \<and>
       page = Registered (now + pc_session_hours cfg * hour) \<and> (\<exists>reason. pt_reeval st' = schedule (pt_reeval st) reason) \<and>
       (\<exists>new. devices (pt_db st') = devices (pt_db st) @ new \<and> (\<forall>v\<in>set new. dev_mac_address v = rs_mac_address s \<and> dev_status v = PENDING)) \<and>
       (\<forall>mac t. guest_active (pt_db st') mac t \<longleftrightarrow>
          guest_active (pt_db st) mac t \<or> mac = rs_mac_address s \<and> t < now + pc_session_hours cfg * hour))"
proof (cases "pc_enabled cfg \<and> portal_form_ok form \<and> csrf_ok rq form \<and> snd (sw_hit (pt_attempts st) (portal_client rq) clock)")
  case False
  with assms show ?thesis by (auto simp: register_def Let_def split: if_splits prod.splits)
next
  case True
  then obtain w where w: "sw_hit (pt_attempts st) (portal_client rq) clock = (w, True)" by (metis prod.collapse)
  show ?thesis
  proof (cases "identify (pt_db st) (portal_client rq) cfg now")
    case None
    with assms True w show ?thesis by (auto simp: register_def Let_def)
  next
    case (Some guest)
    note found = this
    obtain s where s: "s \<in> set (radius_sessions (pt_db st))" "recent_session cfg (portal_client rq) now s"
      "\<forall>t\<in>set (radius_sessions (pt_db st)). recent_session cfg (portal_client rq) now t \<longrightarrow> rs_updated_at t \<le> rs_updated_at s"
      "gu_mac guest = rs_mac_address s" "gu_nas_ip guest = rs_nas_ip s"
      "gu_blocked guest \<longleftrightarrow> (\<exists>v. find (\<lambda>v. dev_mac_address v = rs_mac_address s) (devices (pt_db st)) = Some v \<and> dev_status v = BLOCKED)"
      by (rule identify_Some [OF found])
    define ok where "ok \<longleftrightarrow> \<not> gu_blocked guest \<and> pf_accept form = u ''yes'' \<and> (pc_access_code cfg = [] \<or> strip (pf_code form) = pc_access_code cfg)"
    show ?thesis
    proof (cases ok)
      case False
      with assms True w found show ?thesis by (auto simp: register_def Let_def ok_def split: if_splits)
    next
      case ok: True
      have st': "page = Registered (now + pc_session_hours cfg * hour)"
        "pt_db st' = add_registration table cfg guest (portal_client rq) form now (pt_db st)"
        "pt_reeval st' = schedule (pt_reeval st) (u ''portal registration '' @ gu_mac guest)"
        using assms True w found ok by (auto simp: register_def Let_def ok_def split: if_splits)
      have "\<exists>new. devices (pt_db st') = devices (pt_db st) @ new \<and> (\<forall>v\<in>set new. dev_mac_address v = rs_mac_address s \<and> dev_status v = PENDING)"
        by (auto simp: st'(2) add_registration_def fresh_device_def s(4))
      moreover have "guest_active (pt_db st') mac t \<longleftrightarrow>
          guest_active (pt_db st) mac t \<or> mac = rs_mac_address s \<and> t < now + pc_session_hours cfg * hour" for mac t
        by (auto simp: st'(2) add_registration_def guest_active_def s(4))
      ultimately show ?thesis using s True ok st'(1,3) by (intro disjI2 bexI [of _ s]) (auto simp: ok_def)
    qed
  qed
qed

text \<open>A guest on the portal VLAN accepts the terms.\<close>

definition lab_portal_session :: RadiusSession where
  "lab_portal_session = \<lparr>rs_id = 2, rs_nas_ip = u ''192.0.2.7'', rs_acct_session_id = u ''a1'', rs_username = [], rs_acct_username = [],
     rs_calling_station_id = [], rs_nas_ip_address = [], rs_nas_identifier = [], rs_audit_session_id = [], rs_mac_address = u ''aa:bb:cc:dd:ee:01'',
     rs_framed_ip = u ''10.0.0.9'', rs_ssid = [], rs_auth_method = u ''MAB'', rs_policy_name = [], rs_vlan = None, rs_decision_digest = [],
     rs_started_at = 0, rs_updated_at = 5, rs_input_octets = 0, rs_output_octets = 0, rs_session_time = 0\<rparr>"

definition lab_portal :: portal_state where
  "lab_portal = \<lparr>pt_db = empty_db\<lparr>radius_sessions := [lab_portal_session]\<rparr>, pt_attempts = portal_attempts, pt_reeval = Reevaluator_init\<rparr>"

definition lab_portal_cfg :: PortalConfig where
  "lab_portal_cfg = \<lparr>pc_enabled = True, pc_access_code = [], pc_session_hours = 8, pc_match_window_minutes = 15\<rparr>"

definition lab_portal_request :: portal_request where
  "lab_portal_request = \<lparr>pq_client = Some (u ''10.0.0.9''), pq_cookie = Some (u ''tok''), pq_origin = None, pq_scheme = u ''http'', pq_host = None\<rparr>"

definition lab_portal_form :: portal_form where
  "lab_portal_form = \<lparr>pf_csrf = u ''tok'', pf_accept = u ''yes'', pf_code = [], pf_full_name = [], pf_email = []\<rparr>"

theorem portal_registers_own_device_witness:
  "guest_active (pt_db (snd (register (\<lambda>_. None) lab_portal_cfg lab_portal_request lab_portal_form 6 0 lab_portal))) (u ''aa:bb:cc:dd:ee:01'') 7"
proof -
  obtain page st' where r: "register (\<lambda>_. None) lab_portal_cfg lab_portal_request lab_portal_form 6 0 lab_portal = (page, st')" by fastforce
  have "\<exists>until. page = Registered until"
    using r by (auto simp: register_def lab_portal_cfg_def lab_portal_request_def lab_portal_form_def lab_portal_def lab_portal_session_def csrf_ok_def portal_form_ok_def
        portal_client_def identify_def sw_hit_def sw_open_def portal_attempts_def SlidingWindow_init_def minute_def second_def empty_db_def Let_def)
  with portal_registers_own_device [OF r] show ?thesis
    unfolding r by (auto simp: lab_portal_def lab_portal_session_def lab_portal_cfg_def hour_def second_def)
qed

end
