(* ===== verification/Lifecycle.thy ===== *)
theory Lifecycle
  imports AdminsApi DevicesApi
begin

text \<open>
  The start and the housekeeping of the process: \<open>naco/bootstrap.py\<close> and \<open>naco/maintenance.py\<close>.  The passes of
  housekeeping run while nothing else writes; what other requests commit between two passes is an argument.  The gauge of
  active sessions and \<open>PRAGMA optimize\<close> are left out.
\<close>

section \<open>The first administrator\<close>

datatype bootstrap_error = Config_Error pystr | Boot_Raised py_exc

text \<open>The password from the environment, and the one that is drawn when there is none.\<close>

definition ensure_admin :: "bcrypt_lib \<Rightarrow> pystr option \<Rightarrow> pystr \<Rightarrow> db \<Rightarrow> int \<Rightarrow> (bootstrap_error + pystr option) \<times> db" where
  "ensure_admin bc env_password drawn d now =
     (if admin_users d \<noteq> [] then (Inr None, d)
      else
        (let password = (case env_password of Some v \<Rightarrow> v | None \<Rightarrow> drawn) in
         case validate_admin_password password of
           Inl (ValueError m) \<Rightarrow> (Inl (Config_Error (u ''NACO_ADMIN_PASSWORD: '' @ m)), d)
         | Inl e \<Rightarrow> (Inl (Config_Error (u ''NACO_ADMIN_PASSWORD: surrogates not allowed'')), d)
         | Inr _ \<Rightarrow>
             (case hash_password bc password of
                Inl e \<Rightarrow> (Inl (Boot_Raised e), d)
              | Inr h \<Rightarrow>
                  (Inr (Some password),
                   d\<lparr>admin_users := [\<lparr>au_id = next_id au_id (admin_users d), au_username = u ''admin'', au_password_hash = h, au_role = SUPERUSER,
                       au_enabled = True, au_must_change_password = True, au_totp_secret = None, au_totp_pending_secret = None,
                       au_totp_last_step = None, au_recovery_codes = [], au_created_at = now, au_updated_at = now,
                       au_last_login_at = None, au_password_changed_at = None\<rparr>]\<rparr>))))"

section \<open>Housekeeping\<close>

record RetentionConfig =
  rc_auth_log_days :: nat
  rc_tacacs_log_days :: nat
  rc_audit_log_days :: nat

definition RetentionConfig_ok :: "RetentionConfig \<Rightarrow> bool" where
  "RetentionConfig_ok c \<longleftrightarrow> (\<forall>n\<in>{rc_auth_log_days c, rc_tacacs_log_days c, rc_audit_log_days c}. 1 \<le> n \<and> n \<le> 3650)"

record PassResult =
  ps_pruned :: nat
  ps_guests_expired :: nat

definition CHUNK :: nat where
  "CHUNK = 5000"

text \<open>One transaction of \<open>_prune\<close>: up to \<open>_CHUNK\<close> rows that are too old.\<close>

definition prune_chunk :: "('a \<Rightarrow> nat) \<Rightarrow> ('a \<Rightarrow> int) \<Rightarrow> int \<Rightarrow> 'a list \<Rightarrow> 'a list" where
  "prune_chunk key time cutoff rows =
     (let ids = map key (take CHUNK (filter (\<lambda>r. time r < cutoff) rows)) in filter (\<lambda>r. key r \<notin> set ids) rows)"

lemma prune_chunk_shorter: "length (prune_chunk key time cutoff rows) \<le> length rows"
  by (simp add: prune_chunk_def)

function prune :: "('a \<Rightarrow> nat) \<Rightarrow> ('a \<Rightarrow> int) \<Rightarrow> int \<Rightarrow> nat \<Rightarrow> 'a list \<Rightarrow> nat \<times> 'a list" where
  "prune key time cutoff sofar rows =
     (let kept = prune_chunk key time cutoff rows; removed = length rows - length kept
      in if removed < CHUNK then (sofar + removed, kept) else prune key time cutoff (sofar + removed) kept)"
  by auto

termination
proof (relation "measure (\<lambda>(key, time, cutoff, sofar, rows). length rows)", goal_cases)
  case (2 key time cutoff sofar rows kept removed)
  then have "0 < length rows - length (prune_chunk key time cutoff rows)" by (simp add: CHUNK_def)
  with 2 show ?case by simp
qed simp

declare prune.simps [simp del]

definition day :: int where
  "day = 24 * hour"

record maintenance_cfg =
  mc_retention :: RetentionConfig
  mc_security :: SecurityConfig
  mc_stale_session_hours :: nat

definition guests_expired :: "db \<Rightarrow> int \<Rightarrow> int \<Rightarrow> nat" where
  "guests_expired d since now =
     length (filter (\<lambda>g. gr_revoked_at g = None \<and> since < gr_expires_at g \<and> gr_expires_at g \<le> now) (guest_registrations d))"

definition maintenance_pass :: "maintenance_cfg \<Rightarrow> int option \<Rightarrow> int \<Rightarrow> db \<times> Reevaluator \<Rightarrow> PassResult \<times> db \<times> Reevaluator" where
  "maintenance_pass cfg since now = (\<lambda>(d, rv).
     (let r = mc_retention cfg;
          (n1, auth) = prune alog_id alog_timestamp (now - int (rc_auth_log_days r) * day) 0 (auth_logs d);
          (n2, tac) = prune tlog_id tlog_timestamp (now - int (rc_tacacs_log_days r) * day) 0 (tacacs_logs d);
          (n3, aud) = prune aud_id aud_timestamp (now - int (rc_audit_log_days r) * day) 0 (audit_logs d);
          idle = session_idle (mc_security cfg);
          d = d\<lparr>auth_logs := auth, tacacs_logs := tac, audit_logs := aud,
                admin_sessions := filter (\<lambda>s. \<not> (as_expires_at s < now \<or> as_last_seen_at s < now - idle)) (admin_sessions d),
                radius_sessions := filter (\<lambda>s. \<not> rs_updated_at s < now - int (mc_stale_session_hours cfg) * hour) (radius_sessions d)\<rparr>;
          expired = (case since of None \<Rightarrow> 0 | Some t \<Rightarrow> guests_expired d t now)
      in (\<lparr>ps_pruned = n1 + n2 + n3, ps_guests_expired = expired\<rparr>, d,
          if expired \<noteq> 0 then schedule rv (u ''guest registrations expired'') else rv)))"

text \<open>The loop \<open>run_maintenance\<close>: a turn has its time, the database it finds and whether its pass raises; then the next
  pass starts from the same time as this one.  The result of each pass that went through.\<close>

record maintenance_turn =
  mt_now :: int
  mt_db :: db
  mt_raises :: bool

fun run_maintenance :: "maintenance_cfg \<Rightarrow> int \<Rightarrow> maintenance_turn list \<Rightarrow> PassResult option list" where
  "run_maintenance cfg since [] = []"
| "run_maintenance cfg since (t # ts) =
     (if mt_raises t then None # run_maintenance cfg since ts
      else Some (fst (maintenance_pass cfg (Some since) (mt_now t) (mt_db t, Reevaluator_init))) # run_maintenance cfg (mt_now t) ts)"

section \<open>Deleting in chunks deletes everything that is too old\<close>

lemma prune_chunk_facts:
  assumes "distinct (map key rows)"
  shows "length rows - length (prune_chunk key time cutoff rows) = min CHUNK (length (filter (\<lambda>r. time r < cutoff) rows))"
    "filter (\<lambda>r. \<not> time r < cutoff) (prune_chunk key time cutoff rows) = filter (\<lambda>r. \<not> time r < cutoff) rows"
    "length (filter (\<lambda>r. time r < cutoff) rows) < CHUNK \<Longrightarrow> prune_chunk key time cutoff rows = filter (\<lambda>r. \<not> time r < cutoff) rows"
    "distinct (map key (prune_chunk key time cutoff rows))"
proof -
  let ?old = "filter (\<lambda>r. time r < cutoff) rows"
  let ?gone = "take CHUNK ?old"
  have inj: "inj_on key (set rows)" and dist: "distinct rows" using assms by (auto simp: distinct_map)
  have sub: "set ?gone \<subseteq> set ?old" by (rule set_take_subset)
  have mem: "key r \<in> set (map key ?gone) \<longleftrightarrow> r \<in> set ?gone" if "r \<in> set rows" for r
  proof
    assume "key r \<in> set (map key ?gone)"
    then obtain r' where "r' \<in> set ?gone" "key r' = key r" by auto
    moreover from this sub have "r' \<in> set rows" by auto
    ultimately show "r \<in> set ?gone" using inj that by (auto dest: inj_onD)
  qed auto
  have kept: "prune_chunk key time cutoff rows = filter (\<lambda>r. r \<notin> set ?gone) rows"
    unfolding prune_chunk_def Let_def by (rule filter_cong) (use mem in auto)
  have "length (filter (\<lambda>r. r \<in> set ?gone) rows) = card (set ?gone)"
    using dist sub by (subst distinct_card [symmetric]) (auto intro!: arg_cong [where f = card])
  also have "\<dots> = length ?gone" using dist by (intro distinct_card) simp
  finally have "length rows = length (prune_chunk key time cutoff rows) + length ?gone"
    unfolding kept using sum_length_filter_compl [of "\<lambda>r. r \<in> set ?gone" rows] by simp
  then show "length rows - length (prune_chunk key time cutoff rows) = min CHUNK (length ?old)" by simp
  have fresh: "r \<notin> set ?gone" if "\<not> time r < cutoff" for r using that sub by auto
  then show "filter (\<lambda>r. \<not> time r < cutoff) (prune_chunk key time cutoff rows) = filter (\<lambda>r. \<not> time r < cutoff) rows"
    unfolding kept filter_filter by (intro filter_cong) auto
  show "distinct (map key (prune_chunk key time cutoff rows))"
    unfolding kept using assms by (rule distinct_map_filter)
  show "prune_chunk key time cutoff rows = filter (\<lambda>r. \<not> time r < cutoff) rows" if "length ?old < CHUNK"
    unfolding kept using that by (intro filter_cong) auto
qed

lemma prune_eq: "distinct (map key rows) \<Longrightarrow>
    prune key time cutoff n rows = (n + length (filter (\<lambda>r. time r < cutoff) rows), filter (\<lambda>r. \<not> time r < cutoff) rows)"
proof (induction key time cutoff n rows rule: prune.induct)
  case (1 key time cutoff n rows)
  let ?kept = "prune_chunk key time cutoff rows" and ?old = "\<lambda>r. time r < cutoff"
  note facts = prune_chunk_facts [OF 1(2), of time cutoff]
  show ?case
  proof (cases "length (filter ?old rows) < CHUNK")
    case True
    then show ?thesis using facts by (subst prune.simps) (simp add: Let_def)
  next
    case False
    then have m: "length rows - length ?kept = CHUNK" using facts(1) by simp
    have "prune key time cutoff (n + CHUNK) ?kept = (n + CHUNK + length (filter ?old ?kept), filter (\<lambda>r. \<not> ?old r) ?kept)"
      using 1(1) [OF refl refl] m facts(4) by simp
    moreover have "CHUNK + length (filter ?old ?kept) = length (filter ?old rows)"
      using sum_length_filter_compl [of ?old ?kept] sum_length_filter_compl [of ?old rows] m facts(2)
        prune_chunk_shorter [of key time cutoff rows] by simp
    ultimately show ?thesis using m facts(2) by (subst prune.simps) (simp add: Let_def)
  qed
qed


definition live_until :: "maintenance_cfg \<Rightarrow> int \<Rightarrow> AdminSession \<Rightarrow> bool" where
  "live_until cfg now s \<longleftrightarrow> \<not> (as_expires_at s < now \<or> as_last_seen_at s < now - session_idle (mc_security cfg))"

lemma find_filter_unique:
  assumes "distinct (map key xs)"
  shows "find (\<lambda>x. key x = k) (filter P xs) = (case find (\<lambda>x. key x = k) xs of None \<Rightarrow> None | Some x \<Rightarrow> if P x then Some x else None)"
  using assms
proof (induction xs)
  case (Cons a xs)
  have "find (\<lambda>x. key x = k) (filter P xs) = None" if "key a = k"
    using that Cons.prems by (auto simp: find_None_iff) (metis imageI)
  with Cons show ?case by auto
qed simp

lemma resolve_after_cleaning:
  assumes "distinct (map as_token_hash (admin_sessions d))" "admin_users d' = admin_users d"
    "admin_sessions d' = filter (live_until cfg now) (admin_sessions d)"
  shows "map_sum id fst (resolve (mc_security cfg) d' raw now) = map_sum id fst (resolve (mc_security cfg) d raw now)"
proof (cases raw)
  case (Some r)
  show ?thesis
  proof (cases "token_hash r")
    case (Inr h)
    show ?thesis
    proof (cases "find (\<lambda>s. as_token_hash s = h) (admin_sessions d)")
      case None
      then have "find (\<lambda>s. as_token_hash s = h) (admin_sessions d') = None"
        using find_filter_unique [OF assms(1), of h "live_until cfg now"] assms(3) by simp
      with None Some Inr show ?thesis by (simp add: resolve_def)
    next
      case (Some s)
      then have f: "find (\<lambda>s. as_token_hash s = h) (admin_sessions d') = (if live_until cfg now s then Some s else None)"
        using find_filter_unique [OF assms(1), of h "live_until cfg now"] assms(3) by simp
      show ?thesis
      proof (cases "live_until cfg now s")
        case True
        with f Some Inr \<open>raw = Some r\<close> show ?thesis
          by (cases "row_get au_id (admin_users d) (as_admin_id s)") (simp_all add: resolve_def assms(2))
      next
        case False
        then have "as_expires_at s \<le> now \<or> as_last_seen_at s + session_idle (mc_security cfg) \<le> now" by (auto simp: live_until_def)
        with False f Some Inr \<open>raw = Some r\<close> show ?thesis
          by (cases "row_get au_id (admin_users d) (as_admin_id s)") (auto simp: resolve_def)
      qed
    qed
  qed (simp add: resolve_def Some)
qed (simp add: resolve_def)

lemma length_split: "length (filter (\<lambda>r. f r < k) xs) + length (filter (\<lambda>r. k \<le> f r) xs) = length xs" for f :: "'x \<Rightarrow> int"
  using sum_length_filter_compl [of "\<lambda>r. f r < k" xs] by (simp add: not_less)

text \<open>C18. A pass of housekeeping always ends, and it removes exactly the log rows that are older than the configured days, the
  administration sessions that are over and the RADIUS sessions that are stale, nothing else; it counts the removed log
  rows, and no administrator is signed out by it: every cookie is accepted or refused as before.\<close>

theorem maintenance_removes_exactly:
  assumes "distinct (map alog_id (auth_logs d))" "distinct (map tlog_id (tacacs_logs d))" "distinct (map aud_id (audit_logs d))"
    "distinct (map as_token_hash (admin_sessions d))"
  shows "\<exists>res d' rv'. maintenance_pass cfg since now (d, rv) = (res, d', rv') \<and>
    d' = d\<lparr>auth_logs := filter (\<lambda>r. now - int (rc_auth_log_days (mc_retention cfg)) * day \<le> alog_timestamp r) (auth_logs d),
      tacacs_logs := filter (\<lambda>r. now - int (rc_tacacs_log_days (mc_retention cfg)) * day \<le> tlog_timestamp r) (tacacs_logs d),
      audit_logs := filter (\<lambda>r. now - int (rc_audit_log_days (mc_retention cfg)) * day \<le> aud_timestamp r) (audit_logs d),
      admin_sessions := filter (live_until cfg now) (admin_sessions d),
      radius_sessions := filter (\<lambda>s. now - int (mc_stale_session_hours cfg) * hour \<le> rs_updated_at s) (radius_sessions d)\<rparr> \<and>
    ps_pruned res + length (auth_logs d') + length (tacacs_logs d') + length (audit_logs d') =
      length (auth_logs d) + length (tacacs_logs d) + length (audit_logs d) \<and>
    (\<forall>raw. map_sum id fst (resolve (mc_security cfg) d' raw now) = map_sum id fst (resolve (mc_security cfg) d raw now))"
proof -
  obtain res d' rv' where r: "maintenance_pass cfg since now (d, rv) = (res, d', rv')" by (metis prod_cases3)
  define auth where "auth = now - int (rc_auth_log_days (mc_retention cfg)) * day"
  define tac where "tac = now - int (rc_tacacs_log_days (mc_retention cfg)) * day"
  define aud where "aud = now - int (rc_audit_log_days (mc_retention cfg)) * day"
  have e: "d' = d\<lparr>auth_logs := filter (\<lambda>r. auth \<le> alog_timestamp r) (auth_logs d), tacacs_logs := filter (\<lambda>r. tac \<le> tlog_timestamp r) (tacacs_logs d),
      audit_logs := filter (\<lambda>r. aud \<le> aud_timestamp r) (audit_logs d), admin_sessions := filter (live_until cfg now) (admin_sessions d),
      radius_sessions := filter (\<lambda>s. now - int (mc_stale_session_hours cfg) * hour \<le> rs_updated_at s) (radius_sessions d)\<rparr>"
    and n: "ps_pruned res = length (filter (\<lambda>r. alog_timestamp r < auth) (auth_logs d)) + length (filter (\<lambda>r. tlog_timestamp r < tac) (tacacs_logs d)) +
      length (filter (\<lambda>r. aud_timestamp r < aud) (audit_logs d))"
    using r [unfolded maintenance_pass_def prod.case Let_def, folded auth_def tac_def aud_def]
    by (auto simp: prune_eq assms not_less live_until_def [abs_def])
  have "ps_pruned res + length (auth_logs d') + length (tacacs_logs d') + length (audit_logs d') =
      length (auth_logs d) + length (tacacs_logs d) + length (audit_logs d)"
    using length_split [of alog_timestamp auth "auth_logs d"] length_split [of tlog_timestamp tac "tacacs_logs d"] length_split [of aud_timestamp aud "audit_logs d"] n by (simp add: e)
  moreover have "map_sum id fst (resolve (mc_security cfg) d' raw now) = map_sum id fst (resolve (mc_security cfg) d raw now)" for raw
    by (rule resolve_after_cleaning) (simp_all add: e assms)
  ultimately show ?thesis using r e by (auto simp: auth_def tac_def aud_def)
qed


definition lab_old_db :: db where
  "lab_old_db = empty_db\<lparr>radius_sessions := [], audit_logs := [\<lparr>aud_id = 2, aud_timestamp = 0, aud_actor = [], aud_actor_type = SYSTEM, aud_ip = [],
     aud_action = [], aud_target_type = [], aud_target_id = [], aud_target_name = [], aud_changes = JNull\<rparr>]\<rparr>"

definition lab_maintenance :: maintenance_cfg where
  "lab_maintenance = \<lparr>mc_retention = \<lparr>rc_auth_log_days = 90, rc_tacacs_log_days = 90, rc_audit_log_days = 365\<rparr>,
     mc_security = \<lparr>sc_require_totp = True, sc_session_idle_minutes = 30, sc_session_max_hours = 12, sc_login_max_attempts = 10,
       sc_login_window_seconds = 300\<rparr>, mc_stale_session_hours = 24\<rparr>"

theorem maintenance_removes_exactly_witness:
  "\<exists>res d' rv'. maintenance_pass lab_maintenance None (366 * day) (lab_old_db, Reevaluator_init) = (res, d', rv') \<and> audit_logs d' = []"
proof -
  have "distinct (map alog_id (auth_logs lab_old_db))" "distinct (map tlog_id (tacacs_logs lab_old_db))"
    "distinct (map aud_id (audit_logs lab_old_db))" "distinct (map as_token_hash (admin_sessions lab_old_db))"
    by (simp_all add: lab_old_db_def empty_db_def)
  from maintenance_removes_exactly [OF this, of lab_maintenance None "366 * day" Reevaluator_init] show ?thesis
    by (elim exE conjE) (auto simp: lab_old_db_def lab_maintenance_def day_def hour_def second_def)
qed

section \<open>Expired guests are noticed\<close>

lemma expired_counted:
  assumes "g \<in> set (guest_registrations d)" "gr_revoked_at g = None" "since < gr_expires_at g" "gr_expires_at g \<le> now"
  shows "ps_guests_expired (fst (maintenance_pass cfg (Some since) now (d, rv))) \<noteq> 0"
  using assms by (auto simp: maintenance_pass_def Let_def guests_expired_def filter_empty_conv split: prod.splits)

lemma run_maintenance_nth:
  assumes "i < length ts" "\<not> mt_raises (ts ! i)"
  shows "\<exists>since. run_maintenance cfg start ts ! i = Some (fst (maintenance_pass cfg (Some since) (mt_now (ts ! i)) (mt_db (ts ! i), Reevaluator_init))) \<and>
    (since = start \<or> (\<exists>j<i. \<not> mt_raises (ts ! j) \<and> since = mt_now (ts ! j)))"
  using assms
proof (induction ts arbitrary: start i)
  case (Cons t ts)
  show ?case
  proof (cases i)
    case 0
    with Cons show ?thesis by auto
  next
    case (Suc k)
    let ?start = "if mt_raises t then start else mt_now t"
    obtain since where "run_maintenance cfg ?start ts ! k = Some (fst (maintenance_pass cfg (Some since) (mt_now (ts ! k)) (mt_db (ts ! k), Reevaluator_init)))"
      "since = ?start \<or> (\<exists>j<k. \<not> mt_raises (ts ! j) \<and> since = mt_now (ts ! j))"
      using Cons.IH [of k ?start] Cons.prems Suc by auto
    then show ?thesis using Suc by (intro exI [of _ since]) (auto split: if_splits)
  qed
qed simp

lemma length_run_maintenance [simp]: "length (run_maintenance cfg start ts) = length ts"
  by (induction ts arbitrary: start) auto

text \<open>C19. A guest registration that expires after the start, unrevoked, is noticed: the first pass that goes through at or after
  that time, however many passes before it raised, counts it and schedules re-evaluation.\<close>

theorem expired_guest_noticed:
  assumes "start < gr_expires_at g" "gr_revoked_at g = None" "i < length ts" "\<not> mt_raises (ts ! i)" "gr_expires_at g \<le> mt_now (ts ! i)"
    "\<And>j. j < i \<Longrightarrow> \<not> mt_raises (ts ! j) \<Longrightarrow> mt_now (ts ! j) < gr_expires_at g" "g \<in> set (guest_registrations (mt_db (ts ! i)))"
  shows "\<exists>res. run_maintenance cfg start ts ! i = Some res \<and> ps_guests_expired res \<noteq> 0 \<and>
    (\<exists>since. \<forall>rv. snd (snd (maintenance_pass cfg (Some since) (mt_now (ts ! i)) (mt_db (ts ! i), rv))) = schedule rv (u ''guest registrations expired''))"
proof -
  obtain since where s: "run_maintenance cfg start ts ! i =
      Some (fst (maintenance_pass cfg (Some since) (mt_now (ts ! i)) (mt_db (ts ! i), Reevaluator_init)))"
    "since = start \<or> (\<exists>j<i. \<not> mt_raises (ts ! j) \<and> since = mt_now (ts ! j))"
    using run_maintenance_nth [OF assms(3,4)] by blast
  then have "since < gr_expires_at g" using assms(1,6) by auto
  from expired_counted [OF assms(7,2) this assms(5)]
  have e: "ps_guests_expired (fst (maintenance_pass cfg (Some since) (mt_now (ts ! i)) (mt_db (ts ! i), rv))) \<noteq> 0" for rv .
  have "snd (snd (maintenance_pass cfg (Some since) (mt_now (ts ! i)) (mt_db (ts ! i), rv))) = schedule rv (u ''guest registrations expired'')" for rv
    using e [of rv] by (auto simp: maintenance_pass_def Let_def split: prod.splits)
  with s(1) e show ?thesis by blast
qed

definition lab_guest :: GuestRegistration where
  "lab_guest = \<lparr>gr_id = 2, gr_mac_address = u ''aa:bb:cc:dd:ee:01'', gr_full_name = [], gr_email = [], gr_nas_ip = [], gr_client_ip = [],
     gr_created_by = u ''portal'', gr_created_at = 0, gr_expires_at = 9, gr_revoked_at = None\<rparr>"

definition lab_turns :: "maintenance_turn list" where
  "lab_turns = [\<lparr>mt_now = 8, mt_db = empty_db\<lparr>guest_registrations := [lab_guest]\<rparr>, mt_raises = True\<rparr>,
     \<lparr>mt_now = 12, mt_db = empty_db\<lparr>guest_registrations := [lab_guest]\<rparr>, mt_raises = False\<rparr>]"

theorem expired_guest_noticed_witness:
  "\<exists>res. run_maintenance lab_maintenance 5 lab_turns ! 1 = Some res \<and> ps_guests_expired res \<noteq> 0"
  using expired_guest_noticed [of 5 lab_guest 1 lab_turns lab_maintenance] by (auto simp: lab_turns_def lab_guest_def)

text \<open>What expired before the start is never counted.\<close>

theorem expired_before_start:
  assumes "\<And>t g. t \<in> set ts \<Longrightarrow> g \<in> set (guest_registrations (mt_db t)) \<Longrightarrow> gr_expires_at g \<le> start"
    "sorted (map mt_now ts)" "\<forall>t\<in>set ts. start \<le> mt_now t" "Some res \<in> set (run_maintenance cfg start ts)"
  shows "ps_guests_expired res = 0"
proof -
  obtain i where i: "i < length ts" "run_maintenance cfg start ts ! i = Some res" using assms(4) by (auto simp: in_set_conv_nth)
  have "\<not> mt_raises (ts ! i)" using i
    by (induction ts arbitrary: start i) (auto simp: nth_Cons split: nat.splits if_splits)
  from run_maintenance_nth [OF i(1) this, of cfg start] i obtain since where
    s: "res = fst (maintenance_pass cfg (Some since) (mt_now (ts ! i)) (mt_db (ts ! i), Reevaluator_init))" "start \<le> since"
    using assms(3) by (auto dest!: spec)
  then show ?thesis using assms(1) [of "ts ! i"] i(1)
    by (fastforce simp: maintenance_pass_def Let_def guests_expired_def filter_empty_conv split: prod.splits)
qed

section \<open>There is an administrator from the start\<close>

text \<open>After a start that does not fail there is an administrator; when there was none before, it is an enabled SUPERUSER whose
  password is the one reported and has to be changed.\<close>

theorem ensure_admin_creates:
  assumes "ensure_admin bc env_password drawn d now = (Inr result, d')"
  shows "admin_users d' \<noteq> [] \<and> (admin_users d = [] \<longrightarrow> superuser_left (admin_users d') \<and>
    (\<exists>a password. admin_users d' = [a] \<and> result = Some password \<and> au_must_change_password a \<and> au_totp_secret a = None \<and>
       hash_password bc password = Inr (au_password_hash a) \<and> validate_admin_password password = Inr ()))"
  using assms
  by (auto simp: ensure_admin_def Let_def superuser_left_def is_superuser_def split: if_splits sum.splits py_exc.splits)


end
