(* ===== verification/Configuration.thy ===== *)
theory Configuration
  imports Vault Portal Lifecycle
begin

text \<open>
  \<open>config.yaml\<close>: the sections of \<open>naco/config.py\<close> with their bounds and validators, and \<open>load_config\<close> with the overrides
  from the environment.  The YAML parser and pydantic are parameters: a file gives a JSON value or an error, and
  \<open>coerce\<close> reads the typed sections from a dictionary (types, defaults, unknown keys).  What follows is the code's own:
  the bounds of the numbers, the validators and their order.  Durations are in microseconds.
\<close>

section \<open>Sections\<close>

text \<open>What pydantic reports: where, and what is wrong.\<close>

datatype config_fault = Too_Small | Too_Large | Too_Long | Value_Error pystr | Wrong_Type pystr

type_synonym faults = "(pystr list \<times> config_fault) list"

datatype log_level = LL_DEBUG | LL_INFO | LL_WARNING | LL_ERROR
datatype log_format = LF_TEXT | LF_JSON
datatype syslog_protocol = SP_UDP | SP_TCP

record ServerConfig =
  sv_name :: pystr
  sv_timezone :: pystr
  sv_log_level :: log_level
  sv_log_format :: log_format
  sv_host :: pystr
  sv_http_port :: int
  sv_internal_port :: int
  sv_trusted_proxies :: "pystr list"

record RadiusConfig =
  rd_coa_timeout :: int
  rd_coa_retries :: int
  rd_stale_session_hours :: int
  rd_nas_secret_min_length :: int

record TacacsConfig =
  tn_enabled :: bool
  tn_port :: int
  tn_max_connections :: int
  tn_max_connections_per_client :: int
  tn_idle_timeout_seconds :: int

record LdapSettings = LdapConfig +
  ls_servers :: "pystr list"
  ls_ca_file :: pystr
  ls_allow_insecure :: bool
  ls_timeout_seconds :: int

record SyslogConfig =
  sy_enabled :: bool
  sy_host :: pystr
  sy_port :: int
  sy_protocol :: syslog_protocol
  sy_facility :: pystr

record AppConfig =
  ap_server :: ServerConfig
  ap_database_path :: pystr
  ap_security :: SecurityConfig
  ap_radius :: RadiusConfig
  ap_tacacs :: TacacsConfig
  ap_portal :: PortalConfig
  ap_ldap :: LdapSettings
  ap_syslog :: SyslogConfig
  ap_retention :: RetentionConfig

text \<open>\<open>Field(ge=lo, le=hi)\<close>.\<close>

definition bounded :: "string \<Rightarrow> string \<Rightarrow> int \<Rightarrow> int \<Rightarrow> int \<Rightarrow> faults" where
  "bounded sec field lo hi n =
     (if n < lo then [([u sec, u field], Too_Small)] else if hi < n then [([u sec, u field], Too_Large)] else [])"

text \<open>The part of a text before a separator, if that is there.\<close>

fun cut_at :: "pystr \<Rightarrow> pystr \<Rightarrow> pystr option" where
  "cut_at sep [] = (if sep = [] then Some [] else None)"
| "cut_at sep (c # cs) = (if startswith (c # cs) sep then Some [] else map_option ((#) c) (cut_at sep cs))"

definition quoted :: "pystr \<Rightarrow> pystr" where
  "quoted s = [39] @ s @ [39]"

definition valid_timezone :: "(pystr \<Rightarrow> bool) \<Rightarrow> pystr \<Rightarrow> faults" where
  "valid_timezone zones v =
     (if zones v then [] else [([u ''server'', u ''timezone''], Value_Error (u ''unknown timezone '' @ quoted v))])"

fun valid_networks :: "pystr list \<Rightarrow> config_fault + pystr list" where
  "valid_networks [] = Inr []"
| "valid_networks (item # rest) =
     (case ip_network (strip item) of
        None \<Rightarrow> Inl (Value_Error (u ''invalid address or network '' @ quoted item))
      | Some net \<Rightarrow> rbind (valid_networks rest) (\<lambda>out. Inr (show_net net # out)))"

definition ServerConfig_check :: "(pystr \<Rightarrow> bool) \<Rightarrow> ServerConfig \<Rightarrow> faults + ServerConfig" where
  "ServerConfig_check zones c =
     (let nets = valid_networks (sv_trusted_proxies c);
          faults = valid_timezone zones (sv_timezone c) @ bounded ''server'' ''http_port'' 1 65535 (sv_http_port c) @
            bounded ''server'' ''internal_port'' 1 65535 (sv_internal_port c) @
            (case nets of Inl e \<Rightarrow> [([u ''server'', u ''trusted_proxies''], e)] | Inr _ \<Rightarrow> [])
      in case nets of
           Inr out \<Rightarrow> if faults = [] then Inr (c\<lparr>sv_trusted_proxies := out\<rparr>) else Inl faults
         | Inl _ \<Rightarrow> Inl faults)"

definition SecurityConfig_faults :: "SecurityConfig \<Rightarrow> faults" where
  "SecurityConfig_faults c =
     bounded ''security'' ''session_idle_minutes'' 5 (24 * 60) (int (sc_session_idle_minutes c)) @
     bounded ''security'' ''session_max_hours'' 1 (7 * 24) (int (sc_session_max_hours c)) @
     bounded ''security'' ''login_max_attempts'' 3 1000 (int (sc_login_max_attempts c)) @
     bounded ''security'' ''login_window_seconds'' 30 86400 (int (sc_login_window_seconds c))"

definition RadiusConfig_faults :: "RadiusConfig \<Rightarrow> faults" where
  "RadiusConfig_faults c =
     bounded ''radius'' ''coa_timeout_seconds'' 1 (30 * second) (rd_coa_timeout c) @
     bounded ''radius'' ''coa_retries'' 1 10 (rd_coa_retries c) @
     bounded ''radius'' ''stale_session_hours'' 1 (24 * 30) (rd_stale_session_hours c) @
     bounded ''radius'' ''nas_secret_min_length'' 8 128 (rd_nas_secret_min_length c)"

definition TacacsConfig_faults :: "TacacsConfig \<Rightarrow> faults" where
  "TacacsConfig_faults c =
     bounded ''tacacs'' ''port'' 1 65535 (tn_port c) @
     bounded ''tacacs'' ''max_connections'' 1 10000 (tn_max_connections c) @
     bounded ''tacacs'' ''max_connections_per_client'' 1 1000 (tn_max_connections_per_client c) @
     bounded ''tacacs'' ''idle_timeout_seconds'' 5 3600 (tn_idle_timeout_seconds c)"

definition PortalConfig_check :: "PortalConfig \<Rightarrow> faults + PortalConfig" where
  "PortalConfig_check c =
     (let v = strip (pc_access_code c);
          faults =
            (if length (pc_access_code c) > 64 then [([u ''portal'', u ''access_code''], Too_Long)]
             else if v \<noteq> [] \<and> length v < 6 then [([u ''portal'', u ''access_code''], Value_Error (u ''access_code must be empty or at least 6 characters''))]
             else []) @
            bounded ''portal'' ''session_hours'' 1 (24 * 30) (pc_session_hours c) @
            bounded ''portal'' ''match_window_minutes'' 1 (24 * 60) (pc_match_window_minutes c)
      in if faults = [] then Inr (c\<lparr>pc_access_code := v\<rparr>) else Inl faults)"

subsection \<open>The directory\<close>

definition has_placeholder :: "pystr \<Rightarrow> bool" where
  "has_placeholder v \<longleftrightarrow> cut_at (u ''{username}'') v \<noteq> None"

definition uri_scheme :: "pystr \<Rightarrow> pystr" where
  "uri_scheme uri = (case cut_at (u ''://'') uri of Some s \<Rightarrow> lower s | None \<Rightarrow> [])"

text \<open>\<open>_transport\<close>: the first fault is raised.\<close>

fun transport_uris :: "LdapSettings \<Rightarrow> pystr list \<Rightarrow> config_fault option" where
  "transport_uris c [] = None"
| "transport_uris c (uri # uris) =
     (let scheme = uri_scheme uri in
      if scheme \<notin> {u ''ldap'', u ''ldaps''} then Some (Value_Error (quoted uri @ u '': servers must be ldap:// or ldaps:// URIs''))
      else if scheme = u ''ldaps'' \<and> lc_start_tls c then Some (Value_Error (quoted uri @ u '': start_tls cannot be combined with ldaps://''))
      else if scheme = u ''ldap'' \<and> \<not> lc_start_tls c \<and> \<not> ls_allow_insecure c then
        Some (Value_Error (quoted uri @ u '' sends passwords in clear text'' @ em_dash @ u ''use ldaps://, start_tls: true, or set allow_insecure: true deliberately''))
      else transport_uris c uris)"

definition transport :: "LdapSettings \<Rightarrow> config_fault option" where
  "transport c =
     (if lc_enabled c \<and> ls_servers c = [] then Some (Value_Error (u ''ldap.enabled requires at least one entry in servers''))
      else transport_uris c (ls_servers c))"

text \<open>A model validator runs only when the fields are right.\<close>

definition LdapConfig_faults :: "LdapSettings \<Rightarrow> faults" where
  "LdapConfig_faults c =
     (let fields =
        (if has_placeholder (lc_user_filter c) then []
         else [([u ''ldap'', u ''user_filter''], Value_Error (u ''user_filter must contain the {username} placeholder''))]) @
        bounded ''ldap'' ''timeout_seconds'' 1 60 (ls_timeout_seconds c)
      in if fields \<noteq> [] then fields else case transport c of None \<Rightarrow> [] | Some e \<Rightarrow> [([u ''ldap''], e)])"

definition SyslogConfig_faults :: "SyslogConfig \<Rightarrow> faults" where
  "SyslogConfig_faults c =
     (let fields = bounded ''syslog'' ''port'' 1 65535 (sy_port c)
      in if fields \<noteq> [] then fields
         else if sy_enabled c \<and> sy_host c = [] then [([u ''syslog''], Value_Error (u ''syslog.enabled requires a host''))] else [])"

definition RetentionConfig_faults :: "RetentionConfig \<Rightarrow> faults" where
  "RetentionConfig_faults c =
     bounded ''retention'' ''auth_log_days'' 1 3650 (int (rc_auth_log_days c)) @
     bounded ''retention'' ''tacacs_log_days'' 1 3650 (int (rc_tacacs_log_days c)) @
     bounded ''retention'' ''audit_log_days'' 1 3650 (int (rc_audit_log_days c))"

definition fault_list :: "faults + 'a \<Rightarrow> faults" where
  "fault_list r = (case r of Inl fs \<Rightarrow> fs | Inr _ \<Rightarrow> [])"

definition AppConfig_check :: "(pystr \<Rightarrow> bool) \<Rightarrow> AppConfig \<Rightarrow> faults + AppConfig" where
  "AppConfig_check zones c =
     (let server = ServerConfig_check zones (ap_server c); portal = PortalConfig_check (ap_portal c);
          faults = fault_list server @ SecurityConfig_faults (ap_security c) @ RadiusConfig_faults (ap_radius c) @
            TacacsConfig_faults (ap_tacacs c) @ fault_list portal @ LdapConfig_faults (ap_ldap c) @
            SyslogConfig_faults (ap_syslog c) @ RetentionConfig_faults (ap_retention c)
      in case (server, portal) of
           (Inr sv, Inr pc) \<Rightarrow> if faults = [] then Inr (c\<lparr>ap_server := sv, ap_portal := pc\<rparr>) else Inl faults
         | _ \<Rightarrow> Inl faults)"

definition format_validation_error :: "(config_fault \<Rightarrow> pystr) \<Rightarrow> faults \<Rightarrow> pystr" where
  "format_validation_error describe fs = join (u ''; '') (map (\<lambda>(loc, f). join (u ''.'') loc @ u '': '' @ describe f) fs)"

section \<open>Loading\<close>

datatype config_error = ConfigError pystr | Config_Raised py_exc

text \<open>The files: \<open>None\<close> when there is no such file, else what reading and parsing it gives.\<close>

type_synonym yaml_files = "pystr \<Rightarrow> (pystr + json) option"

fun falsy :: "json \<Rightarrow> bool" where
  "falsy JNull = True"
| "falsy (JBool b) = (\<not> b)"
| "falsy (JInt n) = (n = 0)"
| "falsy (JFloat s) = (s \<in> {u ''0.0'', u ''-0.0''})"
| "falsy (JStr s) = (s = [])"
| "falsy (JArr xs) = (xs = [])"
| "falsy (JObj kvs) = (kvs = [])"

definition read_yaml :: "pystr \<Rightarrow> pystr + json \<Rightarrow> config_error + (pystr \<times> json) list" where
  "read_yaml path content =
     (case content of
        Inl e \<Rightarrow> Inl (ConfigError (u ''cannot read '' @ path @ u '': '' @ e))
      | Inr loaded \<Rightarrow>
          if falsy loaded then Inr []
          else (case loaded of JObj kvs \<Rightarrow> Inr kvs | _ \<Rightarrow> Inl (ConfigError (path @ u '': top level must be a mapping''))))"

definition DEFAULT_CONFIG_PATH :: pystr where
  "DEFAULT_CONFIG_PATH = u ''/etc/naco/config.yaml''"

definition dict_set :: "pystr \<Rightarrow> 'v \<Rightarrow> (pystr \<times> 'v) list \<Rightarrow> (pystr \<times> 'v) list" where
  "dict_set k v kvs = (if k \<in> set (map fst kvs) then map (\<lambda>(k', x). (k', if k' = k then v else x)) kvs else kvs @ [(k, v)])"

text \<open>\<open>data.setdefault(section, {})[key] = value\<close>: a section that is not a dictionary raises \<open>TypeError\<close>.\<close>

definition set_default :: "string \<Rightarrow> string \<Rightarrow> json \<Rightarrow> (pystr \<times> json) list \<Rightarrow> config_error + (pystr \<times> json) list" where
  "set_default sec key value data =
     (case map_of data (u sec) of
        None \<Rightarrow> Inr (data @ [(u sec, JObj [(u key, value)])])
      | Some (JObj kvs) \<Rightarrow> Inr (dict_set (u sec) (JObj (dict_set (u key) value kvs)) data)
      | Some _ \<Rightarrow> Inl (Config_Raised TypeError))"

definition override :: "environ \<Rightarrow> string \<Rightarrow> string \<Rightarrow> string \<Rightarrow> (pystr \<Rightarrow> json) \<Rightarrow> (pystr \<times> json) list \<Rightarrow> config_error + (pystr \<times> json) list" where
  "override env name sec key conv data =
     (case env (u name) of
        Some v \<Rightarrow> if v \<noteq> [] then set_default sec key (conv v) data else Inr data
      | None \<Rightarrow> Inr data)"

definition proxies_value :: "pystr \<Rightarrow> json" where
  "proxies_value v = JArr (map JStr (filter (\<lambda>p. p \<noteq> []) (map strip (split1 44 v))))"

definition config_data :: "yaml_files \<Rightarrow> environ \<Rightarrow> pystr option \<Rightarrow> config_error + (pystr \<times> json) list" where
  "config_data files env path =
     (let explicit = (if truthy path then path else env (u ''NACO_CONFIG'')) in
      if truthy explicit then
        (case files (the explicit) of
           None \<Rightarrow> Inl (ConfigError (u ''config file not found: '' @ the explicit))
         | Some content \<Rightarrow> read_yaml (the explicit) content)
      else
        (case files DEFAULT_CONFIG_PATH of
           None \<Rightarrow> Inr []
         | Some content \<Rightarrow> read_yaml DEFAULT_CONFIG_PATH content))"

definition load_config ::
    "((pystr \<times> json) list \<Rightarrow> faults + AppConfig) \<Rightarrow> (config_fault \<Rightarrow> pystr) \<Rightarrow> (pystr \<Rightarrow> bool) \<Rightarrow> yaml_files \<Rightarrow> environ \<Rightarrow> pystr option \<Rightarrow>
      config_error + AppConfig" where
  "load_config coerce describe zones files env path =
     rbind (config_data files env path) (\<lambda>data.
     rbind (override env ''NACO_DATABASE_PATH'' ''database'' ''path'' JStr data) (\<lambda>data.
     rbind (override env ''NACO_TRUSTED_PROXIES'' ''server'' ''trusted_proxies'' proxies_value data) (\<lambda>data.
       case rbind (coerce data) (AppConfig_check zones) of
         Inl fs \<Rightarrow> Inl (ConfigError (u ''invalid configuration'' @ em_dash @ format_validation_error describe fs))
       | Inr c \<Rightarrow> Inr c)))"

text \<open>How \<open>_server_pool\<close> of \<open>naco/auth/ldap.py\<close> connects to a server.\<close>

definition server_use_ssl :: "pystr \<Rightarrow> bool" where
  "server_use_ssl uri \<longleftrightarrow> startswith (lower uri) (u ''ldaps://'')"

section \<open>A configuration that loads is sound\<close>

lemma bounded_Nil [simp]: "bounded sec field lo hi n = [] \<longleftrightarrow> lo \<le> n \<and> n \<le> hi"
  by (auto simp: bounded_def)

lemma cut_at_Some: "cut_at sep s = Some a \<Longrightarrow> \<exists>b. s = a @ sep @ b"
proof (induction sep s arbitrary: a rule: cut_at.induct)
  case (2 sep c cs)
  then show ?case
  proof (cases "startswith (c # cs) sep")
    case True
    with 2(2) show ?thesis by (metis append_Nil append_take_drop_id cut_at.simps(2) option.inject startswith_def)
  qed auto
qed (simp split: if_splits)

lemma uri_of_scheme:
  assumes "uri_scheme uri = u sch" "sch \<noteq> []"
  shows "startswith (lower uri) (u sch @ u ''://'')"
proof -
  from assms obtain s where s: "cut_at (u ''://'') uri = Some s" "lower s = u sch"
    by (auto simp: uri_scheme_def split: option.splits)
  then obtain b where "uri = s @ u ''://'' @ b" using cut_at_Some by blast
  then have "lower uri = (u sch @ u ''://'') @ lower b" using s(2) by (simp add: lower_def u_def lower_char_def)
  then show ?thesis by (simp add: startswith_def)
qed

text \<open>How a directory server may be reached: over TLS, over StartTLS, or in clear text when that is allowed.\<close>

definition transport_allowed :: "LdapSettings \<Rightarrow> pystr \<Rightarrow> bool" where
  "transport_allowed c uri \<longleftrightarrow>
     startswith (lower uri) (u ''ldaps://'') \<and> server_use_ssl uri \<and> \<not> lc_start_tls c \<or>
     startswith (lower uri) (u ''ldap://'') \<and> (lc_start_tls c \<or> ls_allow_insecure c)"

lemma transport_uris_ok: "transport_uris c uris = None \<Longrightarrow> uri \<in> set uris \<Longrightarrow> transport_allowed c uri"
proof (induction uris)
  case (Cons x xs)
  have "uri_scheme uri = u ''ldaps'' \<Longrightarrow> startswith (lower uri) (u ''ldaps://'')" "uri_scheme uri = u ''ldap'' \<Longrightarrow> startswith (lower uri) (u ''ldap://'')"
    using uri_of_scheme [of uri "''ldaps''"] uri_of_scheme [of uri "''ldap''"] by (simp_all flip: u_append)
  with Cons show ?case by (auto simp: Let_def transport_allowed_def server_use_ssl_def split: if_splits)
qed simp

lemma valid_networks_ok: "valid_networks items = Inr out \<Longrightarrow> list_all2 (\<lambda>item o'. \<exists>net. ip_network (strip item) = Some net \<and> o' = show_net net) items out"
  by (induction items arbitrary: out) (auto simp: rbind_eq_Inr split: option.splits)

text \<open>The value of a key in a section.\<close>

definition data_get :: "(pystr \<times> json) list \<Rightarrow> string \<Rightarrow> string \<Rightarrow> json option" where
  "data_get data sec key = (case map_of data (u sec) of Some (JObj kvs) \<Rightarrow> map_of kvs (u key) | _ \<Rightarrow> None)"

lemma map_of_replace:
  "map_of (map (\<lambda>(k', x). (k', if k' = k then v else x)) kvs) j = (if j = k then map_option (\<lambda>_. v) (map_of kvs j) else map_of kvs j)"
  by (induction kvs) auto

lemma map_of_dict_set [simp]: "map_of (dict_set k v kvs) j = (if j = k then Some v else map_of kvs j)"
proof (cases "map_of kvs k")
  case None
  then have "k \<notin> set (map fst kvs)" by (simp add: map_of_eq_None_iff)
  with None show ?thesis by (simp add: dict_set_def map_add_def split: option.split)
next
  case (Some x)
  then have "k \<in> set (map fst kvs)" by (force dest: map_of_SomeD)
  with Some show ?thesis by (simp add: dict_set_def map_of_replace)
qed

lemma set_default_get:
  assumes "set_default sec key v data = Inr data'"
  shows "data_get data' sec key = Some v" "u sec' \<noteq> u sec \<Longrightarrow> data_get data' sec' key' = data_get data sec' key'"
proof -
  have *: "map_of data (u sec) = None \<and> data' = data @ [(u sec, JObj [(u key, v)])] \<or>
      (\<exists>kvs. map_of data (u sec) = Some (JObj kvs) \<and> data' = dict_set (u sec) (JObj (dict_set (u key) v kvs)) data)"
    using assms by (auto simp: set_default_def split: option.splits json.splits)
  then show "data_get data' sec key = Some v"
    by (auto simp: data_get_def map_add_def)
  show "data_get data' sec' key' = data_get data sec' key'" if "u sec' \<noteq> u sec"
    using * that by (cases "map_of data (u sec')") (auto simp: data_get_def map_add_def)
qed

definition overridden :: "environ \<Rightarrow> string \<Rightarrow> string \<Rightarrow> string \<Rightarrow> (pystr \<Rightarrow> json) \<Rightarrow> (pystr \<times> json) list \<Rightarrow> bool" where
  "overridden env name sec key conv data \<longleftrightarrow> (\<forall>v. env (u name) = Some v \<longrightarrow> v \<noteq> [] \<longrightarrow> data_get data sec key = Some (conv v))"

lemma override_get: "override env name sec key conv data = Inr data' \<Longrightarrow> overridden env name sec key conv data'"
  by (auto simp: override_def overridden_def split: option.splits if_splits dest: set_default_get(1))

lemma override_keeps:
  "override env name sec key conv data = Inr data' \<Longrightarrow> u sec' \<noteq> u sec \<Longrightarrow> data_get data' sec' key' = data_get data sec' key'"
  by (auto simp: override_def split: option.splits if_splits dest: set_default_get(2))

text \<open>The ranges of all numbers in a configuration, section by section.\<close>

definition numbers_in_range :: "AppConfig \<Rightarrow> bool" where
  "numbers_in_range c \<longleftrightarrow>
     sv_http_port (ap_server c) \<in> {1..65535} \<and> sv_internal_port (ap_server c) \<in> {1..65535} \<and>
     sc_session_idle_minutes (ap_security c) \<in> {5..1440} \<and> sc_session_max_hours (ap_security c) \<in> {1..168} \<and>
     sc_login_max_attempts (ap_security c) \<in> {3..1000} \<and> sc_login_window_seconds (ap_security c) \<in> {30..86400} \<and>
     rd_coa_timeout (ap_radius c) \<in> {0<..30 * second} \<and> rd_coa_retries (ap_radius c) \<in> {1..10} \<and>
     rd_stale_session_hours (ap_radius c) \<in> {1..720} \<and> rd_nas_secret_min_length (ap_radius c) \<in> {8..128} \<and>
     tn_port (ap_tacacs c) \<in> {1..65535} \<and> tn_max_connections (ap_tacacs c) \<in> {1..10000} \<and>
     tn_max_connections_per_client (ap_tacacs c) \<in> {1..1000} \<and> tn_idle_timeout_seconds (ap_tacacs c) \<in> {5..3600} \<and>
     pc_session_hours (ap_portal c) \<in> {1..720} \<and> pc_match_window_minutes (ap_portal c) \<in> {1..1440} \<and>
     ls_timeout_seconds (ap_ldap c) \<in> {1..60} \<and> sy_port (ap_syslog c) \<in> {1..65535} \<and>
     rc_auth_log_days (ap_retention c) \<in> {1..3650} \<and> rc_tacacs_log_days (ap_retention c) \<in> {1..3650} \<and>
     rc_audit_log_days (ap_retention c) \<in> {1..3650}"

definition app_config_sound :: "(pystr \<Rightarrow> bool) \<Rightarrow> AppConfig \<Rightarrow> bool" where
  "app_config_sound zones c \<longleftrightarrow>
     numbers_in_range c \<and> zones (sv_timezone (ap_server c)) \<and>
     (\<forall>p\<in>set (sv_trusted_proxies (ap_server c)). \<exists>item net. ip_network item = Some net \<and> p = show_net net) \<and>
     (let code = pc_access_code (ap_portal c) in strip code = code \<and> length code \<le> 64 \<and> (code = [] \<or> 6 \<le> length code)) \<and>
     (\<exists>pre post. lc_user_filter (ap_ldap c) = pre @ u ''{username}'' @ post) \<and>
     (lc_enabled (ap_ldap c) \<longrightarrow> ls_servers (ap_ldap c) \<noteq> []) \<and> list_all (transport_allowed (ap_ldap c)) (ls_servers (ap_ldap c)) \<and>
     (sy_enabled (ap_syslog c) \<longrightarrow> sy_host (ap_syslog c) \<noteq> [])"

lemma server_check_sound:
  assumes "ServerConfig_check zones s = Inr s'"
  shows "zones (sv_timezone s')" "sv_http_port s' \<in> {1..65535}" "sv_internal_port s' \<in> {1..65535}"
    "\<forall>p\<in>set (sv_trusted_proxies s'). \<exists>item net. ip_network item = Some net \<and> p = show_net net" "s' = s\<lparr>sv_trusted_proxies := sv_trusted_proxies s'\<rparr>"
    "list_all2 (\<lambda>item n. \<exists>net. ip_network (strip item) = Some net \<and> n = show_net net) (sv_trusted_proxies s) (sv_trusted_proxies s')"
proof -
  from assms obtain out where v: "valid_networks (sv_trusted_proxies s) = Inr out" and s': "s' = s\<lparr>sv_trusted_proxies := out\<rparr>"
    and f: "valid_timezone zones (sv_timezone s) = []" "1 \<le> sv_http_port s \<and> sv_http_port s \<le> 65535" "1 \<le> sv_internal_port s \<and> sv_internal_port s \<le> 65535"
    by (auto simp: ServerConfig_check_def Let_def split: sum.splits if_splits)
  show "zones (sv_timezone s')" "sv_http_port s' \<in> {1..65535}" "sv_internal_port s' \<in> {1..65535}"
    using f by (auto simp: s' valid_timezone_def split: if_splits)
  show "\<forall>p\<in>set (sv_trusted_proxies s'). \<exists>item net. ip_network item = Some net \<and> p = show_net net"
    using valid_networks_ok [OF v] by (fastforce simp: s' list_all2_conv_all_nth in_set_conv_nth)
  show "s' = s\<lparr>sv_trusted_proxies := sv_trusted_proxies s'\<rparr>" by (simp add: s')
  show "list_all2 (\<lambda>item n. \<exists>net. ip_network (strip item) = Some net \<and> n = show_net net) (sv_trusted_proxies s) (sv_trusted_proxies s')"
    using valid_networks_ok [OF v] by (simp add: s')
qed

lemma portal_check_sound:
  assumes "PortalConfig_check c = Inr pc"
  shows "pc = c\<lparr>pc_access_code := strip (pc_access_code c)\<rparr>" "length (pc_access_code pc) \<le> 64" "pc_access_code pc = [] \<or> 6 \<le> length (pc_access_code pc)"
    "pc_session_hours pc \<in> {1..720}" "pc_match_window_minutes pc \<in> {1..1440}"
proof -
  let ?v = "strip (pc_access_code c)"
  from assms show pc: "pc = c\<lparr>pc_access_code := ?v\<rparr>" by (auto simp: PortalConfig_check_def Let_def split: if_splits)
  from assms have b: "length (pc_access_code c) \<le> 64" "?v = [] \<or> 6 \<le> length ?v"
    "1 \<le> pc_session_hours c" "pc_session_hours c \<le> 24 * 30" "1 \<le> pc_match_window_minutes c" "pc_match_window_minutes c \<le> 24 * 60"
    by (auto simp: PortalConfig_check_def Let_def split: if_splits)
  show "length (pc_access_code pc) \<le> 64" using length_strip_le [of "pc_access_code c"] b(1) by (simp add: pc)
  show "pc_access_code pc = [] \<or> 6 \<le> length (pc_access_code pc)" "pc_session_hours pc \<in> {1..720}" "pc_match_window_minutes pc \<in> {1..1440}"
    using b by (auto simp: pc)
qed

lemma ldap_faults_sound:
  assumes "LdapConfig_faults c = []"
  shows "\<exists>pre post. lc_user_filter c = pre @ u ''{username}'' @ post" "lc_enabled c \<longrightarrow> ls_servers c \<noteq> []"
    "list_all (transport_allowed c) (ls_servers c)" "ls_timeout_seconds c \<in> {1..60}"
proof -
  from assms have c: "has_placeholder (lc_user_filter c)" "transport c = None" "ls_timeout_seconds c \<in> {1..60}"
    by (auto simp: LdapConfig_faults_def Let_def split: if_splits option.splits)
  then show "\<exists>pre post. lc_user_filter c = pre @ u ''{username}'' @ post" using cut_at_Some by (fastforce simp: has_placeholder_def)
  from c(2) show "lc_enabled c \<longrightarrow> ls_servers c \<noteq> []" by (auto simp: transport_def)
  from c(2) have "transport_uris c (ls_servers c) = None" by (auto simp: transport_def split: if_splits)
  then show "list_all (transport_allowed c) (ls_servers c)" using transport_uris_ok by (auto simp: list_all_iff)
  show "ls_timeout_seconds c \<in> {1..60}" by (rule c(3))
qed

lemma app_check_sound:
  assumes "AppConfig_check zones c = Inr c'"
  shows "app_config_sound zones c' \<and> (\<exists>nets. c' = c\<lparr>ap_server := (ap_server c)\<lparr>sv_trusted_proxies := nets\<rparr>,
    ap_portal := (ap_portal c)\<lparr>pc_access_code := strip (pc_access_code (ap_portal c))\<rparr>\<rparr> \<and>
    list_all2 (\<lambda>item n. \<exists>net. ip_network (strip item) = Some net \<and> n = show_net net) (sv_trusted_proxies (ap_server c)) nets)"
proof -
  from assms obtain sv pc where s: "ServerConfig_check zones (ap_server c) = Inr sv" and p: "PortalConfig_check (ap_portal c) = Inr pc"
    and c': "c' = c\<lparr>ap_server := sv, ap_portal := pc\<rparr>"
    and f: "SecurityConfig_faults (ap_security c) = []" "RadiusConfig_faults (ap_radius c) = []" "TacacsConfig_faults (ap_tacacs c) = []"
      "LdapConfig_faults (ap_ldap c) = []" "SyslogConfig_faults (ap_syslog c) = []" "RetentionConfig_faults (ap_retention c) = []"
    by (auto simp: AppConfig_check_def Let_def fault_list_def split: sum.splits if_splits)
  note server = server_check_sound [OF s] and portal = portal_check_sound [OF p] and ldap = ldap_faults_sound [OF f(4)]
  have syslog: "sy_enabled (ap_syslog c) \<longrightarrow> sy_host (ap_syslog c) \<noteq> []" "sy_port (ap_syslog c) \<in> {1..65535}"
    using f(5) by (auto simp: SyslogConfig_faults_def Let_def split: if_splits)
  have "numbers_in_range c'"
    using server(2,3) portal(4,5) ldap(4) syslog(2) f(1,2,3,6)
    by (auto simp: numbers_in_range_def c' SecurityConfig_faults_def RadiusConfig_faults_def TacacsConfig_faults_def RetentionConfig_faults_def)
  moreover have "strip (pc_access_code pc) = pc_access_code pc" using portal(1) by (metis PortalConfig.select_convs(2) PortalConfig.surjective PortalConfig.update_convs(2) strip_idem)
  ultimately have "app_config_sound zones c'"
    using server(1,4) portal(2,3) ldap(1-3) syslog(1) by (simp add: app_config_sound_def c' Let_def)
  moreover have "c' = c\<lparr>ap_server := (ap_server c)\<lparr>sv_trusted_proxies := sv_trusted_proxies sv\<rparr>,
      ap_portal := (ap_portal c)\<lparr>pc_access_code := strip (pc_access_code (ap_portal c))\<rparr>\<rparr>"
    using server(5) portal(1) c' by metis
  ultimately show ?thesis using server(6) by blast
qed

lemma sum_case_Inr: "(case r of Inl e \<Rightarrow> Inl (f e) | Inr x \<Rightarrow> Inr x) = Inr c \<longleftrightarrow> r = Inr c"
  by (cases r) auto


text \<open>A section that is written without content, with an override for it: \<open>TypeError\<close> instead of a configuration error.\<close>

theorem load_config_empty_section:
  "load_config coerce describe zones (\<lambda>p. if p = u ''c.yaml'' then Some (Inr (JObj [(u ''server'', JNull)])) else None)
     (map_of [(u ''NACO_TRUSTED_PROXIES'', u ''10.0.0.1'')]) (Some (u ''c.yaml'')) = Inl (Config_Raised TypeError)"
  by (simp add: load_config_def config_data_def read_yaml_def override_def set_default_def truthy_def)

definition lab_config :: AppConfig where
  "lab_config = \<lparr>
     ap_server = \<lparr>sv_name = u ''NACo'', sv_timezone = u ''UTC'', sv_log_level = LL_INFO, sv_log_format = LF_TEXT, sv_host = u ''0.0.0.0'', sv_http_port = 8080,
       sv_internal_port = 8081, sv_trusted_proxies = []\<rparr>,
     ap_database_path = u ''/var/lib/naco/naco.db'', ap_security = mc_security lab_maintenance,
     ap_radius = \<lparr>rd_coa_timeout = 2 * second, rd_coa_retries = 3, rd_stale_session_hours = 24, rd_nas_secret_min_length = 16\<rparr>,
     ap_tacacs = \<lparr>tn_enabled = True, tn_port = 4949, tn_max_connections = 256, tn_max_connections_per_client = 32, tn_idle_timeout_seconds = 30\<rparr>,
     ap_portal = \<lparr>pc_enabled = True, pc_access_code = [], pc_session_hours = 8, pc_match_window_minutes = 15\<rparr>,
     ap_ldap = \<lparr>lc_enabled = True, lc_start_tls = False, lc_bind_dn = [], lc_base_dn = [], lc_user_filter = u ''(u={username})'',
       lc_group_attribute = u ''memberOf'', lc_nested_groups = False, lc_group_map = [], ls_servers = [u ''LDAPS://dc''], ls_ca_file = [],
       ls_allow_insecure = False, ls_timeout_seconds = 5\<rparr>,
     ap_syslog = \<lparr>sy_enabled = False, sy_host = [], sy_port = 514, sy_protocol = SP_UDP, sy_facility = u ''local0''\<rparr>,
     ap_retention = mc_retention lab_maintenance\<rparr>"

lemma lab_config_checks: "AppConfig_check (\<lambda>z. z = u ''UTC'') lab_config = Inr lab_config"
proof -
  have ldap: "LdapConfig_faults (ap_ldap lab_config) = []"
    by (simp add: LdapConfig_faults_def lab_config_def has_placeholder_def transport_def uri_scheme_def startswith_def u_def lower_def lower_char_def)
  have server: "ServerConfig_check (\<lambda>z. z = u ''UTC'') (ap_server lab_config) = Inr (ap_server lab_config)"
    by (simp add: ServerConfig_check_def lab_config_def valid_timezone_def)
  have portal: "PortalConfig_check (ap_portal lab_config) = Inr (ap_portal lab_config)"
    by (simp add: PortalConfig_check_def lab_config_def strip_def lstrip_def rstrip_def)
  show ?thesis
    unfolding AppConfig_check_def server portal ldap
    by (simp add: fault_list_def lab_config_def SecurityConfig_faults_def RadiusConfig_faults_def TacacsConfig_faults_def SyslogConfig_faults_def
        RetentionConfig_faults_def lab_maintenance_def second_def Let_def)
qed


end
