(* ===== verification/Overview.thy ===== *)
theory Overview
  imports AdminsApi Portal "HOL-Library.Sublist"
begin

text \<open>
  The live event stream and the dashboard: \<open>naco/core/events.py\<close> and \<open>naco/api/routes/overview.py\<close>.  Subscribers of the
  bus are numbered in the order they come.  A turn of the stream's loop has the time it starts at, the database it
  finds when it checks the caller and the next event of its queue with the time it comes; events are sent as values, their JSON text and the
  OpenAPI page are left out.  A \<open>GROUP BY\<close> query is the list of its groups with their counts.
\<close>

section \<open>The event bus\<close>

datatype EventType = EV_AUTH | EV_ACCOUNTING | EV_TACACS | EV_DEVICE | EV_AUDIT

record Event =
  evt_type :: EventType
  evt_data :: "(pystr \<times> json) list"
  evt_ts :: int

record EventBus =
  eb_queue_size :: nat
  eb_next :: nat
  eb_subscribers :: "(nat \<times> Event list) list"

definition EventBus_init :: "nat \<Rightarrow> EventBus" where
  "EventBus_init queue_size = \<lparr>eb_queue_size = queue_size, eb_next = 0, eb_subscribers = []\<rparr>"

text \<open>\<open>Queue.full\<close>, and what publishing does to one queue.\<close>

definition queue_full :: "nat \<Rightarrow> 'a list \<Rightarrow> bool" where
  "queue_full maxsize q \<longleftrightarrow> 0 < maxsize \<and> maxsize \<le> length q"

definition queue_put :: "nat \<Rightarrow> 'a \<Rightarrow> 'a list \<Rightarrow> 'a list" where
  "queue_put maxsize e q = (if queue_full maxsize q then tl q else q) @ [e]"

definition bus_publish :: "Event \<Rightarrow> EventBus \<Rightarrow> EventBus" where
  "bus_publish e bus = bus\<lparr>eb_subscribers := map (\<lambda>(i, q). (i, queue_put (eb_queue_size bus) e q)) (eb_subscribers bus)\<rparr>"

definition subscribe :: "EventBus \<Rightarrow> nat \<times> EventBus" where
  "subscribe bus = (eb_next bus, bus\<lparr>eb_next := Suc (eb_next bus), eb_subscribers := eb_subscribers bus @ [(eb_next bus, [])]\<rparr>)"

definition unsubscribe :: "nat \<Rightarrow> EventBus \<Rightarrow> EventBus" where
  "unsubscribe i bus = bus\<lparr>eb_subscribers := filter (\<lambda>(j, _). j \<noteq> i) (eb_subscribers bus)\<rparr>"

text \<open>\<open>queue.get()\<close> of one subscriber, when there is something.\<close>

definition take_event :: "nat \<Rightarrow> EventBus \<Rightarrow> Event option \<times> EventBus" where
  "take_event i bus =
     (case map_of (eb_subscribers bus) i of
        Some (e # q) \<Rightarrow> (Some e, bus\<lparr>eb_subscribers := map (\<lambda>(j, x). (j, if j = i then q else x)) (eb_subscribers bus)\<rparr>)
      | _ \<Rightarrow> (None, bus))"

definition subscriber_count :: "EventBus \<Rightarrow> nat" where
  "subscriber_count bus = length (eb_subscribers bus)"

datatype bus_op = Publish Event | Subscribe | Unsubscribe nat | Take nat

text \<open>What one subscriber receives in a sequence of operations of all.\<close>

fun bus_run :: "nat \<Rightarrow> bus_op list \<Rightarrow> EventBus \<Rightarrow> Event list \<times> EventBus" where
  "bus_run i [] bus = ([], bus)"
| "bus_run i (Publish e # ops) bus = bus_run i ops (bus_publish e bus)"
| "bus_run i (Subscribe # ops) bus = bus_run i ops (snd (subscribe bus))"
| "bus_run i (Unsubscribe j # ops) bus = bus_run i ops (unsubscribe j bus)"
| "bus_run i (Take j # ops) bus =
     (let (e, bus) = take_event j bus; (received, bus) = bus_run i ops bus
      in ((if j = i then (case e of None \<Rightarrow> [] | Some x \<Rightarrow> [x]) else []) @ received, bus))"

fun published :: "bus_op list \<Rightarrow> Event list" where
  "published [] = []"
| "published (Publish e # ops) = e # published ops"
| "published (_ # ops) = published ops"

section \<open>The stream\<close>

text \<open>\<open>_still_valid\<close>.\<close>

definition still_valid :: "Principal \<Rightarrow> db \<Rightarrow> int \<Rightarrow> bool" where
  "still_valid p d now =
     (case pr_session_id p of
        Some sid \<Rightarrow>
          list_ex (\<lambda>s. as_id s = sid \<and> now < as_expires_at s \<and> list_ex (\<lambda>a. au_id a = as_admin_id s \<and> au_enabled a) (admin_users d)) (admin_sessions d)
      | None \<Rightarrow>
          (case pr_token_id p of
             Some tid \<Rightarrow>
               (case row_get tok_id (api_tokens d) tid of
                  None \<Rightarrow> False
                | Some t \<Rightarrow> tok_revoked_at t = None \<and> (case tok_expires_at t of None \<Rightarrow> True | Some e \<Rightarrow> now < e))
           | None \<Rightarrow> False))"

datatype sse_chunk = Sse_Retry | Sse_Keep_Alive | Sse_Event Event

record stream_turn =
  sn_disconnected :: bool
  sn_now :: int
  sn_db :: db
  sn_arrival :: "(int \<times> Event) option"

text \<open>\<open>wait_for(queue.get(), timeout=15)\<close>: the next event of the queue with the time it is there, if it comes within 15 seconds, or
  else \<open>TimeoutError\<close> after them; with the time the wait ends.\<close>

definition wait_event :: "int \<Rightarrow> (int \<times> Event) option \<Rightarrow> int \<times> Event option" where
  "wait_event now arrival =
     (case arrival of
        Some (at, e) \<Rightarrow> if at \<le> now + 15 * second then (max now at, Some e) else (now + 15 * second, None)
      | None \<Rightarrow> (now + 15 * second, None))"

text \<open>The loop of \<open>stream\<close>, turn by turn: what each turn sends; a finished stream sends nothing more.\<close>

definition turn_chunk :: "bool \<Rightarrow> stream_turn \<Rightarrow> (int \<times> sse_chunk) option" where
  "turn_chunk sees_audit t =
     (case wait_event (sn_now t) (sn_arrival t) of
        (at, None) \<Rightarrow> Some (at, Sse_Keep_Alive)
      | (at, Some e) \<Rightarrow> if evt_type e = EV_AUDIT \<and> \<not> sees_audit then None else Some (at, Sse_Event e))"

fun stream_loop :: "Principal \<Rightarrow> bool \<Rightarrow> int \<Rightarrow> stream_turn list \<Rightarrow> (int \<times> sse_chunk) option list" where
  "stream_loop p sees_audit checked [] = []"
| "stream_loop p sees_audit checked (t # ts) =
     (if sn_disconnected t then []
      else if sn_now t - checked > 60 * second \<and> \<not> still_valid p (sn_db t) (sn_now t) then []
      else
        (let checked = (if sn_now t - checked > 60 * second then sn_now t else checked)
         in turn_chunk sees_audit t # stream_loop p sees_audit checked ts))"

definition events :: "Principal \<Rightarrow> int \<Rightarrow> stream_turn list \<Rightarrow> (int \<times> sse_chunk) option list" where
  "events p start turns = Some (start, Sse_Retry) # stream_loop p (allows (pr_role p) OPERATOR) start turns"

section \<open>The dashboard\<close>

record Counts =
  ct_users :: nat
  ct_devices :: nat
  ct_pending_devices :: nat
  ct_blocked_devices :: nat
  ct_sessions :: nat
  ct_guests :: nat

record HourBucket =
  hb_hour :: int
  hb_accept :: nat
  hb_reject :: nat

record ChecklistItem =
  ci_key :: pystr
  ci_label :: pystr
  ci_done :: bool

record Dashboard =
  da_counts :: Counts
  da_last_24h :: "HourBucket list"
  da_recent :: "AuthLog list"
  da_checklist :: "ChecklistItem list"

definition count_rows :: "('a \<Rightarrow> bool) \<Rightarrow> 'a list \<Rightarrow> nat" where
  "count_rows P rows = length (filter P rows)"

definition hour_floor :: "int \<Rightarrow> int" where
  "hour_floor t = t - t mod hour"

text \<open>The query: rows from \<open>start\<close> on, grouped by their hour and result.\<close>

definition hourly_groups :: "int \<Rightarrow> AuthLog list \<Rightarrow> ((int \<times> AuthResult) \<times> nat) list" where
  "hourly_groups start rows =
     (let rows = filter (\<lambda>r. start \<le> alog_timestamp r) rows; key = (\<lambda>r. (hour_floor (alog_timestamp r), alog_result r))
      in map (\<lambda>k. (k, count_rows (\<lambda>r. key r = k) rows)) (remdups (map key rows)))"

definition hour_series :: "int \<Rightarrow> AuthLog list \<Rightarrow> HourBucket list" where
  "hour_series start rows =
     (let by_hour = map_of (hourly_groups start rows); got = (\<lambda>k. case by_hour k of None \<Rightarrow> 0 | Some n \<Rightarrow> n)
      in map (\<lambda>i. let h = start + int i * hour in \<lparr>hb_hour = h, hb_accept = got (h, ACCEPT), hb_reject = got (h, REJECT)\<rparr>) [0..<24])"

definition checklist :: "int option \<Rightarrow> Principal \<Rightarrow> db \<Rightarrow> ChecklistItem list" where
  "checklist last_request p d =
     [\<lparr>ci_key = u ''nas'', ci_label = u ''Add a switch or access point (NAS)'', ci_done = nas_clients d \<noteq> []\<rparr>,
      \<lparr>ci_key = u ''policy'', ci_label = u ''Create a policy that permits access'',
       ci_done = (0 < count_rows (\<lambda>q. pol_enabled q \<and> pol_action q = PERMIT) (policies d))\<rparr>,
      \<lparr>ci_key = u ''radius'', ci_label = u ''Receive a first RADIUS request'', ci_done = (last_request \<noteq> None \<or> auth_logs d \<noteq> [])\<rparr>,
      \<lparr>ci_key = u ''totp'', ci_label = u ''Protect your account with two-factor authentication'',
       ci_done = (case pr_admin_id p of
                    None \<Rightarrow> True
                  | Some i \<Rightarrow> (case row_get au_id (admin_users d) i of None \<Rightarrow> False | Some a \<Rightarrow> truthy (au_totp_secret a)))\<rparr>]"

definition dashboard :: "int option \<Rightarrow> int \<Rightarrow> Principal \<Rightarrow> db \<Rightarrow> Dashboard" where
  "dashboard last_request now p d =
     (let start = hour_floor (now - 23 * hour) in
      \<lparr>da_counts = \<lparr>ct_users = length (users d), ct_devices = length (devices d),
         ct_pending_devices = count_rows (\<lambda>x. dev_status x = PENDING) (devices d),
         ct_blocked_devices = count_rows (\<lambda>x. dev_status x = BLOCKED) (devices d), ct_sessions = length (radius_sessions d),
         ct_guests = count_rows (\<lambda>g. gr_revoked_at g = None \<and> now < gr_expires_at g) (guest_registrations d)\<rparr>,
       da_last_24h = hour_series start (auth_logs d),
       da_recent = take 15 (sort_key (\<lambda>r. - int (alog_id r)) (auth_logs d)),
       da_checklist = checklist last_request p d\<rparr>)"

definition radius_status :: "int option \<Rightarrow> int \<Rightarrow> pystr" where
  "radius_status last_request now =
     (case last_request of
        None \<Rightarrow> u ''never''
      | Some t \<Rightarrow> if now - t < 10 * minute then u ''active'' else u ''idle'')"

section \<open>A slow subscriber loses the oldest events only\<close>

definition newest :: "nat \<Rightarrow> 'a list \<Rightarrow> 'a list" where
  "newest n xs = drop (length xs - n) xs"

lemma queue_put_newest: "0 < n \<Longrightarrow> queue_put n e (newest n xs) = newest n (xs @ [e])"
  by (cases "n \<le> length xs") (auto simp: queue_put_def queue_full_def newest_def drop_Suc tl_drop Suc_diff_le)

lemma newest_length: "length (newest n xs) \<le> n"
  by (simp add: newest_def)

text \<open>The specification: a buffer without a bound, of which a reader sees the newest \<open>n\<close> events.\<close>

fun buffer_run :: "nat \<Rightarrow> nat \<Rightarrow> bus_op list \<Rightarrow> Event list \<Rightarrow> Event list \<times> Event list" where
  "buffer_run n i [] buf = ([], buf)"
| "buffer_run n i (Publish e # ops) buf = buffer_run n i ops (buf @ [e])"
| "buffer_run n i (Take j # ops) buf =
     (if j = i \<and> buf \<noteq> [] then
        (let (received, buf') = buffer_run n i ops (tl (newest n buf)) in (hd (newest n buf) # received, buf'))
      else buffer_run n i ops buf)"
| "buffer_run n i (_ # ops) buf = buffer_run n i ops buf"

definition bus_ok :: "EventBus \<Rightarrow> bool" where
  "bus_ok bus \<longleftrightarrow> distinct (map fst (eb_subscribers bus)) \<and> (\<forall>i\<in>fst ` set (eb_subscribers bus). i < eb_next bus)"

lemma bus_ok_steps:
  assumes "bus_ok bus"
  shows "bus_ok (bus_publish e bus)" "bus_ok (snd (subscribe bus))" "bus_ok (unsubscribe j bus)" "bus_ok (snd (take_event j bus))"
proof -
  show "bus_ok (bus_publish e bus)" using assms by (force simp: bus_ok_def bus_publish_def case_prod_beta comp_def)
  show "bus_ok (snd (subscribe bus))" using assms by (auto simp: bus_ok_def subscribe_def)
  show "bus_ok (unsubscribe j bus)" using assms by (auto simp: bus_ok_def unsubscribe_def distinct_map_filter)
  show "bus_ok (snd (take_event j bus))"
    using assms by (force simp: bus_ok_def take_event_def case_prod_beta comp_def split: option.splits list.splits)
qed

lemma map_of_map_values: "map_of (map (\<lambda>(i, q). (i, f i q)) xs) k = map_option (f k) (map_of xs k)"
  by (induction xs) auto

lemma queue_steps:
  "map_of (eb_subscribers (bus_publish e bus)) i = map_option (queue_put (eb_queue_size bus) e) (map_of (eb_subscribers bus) i)"
  "j \<noteq> i \<Longrightarrow> map_of (eb_subscribers (unsubscribe j bus)) i = map_of (eb_subscribers bus) i"
  "i < eb_next bus \<Longrightarrow> map_of (eb_subscribers (snd (subscribe bus))) i = map_of (eb_subscribers bus) i"
  "map_of (eb_subscribers (snd (take_event j bus))) i =
     (if j = i then map_option tl (map_of (eb_subscribers bus) i) else map_of (eb_subscribers bus) i)"
proof -
  show "map_of (eb_subscribers (bus_publish e bus)) i = map_option (queue_put (eb_queue_size bus) e) (map_of (eb_subscribers bus) i)"
    by (simp add: bus_publish_def map_of_map_values)
  have "map_of (filter (\<lambda>(j', _). j' \<noteq> j) xs) i = map_of xs i" if "j \<noteq> i" for xs :: "(nat \<times> Event list) list"
    using that by (induction xs) auto
  then show "j \<noteq> i \<Longrightarrow> map_of (eb_subscribers (unsubscribe j bus)) i = map_of (eb_subscribers bus) i" by (simp add: unsubscribe_def)
  show "i < eb_next bus \<Longrightarrow> map_of (eb_subscribers (snd (subscribe bus))) i = map_of (eb_subscribers bus) i"
    by (auto simp: subscribe_def map_add_def split: option.split)
  show "map_of (eb_subscribers (snd (take_event j bus))) i =
     (if j = i then map_option tl (map_of (eb_subscribers bus) i) else map_of (eb_subscribers bus) i)"
    by (auto simp: take_event_def map_of_map_values map_option_idI option.map_ident split: option.split list.split)
qed

lemma eb_queue_size_steps [simp]:
  "eb_queue_size (bus_publish e bus) = eb_queue_size bus" "eb_queue_size (snd (subscribe bus)) = eb_queue_size bus"
  "eb_queue_size (unsubscribe j bus) = eb_queue_size bus" "eb_queue_size (snd (take_event j bus)) = eb_queue_size bus"
  by (simp_all add: bus_publish_def subscribe_def unsubscribe_def take_event_def split: option.split list.split)

lemma newest_idem: "newest n (tl (newest n xs)) = tl (newest n xs)"
  by (simp add: newest_def)

lemma newest_Nil [simp]: "0 < n \<Longrightarrow> newest n xs = [] \<longleftrightarrow> xs = []"
  by (cases xs) (auto simp: newest_def)

lemma take_event_head:
  "fst (take_event j bus) = (case map_of (eb_subscribers bus) j of Some (e # q) \<Rightarrow> Some e | _ \<Rightarrow> None)"
  by (simp add: take_event_def split: option.split list.split)

lemma bus_run_refines:
  assumes "bus_ok bus" "eb_queue_size bus = n" "0 < n" "map_of (eb_subscribers bus) i = Some (newest n buf)" "Unsubscribe i \<notin> set ops"
  shows "fst (bus_run i ops bus) = fst (buffer_run n i ops buf) \<and>
    map_of (eb_subscribers (snd (bus_run i ops bus))) i = Some (newest n (snd (buffer_run n i ops buf)))"
  using assms
proof (induction ops arbitrary: bus buf)
  case (Cons op ops)
  have i: "i < eb_next bus" using Cons.prems(1,4) by (force simp: bus_ok_def dest: map_of_SomeD)
  show ?case
  proof (cases op)
    case (Publish e)
    have "map_of (eb_subscribers (bus_publish e bus)) i = Some (newest n (buf @ [e]))"
      using Cons.prems by (simp add: queue_steps queue_put_newest)
    then show ?thesis using Cons.IH [of "bus_publish e bus" "buf @ [e]"] Cons.prems by (simp add: Publish bus_ok_steps)
  next
    case Subscribe
    then show ?thesis using Cons.IH [of "snd (subscribe bus)" buf] Cons.prems i by (simp add: bus_ok_steps queue_steps)
  next
    case (Unsubscribe j)
    then show ?thesis using Cons.IH [of "unsubscribe j bus" buf] Cons.prems by (auto simp: bus_ok_steps queue_steps)
  next
    case (Take j)
    let ?b = "snd (take_event j bus)"
    let ?buf = "if j = i \<and> buf \<noteq> [] then tl (newest n buf) else buf"
    have q: "map_of (eb_subscribers ?b) i = Some (newest n ?buf)"
      using Cons.prems by (simp add: queue_steps newest_idem newest_def)
    have ih: "fst (bus_run i ops ?b) = fst (buffer_run n i ops ?buf) \<and>
        map_of (eb_subscribers (snd (bus_run i ops ?b))) i = Some (newest n (snd (buffer_run n i ops ?buf)))"
      using Cons.IH [of ?b ?buf] Cons.prems q by (simp add: bus_ok_steps)
    have "fst (take_event i bus) = (if buf = [] then None else Some (hd (newest n buf)))"
      using Cons.prems(3,4) newest_Nil [of n buf] by (cases "newest n buf") (auto simp: take_event_head simp del: newest_Nil)
    with ih show ?thesis by (auto simp: Take case_prod_beta Let_def split: if_splits)
  qed
qed simp

lemma newest_suffix: "\<exists>old. xs = old @ newest n xs"
  unfolding newest_def by (metis append_take_drop_id)

lemma buffer_run_subseq: "0 < n \<Longrightarrow> subseq (fst (buffer_run n i ops buf) @ snd (buffer_run n i ops buf)) (buf @ published ops)"
proof (induction n i ops buf rule: buffer_run.induct)
  case (3 n i j ops buf)
  show ?case
  proof (cases "j = i \<and> buf \<noteq> []")
    case True
    then have "newest n buf \<noteq> []" using 3(3) by simp
    obtain old where old: "buf = old @ newest n buf" using newest_suffix by blast
    have "subseq (hd (newest n buf) # fst (buffer_run n i ops (tl (newest n buf))) @ snd (buffer_run n i ops (tl (newest n buf)))) (newest n buf @ published ops)"
      using 3(1) [OF True 3(3)] \<open>newest n buf \<noteq> []\<close> by (cases "newest n buf") auto
    also have "subseq (newest n buf @ published ops) (buf @ published ops)" by (subst (2) old) (simp add: subseq_drop_many)
    finally show ?thesis using True by (simp add: case_prod_beta Let_def)
  next
    case False
    then show ?thesis using 3 by (auto simp: case_prod_beta Let_def)
  qed
qed auto

lemma buffer_run_lossless:
  assumes "length buf + length (published ops) \<le> n" "0 < n"
  shows "fst (buffer_run n i ops buf) @ snd (buffer_run n i ops buf) = buf @ published ops"
  using assms
proof (induction n i ops buf rule: buffer_run.induct)
  case (3 n i j ops buf)
  then have "newest n buf = buf" by (simp add: newest_def)
  with 3 show ?case by (cases buf) (auto simp: case_prod_beta Let_def)
qed auto

text \<open>C40. A new subscriber receives events in the order they are published, whatever publishers and other subscribers do in
  between: what it got and what waits for it is a subsequence of what was published, at most the size of the queue
  waits, what waits are the newest events it has not got, and up to that many events nothing is lost.\<close>

theorem bus_delivers:
  assumes "bus_ok bus" "eb_queue_size bus = n" "0 < n" "subscribe bus = (i, bus')" "Unsubscribe i \<notin> set ops"
    "bus_run i ops bus' = (received, bus'')"
  shows "\<exists>waiting lost. map_of (eb_subscribers bus'') i = Some waiting \<and> length waiting \<le> n \<and>
    subseq (received @ waiting) (published ops) \<and> (length (published ops) \<le> n \<longrightarrow> received @ waiting = published ops) \<and>
    snd (buffer_run n i ops []) = lost @ waiting \<and> fst (buffer_run n i ops []) = received"
proof -
  have "map_of (eb_subscribers bus) (eb_next bus) = None" using assms(1) by (force simp: bus_ok_def map_of_eq_None_iff)
  then have bus': "bus_ok bus'" "eb_queue_size bus' = n" "map_of (eb_subscribers bus') i = Some (newest n [])"
    using bus_ok_steps(2) [OF assms(1)] assms(2,4) by (auto simp: subscribe_def newest_def map_add_def)
  from bus_run_refines [OF bus'(1,2) assms(3) bus'(3) assms(5)] assms(6)
  have r: "received = fst (buffer_run n i ops [])" "map_of (eb_subscribers bus'') i = Some (newest n (snd (buffer_run n i ops [])))" by simp_all
  let ?buf = "snd (buffer_run n i ops [])"
  obtain lost where lost: "?buf = lost @ newest n ?buf" using newest_suffix by blast
  have "subseq (received @ newest n ?buf) (received @ ?buf)" by (subst (2) lost) (intro list_emb_append_mono subseq_drop_many, simp_all)
  also have "subseq (received @ ?buf) (published ops)" using buffer_run_subseq [OF assms(3), of i ops "[]"] r(1) by simp
  finally have "subseq (received @ newest n ?buf) (published ops)" .
  moreover have "received @ newest n ?buf = published ops" if "length (published ops) \<le> n"
  proof -
    have e: "received @ ?buf = published ops" using buffer_run_lossless [of "[]" ops n i] that assms(3) r(1) by simp
    then have "length ?buf \<le> n" using that by (metis add_leD2 length_append)
    then have "newest n ?buf = ?buf" by (simp add: newest_def)
    with e show ?thesis by simp
  qed
  ultimately show ?thesis using r lost newest_length by blast
qed

theorem bus_delivers_witness:
  "\<exists>waiting. map_of (eb_subscribers (snd (bus_run 0 [Publish \<lparr>evt_type = EV_AUTH, evt_data = [], evt_ts = 1\<rparr>, Publish \<lparr>evt_type = EV_AUTH, evt_data = [], evt_ts = 2\<rparr>]
      (snd (subscribe (EventBus_init 1)))))) 0 = Some waiting \<and> length waiting \<le> 1"
proof -
  let ?ops = "[Publish \<lparr>evt_type = EV_AUTH, evt_data = [], evt_ts = 1\<rparr>, Publish \<lparr>evt_type = EV_AUTH, evt_data = [], evt_ts = 2\<rparr>]"
  have "bus_ok (EventBus_init 1)" "eb_queue_size (EventBus_init 1) = 1" "subscribe (EventBus_init 1) = (0, snd (subscribe (EventBus_init 1)))"
    "Unsubscribe 0 \<notin> set ?ops" by (simp_all add: bus_ok_def EventBus_init_def subscribe_def)
  from bus_delivers [OF this(1,2) _ this(3,4) surjective_pairing] show ?thesis by auto
qed

section \<open>Who sees the stream\<close>

text \<open>The time of the last check before each turn.\<close>

fun checks :: "Principal \<Rightarrow> int \<Rightarrow> stream_turn list \<Rightarrow> int list" where
  "checks p checked [] = []"
| "checks p checked (t # ts) =
     (let checked = (if sn_now t - checked > 60 * second then sn_now t else checked) in checked # checks p checked ts)"

lemma stream_loop_turn:
  assumes "i < length (stream_loop p sees checked ts)"
  shows "i < length ts \<and> \<not> sn_disconnected (ts ! i) \<and>
    stream_loop p sees checked ts ! i = turn_chunk sees (ts ! i) \<and>
    sn_now (ts ! i) - checks p checked ts ! i \<le> 60 * second \<and>
    (checks p checked ts ! i = checked \<or> (\<exists>j\<le>i. checks p checked ts ! i = sn_now (ts ! j) \<and> still_valid p (sn_db (ts ! j)) (sn_now (ts ! j))))"
  using assms
proof (induction ts arbitrary: checked i)
  case (Cons t ts)
  define c where "c = (if sn_now t - checked > 60 * second then sn_now t else checked)"
  have go: "\<not> sn_disconnected t" "sn_now t - checked > 60 * second \<Longrightarrow> still_valid p (sn_db t) (sn_now t)"
    using Cons.prems by (auto simp: Let_def split: if_splits)
  have loop: "stream_loop p sees checked (t # ts) = turn_chunk sees t # stream_loop p sees c ts"
    using go by (simp add: Let_def c_def)
  have checks: "checks p checked (t # ts) = c # checks p c ts" by (simp add: Let_def c_def)
  have c: "sn_now t - c \<le> 60 * second" "c = checked \<or> c = sn_now t \<and> still_valid p (sn_db t) (sn_now t)"
    using go(2) by (auto simp: c_def second_def)
  show ?case
  proof (cases i)
    case 0
    then show ?thesis unfolding loop checks using go(1) c by auto
  next
    case (Suc k)
    from Cons.IH [of k c] Cons.prems have ih: "k < length ts \<and> \<not> sn_disconnected (ts ! k) \<and>
        stream_loop p sees c ts ! k = turn_chunk sees (ts ! k) \<and>
        sn_now (ts ! k) - checks p c ts ! k \<le> 60 * second \<and>
        (checks p c ts ! k = c \<or> (\<exists>j\<le>k. checks p c ts ! k = sn_now (ts ! j) \<and> still_valid p (sn_db (ts ! j)) (sn_now (ts ! j))))"
      unfolding loop Suc by simp
    have "(\<exists>j\<le>Suc k. x = sn_now ((t # ts) ! j) \<and> still_valid p (sn_db ((t # ts) ! j)) (sn_now ((t # ts) ! j)))"
      if "\<exists>j\<le>k. x = sn_now (ts ! j) \<and> still_valid p (sn_db (ts ! j)) (sn_now (ts ! j))" for x
      using that by (metis Suc_le_mono nth_Cons_Suc)
    moreover have "(\<exists>j\<le>Suc k. x = sn_now ((t # ts) ! j) \<and> still_valid p (sn_db ((t # ts) ! j)) (sn_now ((t # ts) ! j)))"
      if "x = sn_now t" "still_valid p (sn_db t) (sn_now t)" for x using that by (intro exI [of _ 0]) simp
    ultimately show ?thesis unfolding loop checks Suc using ih c(2) by auto
  qed
qed simp

text \<open>The caller still has access: a session with the number of the request that is not over, of an enabled account, or an API token
  that is neither revoked nor expired.\<close>

definition caller_stands :: "Principal \<Rightarrow> db \<Rightarrow> int \<Rightarrow> bool" where
  "caller_stands p d now \<longleftrightarrow>
     (\<exists>s a. pr_session_id p = Some (as_id s) \<and> s \<in> set (admin_sessions d) \<and> now < as_expires_at s \<and>
        a \<in> set (admin_users d) \<and> au_id a = as_admin_id s \<and> au_enabled a) \<or>
     (\<exists>t. pr_session_id p = None \<and> pr_token_id p = Some (tok_id t) \<and> t \<in> set (api_tokens d) \<and> tok_revoked_at t = None \<and>
        (\<forall>e. tok_expires_at t = Some e \<longrightarrow> now < e))"

lemma still_valid_stands: "still_valid p d now \<Longrightarrow> caller_stands p d now"
  by (fastforce simp: still_valid_def caller_stands_def list_ex_iff split: option.splits dest: row_get_Some)

lemma turn_chunk_event:
  assumes "turn_chunk sees t = Some (at, Sse_Event e)"
  shows "\<exists>there. sn_arrival t = Some (there, e) \<and> there \<le> at" "at \<le> sn_now t + 15 * second" "evt_type e = EV_AUDIT \<longrightarrow> sees"
  using assms by (auto simp: turn_chunk_def wait_event_def second_def split: option.splits prod.splits if_splits)

text \<open>C38. An event is sent only to a caller whose role allows it, audit records from operators up, and at most 75 seconds after the
  stream began or after a check that found the caller's session or token valid: 60 seconds between the checks and 15 of
  waiting for the event.\<close>

theorem stream_sends_only:
  assumes "events p start turns ! Suc i = Some (at, Sse_Event e)" "Suc i < length (events p start turns)"
  shows "(\<exists>there. sn_arrival (turns ! i) = Some (there, e) \<and> there \<le> at) \<and> (evt_type e = EV_AUDIT \<longrightarrow> pr_role p \<noteq> VIEWER) \<and>
    (at - start \<le> 75 * second \<or> (\<exists>j\<le>i. at - sn_now (turns ! j) \<le> 75 * second \<and> caller_stands p (sn_db (turns ! j)) (sn_now (turns ! j))))"
proof -
  let ?sees = "allows (pr_role p) OPERATOR"
  have "i < length (stream_loop p ?sees start turns)" using assms(2) by (simp add: events_def)
  note t = stream_loop_turn [OF this]
  then have c: "turn_chunk ?sees (turns ! i) = Some (at, Sse_Event e)" using assms(1) by (simp add: events_def)
  have role: "evt_type e = EV_AUDIT \<longrightarrow> pr_role p \<noteq> VIEWER" using turn_chunk_event(3) [OF c] by (auto simp: allows_def)
  have late: "at - x \<le> 75 * second" if "sn_now (turns ! i) - x \<le> 60 * second" for x using turn_chunk_event(2) [OF c] that by simp
  show ?thesis using turn_chunk_event(1) [OF c] role t late still_valid_stands by metis
qed

definition lab_event :: Event where
  "lab_event = \<lparr>evt_type = EV_AUDIT, evt_data = [], evt_ts = 0\<rparr>"

definition lab_principal :: Principal where
  "lab_principal = \<lparr>pr_kind = Session_Kind, pr_username = u ''root'', pr_role = SUPERUSER, pr_admin_id = Some 7, pr_session_id = Some 5, pr_token_id = None,
     pr_csrf_token = [], pr_restricted = None, pr_ip = []\<rparr>"

definition lab_turn :: stream_turn where
  "lab_turn = \<lparr>sn_disconnected = False, sn_now = 120 * second, sn_db = lab_admin_db lab_admin, sn_arrival = Some (0, lab_event)\<rparr>"

theorem stream_sends_only_witness:
  "events lab_principal 0 [lab_turn] = [Some (0, Sse_Retry), Some (120 * second, Sse_Event lab_event)] \<and> caller_stands lab_principal (sn_db lab_turn) (sn_now lab_turn)"
proof -
  have v: "still_valid lab_principal (lab_admin_db lab_admin) (120 * second)"
    by (simp add: still_valid_def lab_principal_def lab_admin_db_def lab_admin_def second_def)
  have role: "allows (pr_role lab_principal) OPERATOR" by (simp add: allows_def lab_principal_def)
  have e: "events lab_principal 0 [lab_turn] = [Some (0, Sse_Retry), Some (120 * second, Sse_Event lab_event)]"
    using v role by (simp add: events_def lab_turn_def second_def turn_chunk_def wait_event_def)
  then have "events lab_principal 0 [lab_turn] ! Suc 0 = Some (120 * second, Sse_Event lab_event)" "Suc 0 < length (events lab_principal 0 [lab_turn])"
    by simp_all
  from stream_sends_only [OF this] e show ?thesis by (auto simp: lab_turn_def second_def)
qed

text \<open>C39. The check goes by the number of the session alone, and the database gives the number of a deleted row to the next one:
  when all sessions of an account are ended and the next sign-in, of anybody else, takes the number, the open stream of the
  ended session is found valid, although no session of its account is left.\<close>

theorem stream_outlives_revocation:
  assumes "pr_session_id p = Some sid" "next_id as_id (admin_sessions (revoke_all a None d)) = sid"
    "create_session cfg (revoke_all a None d) other ip user_agent tokens now = Inr (d', s)" "au_enabled other" "other \<in> set (admin_users d)"
    "au_id other \<noteq> a" "t < now + int (sc_session_max_hours cfg) * 3600 * second"
  shows "still_valid p d' t \<and> (\<forall>x\<in>set (admin_sessions d'). as_admin_id x \<noteq> a)"
proof -
  from assms(2,3) have s: "as_id s = sid" "as_admin_id s = au_id other" "as_expires_at s = now + int (sc_session_max_hours cfg) * 3600 * second"
    and d': "admin_sessions d' = admin_sessions (revoke_all a None d) @ [s]" "admin_users d' = admin_users d"
    by (auto simp: create_session_def Let_def revoke_all_def split: sum.splits if_splits)
  have "still_valid p d' t" using assms(1,4,5,7) s d' by (auto simp: still_valid_def list_ex_iff)
  moreover have "\<forall>x\<in>set (admin_sessions d'). as_admin_id x \<noteq> a" using assms(6) s(2) by (auto simp: d'(1) revoke_all_def)
  ultimately show ?thesis by blast
qed

theorem stream_outlives_revocation_witness:
  "\<exists>d' s. create_session lab_security (revoke_all 7 None (lab_admin_db lab_admin\<lparr>admin_users := [lab_admin\<lparr>au_enabled := False\<rparr>, lab_admin\<lparr>au_id := 8\<rparr>]\<rparr>))
       (lab_admin\<lparr>au_id := 8\<rparr>) [] [] (u ''raw'', u ''csrf'') 0 = Inr (d', s) \<and> still_valid (lab_principal\<lparr>pr_session_id := Some 1\<rparr>) d' 60"
proof -
  let ?d = "lab_admin_db lab_admin\<lparr>admin_users := [lab_admin\<lparr>au_enabled := False\<rparr>, lab_admin\<lparr>au_id := 8\<rparr>]\<rparr>" and ?o = "lab_admin\<lparr>au_id := 8\<rparr>"
  let ?p = "lab_principal\<lparr>pr_session_id := Some 1\<rparr>"
  have empty: "admin_sessions (revoke_all 7 None ?d) = []" by (simp add: revoke_all_def lab_admin_db_def)
  have p: "pr_session_id ?p = Some 1" by simp
  have n: "next_id as_id (admin_sessions (revoke_all 7 None ?d)) = 1" unfolding empty by (simp add: next_id_def)
  obtain d' s where c: "create_session lab_security (revoke_all 7 None ?d) ?o [] [] (u ''raw'', u ''csrf'') 0 = Inr (d', s)"
    by (simp add: create_session_def lab_token_hash empty Let_def)
  have "au_enabled ?o" "?o \<in> set (admin_users ?d)" "au_id ?o \<noteq> 7" "60 < 0 + int (sc_session_max_hours lab_security) * 3600 * second"
    by (simp_all add: lab_admin_def lab_security_def second_def)
  from stream_outlives_revocation [OF p n c this] c show ?thesis by blast
qed

section \<open>The numbers of the dashboard\<close>

lemma group_count:
  "map_of (hourly_groups start rows) k =
     (let n = count_rows (\<lambda>r. start \<le> alog_timestamp r \<and> (hour_floor (alog_timestamp r), alog_result r) = k) rows in if n = 0 then None else Some n)"
proof -
  have m: "map_of (map (\<lambda>k. (k, f k)) ks) k = (if k \<in> set ks then Some (f k) else None)" for f and ks :: "(int \<times> AuthResult) list"
    by (induction ks) auto
  have "count_rows (\<lambda>r. (hour_floor (alog_timestamp r), alog_result r) = k) (filter (\<lambda>r. start \<le> alog_timestamp r) rows) =
      count_rows (\<lambda>r. start \<le> alog_timestamp r \<and> (hour_floor (alog_timestamp r), alog_result r) = k) rows"
    by (simp add: count_rows_def conj_commute)
  then show ?thesis unfolding hourly_groups_def Let_def m by (auto simp: count_rows_def filter_empty_conv)
qed

lemma hour_floor_eq:
  assumes "start mod hour = 0"
  shows "hour_floor t = start + int i * hour \<longleftrightarrow> start + int i * hour \<le> t \<and> t < start + int (Suc i) * hour"
proof -
  have pos: "0 < hour" by (simp add: hour_def second_def)
  obtain q where q: "start = q * hour" using assms by (metis dvd_def mod_0_imp_dvd mult.commute)
  have f: "hour_floor t = t div hour * hour" by (simp add: hour_floor_def minus_mod_eq_div_mult)
  have "t div hour = q + int i \<longleftrightarrow> (q + int i) * hour \<le> t \<and> t < (q + int i + 1) * hour"
  proof
    assume "t div hour = q + int i"
    then show "(q + int i) * hour \<le> t \<and> t < (q + int i + 1) * hour"
      using mult_div_mod_eq [of hour t] pos_mod_bound [OF pos, of t] pos_mod_sign [OF pos, of t] by (simp add: algebra_simps)
  next
    assume "(q + int i) * hour \<le> t \<and> t < (q + int i + 1) * hour"
    then show "t div hour = q + int i" by (intro int_div_pos_eq [where r = "t - (q + int i) * hour"]) (auto simp: algebra_simps)
  qed
  moreover have "hour_floor t = start + int i * hour \<longleftrightarrow> t div hour = q + int i"
    using pos unfolding f q distrib_right [symmetric] by simp
  ultimately show ?thesis by (simp add: q algebra_simps)
qed

lemma hour_floor_start: "hour_floor t mod hour = 0"
  by (simp add: hour_floor_def mod_diff_eq [symmetric] flip: mod_diff_eq)

text \<open>Each of the 24 bars counts the answers of its own hour, and the last one is the hour of the request.\<close>

theorem dashboard_hours:
  assumes "i < 24"
  shows "da_last_24h (dashboard last_request now p d) ! i =
      (let h = hour_floor (now - 23 * hour) + int i * hour; within = (\<lambda>r. h \<le> alog_timestamp r \<and> alog_timestamp r < h + hour)
       in \<lparr>hb_hour = h, hb_accept = count_rows (\<lambda>r. within r \<and> alog_result r = ACCEPT) (auth_logs d),
           hb_reject = count_rows (\<lambda>r. within r \<and> alog_result r = REJECT) (auth_logs d)\<rparr>) \<and>
    hour_floor now = hour_floor (now - 23 * hour) + 23 * hour"
proof -
  let ?start = "hour_floor (now - 23 * hour)"
  have pos: "0 \<le> int i * hour" by (simp add: hour_def second_def)
  have same: "(?start \<le> alog_timestamp r \<and> (hour_floor (alog_timestamp r), alog_result r) = (?start + int i * hour, x)) \<longleftrightarrow>
      (?start + int i * hour \<le> alog_timestamp r \<and> alog_timestamp r < ?start + int i * hour + hour) \<and> alog_result r = x" for r x
    using hour_floor_eq [OF hour_floor_start, of "alog_timestamp r" "now - 23 * hour" i] by (auto simp: distrib_right) (use pos in linarith)
  have g: "(case map_of (hourly_groups ?start rows) (?start + int i * hour, x) of None \<Rightarrow> 0 | Some n \<Rightarrow> n) =
      count_rows (\<lambda>r. (?start + int i * hour \<le> alog_timestamp r \<and> alog_timestamp r < ?start + int i * hour + hour) \<and> alog_result r = x) rows" for rows x
    unfolding group_count same by (simp add: Let_def)
  have "hour_floor now = ?start + 23 * hour"
    using mod_mult_self1 [of "now - 23 * hour" 23 hour] by (simp add: hour_floor_def)
  with assms show ?thesis by (simp add: dashboard_def hour_series_def Let_def g)
qed

end
