(* ===== verification/WebPages.thy ===== *)
theory WebPages
  imports AdminAuth AdminSafety
begin

text \<open>
  The pages of the administration console: \<open>naco/web/pages.py\<close> and the response headers of \<open>naco/web/security.py\<close>.  A
  page is the value its template is rendered from; the templates themselves are not modelled.
\<close>

section \<open>Pages\<close>

record Page =
  pg_path :: pystr
  pg_title :: pystr
  pg_icon :: pystr
  pg_key :: pystr
  pg_role :: AdminRole
  pg_intro :: pystr

definition mk_page :: "string \<Rightarrow> string \<Rightarrow> string \<Rightarrow> string \<Rightarrow> AdminRole \<Rightarrow> pystr \<Rightarrow> Page" where
  "mk_page path title icon key role intro =
     \<lparr>pg_path = u path, pg_title = u title, pg_icon = u icon, pg_key = u key, pg_role = role, pg_intro = intro\<rparr>"

definition NAV :: "(pystr \<times> Page list) list" where
  "NAV =
    [(u ''Overview'', [mk_page ''/'' ''Overview'' ''speedometer2'' ''dashboard'' VIEWER []]),
     (u ''Identity'',
      [mk_page ''/users'' ''Users'' ''people'' ''users'' VIEWER (u ''People who sign in to the network (802.1X, VPN, switch logins).''),
       mk_page ''/groups'' ''Groups'' ''people-fill'' ''groups'' VIEWER
         (u ''Groups drive policy decisions; a device-admin profile lets members manage switches over TACACS+.''),
       mk_page ''/devices'' ''Devices'' ''pc-display'' ''devices'' VIEWER
         (u ''Every MAC address NACo has seen. Approve devices for MAB, block anything that should never connect.'')]),
     (u ''Access'',
      [mk_page ''/policies'' ''Policies'' ''shield-check'' ''policies'' VIEWER
         (u ''Evaluated top to bottom; the first policy whose conditions all match decides. Nothing matched '' @ [0x2192] @ u '' denied.''),
       mk_page ''/simulator'' ''Simulator'' ''signpost-split'' ''simulator'' VIEWER
         (u ''See exactly which policy would decide a request'' @ em_dash @ u ''and why'' @ em_dash @ u ''without touching the network.'')]),
     (u ''Network'',
      [mk_page ''/nas'' ''RADIUS clients'' ''router'' ''nas'' VIEWER (u ''Switches, access points and controllers allowed to send RADIUS to NACo.''),
       mk_page ''/tacacs-clients'' ''TACACS+ clients'' ''terminal'' ''tacacs'' VIEWER
         (u ''Network devices that authenticate administrators against NACo over TACACS+.''),
       mk_page ''/command-sets'' ''Command sets'' ''list-check'' ''command_sets'' VIEWER
         (u ''Which CLI commands device administrators may run. Rules match the full command line, top to bottom.'')]),
     (u ''Monitoring'',
      [mk_page ''/sessions'' ''Sessions'' ''activity'' ''sessions'' VIEWER (u ''Who is connected right now, live from accounting.''),
       mk_page ''/guests'' ''Guests'' ''person-badge'' ''guests'' VIEWER (u ''Time-limited guest registrations from the portal or the help desk.''),
       mk_page ''/logs'' ''Logs'' ''journal-text'' ''logs'' VIEWER (u ''Every RADIUS decision and TACACS+ request, with the reason.'')]),
     (u ''Administration'',
      [mk_page ''/admins'' ''Administrators'' ''person-gear'' ''admins'' SUPERUSER (u ''Accounts that can sign in to this panel.''),
       mk_page ''/tokens'' ''API tokens'' ''key'' ''tokens'' SUPERUSER (u ''Long-lived credentials for automation, each limited to a role.''),
       mk_page ''/audit'' ''Audit log'' ''clock-history'' ''audit'' OPERATOR (u ''Every change, by whom, from where.''),
       mk_page ''/system'' ''System'' ''info-circle'' ''system'' VIEWER []])]"

definition ACCOUNT :: Page where
  "ACCOUNT = mk_page ''/account'' ''My account'' ''person-circle'' ''account'' VIEWER (u ''Your password, two-factor authentication and sessions.'')"

definition PAGES :: "Page list" where
  "PAGES = concat (map snd NAV) @ [ACCOUNT]"

section \<open>Views\<close>

definition page_principal :: "SecurityConfig \<Rightarrow> web_request \<Rightarrow> db \<Rightarrow> int \<Rightarrow> py_exc + Principal option \<times> db" where
  "page_principal cfg req d now =
     rbind (resolve cfg d (wr_cookie req COOKIE) now) (\<lambda>(found, d).
       Inr (map_option (\<lambda>(s, admin). \<lparr>pr_kind = Session_Kind, pr_username = au_username admin, pr_role = au_role admin,
         pr_admin_id = Some (au_id admin), pr_session_id = Some (as_id s), pr_token_id = None, pr_csrf_token = as_csrf_token s,
         pr_restricted = restriction cfg admin, pr_ip = client_ip req\<rparr>) found, d))"

text \<open>\<open>_SAFE_PATH.fullmatch\<close>, and \<open>_safe_next\<close>.\<close>

definition safe_path :: "pystr \<Rightarrow> bool" where
  "safe_path s \<longleftrightarrow> take 1 s = [47] \<and> (case tl s of [] \<Rightarrow> True | c # _ \<Rightarrow> c \<noteq> 47 \<and> c \<noteq> 92) \<and> list_all (\<lambda>c. 0x21 \<le> c \<and> c \<le> 0x7e) (tl s)"

definition safe_next :: "pystr option \<Rightarrow> pystr" where
  "safe_next target =
     (case target of
        None \<Rightarrow> u ''/''
      | Some t \<Rightarrow> if t = [] \<or> \<not> safe_path t \<or> 92 \<in> set t then u ''/'' else t)"

text \<open>\<open>urllib.parse.quote\<close> with its default safe characters.\<close>

definition quote_byte :: "8 word \<Rightarrow> pystr" where
  "quote_byte b =
     (let c = unat b in
      if (65 \<le> c \<and> c \<le> 90) \<or> (97 \<le> c \<and> c \<le> 122) \<or> (48 \<le> c \<and> c \<le> 57) \<or> c \<in> {95, 46, 45, 126, 47} then [c]
      else [37] @ upper (hexdigest [b]))"

definition quote :: "pystr \<Rightarrow> py_exc + pystr" where
  "quote s = rbind (encode_or_raise s) (\<lambda>bs. Inr (concat (map quote_byte bs)))"

definition visible_nav :: "AdminRole \<Rightarrow> (pystr \<times> Page list) list" where
  "visible_nav role = filter (\<lambda>(_, items). items \<noteq> []) (map (\<lambda>(sec, items). (sec, filter (\<lambda>p. allows role (pg_role p)) items)) NAV)"

datatype web_page =
  Redirect_To pystr
| Error_Page nat Principal "(pystr \<times> Page list) list"
| Full_Page Page Principal "(pystr \<times> Page list) list"
| Login_Page pystr
| Setup_Page pystr Principal

type_synonym view = "(py_exc + web_page) \<times> db"

definition with_principal :: "SecurityConfig \<Rightarrow> web_request \<Rightarrow> db \<Rightarrow> int \<Rightarrow> (Principal option \<Rightarrow> py_exc + web_page) \<Rightarrow> view" where
  "with_principal cfg req d now f =
     (case page_principal cfg req d now of Inl e \<Rightarrow> (Inl e, d) | Inr (p, d') \<Rightarrow> (f p, d'))"

definition page_view :: "SecurityConfig \<Rightarrow> Page \<Rightarrow> web_request \<Rightarrow> db \<Rightarrow> int \<Rightarrow> view" where
  "page_view cfg page req d now =
     with_principal cfg req d now (\<lambda>principal.
       case principal of
         None \<Rightarrow> rbind (quote (pg_path page)) (\<lambda>q. Inr (Redirect_To (u ''/login?next='' @ q)))
       | Some p \<Rightarrow>
           if truthy (pr_restricted p) then Inr (Redirect_To (u ''/setup''))
           else if \<not> allows (pr_role p) (pg_role page) then Inr (Error_Page 403 p (visible_nav (pr_role p)))
           else Inr (Full_Page page p (visible_nav (pr_role p))))"

definition login_page :: "SecurityConfig \<Rightarrow> web_request \<Rightarrow> pystr option \<Rightarrow> db \<Rightarrow> int \<Rightarrow> view" where
  "login_page cfg req next d now =
     with_principal cfg req d now (\<lambda>principal.
       Inr (case principal of
              Some p \<Rightarrow> Redirect_To (if truthy (pr_restricted p) then u ''/setup'' else safe_next next)
            | None \<Rightarrow> Login_Page (safe_next next)))"

definition setup_page :: "SecurityConfig \<Rightarrow> web_request \<Rightarrow> db \<Rightarrow> int \<Rightarrow> view" where
  "setup_page cfg req d now =
     with_principal cfg req d now (\<lambda>principal.
       Inr (case principal of
              None \<Rightarrow> Redirect_To (u ''/login'')
            | Some p \<Rightarrow>
                (case pr_restricted p of
                   Some step \<Rightarrow> if step \<noteq> [] then Setup_Page step p else Redirect_To (u ''/'')
                 | None \<Rightarrow> Redirect_To (u ''/''))))"

section \<open>Response headers\<close>

type_synonym headers = "(pystr \<times> pystr) list"

definition PAGE_CSP :: pystr where
  "PAGE_CSP = u ''default-src 'self'; script-src 'self'; style-src 'self'; img-src 'self' data:; font-src 'self'; connect-src 'self'; form-action 'self'; frame-ancestors 'none'; base-uri 'none'; object-src 'none'' @ [39]"

definition header_default :: "pystr \<Rightarrow> pystr \<Rightarrow> headers \<Rightarrow> headers" where
  "header_default name value hs = (if list_ex (\<lambda>(n, _). lower n = lower name) hs then hs else hs @ [(name, value)])"

text \<open>\<open>SecurityHeaders.dispatch\<close>, for the path and the scheme of the request.\<close>

definition security_headers :: "pystr \<Rightarrow> pystr \<Rightarrow> headers \<Rightarrow> headers" where
  "security_headers path scheme hs =
     (let hs = header_default (u ''X-Content-Type-Options'') (u ''nosniff'') hs;
          hs = header_default (u ''X-Frame-Options'') (u ''DENY'') hs;
          hs = header_default (u ''Referrer-Policy'') (u ''same-origin'') hs;
          hs = header_default (u ''Cross-Origin-Opener-Policy'') (u ''same-origin'') hs;
          hs = header_default (u ''Permissions-Policy'') (u ''camera=(), microphone=(), geolocation=()'') hs;
          hs = (if startswith path (u ''/api/'') then
                  header_default (u ''Content-Security-Policy'') (u ''default-src 'none'; frame-ancestors 'none'' @ [39])
                    (header_default (u ''Cache-Control'') (u ''no-store'') hs)
                else header_default (u ''Content-Security-Policy'') PAGE_CSP hs)
      in if scheme = u ''https'' then header_default (u ''Strict-Transport-Security'') (u ''max-age=31536000'') hs else hs)"

section \<open>Redirects stay on the site, pages are for signed-in administrators\<close>

text \<open>What a browser makes of a redirect target: it drops tabs and line breaks and reads a backslash as a slash; a target that starts
  with two slashes names another host, one that does not start with a slash may name another scheme.\<close>

definition browser_path :: "pystr \<Rightarrow> pystr" where
  "browser_path t = map (\<lambda>c. if c = 92 then 47 else c) (filter (\<lambda>c. c \<notin> {9, 10, 13}) t)"

definition leaves_site :: "pystr \<Rightarrow> bool" where
  "leaves_site t \<longleftrightarrow> take 1 (browser_path t) \<noteq> [47] \<or> take 2 (browser_path t) = [47, 47]"

lemma safe_path_stays:
  assumes "safe_path t" "92 \<notin> set t"
  shows "\<not> leaves_site t"
proof -
  from assms(1) obtain cs where t: "t = 47 # cs" and cs: "list_all (\<lambda>c. 0x21 \<le> c \<and> c \<le> 0x7e) cs" "case cs of [] \<Rightarrow> True | c # _ \<Rightarrow> c \<noteq> 47 \<and> c \<noteq> 92"
    by (cases t) (auto simp: safe_path_def)
  have "filter (\<lambda>c. c \<notin> {9, 10, 13}) cs = cs" using cs(1) by (auto simp: list_all_iff filter_id_conv)
  moreover have "map (\<lambda>c. if c = 92 then 47 else c) cs = cs" using assms(2) by (intro map_idI) (auto simp: t)
  ultimately have "browser_path t = t" by (simp add: browser_path_def t)
  with cs(2) show ?thesis by (cases cs) (auto simp: leaves_site_def t)
qed

text \<open>The target after a sign-in never leaves the site, and a path of printable characters is kept.\<close>

theorem safe_next_stays: "\<not> leaves_site (safe_next target) \<and> (\<forall>t. target = Some t \<longrightarrow> safe_path t \<longrightarrow> 92 \<notin> set t \<longrightarrow> safe_next target = t)"
proof -
  have "\<not> leaves_site (u ''/'')" by (simp add: leaves_site_def browser_path_def u_def)
  then show ?thesis using safe_path_stays by (auto simp: safe_next_def safe_path_def split: option.splits)
qed

lemma page_principal_Some:
  assumes "page_principal cfg req d now = Inr (Some p, d')"
  obtains s admin where "s \<in> set (admin_sessions d)" "admin \<in> set (admin_users d)" "as_admin_id s = au_id admin" "au_enabled admin"
    "now < as_expires_at s" "now < as_last_seen_at s + session_idle cfg" "pr_role p = au_role admin" "pr_restricted p = restriction cfg admin"
    "\<exists>raw h. wr_cookie req COOKIE = Some raw \<and> token_hash raw = Inr h \<and> as_token_hash s = h"
proof -
  from assms obtain s' admin where r: "resolve cfg d (wr_cookie req COOKIE) now = Inr (Some (s', admin), d')"
    and p: "pr_role p = au_role admin" "pr_restricted p = restriction cfg admin"
    by (auto simp: page_principal_def rbind_eq_Inr)
  show thesis by (rule resolve_Some [OF r]) (rule that, auto simp: p)
qed

text \<open>A page of the console is shown only with the cookie of a live session of an enabled account whose setup is finished and
  whose role the page admits, and its menu lists pages of that role only; everybody else is sent to the sign-in or the
  setup, or gets 403.\<close>

theorem pages_need_session:
  assumes "page_view cfg page req d now = (Inr (Full_Page page' p nav), d')"
  shows "page' = page \<and> (\<exists>s admin raw. s \<in> set (admin_sessions d) \<and> admin \<in> set (admin_users d) \<and> as_admin_id s = au_id admin \<and> au_enabled admin \<and>
      wr_cookie req COOKIE = Some raw \<and> token_hash raw = Inr (as_token_hash s) \<and> now < as_expires_at s \<and> now < as_last_seen_at s + session_idle cfg \<and>
      \<not> au_must_change_password admin \<and> (sc_require_totp cfg \<longrightarrow> truthy (au_totp_secret admin)) \<and>
      pg_role page \<le> au_role admin \<and> (\<forall>(sec, items)\<in>set nav. items \<noteq> [] \<and> (\<forall>q\<in>set items. pg_role q \<le> au_role admin)))"
proof -
  from assms have pr: "page_principal cfg req d now = Inr (Some p, d')" and f: "page' = page" "\<not> truthy (pr_restricted p)"
    "allows (pr_role p) (pg_role page)" "nav = visible_nav (pr_role p)"
    by (auto simp: page_view_def with_principal_def rbind_eq_Inr split: sum.splits option.splits if_splits)
  obtain s admin where s: "s \<in> set (admin_sessions d)" "admin \<in> set (admin_users d)" "as_admin_id s = au_id admin" "au_enabled admin"
    "now < as_expires_at s" "now < as_last_seen_at s + session_idle cfg" "pr_role p = au_role admin" "pr_restricted p = restriction cfg admin"
    "\<exists>raw h. wr_cookie req COOKIE = Some raw \<and> token_hash raw = Inr h \<and> as_token_hash s = h" by (rule page_principal_Some [OF pr])
  have "\<not> au_must_change_password admin" "sc_require_totp cfg \<longrightarrow> truthy (au_totp_secret admin)"
    using f(2) s(8) by (auto simp: restriction_def truthy_def split: if_splits)
  moreover have "\<forall>(sec, items)\<in>set nav. items \<noteq> [] \<and> (\<forall>q\<in>set items. pg_role q \<le> au_role admin)"
    using s(7) by (auto simp: f(4) visible_nav_def allows_iff)
  ultimately show ?thesis using f(1,3) s by (auto simp: allows_iff)
qed

section \<open>Every response is hardened\<close>

definition has_header :: "headers \<Rightarrow> pystr \<Rightarrow> bool" where
  "has_header hs name \<longleftrightarrow> list_ex (\<lambda>(n, _). lower n = lower name) hs"

lemma header_default_has [simp]: "has_header (header_default name value hs) other \<longleftrightarrow> has_header hs other \<or> lower other = lower name"
  by (force simp: has_header_def header_default_def list_ex_iff)

lemma header_default_keeps: "\<exists>more. hs' = hs @ more \<Longrightarrow> \<exists>more. header_default name value hs' = hs @ more"
  by (auto simp: header_default_def)

lemma security_headers_keeps: "\<exists>more. security_headers path scheme hs = hs @ more"
  unfolding security_headers_def Let_def by (cases "startswith path (u ''/api/'')"; cases "scheme = u ''https''") (simp_all, (rule header_default_keeps, simp?)+)

text \<open>Whatever a route sets, the answer names a content policy and forbids framing and sniffing, answers of the API are not stored,
  and over HTTPS transport security is on; headers the route has set itself are kept.\<close>

theorem responses_hardened:
  "list_all (has_header (security_headers path scheme hs))
     [u ''X-Content-Type-Options'', u ''X-Frame-Options'', u ''Referrer-Policy'', u ''Cross-Origin-Opener-Policy'', u ''Permissions-Policy'',
      u ''Content-Security-Policy''] \<and>
   (startswith path (u ''/api/'') \<longrightarrow> has_header (security_headers path scheme hs) (u ''Cache-Control'')) \<and>
   (scheme = u ''https'' \<longrightarrow> has_header (security_headers path scheme hs) (u ''Strict-Transport-Security'')) \<and>
   (\<exists>more. security_headers path scheme hs = hs @ more)"
  using security_headers_keeps by (simp add: security_headers_def Let_def)

text \<open>Every page has its own path.\<close>

lemma page_paths_distinct: "distinct (map pg_path PAGES)"
  by (simp add: PAGES_def NAV_def ACCOUNT_def mk_page_def)

end
