(* ===== verification/Metrics.thy ===== *)
theory Metrics
  imports Identity "HOL-Library.List_Lexorder"
begin

text \<open>
  The registry of \<open>naco/core/metrics.py\<close>.  Sample values are floats there; here they are of any ordered type with addition,
  and how a number is written (\<open>:g\<close>) is a parameter.  A dictionary is its list of items in the order of insertion.
\<close>

section \<open>Labels\<close>

text \<open>\<open>_escape\<close>: three replacements, one after the other.\<close>

definition escape_label :: "pystr \<Rightarrow> pystr" where
  "escape_label v = replace_all [10] [92, 110] (replace_all [34] [92, 34] (replace_all [92] [92, 92] v))"

definition label_text :: "pystr list \<Rightarrow> pystr list \<Rightarrow> pystr \<Rightarrow> pystr" where
  "label_text names values extra =
     (let parts = map (\<lambda>(n, v). n @ u ''='' @ [34] @ escape_label v @ [34]) (zip names values) @ (if extra \<noteq> [] then [extra] else [])
      in if parts \<noteq> [] then u ''{'' @ join (u '','') parts @ u ''}'' else [])"

section \<open>Metrics\<close>

record metric_info =
  mi_name :: pystr
  mi_help :: pystr
  mi_labelnames :: "pystr list"

text \<open>\<open>_key\<close>: the labels of a call are a dictionary.\<close>

definition metric_key :: "metric_info \<Rightarrow> (pystr \<times> pystr) list \<Rightarrow> py_exc + pystr list" where
  "metric_key m labels =
     (if set (map fst labels) \<noteq> set (mi_labelnames m) then Inl (ValueError (mi_name m @ u '': expected labels''))
      else Inr (map (\<lambda>n. the (map_of labels n)) (mi_labelnames m)))"

record 'n samples = metric_info +
  sm_values :: "(pystr list \<times> 'n) list"

definition sample_get :: "('n :: zero) samples \<Rightarrow> pystr list \<Rightarrow> 'n" where
  "sample_get m key = (case od_get (sm_values m) key of None \<Rightarrow> 0 | Some v \<Rightarrow> v)"

definition counter_inc :: "('n :: {zero, plus}) \<Rightarrow> (pystr \<times> pystr) list \<Rightarrow> 'n samples \<Rightarrow> py_exc + 'n samples" where
  "counter_inc amount labels m =
     rbind (metric_key (metric_info.truncate m) labels) (\<lambda>key. Inr (m\<lparr>sm_values := od_set (sm_values m) key (sample_get m key + amount)\<rparr>))"

definition gauge_set :: "'n \<Rightarrow> (pystr \<times> pystr) list \<Rightarrow> 'n samples \<Rightarrow> py_exc + 'n samples" where
  "gauge_set v labels m = rbind (metric_key (metric_info.truncate m) labels) (\<lambda>key. Inr (m\<lparr>sm_values := od_set (sm_values m) key v\<rparr>))"

definition sample_value :: "(pystr \<times> pystr) list \<Rightarrow> ('n :: zero) samples \<Rightarrow> py_exc + 'n" where
  "sample_value labels m = rbind (metric_key (metric_info.truncate m) labels) (\<lambda>key. Inr (sample_get m key))"

definition render_samples :: "('n \<Rightarrow> pystr) \<Rightarrow> 'n samples \<Rightarrow> pystr list" where
  "render_samples fmt m =
     map (\<lambda>(k, v). mi_name m @ label_text (mi_labelnames m) k [] @ u '' '' @ fmt v) (sort_key fst (sm_values m))"

section \<open>Histograms\<close>

record 'n hist_data =
  hd_counts :: "nat list"
  hd_total :: 'n
  hd_n :: nat

record 'n histogram = metric_info +
  hs_buckets :: "'n list"
  hs_data :: "(pystr list \<times> 'n hist_data) list"

definition Histogram_init :: "pystr \<Rightarrow> pystr \<Rightarrow> pystr list \<Rightarrow> ('n :: linorder) list \<Rightarrow> 'n histogram" where
  "Histogram_init name help labelnames buckets =
     \<lparr>mi_name = name, mi_help = help, mi_labelnames = labelnames, hs_buckets = sort buckets, hs_data = []\<rparr>"

definition observe_data :: "('n :: {linorder, plus}) list \<Rightarrow> 'n \<Rightarrow> 'n hist_data \<Rightarrow> 'n hist_data" where
  "observe_data buckets v h =
     \<lparr>hd_counts = map2 (\<lambda>bound c. if v \<le> bound then Suc c else c) buckets (hd_counts h), hd_total = hd_total h + v, hd_n = Suc (hd_n h)\<rparr>"

definition empty_data :: "('n :: zero) list \<Rightarrow> 'n hist_data" where
  "empty_data buckets = \<lparr>hd_counts = replicate (length buckets) 0, hd_total = 0, hd_n = 0\<rparr>"

definition observe :: "('n :: {linorder, plus, zero}) \<Rightarrow> (pystr \<times> pystr) list \<Rightarrow> 'n histogram \<Rightarrow> py_exc + 'n histogram" where
  "observe v labels m =
     rbind (metric_key (metric_info.truncate m) labels) (\<lambda>key.
       let h = (case od_get (hs_data m) key of None \<Rightarrow> empty_data (hs_buckets m) | Some h \<Rightarrow> h)
       in Inr (m\<lparr>hs_data := od_set (hs_data m) key (observe_data (hs_buckets m) v h)\<rparr>))"

definition render_histogram :: "('n \<Rightarrow> pystr) \<Rightarrow> 'n histogram \<Rightarrow> pystr list" where
  "render_histogram fmt m =
     concat (map (\<lambda>(key, h).
       map (\<lambda>(bound, c). mi_name m @ u ''_bucket'' @ label_text (mi_labelnames m) key (u ''le='' @ [34] @ fmt bound @ [34]) @ u '' '' @ dec c)
         (zip (hs_buckets m) (hd_counts h)) @
       [mi_name m @ u ''_bucket'' @ label_text (mi_labelnames m) key (u ''le='' @ [34] @ u ''+Inf'' @ [34]) @ u '' '' @ dec (hd_n h),
        mi_name m @ u ''_sum'' @ label_text (mi_labelnames m) key [] @ u '' '' @ fmt (hd_total h),
        mi_name m @ u ''_count'' @ label_text (mi_labelnames m) key [] @ u '' '' @ dec (hd_n h)])
       (sort_key fst (hs_data m)))"

section \<open>The registry\<close>

datatype 'n metric = Counter "'n samples" | Gauge "'n samples" | Histogram "'n histogram"

fun metric_meta :: "'n metric \<Rightarrow> metric_info" where
  "metric_meta (Counter m) = metric_info.truncate m"
| "metric_meta (Gauge m) = metric_info.truncate m"
| "metric_meta (Histogram m) = metric_info.truncate m"

fun metric_kind :: "'n metric \<Rightarrow> pystr" where
  "metric_kind (Counter _) = u ''counter''"
| "metric_kind (Gauge _) = u ''gauge''"
| "metric_kind (Histogram _) = u ''histogram''"

fun render_metric :: "('n \<Rightarrow> pystr) \<Rightarrow> 'n metric \<Rightarrow> pystr list" where
  "render_metric fmt (Counter m) = render_samples fmt m"
| "render_metric fmt (Gauge m) = render_samples fmt m"
| "render_metric fmt (Histogram m) = render_histogram fmt m"

definition metric_header :: "'n metric \<Rightarrow> pystr list" where
  "metric_header m =
     [u ''# HELP '' @ mi_name (metric_meta m) @ u '' '' @ mi_help (metric_meta m), u ''# TYPE '' @ mi_name (metric_meta m) @ u '' '' @ metric_kind m]"

definition registry_add :: "'n metric \<Rightarrow> 'n metric list \<Rightarrow> py_exc + 'n metric list" where
  "registry_add m reg =
     (if mi_name (metric_meta m) \<in> set (map (mi_name \<circ> metric_meta) reg) then Inl (ValueError (u ''metric '' @ mi_name (metric_meta m) @ u '' already registered''))
      else Inr (reg @ [m]))"

definition registry_lines :: "('n \<Rightarrow> pystr) \<Rightarrow> 'n metric list \<Rightarrow> pystr list" where
  "registry_lines fmt reg = concat (map (\<lambda>m. metric_header m @ render_metric fmt m) reg)"

definition registry_render :: "('n \<Rightarrow> pystr) \<Rightarrow> 'n metric list \<Rightarrow> pystr" where
  "registry_render fmt reg = join [10] (registry_lines fmt reg) @ [10]"

section \<open>One line per sample, whatever the labels are\<close>

lemma replace_char: "replace_all [c] new s = concat (map (\<lambda>x. if x = c then new else [x]) s)"
  by (induction s) (auto simp: startswith_def)

lemma escape_label_chars:
  "escape_label v = concat (map (\<lambda>c. if c = 92 then [92, 92] else if c = 34 then [92, 34] else if c = 10 then [92, 110] else [c]) v)"
  unfolding escape_label_def replace_char by (induction v) auto

lemma escape_label_line: "10 \<notin> set (escape_label v)"
  by (auto simp: escape_label_chars split: if_splits)

lemma join_line: "10 \<notin> set sep \<Longrightarrow> \<forall>w\<in>set ws. 10 \<notin> set w \<Longrightarrow> 10 \<notin> set (join sep ws)"
  by (induction sep ws rule: join.induct) auto

definition plain_line :: "pystr \<Rightarrow> bool" where
  "plain_line s \<longleftrightarrow> 10 \<notin> set s"

lemma plain_line_simps [simp]:
  "plain_line (a @ b) \<longleftrightarrow> plain_line a \<and> plain_line b" "plain_line []" "plain_line (c # s) \<longleftrightarrow> c \<noteq> 10 \<and> plain_line s" "plain_line (escape_label v)"
  "plain_line (dec n)"
  using dec_digits [of 10 n] by (auto simp: plain_line_def escape_label_line is_digit_def)

lemma plain_line_u: "plain_line (u s) \<longleftrightarrow> CHR 0x0A \<notin> set s"
  using inj_image_mem_iff [OF inj_of_char [where ?'a = nat], of "CHR 0x0A" "set s"] by (simp add: plain_line_def u_def)

lemma plain_line_join: "plain_line sep \<Longrightarrow> list_all plain_line ws \<Longrightarrow> plain_line (join sep ws)"
  by (induction sep ws rule: join.induct) auto

lemma label_text_line:
  assumes "list_all plain_line names" "plain_line extra"
  shows "plain_line (label_text names values extra)"
proof -
  have "list_all plain_line (map (\<lambda>(n, v). n @ u ''='' @ [34] @ escape_label v @ [34]) (zip names values) @ (if extra \<noteq> [] then [extra] else []))"
    using assms by (auto simp: list_all_iff plain_line_u dest: set_zip_leftD)
  then show ?thesis by (simp add: label_text_def Let_def plain_line_u plain_line_join)
qed

definition metric_plain :: "metric_info \<Rightarrow> bool" where
  "metric_plain m \<longleftrightarrow> plain_line (mi_name m) \<and> plain_line (mi_help m) \<and> list_all plain_line (mi_labelnames m)"

lemma render_metric_lines:
  assumes "metric_plain (metric_meta m)" "\<And>x. plain_line (fmt x)"
  shows "list_all plain_line (metric_header m @ render_metric fmt m)"
proof -
  have "list_all plain_line (render_samples fmt s)" if "metric_plain (metric_info.truncate s)" for s
    using that assms(2) by (auto simp: render_samples_def list_all_iff metric_plain_def metric_info.defs plain_line_u intro!: label_text_line)
  moreover have "list_all plain_line (render_histogram fmt h)" if "metric_plain (metric_info.truncate h)" for h
    using that assms(2) by (auto simp: render_histogram_def list_all_iff metric_plain_def metric_info.defs plain_line_u intro!: label_text_line)
  ultimately show ?thesis
    using assms(1) by (cases m) (auto simp: metric_header_def metric_plain_def plain_line_u)
qed

lemma split_lines: "list_all plain_line ws \<Longrightarrow> ws \<noteq> [] \<Longrightarrow> split1 10 (join [10] ws @ [10]) = ws @ [[]]"
proof (induction ws)
  case (Cons w ws)
  then show ?case by (cases ws) (auto simp: plain_line_def split1_append_sep)
qed simp

text \<open>The page has one line for every sample: label values, which may come from the network, cannot add lines.\<close>

theorem metrics_page_lines:
  assumes "\<forall>m\<in>set reg. metric_plain (metric_meta m)" "\<And>x. plain_line (fmt x)" "reg \<noteq> []"
  shows "split1 10 (registry_render fmt reg) = registry_lines fmt reg @ [[]]"
proof -
  have "list_all plain_line (registry_lines fmt reg)"
    using render_metric_lines [OF _ assms(2)] assms(1) by (fastforce simp: registry_lines_def list_all_iff)
  moreover have "registry_lines fmt reg \<noteq> []" using assms(3) by (cases reg) (auto simp: registry_lines_def metric_header_def)
  ultimately show ?thesis by (simp add: registry_render_def split_lines)
qed

section \<open>What a histogram counts\<close>

text \<open>After a sequence of observations of one key, each bucket holds the number of those within its bound, and the buckets never
  decrease.\<close>

theorem histogram_counts:
  assumes "sorted buckets"
  shows "hd_counts (foldl (\<lambda>h v. observe_data buckets v h) (empty_data buckets) vs) = map (\<lambda>b. length (filter (\<lambda>v. v \<le> b) vs)) buckets \<and>
    hd_n (foldl (\<lambda>h v. observe_data buckets v h) (empty_data buckets) vs) = length vs \<and>
    sorted (hd_counts (foldl (\<lambda>h v. observe_data buckets v h) (empty_data buckets) vs))"
proof -
  have c: "hd_counts (foldl (\<lambda>h v. observe_data buckets v h) (empty_data buckets) vs) = map (\<lambda>b. length (filter (\<lambda>v. v \<le> b) vs)) buckets \<and>
    hd_n (foldl (\<lambda>h v. observe_data buckets v h) (empty_data buckets) vs) = length vs"
  proof (induction vs rule: rev_induct)
    case Nil
    then show ?case by (simp add: empty_data_def map_replicate_const)
  next
    case (snoc v vs)
    then show ?case by (auto simp: observe_data_def zip_map2 comp_def intro!: nth_equalityI)
  qed
  have "length (filter (\<lambda>v. v \<le> a) vs) \<le> length (filter (\<lambda>v. v \<le> b) vs)" if "a \<le> b" for a b
    using that by (induction vs) auto
  then have "sorted (map (\<lambda>b. length (filter (\<lambda>v. v \<le> b) vs)) buckets)"
    using assms by (simp add: sorted_iff_nth_mono)
  with c show ?thesis by simp
qed

end
