(* ===== verification/Spec2Isabelle.thy ===== *)
theory Spec2Isabelle
  imports AaaApp TacacsSafety AdminSafety NacoCtl PoliciesApi NetworkApi Configuration Overview WebPages Metrics
begin

text \<open>
  \<^bold>\<open>NACo\<close> is a network access controller: FreeRADIUS asks it whether a user or a device may use the network,
  network equipment asks it over TACACS+ who may administer it, administrators manage it over a web API, and
  guests register themselves in a portal.  This development models its Python code under \<open>src/naco\<close> and
  proves what makes it correct.

  \<^bold>\<open>The parts and how they interact.\<close>  All parts share one SQLite database.  FreeRADIUS posts each request to the
  internal API, which hands it to the AAA service; the service finds the client, the user and the device, asks
  the policy engine, logs the decision and publishes an event; accounting requests keep the table of live
  sessions.  The TACACS+ server authenticates against the same users and authorizes commands by the command sets of
  their groups.  The administration API changes users, groups, policies, clients, devices and administrators, each
  change with a row of the audit trail; a change that may alter a decision schedules re-evaluation, which
  decides the live sessions again and disconnects those whose decision is another one now.  Housekeeping removes old
  rows and notices guests that expired; the event bus feeds the live stream of the console.

  \<^bold>\<open>Theories, in the order of their dependencies.\<close>
  \<^item> \<open>Prelude\<close>: text as lists of code points, results that may be an exception, insertion-ordered dictionaries, the
    \<open>named_theorems\<close> collections, and the locale \<open>first_match\<close>: a list is searched for the first entry that
    matches.  Its instances are the policies (\<open>Engine\<close>), the client networks (\<open>Clients\<close>), the directory groups
    (\<open>Identity\<close>) and the rules of a command set (\<open>TacacsAuthz\<close>).
  \<^item> \<open>Glob\<close>, \<open>IpAddr\<close>, \<open>NetUtils\<close>: \<open>fnmatchcase\<close>, \<open>ipaddress\<close>, \<open>core/netutils.py\<close>, \<open>core/oui.py\<close>.
  \<^item> \<open>RateLimit\<close>, \<open>GuessDelay\<close>: \<open>core/ratelimit.py\<close>; the window refines a specification over the history of hits, the
    locale \<open>delay_store\<close> is the interface of a table of failures.
  \<^item> \<open>Models\<close>: the enumerations and tables of \<open>db/models.py\<close> as records, rows in the order of their keys; reading,
    changing and deleting by primary key.
  \<^item> \<open>Conditions\<close>, \<open>Attributes\<close>, \<open>Engine\<close>: \<open>policy/\<close>; the first enabled policy that matches decides, and one that
    does not compile denies everything.
  \<^item> \<open>Clients\<close>: \<open>radius/clients.py\<close>, a longest-prefix match.
  \<^item> \<open>Bytes\<close>, \<open>Hashes\<close>, \<open>Digest\<close>: UTF-8, \<open>struct\<close>, MD5, SHA-256 and HMAC over words, and the digest of a decision.
  \<^item> \<open>Passwords\<close>, \<open>Identity\<close>: \<open>core/passwords.py\<close>, \<open>auth/ldap.py\<close>, \<open>auth/identity.py\<close>.
  \<^item> \<open>Rlm\<close>, \<open>Service\<close>, \<open>ServiceSafety\<close>, \<open>AaaApp\<close>: \<open>aaa/rlm.py\<close>, \<open>aaa/subject.py\<close>, \<open>aaa/service.py\<close>, \<open>aaa/app.py\<close>.  The
    state is the record \<open>aaa_state\<close>; \<open>authenticate\<close>, \<open>authorize\<close> and \<open>accounting\<close> are the handlers, \<open>aaa_reach\<close>
    the states they reach.  Shown: whom \<open>authorize\<close> accepts and that the decision is the engine's for exactly
    this request, that a password method needs a recent verification, what the session table holds after
    each accounting request, and what FreeRADIUS is told.
  \<^item> \<open>TacacsProtocol\<close>, \<open>TacacsAuthz\<close>, \<open>TacacsServer\<close>, \<open>TacacsSafety\<close>: \<open>tacacs/\<close>; round trips of packets (locale
    \<open>pseudo_pad\<close>), who gets PASS, which commands run, and the connection limits in every interleaving.
  \<^item> \<open>Coa\<close>, \<open>Reevaluate\<close>: \<open>radius/coa.py\<close>, \<open>radius/vendors.py\<close>, \<open>radius/reevaluate.py\<close>; an acknowledgement is
    authentic, and re-evaluation agrees with \<open>authorize\<close>.
  \<^item> \<open>AdminSessions\<close>, \<open>AuditTrail\<close>, \<open>AdminAuth\<close>, \<open>AdminSafety\<close>: \<open>api/sessions.py\<close>, \<open>api/deps.py\<close>, \<open>api/errors.py\<close>,
    \<open>api/audit.py\<close>, \<open>api/common.py\<close>, \<open>api/totp.py\<close>, \<open>api/routes/auth.py\<close>; who passes the gate, what a sign-in needs,
    codes that work once, sessions that stay ended.
  \<^item> \<open>UsersApi\<close>, \<open>PoliciesApi\<close>, \<open>AdminsApi\<close>, \<open>NetworkApi\<close>, \<open>DevicesApi\<close>, \<open>Csv\<close>, \<open>CsvTransfer\<close>: the routes of \<open>api/routes/\<close>
    and Python's \<open>csv\<close>; privileges, invariants of the stored rows, the audit trail, secrets that do not leak,
    exports that are safe.
  \<^item> \<open>Portal\<close>, \<open>Lifecycle\<close>, \<open>Vault\<close>, \<open>NacoCtl\<close>, \<open>Configuration\<close>: \<open>portal/app.py\<close>, \<open>maintenance.py\<close> and \<open>bootstrap.py\<close>,
    \<open>core/secrets.py\<close> and \<open>db/types.py\<close>, \<open>cli.py\<close>, \<open>config.py\<close>.
  \<^item> \<open>Overview\<close>, \<open>WebPages\<close>, \<open>Metrics\<close>: \<open>core/events.py\<close> and \<open>api/routes/overview.py\<close>, \<open>web/pages.py\<close> and \<open>web/security.py\<close>,
    \<open>core/metrics.py\<close>.
  \<^item> This theory: rotating the master key, then starting with the new one (\<open>NacoCtl\<close> and \<open>Vault\<close>).

  \<^bold>\<open>How code becomes definitions.\<close>  A handler takes the state and returns the new state with a result or the exception
  that left it; an HTTP error is a value of \<open>api_exc\<close>.  Strings are lists of code points, bytes are \<open>8 word\<close> lists,
  Python integers are \<open>int\<close>, and where a column cannot hold one the exception of SQLite is a branch.  A dictionary
  whose order matters is an \<open>odict\<close>.  Times are integers of microseconds, read once per request.  Every
  transaction starts with \<open>BEGIN IMMEDIATE\<close> (\<open>db/engine.py\<close>), so it is one step; between two transactions of a
  request, while a password is hashed or the directory is asked, other requests may commit anything:
  \<open>ev_meanwhile\<close> and \<open>ae_meanwhile\<close> are arbitrary functions on the state.  No definition needs fuel: loops are
  structural or have a measure (deletion in chunks shrinks the table), and the retransmissions of a
  disconnection are bounded by their count.

  \<^bold>\<open>Parameters.\<close>  What is not in \<open>src\<close> is an argument: bcrypt, ldap3, pyotp, AES-GCM, the JSON and YAML parsers and
  the coercions of pydantic, the FreeRADIUS dictionary, the IEEE table of vendors, the time zone, how a float is
  written, the random bytes and the network.  What the code relies on is a named hypothesis with an instance
  (\<open>aead_ok\<close> for AES-GCM).

  \<^bold>\<open>Bounds of the model.\<close>  Lower and upper case follow Latin-1; \<open>isdigit\<close> is the table of Unicode 14; the csv module
  refuses fields over 131072 characters; one reading of each clock stands for several calls within a request.

  \<^bold>\<open>Not modelled.\<close>  HTML templates and static files, the registration of routes and the start and stop of servers
  (\<open>main.py\<close>, \<open>api/router.py\<close>, \<open>api/routes/health.py\<close>), the engine's pragmas and the migrations, logging, backup and
  restore of files in \<open>cli.py\<close>, the read-only system page: they are input and output, or hold no state of the
  program.  Texts of pydantic's own messages are left out.
\<close>

section \<open>Key rotation and restart\<close>

lemma load_secrets_key:
  assumes "load_secrets env files dev = Inr s" "read_secret env files ''NACO_MASTER_KEY'' = Inr (Some m)" "m \<noteq> []"
  shows "parse_master_key m = Inr (se_master_key s)"
  using assms by (auto simp: load_secrets_def Let_def rbind_eq_Inr load_master_key_def truthy_def)

lemma parse_master_key_strip: "parse_master_key (strip m) = parse_master_key m"
  by (simp add: parse_master_key_def)

lemma parse_master_key_nonempty: "parse_master_key m = Inr k \<Longrightarrow> strip m \<noteq> []"
  by (auto simp: parse_master_key_def b64decode_def urlsafe_b64decode_def b64_start_def map_filter_simps)

text \<open>C35. When the old key reads every stored secret, \<open>nacoctl rotate-master-key\<close> goes through, and a process that is then started
  with the new key in its environment reads exactly the database that was there before, with the rotation in its audit
  trail.\<close>

theorem rotation_then_restart:
  assumes "aead_ok lib" "\<forall>k. length (nonces k) = 12" "parse_master_key material = Inr new" "new \<noteq> old" "store_loads lib old store d"
    "distinct (map au_id (admin_users d))" "distinct (map nas_id (nas_clients d))" "distinct (map tc_id (tacacs_clients d))"
    "read_secret env files ''NACO_MASTER_KEY'' = Inr (Some (strip material))" "load_secrets env files dev = Inr s"
  shows "\<exists>n store' d'. rotate_master_key lib user old material nonces now (store, d) = (Inr n, store', d') \<and>
    store_loads lib (se_master_key s) store' d' \<and> (\<exists>row. d' = audit_add row d \<and> aud_action row = u ''system.master_key_rotated'')"
proof -
  have "parse_master_key (strip material) = Inr (se_master_key s)"
    by (rule load_secrets_key [OF assms(10,9) parse_master_key_nonempty [OF assms(3)]])
  then have "se_master_key s = new" using assms(3) by (simp add: parse_master_key_strip)
  with rotation_keeps_secrets [OF assms(1-8), of user now] show ?thesis by blast
qed

theorem rotation_then_restart_witness:
  "\<exists>s store' d'. load_secrets lab_environ (\<lambda>_. None) None = Inr s \<and>
     rotate_master_key lab_aead None [] (b64encode (replicate 32 7)) (\<lambda>_. replicate 12 0) 0 (lab_store, lab_stored_db) = (Inr 1, store', d') \<and>
     store_loads lab_aead (se_master_key s) store' d'"
proof -
  obtain s where s: "load_secrets lab_environ (\<lambda>_. None) None = Inr s" using lab_environ_loads by blast
  have n: "sum_list (map (\<lambda>col. length (not_null (lab_store col))) ENCRYPTED_COLUMNS) = 1"
    by (simp add: ENCRYPTED_COLUMNS_def lab_store_def not_null_def u_def map_filter_simps)
  have h: "\<forall>k. length ((\<lambda>_. replicate 12 0 :: bytes) (k :: nat)) = 12" "parse_master_key (b64encode (replicate 32 7)) = Inr (replicate 32 7)"
    "replicate 32 (7 :: 8 word) \<noteq> []" "distinct (map au_id (admin_users lab_stored_db))" "distinct (map nas_id (nas_clients lab_stored_db))"
    "distinct (map tc_id (tacacs_clients lab_stored_db))"
    "read_secret lab_environ (\<lambda>_. None) ''NACO_MASTER_KEY'' = Inr (Some (strip (b64encode (replicate 32 7))))"
    using master_key_round_trip [of "replicate 32 7"] lab_environ_key by (simp_all add: lab_stored_db_def empty_db_def b64encode_no_space)
  from rotation_then_restart [OF lab_aead_ok h(1,2,3) lab_store_loads h(4-7) s, of None 0] s
    rotation_keeps_secrets [OF lab_aead_ok h(1,2,3) lab_store_loads h(4-6), of None 0]
  show ?thesis unfolding n by fastforce
qed

end
